(* ===== verification/Prelude.thy ===== *)
theory Prelude
  imports Complex_Main "HOL-Library.Word" "HOL-Library.AList"
begin

text \<open>
  Shared vocabulary of the development: the machine types of the Go sources, results of
  fallible operations, and the generic lemmas on lists, slices, maps and sums that the
  component theories rely on. A Go slice expression \<open>xs[a:b]\<close> is \<open>slice a b xs\<close>.

  The named collections are used as follows: \<open>codec_simps\<close> holds the length and decoding
  facts of the fixed-width layouts, \<open>wal_frame\<close> the facts that say which fields an
  operation of the write-ahead log leaves alone.
\<close>

named_theorems codec_simps
named_theorems wal_frame

section \<open>Machine types and results\<close>

type_synonym byte = "8 word"
type_synonym bytes = "8 word list"
type_synonym u16 = "16 word"
type_synonym u32 = "32 word"
type_synonym u64 = "64 word"

section \<open>Slices\<close>

definition slice :: "nat \<Rightarrow> nat \<Rightarrow> 'a list \<Rightarrow> 'a list" where
  "slice a b xs = take (b - a) (drop a xs)"

lemma length_slice [simp]: "length (slice a b xs) = min (b - a) (length xs - a)"
  by (simp add: slice_def)

lemma slice_append_left: "b \<le> length xs \<Longrightarrow> slice a b (xs @ ys) = slice a b xs"
  by (simp add: slice_def)

lemma slice_append_right:
  "length xs \<le> a \<Longrightarrow> slice a b (xs @ ys) = slice (a - length xs) (b - length xs) ys"
  by (simp add: slice_def)

lemma slice_whole: "length xs = n \<Longrightarrow> slice 0 n xs = xs"
  by (simp add: slice_def)

lemma slice_zero: "slice 0 n xs = take n xs"
  by (simp add: slice_def)

lemma slice_prefix_append: "length xs = n \<Longrightarrow> slice 0 n (xs @ ys) = xs"
  by (simp add: slice_def)

lemma slice_mid:
  "a = length pre \<Longrightarrow> b = length pre + length xs \<Longrightarrow> slice a b (pre @ xs @ post) = xs"
  by (simp add: slice_def)

lemma slice_prefix_take: "b \<le> n \<Longrightarrow> slice a b (take n xs) = slice a b xs"
  by (simp add: slice_def drop_take min_def)

lemma take_take_prefix: "n \<le> m \<Longrightarrow> take n (take m xs) = take n xs"
  by (simp add: min_def)

section \<open>Sortedness and selection\<close>

lemma sorted_map_append_max:
  fixes xs :: "'a::linorder list"
  shows "sorted xs \<Longrightarrow> \<forall>x\<in>set xs. x \<le> y \<Longrightarrow> sorted (xs @ [y])"
  by (simp add: sorted_append)

lemma strict_sorted_snoc:
  fixes xs :: "'a::linorder list"
  shows "sorted_wrt (<) xs \<Longrightarrow> \<forall>x\<in>set xs. x < y \<Longrightarrow> sorted_wrt (<) (xs @ [y])"
  by (simp add: sorted_wrt_append)

lemma strict_sorted_filter:
  "sorted_wrt (<) xs \<Longrightarrow> sorted_wrt (<) (filter P xs)"
  by (rule sorted_wrt_filter)

section \<open>Finite maps keyed by machine words\<close>

lemma finite_dom_word [simp]: "finite (dom (m :: ('a::len word) \<rightharpoonup> 'b))"
  by (rule finite_subset [OF subset_UNIV]) simp

lemma finite_set_word [simp]: "finite (S :: ('a::len word) set)"
  by (rule finite_subset [OF subset_UNIV]) simp

lemma word_less_plus_1: "n \<noteq> - 1 \<Longrightarrow> n < n + 1" for n :: "'a::len word"
proof -
  assume "n \<noteq> - 1"
  then have "1 + n \<noteq> 0" by (metis add.commute eq_neg_iff_add_eq_0)
  then have "unat (1 + n) = Suc (unat n)" by (rule unatSuc)
  then show "n < n + 1" by (simp add: word_less_nat_alt add.commute)
qed

text \<open>Sums over the values of a map: the effect of an insertion and of a deletion.\<close>

definition map_sum :: "('k \<Rightarrow> 'v \<Rightarrow> 'a::comm_monoid_add) \<Rightarrow> ('k \<rightharpoonup> 'v) \<Rightarrow> 'a" where
  "map_sum f m = (\<Sum>k\<in>dom m. f k (the (m k)))"

lemma map_sum_empty [simp]: "map_sum f Map.empty = 0"
  by (simp add: map_sum_def)

lemma map_sum_insert:
  assumes "finite (dom m)" "m k = None"
  shows "map_sum f (m(k \<mapsto> v)) = f k v + map_sum f m"
proof -
  have "k \<notin> dom m" using assms(2) by (simp add: domIff)
  then have "(\<Sum>x\<in>dom m. f x (the ((m(k \<mapsto> v)) x))) = (\<Sum>x\<in>dom m. f x (the (m x)))"
    by (intro sum.cong) auto
  then show ?thesis
    using assms \<open>k \<notin> dom m\<close> by (simp add: map_sum_def sum.insert)
qed

lemma map_sum_delete:
  assumes "finite (dom m)" "m k = Some v"
  shows "map_sum f m = f k v + map_sum f (m(k := None))"
proof -
  have "m = (m(k := None))(k \<mapsto> v)" using assms(2) by (auto simp: fun_eq_iff)
  then have "map_sum f m = map_sum f ((m(k := None))(k \<mapsto> v))" by simp
  also have "\<dots> = f k v + map_sum f (m(k := None))"
    using assms(1) by (intro map_sum_insert) auto
  finally show ?thesis .
qed

lemma map_sum_update:
  assumes "finite (dom m)" "m k = Some v"
  shows "map_sum f (m(k \<mapsto> v')) + f k v = map_sum f m + (f k v' :: 'a::ab_group_add)"
proof -
  have "(m(k := None))(k \<mapsto> v') = m(k \<mapsto> v')" by simp
  then have "map_sum f (m(k \<mapsto> v')) = f k v' + map_sum f (m(k := None))"
    using map_sum_insert [of "m(k := None)" k f v'] assms(1) by simp
  moreover have "map_sum f m = f k v + map_sum f (m(k := None))"
    using map_sum_delete [OF assms] .
  ultimately show ?thesis by (simp add: algebra_simps)
qed

text \<open>The measure of a search that marks what it has visited.\<close>

lemma filter_smaller:
  "x \<in> set xs \<Longrightarrow> x \<notin> set ys \<Longrightarrow>
    length (List.filter (\<lambda>z. z \<notin> set (x # ys)) xs) < length (List.filter (\<lambda>z. z \<notin> set ys) xs)"
proof (induction xs)
  case (Cons a xs)
  have le: "length (List.filter (\<lambda>z. z \<notin> set (x # ys)) xs) \<le> length (List.filter (\<lambda>z. z \<notin> set ys) xs)" for xs
    by (induction xs) auto
  show ?case
  proof (cases "a = x")
    case True
    then show ?thesis using le [of xs] Cons.prems(2) by simp
  next
    case False
    then show ?thesis using Cons by auto
  qed
qed simp

section \<open>Go maps with string keys\<close>

text \<open>
  A Go \<open>map[string]T\<close> that the code iterates over is an association list with distinct
  keys; iteration order is the list's, and no property depends on it. Lookup is \<open>map_of\<close>,
  assignment \<open>AList.update\<close>, \<open>delete\<close> is \<open>AList.delete\<close> and \<open>len\<close> is \<open>length\<close>.
\<close>

type_synonym 'v gomap = "(string \<times> 'v) list"

abbreviation keys :: "('k \<times> 'v) list \<Rightarrow> 'k list" where
  "keys m \<equiv> List.map fst m"

lemma map_of_alist_update [simp]:
  "map_of (AList.update k v m) k' = (if k' = k then Some v else map_of m k')"
  by (simp add: update_conv')

lemma map_of_alist_delete [simp]:
  "map_of (AList.delete k m) k' = (if k' = k then None else map_of m k')"
  by (simp add: delete_conv')

lemma distinct_keys_update [simp]:
  "distinct (keys m) \<Longrightarrow> distinct (keys (AList.update k v m))"
  by (rule distinct_update)

lemma distinct_keys_delete [simp]:
  "distinct (keys m) \<Longrightarrow> distinct (keys (AList.delete k m))"
  by (rule distinct_delete)

text \<open>A map with distinct keys all of whose entries satisfy a predicate.\<close>

definition all_entries :: "('k \<Rightarrow> 'v \<Rightarrow> bool) \<Rightarrow> ('k \<times> 'v) list \<Rightarrow> bool" where
  "all_entries P m \<longleftrightarrow> distinct (keys m) \<and> (\<forall>k v. map_of m k = Some v \<longrightarrow> P k v)"

lemma entries_Nil [simp]: "all_entries P []"
  by (simp add: all_entries_def)

lemma entries_distinct: "all_entries P m \<Longrightarrow> distinct (keys m)"
  by (simp add: all_entries_def)

lemma entriesD: "all_entries P m \<Longrightarrow> map_of m k = Some v \<Longrightarrow> P k v"
  unfolding all_entries_def by blast

lemma entries_update: "all_entries P m \<Longrightarrow> P k v \<Longrightarrow> all_entries P (AList.update k v m)"
  unfolding all_entries_def by (simp only: distinct_keys_update map_of_alist_update) auto

lemma entries_delete: "all_entries P m \<Longrightarrow> all_entries P (AList.delete k m)"
  unfolding all_entries_def by (simp only: distinct_keys_delete map_of_alist_delete) auto

lemma entries_mono: "all_entries P m \<Longrightarrow> (\<And>k v. map_of m k = Some v \<Longrightarrow> P k v \<Longrightarrow> Q k v) \<Longrightarrow> all_entries Q m"
  unfolding all_entries_def by blast

lemma update_same: "map_of m k = Some v \<Longrightarrow> AList.update k v m = m"
  by (induction m) (auto split: if_splits)

lemma length_update_known: "map_of m k \<noteq> None \<Longrightarrow> length (AList.update k v m) = length m"
  by (induction m) (auto split: if_splits)

lemma length_update_new: "map_of m k = None \<Longrightarrow> length (AList.update k v m) = Suc (length m)"
  by (induction m) (auto split: if_splits)

lemma length_delete_known:
  "distinct (keys m) \<Longrightarrow> map_of m k \<noteq> None \<Longrightarrow> Suc (length (AList.delete k m)) = length m"
  by (induction m) (auto, blast)

section \<open>Association lists and folds\<close>

lemma foldl_inv:
  assumes "P a" "\<And>a x. P a \<Longrightarrow> x \<in> set xs \<Longrightarrow> P (f a x)"
  shows "P (foldl f a xs)"
  using assms by (induction xs arbitrary: a) auto

lemma foldl_append_map: "foldl (\<lambda>acc x. acc @ [f x]) acc xs = acc @ List.map f xs"
  by (induction xs arbitrary: acc) auto

lemma map_of_snoc_distinct:
  assumes "k \<notin> fst ` set m"
  shows "map_of (m @ [(k, v)]) = (map_of m)(k \<mapsto> v)"
proof -
  have "map_of m k = None" using assms by (simp add: map_of_eq_None_iff)
  then show ?thesis by (auto simp: map_add_def fun_eq_iff split: option.splits)
qed

end
