(* ===== verification/Go_Lib.thy ===== *)
theory Go_Lib
  imports Prelude "HOL-Library.Char_ord" "HOL-Library.List_Lexorder"
begin

text \<open>
  The parts of the Go standard library that the collector's logic rests on:
  \<open>encoding/binary\<close> (big-endian integers), \<open>hash/crc32\<close> (the IEEE polynomial),
  \<open>sort.Search\<close>, decimal formatting and parsing (\<open>fmt.Sprintf\<close> with \<open>%020d\<close>,
  \<open>strconv.ParseUint\<close>) and the prefix and suffix functions of \<open>strings\<close>.
  A Go string is a list of bytes, a HOL \<open>string\<close>.
\<close>

unbundle bit_operations_syntax

section \<open>encoding/binary: big-endian integers\<close>

text \<open>\<open>binary.BigEndian.PutUintN\<close> and \<open>binary.BigEndian.UintN\<close>, for \<open>n\<close> bytes.\<close>

fun put_uint :: "nat \<Rightarrow> 'a::len word \<Rightarrow> bytes" where
  "put_uint 0 w = []"
| "put_uint (Suc n) w = ucast (drop_bit (8 * n) w) # put_uint n w"

fun get_uint :: "bytes \<Rightarrow> 'a::len word" where
  "get_uint [] = 0"
| "get_uint (b # bs) = push_bit (8 * length bs) (ucast b) OR get_uint bs"

lemma length_put_uint [simp]: "length (put_uint n w) = n"
  by (induction n) simp_all

lemma bit_get_uint_put_uint:
  fixes w :: "'a::len word"
  shows "bit (get_uint (put_uint n w) :: 'a word) i \<longleftrightarrow> i < 8 * n \<and> bit w i"
proof (induction n)
  case 0
  then show ?case by simp
next
  case (Suc n)
  have len: "i < LENGTH('a)" if "bit w i" for i
    using that bit_imp_le_length by blast
  show ?case
    using Suc.IH len [THEN less_imp_diff_less]
    by (auto simp: bit_or_iff bit_push_bit_iff bit_ucast_iff bit_drop_bit_eq dest: len)
qed

lemma get_uint_put_uint [simp]:
  fixes w :: "'a::len word"
  assumes "LENGTH('a) \<le> 8 * n"
  shows "(get_uint (put_uint n w) :: 'a word) = w"
proof (rule bit_word_eqI)
  fix i assume "i < LENGTH('a)"
  then show "bit (get_uint (put_uint n w) :: 'a word) i \<longleftrightarrow> bit w i"
    using assms by (simp add: bit_get_uint_put_uint)
qed

lemma get_uint_bit_bound:
  "bit (get_uint bs :: 'a::len word) i \<Longrightarrow> i < 8 * length bs"
proof (induction bs)
  case Nil
  then show ?case by simp
next
  case (Cons b bs)
  then show ?case
    by (auto simp: bit_or_iff bit_push_bit_iff bit_ucast_iff dest: bit_imp_le_length)
qed

lemma put_uint_drop:
  "(\<And>i. i < 8 * n \<Longrightarrow> i < LENGTH('a) \<Longrightarrow> bit w i = bit v i)
   \<Longrightarrow> put_uint n (w :: 'a::len word) = put_uint n (v :: 'a word)"
proof (induction n)
  case 0
  then show ?case by simp
next
  case (Suc n)
  have "(ucast (drop_bit (8 * n) w) :: 8 word) = ucast (drop_bit (8 * n) v)"
  proof (rule bit_word_eqI)
    fix i assume "i < LENGTH(8)"
    have "bit w (8 * n + i) = bit v (8 * n + i)"
      using Suc.prems [of "8 * n + i"] \<open>i < LENGTH(8)\<close>
      using bit_imp_le_length [of w "8 * n + i"] bit_imp_le_length [of v "8 * n + i"]
      by (cases "8 * n + i < LENGTH('a)") auto
    then show "bit (ucast (drop_bit (8 * n) w) :: 8 word) i
        = bit (ucast (drop_bit (8 * n) v) :: 8 word) i"
      by (simp add: bit_ucast_iff bit_drop_bit_eq)
  qed
  with Suc show ?case by simp
qed

lemma put_uint_get_uint [simp]:
  assumes "8 * length bs \<le> LENGTH('a::len)"
  shows "put_uint (length bs) (get_uint bs :: 'a word) = bs"
  using assms
proof (induction bs)
  case Nil
  then show ?case by simp
next
  case (Cons b bs)
  let ?w = "get_uint (b # bs) :: 'a word"
  have "(ucast (drop_bit (8 * length bs) ?w) :: 8 word) = b"
  proof (rule bit_word_eqI)
    fix i assume "i < LENGTH(8)"
    then show "bit (ucast (drop_bit (8 * length bs) ?w) :: 8 word) i = bit b i"
      using Cons.prems get_uint_bit_bound [where bs = bs and 'a = 'a and i = "8 * length bs + i"]
      by (auto simp: bit_ucast_iff bit_drop_bit_eq bit_or_iff bit_push_bit_iff)
  qed
  moreover have "put_uint (length bs) ?w = put_uint (length bs) (get_uint bs :: 'a word)"
    by (rule put_uint_drop) (auto simp: bit_or_iff bit_push_bit_iff)
  ultimately show ?case using Cons by simp
qed

lemma put_uint_inject:
  fixes w v :: "'a::len word"
  assumes "LENGTH('a) \<le> 8 * n"
  shows "put_uint n w = put_uint n v \<longleftrightarrow> w = v"
  by (metis assms get_uint_put_uint)

lemma get_uint_inject:
  assumes "length bs = length cs" "8 * length bs \<le> LENGTH('a::len)"
  shows "(get_uint bs :: 'a word) = get_uint cs \<longleftrightarrow> bs = cs"
  by (metis assms put_uint_get_uint)

section \<open>hash/crc32: the IEEE checksum\<close>

text \<open>
  \<open>crc32.ChecksumIEEE\<close>, bit by bit with the reversed polynomial \<open>0xEDB88320\<close>: the
  table-driven implementations of the library compute the same function.
\<close>

definition crc_bit :: "u32 \<Rightarrow> u32" where
  "crc_bit c = (if bit c 0 then drop_bit 1 c XOR 0xEDB88320 else drop_bit 1 c)"

definition crc_byte :: "u32 \<Rightarrow> byte \<Rightarrow> u32" where
  "crc_byte c b = (crc_bit ^^ 8) (c XOR ucast b)"

definition crc32 :: "bytes \<Rightarrow> u32" where
  "crc32 bs = NOT (foldl crc_byte (NOT 0) bs)"

lemma xor_cancel_right: "(a :: 'a::len word) XOR b = a XOR c \<longleftrightarrow> b = c"
  by (metis xor.assoc xor_self_eq xor.left_neutral)

lemma xor_cancel_left: "(b :: 'a::len word) XOR a = c XOR a \<longleftrightarrow> b = c"
  by (metis xor.commute xor_cancel_right)

text \<open>
  One step of the division is injective: the polynomial has its top bit set and a shifted
  word has not, so the top bit of the result tells which branch was taken.
\<close>

lemma crc_bit_inj: "crc_bit c = crc_bit d \<Longrightarrow> c = d"
proof -
  assume eq: "crc_bit c = crc_bit d"
  have top: "bit (crc_bit x) 31 = bit x 0" for x :: u32
    by (auto simp: crc_bit_def bit_xor_iff bit_drop_bit_eq dest: bit_imp_le_length)
  have low: "bit c 0 = bit d 0" using eq top by metis
  have sh: "drop_bit 1 c = drop_bit 1 d"
    using eq low by (auto simp: crc_bit_def xor_cancel_left split: if_splits)
  show "c = d"
  proof (rule bit_word_eqI)
    fix i assume "i < LENGTH(32)"
    show "bit c i = bit d i"
    proof (cases i)
      case 0
      then show ?thesis using low by simp
    next
      case (Suc j)
      have "bit (drop_bit 1 c) j = bit (drop_bit 1 d) j" using sh by simp
      then show ?thesis using Suc by (simp add: bit_drop_bit_eq)
    qed
  qed
qed

lemma crc_bits_inj: "(crc_bit ^^ n) c = (crc_bit ^^ n) d \<Longrightarrow> c = d"
  by (induction n) (auto dest: crc_bit_inj)

lemma crc_byte_inj_state: "crc_byte c b = crc_byte d b \<longleftrightarrow> c = d"
  by (auto simp: crc_byte_def xor_cancel_left dest: crc_bits_inj)

lemma crc_byte_inj_byte: "crc_byte c a = crc_byte c b \<longleftrightarrow> a = b"
proof -
  have "(ucast a :: u32) = ucast b \<Longrightarrow> a = b"
  proof -
    assume eq: "(ucast a :: u32) = ucast b"
    show "a = b"
    proof (rule bit_word_eqI)
      fix i assume "i < LENGTH(8)"
      moreover have "bit (ucast a :: u32) i = bit (ucast b :: u32) i" using eq by simp
      ultimately show "bit a i = bit b i" by (simp add: bit_ucast_iff)
    qed
  qed
  then show ?thesis by (auto simp: crc_byte_def xor_cancel_right dest: crc_bits_inj)
qed

lemma crc_foldl_inj_state: "foldl crc_byte c bs = foldl crc_byte d bs \<longleftrightarrow> c = d"
  by (induction bs arbitrary: c d) (simp_all add: crc_byte_inj_state)

text \<open>Any change confined to one byte changes the checksum.\<close>

lemma crc32_detects_byte: "crc32 (pre @ a # post) = crc32 (pre @ b # post) \<longleftrightarrow> a = b"
  by (simp add: crc32_def crc_foldl_inj_state crc_byte_inj_byte)

lemma crc32_detects_update:
  assumes "i < length bs" "b \<noteq> bs ! i"
  shows "crc32 (bs[i := b]) \<noteq> crc32 bs"
proof -
  have "bs[i := b] = take i bs @ b # drop (Suc i) bs"
    using assms(1) by (simp add: upd_conv_take_nth_drop)
  moreover have "bs = take i bs @ bs ! i # drop (Suc i) bs"
    using assms(1) by (rule id_take_nth_drop)
  ultimately show ?thesis using crc32_detects_byte assms(2) by metis
qed

section \<open>sort.Search: binary search\<close>

text \<open>
  \<open>sort.Search(n, f)\<close>: the loop of the library, with \<open>i\<close> and \<open>j\<close> the bounds. The
  midpoint is \<open>int(uint(i+j) >> 1)\<close>.
\<close>

function search_loop :: "(nat \<Rightarrow> bool) \<Rightarrow> nat \<Rightarrow> nat \<Rightarrow> nat" where
  "search_loop f i j =
     (if i < j then
        let h = (i + j) div 2
        in if \<not> f h then search_loop f (h + 1) j else search_loop f i h
      else i)"
  by pat_completeness auto
termination
  by (relation "measure (\<lambda>(f, i, j). j - i)") auto

declare search_loop.simps [simp del]

definition sort_search :: "nat \<Rightarrow> (nat \<Rightarrow> bool) \<Rightarrow> nat" where
  "sort_search n f = search_loop f 0 n"

text \<open>For a predicate that stays true once it is true, the result is the first index of
  \<open>[i, j)\<close> where it holds, and \<open>j\<close> if there is none.\<close>

lemma search_loop_spec:
  assumes mono: "\<And>a b. a \<le> b \<Longrightarrow> b < n \<Longrightarrow> f a \<Longrightarrow> f b"
    and "i \<le> j" "j \<le> n"
  shows "i \<le> search_loop f i j \<and> search_loop f i j \<le> j
    \<and> (\<forall>k. i \<le> k \<longrightarrow> k < search_loop f i j \<longrightarrow> \<not> f k)
    \<and> (search_loop f i j < j \<longrightarrow> f (search_loop f i j))"
  using \<open>i \<le> j\<close> \<open>j \<le> n\<close>
proof (induction "j - i" arbitrary: i j rule: less_induct)
  case less
  show ?case
  proof (cases "i < j")
    case False
    then have "search_loop f i j = i" by (simp add: search_loop.simps [of f i j])
    then show ?thesis using False less.prems by auto
  next
    case True
    define h where "h = (i + j) div 2"
    have h: "i \<le> h" "h < j" using True by (simp_all add: h_def)
    show ?thesis
    proof (cases "f h")
      case True
      have IH: "i \<le> search_loop f i h \<and> search_loop f i h \<le> h
          \<and> (\<forall>k. i \<le> k \<longrightarrow> k < search_loop f i h \<longrightarrow> \<not> f k)
          \<and> (search_loop f i h < h \<longrightarrow> f (search_loop f i h))"
        using less.hyps [of h i] h less.prems by simp
      moreover have "search_loop f i j = search_loop f i h"
        using \<open>i < j\<close> True by (simp add: search_loop.simps [of f i j] Let_def h_def [symmetric])
      ultimately show ?thesis using h True by (cases "search_loop f i h = h") auto
    next
      case False
      have IH: "h + 1 \<le> search_loop f (h + 1) j \<and> search_loop f (h + 1) j \<le> j
          \<and> (\<forall>k. h + 1 \<le> k \<longrightarrow> k < search_loop f (h + 1) j \<longrightarrow> \<not> f k)
          \<and> (search_loop f (h + 1) j < j \<longrightarrow> f (search_loop f (h + 1) j))"
        using less.hyps [of j "h + 1"] h less.prems by simp
      moreover have "search_loop f i j = search_loop f (h + 1) j"
        using \<open>i < j\<close> False by (simp add: search_loop.simps [of f i j] Let_def h_def [symmetric])
      moreover have "\<not> f k" if "k \<le> h" for k
        using False mono [of k h] that h less.prems by auto
      ultimately show ?thesis using h by (metis Suc_eq_plus1 Suc_leI le_trans nat_le_linear
            not_less order_less_le_trans le_add1)
    qed
  qed
qed

lemma sort_search_spec:
  assumes "\<And>a b. a \<le> b \<Longrightarrow> b < n \<Longrightarrow> f a \<Longrightarrow> f b"
  shows "sort_search n f \<le> n" "\<And>k. k < sort_search n f \<Longrightarrow> \<not> f k"
    "sort_search n f < n \<Longrightarrow> f (sort_search n f)"
  using search_loop_spec [of n f 0 n] assms by (auto simp: sort_search_def)

section \<open>fmt and strconv: decimal numbers\<close>

definition digit_char :: "nat \<Rightarrow> char" where
  "digit_char d = char_of (48 + d)"

definition is_digit :: "char \<Rightarrow> bool" where
  "is_digit c \<longleftrightarrow> 48 \<le> (of_char c :: nat) \<and> (of_char c :: nat) \<le> 57"

definition digit_val :: "char \<Rightarrow> nat" where
  "digit_val c = of_char c - 48"

fun decimal :: "nat \<Rightarrow> string" where
  "decimal n = (if n < 10 then [digit_char n] else decimal (n div 10) @ [digit_char (n mod 10)])"

declare decimal.simps [simp del]

text \<open>\<open>fmt.Sprintf("%0*d", w, n)\<close> for a non-negative number.\<close>

definition padded :: "nat \<Rightarrow> nat \<Rightarrow> string" where
  "padded w n = replicate (w - length (decimal n)) (digit_char 0) @ decimal n"

definition digits_val :: "string \<Rightarrow> nat" where
  "digits_val s = foldl (\<lambda>acc c. acc * 10 + digit_val c) 0 s"

text \<open>\<open>strconv.ParseUint(s, 10, 64)\<close>: \<open>None\<close> is its error.\<close>

definition parse_uint :: "string \<Rightarrow> nat option" where
  "parse_uint s =
     (if s = [] \<or> \<not> list_all is_digit s \<or> digits_val s \<ge> 2 ^ 64 then None
      else Some (digits_val s))"

lemma digit_char_is_digit [simp]: "d < 10 \<Longrightarrow> is_digit (digit_char d)"
  by (simp add: is_digit_def digit_char_def)

lemma digit_val_digit_char [simp]: "d < 10 \<Longrightarrow> digit_val (digit_char d) = d"
  by (simp add: digit_val_def digit_char_def)

lemma digits_val_snoc [simp]: "digits_val (s @ [c]) = digits_val s * 10 + digit_val c"
  by (simp add: digits_val_def)

lemma decimal_not_Nil [simp]: "decimal n \<noteq> []"
  by (subst decimal.simps) simp

lemma decimal_digits: "list_all is_digit (decimal n)"
proof (induction n rule: decimal.induct)
  case (1 n)
  then show ?case by (subst decimal.simps) simp
qed

lemma digits_val_decimal [simp]: "digits_val (decimal n) = n"
proof (induction n rule: decimal.induct)
  case (1 n)
  show ?case
  proof (cases "n < 10")
    case True
    then have "decimal n = [] @ [digit_char n]" by (subst decimal.simps) simp
    then show ?thesis
      using True by (simp only: digits_val_snoc) (simp add: digits_val_def)
  next
    case False
    then have "decimal n = decimal (n div 10) @ [digit_char (n mod 10)]"
      by (subst decimal.simps) simp
    then show ?thesis using 1 False by simp
  qed
qed

lemma length_decimal_le: "n < 10 ^ k \<Longrightarrow> 0 < k \<Longrightarrow> length (decimal n) \<le> k"
proof (induction k arbitrary: n)
  case 0
  then show ?case by simp
next
  case (Suc k)
  show ?case
  proof (cases "n < 10")
    case True
    then show ?thesis by (subst decimal.simps) simp
  next
    case False
    then have "0 < k" using Suc.prems by (cases k) auto
    moreover have "n div 10 < 10 ^ k" using Suc.prems by (simp add: less_mult_imp_div_less mult.commute)
    ultimately have "length (decimal (n div 10)) \<le> k" by (rule Suc.IH [rotated])
    then show ?thesis using False by (subst decimal.simps) simp
  qed
qed

lemma digits_val_padding: "digits_val (replicate k (digit_char 0) @ s) = digits_val s"
proof -
  have "foldl (\<lambda>acc c. acc * 10 + digit_val c) 0 (replicate k (digit_char 0)) = 0"
    by (induction k) simp_all
  then show ?thesis by (simp add: digits_val_def)
qed

lemma parse_uint_padded [simp]: "n < 2 ^ 64 \<Longrightarrow> parse_uint (padded w n) = Some n"
  by (simp add: parse_uint_def padded_def digits_val_padding decimal_digits list_all_iff)
    (use decimal_digits in \<open>auto simp: list_all_iff\<close>)

lemma length_padded:
  assumes "n < 10 ^ w" "0 < w"
  shows "length (padded w n) = w"
  using length_decimal_le [OF assms] by (simp add: padded_def)

lemma digit_char_val: "is_digit c \<Longrightarrow> digit_char (digit_val c) = c"
  by (simp add: is_digit_def digit_char_def digit_val_def)

lemma digit_val_less: "is_digit c \<Longrightarrow> digit_val c < 10"
  unfolding is_digit_def digit_val_def by linarith

lemma padded_snoc:
  assumes "d < 10" "0 < w"
  shows "padded (Suc w) (v * 10 + d) = padded w v @ [digit_char d]"
proof (cases "v = 0")
  case True
  have "decimal d = [digit_char d]" "decimal 0 = [digit_char 0]"
    using assms(1) by (simp_all add: decimal.simps [of d] decimal.simps [of 0])
  then show ?thesis using True assms(2)
    by (cases w) (simp_all add: padded_def replicate_append_same [symmetric])
next
  case False
  then have "decimal (v * 10 + d) = decimal v @ [digit_char d]"
    using assms(1) by (subst decimal.simps) simp
  then show ?thesis by (simp add: padded_def)
qed

text \<open>A run of \<open>w\<close> digits is the padded form of the number it spells.\<close>

lemma padded_digits_val:
  "list_all is_digit s \<Longrightarrow> s \<noteq> [] \<Longrightarrow> padded (length s) (digits_val s) = s"
proof (induction s rule: rev_induct)
  case Nil
  then show ?case by simp
next
  case (snoc c s)
  then have c: "is_digit c" by simp
  show ?case
  proof (cases "s = []")
    case True
    have "decimal (digit_val c) = [digit_char (digit_val c)]"
      using digit_val_less [OF c] by (simp add: decimal.simps [of "digit_val c"])
    then show ?thesis
      using True c by (simp add: digits_val_def padded_def digit_char_val)
  next
    case False
    then show ?thesis
      using snoc c padded_snoc [OF digit_val_less [OF c], of "length s" "digits_val s"]
      by (simp add: digit_char_val)
  qed
qed

section \<open>strings: prefixes, suffixes, splitting\<close>

definition has_prefix :: "string \<Rightarrow> string \<Rightarrow> bool" where
  "has_prefix s p \<longleftrightarrow> take (length p) s = p"

definition has_suffix :: "string \<Rightarrow> string \<Rightarrow> bool" where
  "has_suffix s p \<longleftrightarrow> length p \<le> length s \<and> drop (length s - length p) s = p"

definition trim_prefix :: "string \<Rightarrow> string \<Rightarrow> string" where
  "trim_prefix s p = (if has_prefix s p then drop (length p) s else s)"

definition trim_suffix :: "string \<Rightarrow> string \<Rightarrow> string" where
  "trim_suffix s p = (if has_suffix s p then take (length s - length p) s else s)"

lemma has_prefix_append [simp]: "has_prefix (p @ s) p"
  by (simp add: has_prefix_def)

lemma has_suffix_append [simp]: "has_suffix (s @ p) p"
  by (simp add: has_suffix_def)

lemma trim_prefix_append [simp]: "trim_prefix (p @ s) p = s"
  by (simp add: trim_prefix_def)

lemma trim_suffix_append [simp]: "trim_suffix (s @ p) p = s"
  by (simp add: trim_suffix_def)

lemma has_prefix_split: "has_prefix s p \<Longrightarrow> s = p @ trim_prefix s p"
  by (simp add: has_prefix_def trim_prefix_def) (metis append_take_drop_id)

lemma has_suffix_split: "has_suffix s p \<Longrightarrow> s = trim_suffix s p @ p"
  by (simp add: has_suffix_def trim_suffix_def) (metis append_take_drop_id)

lemma has_suffix_append_left:
  "length p \<le> length t \<Longrightarrow> has_suffix (s @ t) p \<longleftrightarrow> has_suffix t p"
  by (simp add: has_suffix_def)

text \<open>\<open>strings.Split\<close> with a one-byte separator.\<close>

fun split_on :: "char \<Rightarrow> string \<Rightarrow> string list" where
  "split_on c [] = [[]]"
| "split_on c (x # xs) =
     (if x = c then [] # split_on c xs
      else (case split_on c xs of [] \<Rightarrow> [[x]] | p # ps \<Rightarrow> (x # p) # ps))"

lemma split_on_not_Nil [simp]: "split_on c s \<noteq> []"
  by (induction s) (auto split: list.splits)

lemma split_on_no_sep: "c \<notin> set s \<Longrightarrow> split_on c s = [s]"
  by (induction s) auto

lemma split_on_append_sep: "c \<notin> set s \<Longrightarrow> split_on c (s @ c # t) = s # split_on c t"
  by (induction s) auto

lemma split_on_parts_no_sep: "p \<in> set (split_on c s) \<Longrightarrow> c \<notin> set p"
  by (induction s arbitrary: p) (auto split: list.splits if_splits)

end
