(* ===== verification/Layout.thy ===== *)
theory Layout
  imports Go_Lib
begin

text \<open>
  The interface of a fixed-width, checksummed binary layout, as the headers and entries of
  the write-ahead log have it: an encoder and a decoder of one width that agree, where the
  decoder accepts only bytes whose last four are the CRC of the others. What the recovery
  relies on follows once for every such layout: runs of entries can be cut at multiples of
  the width, and no change of a single byte goes unnoticed.
\<close>

definition checksummed :: "nat \<Rightarrow> bytes \<Rightarrow> bool" where
  "checksummed n bs \<longleftrightarrow> crc32 (take n bs) = get_uint (slice n (n + 4) bs)"

lemma checksummed_append:
  "length body = n \<Longrightarrow> checksummed n (body @ put_uint 4 (crc32 body))"
  by (simp add: checksummed_def slice_def)

lemma checksummed_update:
  assumes "length bs = n + 4" "checksummed n bs" "i < length bs" "b \<noteq> bs ! i"
  shows "\<not> checksummed n (bs[i := b])"
proof (cases "i < n")
  case True
  have "take n (bs[i := b]) = (take n bs)[i := b]"
    using True by (simp add: take_update_swap)
  moreover have "crc32 ((take n bs)[i := b]) \<noteq> crc32 (take n bs)"
    using True assms by (intro crc32_detects_update) auto
  moreover have "slice n (n + 4) (bs[i := b]) = slice n (n + 4) bs"
    using True by (simp add: slice_def drop_update_cancel)
  ultimately show ?thesis using assms(2) by (simp add: checksummed_def)
next
  case False
  have s: "slice n (n + 4) (bs[i := b]) = (drop n bs)[i - n := b]"
    and t: "slice n (n + 4) bs = drop n bs"
    using False assms(1) by (simp_all add: slice_def drop_update_swap)
  have "(drop n bs)[i - n := b] \<noteq> drop n bs"
  proof
    assume eq: "(drop n bs)[i - n := b] = drop n bs"
    have at: "i - n < length (drop n bs)" "drop n bs ! (i - n) = bs ! i"
      using False assms(3) by auto
    have "b = (drop n bs)[i - n := b] ! (i - n)" using at(1) by simp
    also have "\<dots> = bs ! i" using eq at(2) by simp
    finally show False using assms(4) by simp
  qed
  then have "(get_uint ((drop n bs)[i - n := b]) :: u32) \<noteq> get_uint (drop n bs)"
    using assms(1) by (simp add: get_uint_inject)
  moreover have "take n (bs[i := b]) = take n bs" using False by simp
  ultimately show ?thesis using assms(2) s t by (simp add: checksummed_def)
qed

locale checked_layout =
  fixes encode :: "'a \<Rightarrow> bytes"
    and decode :: "bytes \<Rightarrow> 'e + 'b"
    and view :: "'a \<Rightarrow> 'b"
    and body :: nat
  assumes encode_width: "length (encode a) = body + 4"
    and decode_encode: "decode (encode a) = Inr (view a)"
    and decode_width: "decode bs = Inr x \<Longrightarrow> length bs = body + 4"
    and decode_checksummed: "decode bs = Inr x \<Longrightarrow> checksummed body bs"
begin

lemma detects_one_byte:
  assumes "decode bs = Inr x" "i < length bs" "b \<noteq> bs ! i"
  shows "\<exists>e. decode (bs[i := b]) = Inl e"
proof (cases "decode (bs[i := b])")
  case (Inr y)
  have "\<not> checksummed body (bs[i := b])"
    using checksummed_update [OF decode_width [OF assms(1)] decode_checksummed [OF assms(1)] assms(2,3)] .
  then show ?thesis using decode_checksummed [OF Inr] by simp
qed blast

lemma detects_wrong_width: "length bs \<noteq> body + 4 \<Longrightarrow> \<exists>e. decode bs = Inl e"
  using decode_width by (cases "decode bs") auto

lemma length_concat_encode: "length (concat (map encode xs)) = length xs * (body + 4)"
  by (induction xs) (simp_all add: encode_width)

lemma slice_concat_encode:
  assumes "i < length xs"
  shows "slice (i * (body + 4)) (Suc i * (body + 4)) (concat (map encode xs) @ tail)
    = encode (xs ! i)"
proof -
  have "xs = take i xs @ xs ! i # drop (Suc i) xs" using assms by (rule id_take_nth_drop)
  then have "concat (map encode xs) @ tail = concat (map encode (take i xs)) @ encode (xs ! i)
      @ concat (map encode (drop (Suc i) xs)) @ tail"
    by (metis append.assoc concat.simps(2) concat_append list.map(2) map_append)
  moreover have "length (concat (map encode (take i xs))) = i * (body + 4)"
    using assms by (simp add: length_concat_encode min_def)
  ultimately show ?thesis
    using slice_mid [of "i * (body + 4)" "concat (map encode (take i xs))"
        "Suc i * (body + 4)" "encode (xs ! i)"] encode_width by simp
qed

lemma whole_entries:
  assumes "length tail < body + 4"
  shows "length (concat (map encode xs) @ tail) div (body + 4) = length xs"
  using assms by (simp add: length_concat_encode)

end

end
