(* ===== verification/Float64.thy ===== *)
theory Float64
  imports Prelude "HOL-Library.Log_Nat"
begin

text \<open>
  Go's \<open>float64\<close>: finite values are the rationals that binary64 represents, and the
  arithmetic rounds the exact rational result to the nearest representable value, ties to
  even, overflowing to an infinity. The two zeros are one value here: no code of the
  collector tells them apart.
\<close>

datatype f64 = Fin rat | PInf | NInf | NaN

section \<open>Rounding to binary64\<close>

text \<open>\<open>exponent x\<close> is the binary exponent of a positive rational: the \<open>e\<close> with
  \<open>2 ^ e \<le> x < 2 ^ (e + 1)\<close>.\<close>

definition pow2 :: "int \<Rightarrow> rat" where
  "pow2 e = (if e \<ge> 0 then 2 ^ nat e else 1 / 2 ^ nat (- e))"

definition exponent :: "rat \<Rightarrow> int" where
  "exponent x =
     (let (n, d) = quotient_of x;
          e = int (floorlog 2 (nat n)) - int (floorlog 2 (nat d))
      in if pow2 e \<le> x then e else e - 1)"

definition round_even :: "rat \<Rightarrow> int" where
  "round_even q =
     (let f = \<lfloor>q\<rfloor>; r = q - of_int f
      in if r < 1 / 2 then f else if r > 1 / 2 then f + 1
         else if even f then f else f + 1)"

definition round_f64 :: "rat \<Rightarrow> f64" where
  "round_f64 x =
     (if x = 0 then Fin 0
      else
        let m = \<bar>x\<bar>;
            u = pow2 (max (exponent m - 52) (- 1074));
            r = of_int (round_even (m / u)) * u
        in if r \<ge> 2 ^ 1024 then (if x > 0 then PInf else NInf)
           else Fin (if x > 0 then r else - r))"

section \<open>Comparison\<close>

text \<open>Every comparison with a NaN is false.\<close>

fun f64_le :: "f64 \<Rightarrow> f64 \<Rightarrow> bool" where
  "f64_le NaN _ = False"
| "f64_le _ NaN = False"
| "f64_le NInf _ = True"
| "f64_le _ PInf = True"
| "f64_le (Fin a) (Fin b) = (a \<le> b)"
| "f64_le _ _ = False"

fun f64_eq :: "f64 \<Rightarrow> f64 \<Rightarrow> bool" where
  "f64_eq NaN _ = False"
| "f64_eq _ NaN = False"
| "f64_eq a b = (a = b)"

definition f64_lt :: "f64 \<Rightarrow> f64 \<Rightarrow> bool" where
  "f64_lt a b \<longleftrightarrow> f64_le a b \<and> \<not> f64_eq a b"

definition is_nan :: "f64 \<Rightarrow> bool" where
  "is_nan x \<longleftrightarrow> x = NaN"

definition is_inf :: "f64 \<Rightarrow> bool" where
  "is_inf x \<longleftrightarrow> x = PInf \<or> x = NInf"

definition finite_f64 :: "f64 \<Rightarrow> bool" where
  "finite_f64 x \<longleftrightarrow> \<not> is_nan x \<and> \<not> is_inf x"

lemma finite_f64_Fin: "finite_f64 x \<longleftrightarrow> (\<exists>q. x = Fin q)"
  by (cases x) (auto simp: finite_f64_def is_nan_def is_inf_def)

section \<open>Arithmetic\<close>

fun f64_add :: "f64 \<Rightarrow> f64 \<Rightarrow> f64" where
  "f64_add (Fin a) (Fin b) = round_f64 (a + b)"
| "f64_add NaN _ = NaN"
| "f64_add _ NaN = NaN"
| "f64_add PInf NInf = NaN"
| "f64_add NInf PInf = NaN"
| "f64_add PInf _ = PInf"
| "f64_add _ PInf = PInf"
| "f64_add NInf _ = NInf"
| "f64_add _ NInf = NInf"

fun f64_neg :: "f64 \<Rightarrow> f64" where
  "f64_neg (Fin a) = Fin (- a)"
| "f64_neg PInf = NInf"
| "f64_neg NInf = PInf"
| "f64_neg NaN = NaN"

definition f64_sub :: "f64 \<Rightarrow> f64 \<Rightarrow> f64" where
  "f64_sub a b = f64_add a (f64_neg b)"

fun f64_mul :: "f64 \<Rightarrow> f64 \<Rightarrow> f64" where
  "f64_mul (Fin a) (Fin b) = round_f64 (a * b)"
| "f64_mul NaN _ = NaN"
| "f64_mul _ NaN = NaN"
| "f64_mul (Fin a) i = (if a = 0 then NaN else if a > 0 then i else f64_neg i)"
| "f64_mul i (Fin b) = (if b = 0 then NaN else if b > 0 then i else f64_neg i)"
| "f64_mul i j = (if i = j then PInf else NInf)"

text \<open>Division; a zero divisor counts as the positive zero.\<close>

fun f64_div :: "f64 \<Rightarrow> f64 \<Rightarrow> f64" where
  "f64_div (Fin a) (Fin b) =
     (if b \<noteq> 0 then round_f64 (a / b) else if a = 0 then NaN else if a > 0 then PInf else NInf)"
| "f64_div NaN _ = NaN"
| "f64_div _ NaN = NaN"
| "f64_div (Fin a) _ = Fin 0"
| "f64_div i (Fin b) = (if b \<ge> 0 then i else f64_neg i)"
| "f64_div _ _ = NaN"

text \<open>\<open>math.Floor\<close> and \<open>math.Ceil\<close>; the integer is representable, being below \<open>2 ^ 53\<close> or
  the number itself.\<close>

fun f64_floor :: "f64 \<Rightarrow> f64" where
  "f64_floor (Fin a) = Fin (of_int \<lfloor>a\<rfloor>)"
| "f64_floor x = x"

fun f64_ceil :: "f64 \<Rightarrow> f64" where
  "f64_ceil (Fin a) = Fin (of_int \<lceil>a\<rceil>)"
| "f64_ceil x = x"

text \<open>Go's conversion from \<open>int\<close>.\<close>

definition f64_of_int :: "int \<Rightarrow> f64" where
  "f64_of_int i = round_f64 (of_int i)"

section \<open>The order of sort.Float64s\<close>

text \<open>\<open>sort.Float64s\<close> orders by \<open><\<close> with the NaNs first: a linear order, in which the library's
  \<open>sort\<close> sorts. On numbers it is the comparison of the hardware.\<close>

fun f64_leq :: "f64 \<Rightarrow> f64 \<Rightarrow> bool" where
  "f64_leq NaN _ = True"
| "f64_leq _ NaN = False"
| "f64_leq NInf _ = True"
| "f64_leq _ NInf = False"
| "f64_leq _ PInf = True"
| "f64_leq PInf _ = False"
| "f64_leq (Fin a) (Fin b) = (a \<le> b)"

instantiation f64 :: linorder
begin

definition less_eq_f64 :: "f64 \<Rightarrow> f64 \<Rightarrow> bool" where
  "less_eq_f64 = f64_leq"

definition less_f64 :: "f64 \<Rightarrow> f64 \<Rightarrow> bool" where
  "less_f64 a b \<longleftrightarrow> f64_leq a b \<and> \<not> f64_leq b a"

instance
proof
  fix a b c :: f64
  show "a < b \<longleftrightarrow> a \<le> b \<and> \<not> b \<le> a" by (simp add: less_eq_f64_def less_f64_def)
  show "a \<le> a" by (cases a) (simp_all add: less_eq_f64_def)
  show "a \<le> b \<Longrightarrow> b \<le> c \<Longrightarrow> a \<le> c"
    by (cases a; cases b; cases c) (simp_all add: less_eq_f64_def)
  show "a \<le> b \<Longrightarrow> b \<le> a \<Longrightarrow> a = b" by (cases a; cases b) (simp_all add: less_eq_f64_def)
  show "a \<le> b \<or> b \<le> a" by (cases a; cases b) (auto simp: less_eq_f64_def)
qed

end

lemma f64_le_order: "f64_le a b \<longleftrightarrow> a \<le> b \<and> a \<noteq> NaN"
  by (cases a; cases b) (simp_all add: less_eq_f64_def)

lemma f64_lt_order: "f64_lt a b \<longleftrightarrow> a < b \<and> a \<noteq> NaN"
  by (cases a; cases b) (auto simp: less_f64_def f64_lt_def)

lemma f64_eq_iff: "f64_eq a b \<longleftrightarrow> a = b \<and> a \<noteq> NaN"
  by (cases a; cases b) auto

end
