(* ===== verification/Telemetry_Model.thy ===== *)
theory Telemetry_Model
  imports Go_Lib Float64
begin

text \<open>
  The telemetry data of \<open>runtime/go/internal/telemetry/model.go\<close>: envelopes, span batches,
  spans and runtime metrics. A pointer field that may be \<open>nil\<close> is an \<open>option\<close>; the
  attribute map of a span holds the values that \<open>encoding/json\<close> decodes into \<open>any\<close>.
\<close>

datatype attr =
    AString string
  | ANumber f64
  | ABool bool
  | ANull
  | AArray "attr list"
  | AObject "(string \<times> attr) list"

record span =
  TraceID :: string
  SpanID :: string
  ParentSpanID :: string
  Name :: string
  Kind :: string
  StartTimeUnixMS :: f64
  DurationMS :: f64
  Status :: string
  Attributes :: "attr gomap"

record span_batch =
  sb_ServiceName :: string
  sb_NodeVersion :: string
  sb_Spans :: "span list"

record runtime_metrics =
  rm_Timestamp :: f64
  rm_ServiceName :: string
  rm_RSSBytes :: u64
  rm_HeapUsedBytes :: u64
  rm_HeapTotalBytes :: u64
  rm_CPUPercent :: f64
  rm_EventLoopUtilization :: f64
  rm_UptimeSeconds :: f64

record envelope =
  ProtocolVersion :: string
  SpanBatch :: "span_batch option"
  RuntimeMetrics :: "runtime_metrics option"

definition protocol_version :: string where
  "protocol_version = ''1.0''"

text \<open>\<open>Envelope.EventCount\<close>: one event per span, or one for runtime metrics.\<close>

definition EventCount :: "envelope \<Rightarrow> nat" where
  "EventCount e = (case SpanBatch e of
     Some b \<Rightarrow> length (sb_Spans b)
   | None \<Rightarrow> (case RuntimeMetrics e of Some _ \<Rightarrow> 1 | None \<Rightarrow> 0))"

end
