(* ===== verification/Wal_Format.thy ===== *)
theory Wal_Format
  imports Layout Telemetry_Model
begin

text \<open>
  The on-disk formats of \<open>runtime/go/internal/spool/wal_format.go\<close>, with the record types of
  \<open>spool.go\<close>: segment and checkpoint headers, record and commit frames, checkpoint entries,
  each with its encoder and decoder, every decoding error a value of \<open>format_error\<close>.

  The JSON codec of a record's payload (\<open>encoding/json\<close> on \<open>diskRecord\<close>) is a parameter:
  a marshaller that may fail, and a decoder that reads one value and leaves the rest of its
  input. The properties that need it assume that the decoder reads back what the marshaller
  wrote (\<open>codec_ok\<close>).
\<close>

section \<open>Records and their JSON codec\<close>

record spool_record =
  RecordID :: u64
  Attempts :: nat
  EnqueuedAt :: int
  Envelope :: envelope

record diskRecord =
  dr_ID :: u64
  dr_EnqueuedAtUnixNano :: int
  dr_Envelope :: envelope

record codec =
  marshal :: "diskRecord \<Rightarrow> bytes option"
  unmarshal :: "bytes \<Rightarrow> (diskRecord \<times> bytes) option"

definition codec_ok :: "codec \<Rightarrow> bool" where
  "codec_ok js \<longleftrightarrow> (\<forall>d bs. marshal js d = Some bs \<longrightarrow> unmarshal js bs = Some (d, []))"

definition json_space :: "byte \<Rightarrow> bool" where
  "json_space b \<longleftrightarrow> b = 32 \<or> b = 9 \<or> b = 10 \<or> b = 13"

section \<open>Constants\<close>

definition ascii :: "string \<Rightarrow> bytes" where
  "ascii s = List.map (\<lambda>c. of_nat (of_char c)) s"

lemma length_ascii [simp]: "length (ascii s) = length s"
  by (simp add: ascii_def)

definition walSegmentMagic :: bytes where "walSegmentMagic = ascii ''NFWALSEG''"
definition walSegmentVersion :: u16 where "walSegmentVersion = 1"
definition walSegmentHeaderSize :: nat where "walSegmentHeaderSize = 32"
definition walFrameMagic :: bytes where "walFrameMagic = ascii ''NFWR''"
definition walRecordVersion :: byte where "walRecordVersion = 1"
definition walFrameHeaderSize :: nat where "walFrameHeaderSize = 28"
definition walCommitPayloadSize :: nat where "walCommitPayloadSize = 28"
definition walStateMagic :: bytes where "walStateMagic = ascii ''NFWSTATE''"
definition walStateVersion :: u16 where "walStateVersion = 1"
definition walStateHeaderSize :: nat where "walStateHeaderSize = 24"
definition walStateEntryMagic :: bytes where "walStateEntryMagic = ascii ''NFWS''"
definition walStateEntryVersion :: byte where "walStateEntryVersion = 1"
definition walStateEntrySize :: nat where "walStateEntrySize = 24"

lemmas wal_sizes = walSegmentHeaderSize_def walFrameHeaderSize_def walCommitPayloadSize_def
  walStateHeaderSize_def walStateEntrySize_def

lemmas wal_versions = walSegmentVersion_def walRecordVersion_def walStateVersion_def
  walStateEntryVersion_def

lemma length_magics [simp]:
  "length walSegmentMagic = 8" "length walFrameMagic = 4"
  "length walStateMagic = 8" "length walStateEntryMagic = 4"
  by (simp_all add: walSegmentMagic_def walFrameMagic_def walStateMagic_def walStateEntryMagic_def)

datatype walFrameKind = FrameData | FrameCommit

fun frame_kind_byte :: "walFrameKind \<Rightarrow> byte" where
  "frame_kind_byte FrameData = 1"
| "frame_kind_byte FrameCommit = 2"

definition frame_kind_of :: "byte \<Rightarrow> walFrameKind option" where
  "frame_kind_of b = (if b = 1 then Some FrameData else if b = 2 then Some FrameCommit else None)"

datatype walStateKind = StateRetry | StateAck | StateQuarantine

fun state_kind_byte :: "walStateKind \<Rightarrow> byte" where
  "state_kind_byte StateRetry = 1"
| "state_kind_byte StateAck = 2"
| "state_kind_byte StateQuarantine = 3"

definition state_kind_of :: "byte \<Rightarrow> walStateKind option" where
  "state_kind_of b = (if b = 1 then Some StateRetry else if b = 2 then Some StateAck
     else if b = 3 then Some StateQuarantine else None)"

lemma frame_kind_of_byte [simp]: "frame_kind_of (frame_kind_byte k) = Some k"
  by (cases k) (simp_all add: frame_kind_of_def)

lemma state_kind_of_byte [simp]: "state_kind_of (state_kind_byte k) = Some k"
  by (cases k) (simp_all add: state_kind_of_def)

type_synonym walStateReason = byte

definition walReasonNone :: walStateReason where "walReasonNone = 0"
definition walReasonPermanent :: walStateReason where "walReasonPermanent = 1"
definition walReasonAttemptsExhausted :: walStateReason where "walReasonAttemptsExhausted = 2"

record walCommit =
  firstID :: u64
  lastID :: u64
  cm_count :: u32
  dataBytes :: u32
  cm_checksum :: u32

record walStateEntry =
  se_kind :: walStateKind
  se_reason :: walStateReason
  se_id :: u64
  se_attempts :: u32

datatype format_error =
    InvalidHeader
  | UnsupportedVersion
  | IDMismatch
  | ChecksumMismatch
  | UnsupportedKind byte
  | InvalidCommitLength
  | DecodeError
  | MultipleValues
  | InvalidMetadata
  | EncodeError

section \<open>Segment headers\<close>

definition encodeWALSegmentHeader :: "u64 \<Rightarrow> int \<Rightarrow> bytes" where
  "encodeWALSegmentHeader segmentID createdAt =
     (let h = walSegmentMagic @ put_uint 2 walSegmentVersion
            @ put_uint 2 (of_nat walSegmentHeaderSize :: u16)
            @ put_uint 8 segmentID @ put_uint 8 (of_int createdAt :: u64)
      in h @ put_uint 4 (crc32 h))"

definition decodeWALSegmentHeader :: "bytes \<Rightarrow> u64 \<Rightarrow> format_error + unit" where
  "decodeWALSegmentHeader header expectedID =
     (if length header \<noteq> walSegmentHeaderSize \<or> slice 0 8 header \<noteq> walSegmentMagic
      then Inl InvalidHeader
      else if get_uint (slice 8 10 header) \<noteq> walSegmentVersion
           \<or> get_uint (slice 10 12 header) \<noteq> (of_nat walSegmentHeaderSize :: u16)
      then Inl UnsupportedVersion
      else if get_uint (slice 12 20 header) \<noteq> expectedID then Inl IDMismatch
      else if crc32 (slice 0 28 header) \<noteq> get_uint (slice 28 32 header)
      then Inl ChecksumMismatch
      else Inr ())"

section \<open>Frames\<close>

text \<open>The header part of \<open>encodeWALFrame\<close>; bytes 6 and 7 stay zero.\<close>

definition frame_header :: "walFrameKind \<Rightarrow> u64 \<Rightarrow> u32 \<Rightarrow> u32 \<Rightarrow> bytes" where
  "frame_header kind sequence psize checksum =
     (let h = walFrameMagic @ [walRecordVersion, frame_kind_byte kind, 0, 0]
            @ put_uint 4 psize @ put_uint 8 sequence @ put_uint 4 checksum
      in h @ put_uint 4 (crc32 h))"

definition encodeWALFrame :: "walFrameKind \<Rightarrow> u64 \<Rightarrow> bytes \<Rightarrow> bytes" where
  "encodeWALFrame kind sequence payload =
     frame_header kind sequence (of_nat (length payload)) (crc32 payload) @ payload"

definition encodeWALDataFrame :: "codec \<Rightarrow> spool_record \<Rightarrow> format_error + bytes" where
  "encodeWALDataFrame js r =
     (case marshal js \<lparr>dr_ID = RecordID r, dr_EnqueuedAtUnixNano = EnqueuedAt r,
                       dr_Envelope = Envelope r\<rparr> of
        None \<Rightarrow> Inl EncodeError
      | Some payload \<Rightarrow> Inr (encodeWALFrame FrameData (RecordID r) payload))"

definition encodeWALCommit :: "walCommit \<Rightarrow> bytes" where
  "encodeWALCommit c = put_uint 8 (firstID c) @ put_uint 8 (lastID c)
     @ put_uint 4 (cm_count c) @ put_uint 4 (dataBytes c) @ put_uint 4 (cm_checksum c)"

definition encodeWALCommitFrame :: "walCommit \<Rightarrow> bytes" where
  "encodeWALCommitFrame c = encodeWALFrame FrameCommit (lastID c) (encodeWALCommit c)"

definition decodeWALCommit :: "bytes \<Rightarrow> format_error + walCommit" where
  "decodeWALCommit payload =
     (if length payload \<noteq> walCommitPayloadSize then Inl InvalidCommitLength
      else Inr \<lparr>firstID = get_uint (slice 0 8 payload), lastID = get_uint (slice 8 16 payload),
                cm_count = get_uint (slice 16 20 payload),
                dataBytes = get_uint (slice 20 24 payload),
                cm_checksum = get_uint (slice 24 28 payload)\<rparr>)"

text \<open>The result is the kind, the sequence number, the payload size and its checksum.\<close>

definition decodeWALFrameHeader ::
  "bytes \<Rightarrow> format_error + (walFrameKind \<times> u64 \<times> u32 \<times> u32)" where
  "decodeWALFrameHeader header =
     (if length header \<noteq> walFrameHeaderSize \<or> slice 0 4 header \<noteq> walFrameMagic
      then Inl InvalidHeader
      else if header ! 4 \<noteq> walRecordVersion then Inl UnsupportedVersion
      else case frame_kind_of (header ! 5) of
        None \<Rightarrow> Inl (UnsupportedKind (header ! 5))
      | Some kind \<Rightarrow>
          if crc32 (slice 0 24 header) \<noteq> get_uint (slice 24 28 header)
          then Inl ChecksumMismatch
          else Inr (kind, get_uint (slice 12 20 header), get_uint (slice 8 12 header),
                    get_uint (slice 20 24 header)))"

text \<open>
  \<open>decodeWALRecord\<close>: one JSON value, then only white space, a non-zero identifier equal
  to the frame's, and a positive time.
\<close>

definition decodeWALRecord :: "codec \<Rightarrow> bytes \<Rightarrow> u64 \<Rightarrow> format_error + spool_record" where
  "decodeWALRecord js payload expectedID =
     (case unmarshal js payload of
        None \<Rightarrow> Inl DecodeError
      | Some (stored, rest) \<Rightarrow>
          if \<not> list_all json_space rest then Inl MultipleValues
          else if dr_ID stored = 0 \<or> dr_ID stored \<noteq> expectedID
               \<or> dr_EnqueuedAtUnixNano stored \<le> 0
          then Inl InvalidMetadata
          else Inr \<lparr>RecordID = dr_ID stored, Attempts = 0,
                    EnqueuedAt = dr_EnqueuedAtUnixNano stored, Envelope = dr_Envelope stored\<rparr>)"

section \<open>Checkpoint headers and entries\<close>

definition encodeWALStateHeader :: "u64 \<Rightarrow> bytes" where
  "encodeWALStateHeader segmentID =
     (let h = walStateMagic @ put_uint 2 walStateVersion
            @ put_uint 2 (of_nat walStateHeaderSize :: u16) @ put_uint 8 segmentID
      in h @ put_uint 4 (crc32 h))"

definition decodeWALStateHeader :: "bytes \<Rightarrow> u64 \<Rightarrow> format_error + unit" where
  "decodeWALStateHeader header expectedID =
     (if length header \<noteq> walStateHeaderSize \<or> slice 0 8 header \<noteq> walStateMagic
      then Inl InvalidHeader
      else if get_uint (slice 8 10 header) \<noteq> walStateVersion
           \<or> get_uint (slice 10 12 header) \<noteq> (of_nat walStateHeaderSize :: u16)
      then Inl UnsupportedVersion
      else if get_uint (slice 12 20 header) \<noteq> expectedID then Inl IDMismatch
      else if crc32 (slice 0 20 header) \<noteq> get_uint (slice 20 24 header)
      then Inl ChecksumMismatch
      else Inr ())"

definition encodeWALStateEntry :: "walStateEntry \<Rightarrow> bytes" where
  "encodeWALStateEntry e =
     (let h = walStateEntryMagic @ [walStateEntryVersion, state_kind_byte (se_kind e), se_reason e, 0]
            @ put_uint 8 (se_id e) @ put_uint 4 (se_attempts e)
      in h @ put_uint 4 (crc32 h))"

definition decodeWALStateEntry :: "bytes \<Rightarrow> format_error + walStateEntry" where
  "decodeWALStateEntry encoded =
     (if length encoded \<noteq> walStateEntrySize \<or> slice 0 4 encoded \<noteq> walStateEntryMagic
      then Inl InvalidHeader
      else if encoded ! 4 \<noteq> walStateEntryVersion then Inl UnsupportedVersion
      else case state_kind_of (encoded ! 5) of
        None \<Rightarrow> Inl (UnsupportedKind (encoded ! 5))
      | Some kind \<Rightarrow>
          if crc32 (slice 0 20 encoded) \<noteq> get_uint (slice 20 24 encoded)
          then Inl ChecksumMismatch
          else Inr \<lparr>se_kind = kind, se_reason = encoded ! 6,
                    se_id = get_uint (slice 8 16 encoded),
                    se_attempts = get_uint (slice 16 20 encoded)\<rparr>)"

section \<open>Widths and round trips\<close>

lemma length_encodeWALSegmentHeader [simp]: "length (encodeWALSegmentHeader i t) = 32"
  by (simp add: encodeWALSegmentHeader_def Let_def)

lemma length_frame_header [simp]: "length (frame_header k s n c) = 28"
  by (simp add: frame_header_def Let_def)

lemma length_encodeWALFrame [simp]: "length (encodeWALFrame k s p) = 28 + length p"
  by (simp add: encodeWALFrame_def)

lemma length_encodeWALCommit [simp]: "length (encodeWALCommit c) = 28"
  by (simp add: encodeWALCommit_def)

lemma length_encodeWALCommitFrame [simp]: "length (encodeWALCommitFrame c) = 56"
  by (simp add: encodeWALCommitFrame_def)

lemma length_encodeWALStateHeader [simp]: "length (encodeWALStateHeader i) = 24"
  by (simp add: encodeWALStateHeader_def Let_def)

lemma length_encodeWALStateEntry [simp]: "length (encodeWALStateEntry e) = 24"
  by (simp add: encodeWALStateEntry_def Let_def)

lemma decode_encode_segment_header [codec_simps]:
  "decodeWALSegmentHeader (encodeWALSegmentHeader i t) i = Inr ()"
  by (simp add: decodeWALSegmentHeader_def encodeWALSegmentHeader_def Let_def slice_def wal_sizes)

lemma decode_encode_frame_header [codec_simps]:
  "decodeWALFrameHeader (frame_header k s n c) = Inr (k, s, n, c)"
  by (simp add: decodeWALFrameHeader_def frame_header_def Let_def slice_def wal_sizes
      nth_append)

lemma decode_encode_commit [codec_simps]: "decodeWALCommit (encodeWALCommit c) = Inr c"
  by (simp add: decodeWALCommit_def encodeWALCommit_def slice_def wal_sizes)

lemma decode_encode_state_header [codec_simps]:
  "decodeWALStateHeader (encodeWALStateHeader i) i = Inr ()"
  by (simp add: decodeWALStateHeader_def encodeWALStateHeader_def Let_def slice_def wal_sizes)

lemma decode_encode_state_entry [codec_simps]:
  "decodeWALStateEntry (encodeWALStateEntry e) = Inr e"
  by (simp add: decodeWALStateEntry_def encodeWALStateEntry_def Let_def slice_def wal_sizes
      nth_append)

text \<open>What a successful decoding says of the bytes.\<close>

lemma decodeWALSegmentHeader_Inr:
  "decodeWALSegmentHeader bs i = Inr x \<Longrightarrow> length bs = 28 + 4 \<and> checksummed 28 bs"
  by (auto simp: decodeWALSegmentHeader_def checksummed_def slice_zero wal_sizes split: if_splits)

lemma decodeWALFrameHeader_Inr:
  "decodeWALFrameHeader bs = Inr x \<Longrightarrow> length bs = 24 + 4 \<and> checksummed 24 bs"
  by (auto simp: decodeWALFrameHeader_def checksummed_def slice_zero wal_sizes
      split: if_splits option.splits)

lemma decodeWALStateHeader_Inr:
  "decodeWALStateHeader bs i = Inr x \<Longrightarrow> length bs = 20 + 4 \<and> checksummed 20 bs"
  by (auto simp: decodeWALStateHeader_def checksummed_def slice_zero wal_sizes split: if_splits)

lemma decodeWALStateEntry_Inr:
  "decodeWALStateEntry bs = Inr x \<Longrightarrow> length bs = 20 + 4 \<and> checksummed 20 bs"
  by (auto simp: decodeWALStateEntry_def checksummed_def slice_zero wal_sizes
      split: if_splits option.splits)

text \<open>The layouts of the format are instances of the checked layout.\<close>

interpretation segment_header: checked_layout
  "encodeWALSegmentHeader i" "\<lambda>bs. decodeWALSegmentHeader bs i" "\<lambda>_. ()" 28
  by unfold_locales (simp_all add: codec_simps decodeWALSegmentHeader_Inr)

interpretation wal_frame_header: checked_layout
  "\<lambda>(k, s, n, c). frame_header k s n c" decodeWALFrameHeader "\<lambda>x. x" 24
  by unfold_locales (auto simp: codec_simps decodeWALFrameHeader_Inr)

interpretation state_header: checked_layout
  "\<lambda>_ :: unit. encodeWALStateHeader i" "\<lambda>bs. decodeWALStateHeader bs i" "\<lambda>_. ()" 20
  by unfold_locales (simp_all add: codec_simps decodeWALStateHeader_Inr)

interpretation state_entry: checked_layout
  encodeWALStateEntry decodeWALStateEntry "\<lambda>e. e" 20
  by unfold_locales (simp_all add: codec_simps decodeWALStateEntry_Inr)

text \<open>A record read back is the record written, with its attempt count reset.\<close>

lemma decode_encode_record:
  assumes "codec_ok js" "RecordID r \<noteq> 0" "0 < EnqueuedAt r"
    and "encodeWALDataFrame js r = Inr frame"
  shows "\<exists>payload. frame = encodeWALFrame FrameData (RecordID r) payload
    \<and> decodeWALRecord js payload (RecordID r) = Inr (r\<lparr>Attempts := 0\<rparr>)"
proof -
  let ?d = "\<lparr>dr_ID = RecordID r, dr_EnqueuedAtUnixNano = EnqueuedAt r, dr_Envelope = Envelope r\<rparr>"
  obtain payload where m: "marshal js ?d = Some payload"
    and f: "frame = encodeWALFrame FrameData (RecordID r) payload"
    using assms(4) by (auto simp: encodeWALDataFrame_def split: option.splits)
  have "unmarshal js payload = Some (?d, [])" using assms(1) m by (simp add: codec_ok_def)
  then have "decodeWALRecord js payload (RecordID r) = Inr (r\<lparr>Attempts := 0\<rparr>)"
    using assms(2,3) by (cases r) (simp add: decodeWALRecord_def)
  then show ?thesis using f by blast
qed

end
