(* ===== verification/Wal_Names.thy ===== *)
theory Wal_Names
  imports Go_Lib
begin

text \<open>
  File names of the spool directory: \<open>segmentFilename\<close>, \<open>stateFilename\<close> and
  \<open>parseSegmentFilename\<close> of \<open>wal.go\<close>, and \<open>activeFilename\<close>, \<open>parseActiveFilename\<close> of the
  legacy store in \<open>spool.go\<close>. Recovery finds the segments by their names alone, so parsing
  must give back the number a name was made from and no other file may pass for a segment.
\<close>

definition walSegmentPrefix :: string where "walSegmentPrefix = ''segment-''"
definition walSegmentSuffix :: string where "walSegmentSuffix = ''.wal''"
definition walStateSuffix :: string where "walStateSuffix = ''.state''"
definition recordSuffix :: string where "recordSuffix = ''.wal''"
definition filenameWidth :: nat where "filenameWidth = 20"
definition attemptWidth :: nat where "attemptWidth = 5"

definition segmentFilename :: "u64 \<Rightarrow> string" where
  "segmentFilename i = walSegmentPrefix @ padded 20 (unat i) @ walSegmentSuffix"

definition stateFilename :: "u64 \<Rightarrow> string" where
  "stateFilename i = walSegmentPrefix @ padded 20 (unat i) @ walStateSuffix"

definition parseSegmentFilename :: "string \<Rightarrow> string \<Rightarrow> u64 option" where
  "parseSegmentFilename filename suffix =
     (if \<not> has_prefix filename walSegmentPrefix \<or> \<not> has_suffix filename suffix then None
      else
        let raw = trim_suffix (trim_prefix filename walSegmentPrefix) suffix
        in if length raw \<noteq> filenameWidth then None
           else case parse_uint raw of
             None \<Rightarrow> None
           | Some n \<Rightarrow> if n > 0 then Some (of_nat n) else None)"

text \<open>Names of the legacy store: \<open>%020d-%05d.wal\<close>, with identifier and attempt count.\<close>

definition activeFilename :: "u64 \<Rightarrow> nat \<Rightarrow> string" where
  "activeFilename i attempts =
     padded filenameWidth (unat i) @ ''-'' @ padded attemptWidth attempts @ recordSuffix"

text \<open>
  \<open>strconv.Atoi\<close> on the five characters of the attempt field: an optional sign, then
  digits. The identifier goes through \<open>ParseUint\<close>, which takes no sign.
\<close>

definition parse_atoi :: "string \<Rightarrow> int option" where
  "parse_atoi s =
     (case s of
        [] \<Rightarrow> None
      | c # cs \<Rightarrow>
          let (neg, ds) = (if c = CHR ''-'' then (True, cs) else if c = CHR ''+'' then (False, cs)
                           else (False, s))
          in case parse_uint ds of
               None \<Rightarrow> None
             | Some n \<Rightarrow> if neg then (if n \<le> 2 ^ 63 then Some (- int n) else None)
                         else if n < 2 ^ 63 then Some (int n) else None)"

definition parseActiveFilename :: "string \<Rightarrow> (u64 \<times> int) option" where
  "parseActiveFilename filename =
     (if \<not> has_suffix filename recordSuffix then None
      else
        case split_on CHR ''-'' (trim_suffix filename recordSuffix) of
          [a, b] \<Rightarrow>
            if length a \<noteq> filenameWidth \<or> length b \<noteq> attemptWidth then None
            else (case (parse_uint a, parse_atoi b) of
                    (Some i, Some n) \<Rightarrow> if i > 0 then Some (of_nat i, n) else None
                  | _ \<Rightarrow> None)
        | _ \<Rightarrow> None)"

section \<open>Round trips\<close>

lemma unat_u64_bound: "unat (i :: u64) < 10 ^ 20"
  using unsigned_less [of i, where ?'a = nat] by simp

lemma unat_u64_lt: "unat (i :: u64) < 2 ^ 64"
  using unsigned_less [of i, where ?'a = nat] by simp

lemma length_padded_u64 [simp]: "length (padded 20 (unat (i :: u64))) = 20"
  by (rule length_padded [OF unat_u64_bound]) simp

lemma parseSegmentFilename_padded:
  "i \<noteq> 0 \<Longrightarrow> parseSegmentFilename (walSegmentPrefix @ padded 20 (unat i) @ suffix) suffix = Some i"
  using unat_u64_lt [of i]
  by (simp add: parseSegmentFilename_def filenameWidth_def append_assoc [symmetric]
      del: append_assoc)
    (simp add: unat_gt_0)

lemma parse_segmentFilename:
  "i \<noteq> 0 \<Longrightarrow> parseSegmentFilename (segmentFilename i) walSegmentSuffix = Some i"
  unfolding segmentFilename_def by (rule parseSegmentFilename_padded)

lemma parse_stateFilename:
  "i \<noteq> 0 \<Longrightarrow> parseSegmentFilename (stateFilename i) walStateSuffix = Some i"
  unfolding stateFilename_def by (rule parseSegmentFilename_padded)

lemma padded_u64_inject [simp]: "padded 20 (unat (i :: u64)) = padded 20 (unat j) \<longleftrightarrow> i = j"
proof
  assume "padded 20 (unat i) = padded 20 (unat j)"
  then have "parse_uint (padded 20 (unat i)) = parse_uint (padded 20 (unat j))" by simp
  then show "i = j" using unat_u64_lt [of i] unat_u64_lt [of j] by (simp add: word_unat_eq_iff)
qed simp

lemma segmentFilename_inject [simp]: "segmentFilename i = segmentFilename j \<longleftrightarrow> i = j"
  by (simp add: segmentFilename_def)

lemma stateFilename_inject [simp]: "stateFilename i = stateFilename j \<longleftrightarrow> i = j"
  by (simp add: stateFilename_def)

text \<open>Only the name of a segment parses as one.\<close>

lemma parseSegmentFilename_Some:
  assumes "parseSegmentFilename name suffix = Some i" "length suffix \<le> 20"
  shows "name = walSegmentPrefix @ padded 20 (unat i) @ suffix" "i \<noteq> 0"
proof -
  let ?raw = "trim_suffix (trim_prefix name walSegmentPrefix) suffix"
  have pre: "has_prefix name walSegmentPrefix" and suf: "has_suffix name suffix"
    and len: "length ?raw = 20"
    using assms(1)
    by (auto simp: parseSegmentFilename_def filenameWidth_def Let_def split: if_splits)
  obtain n where n: "parse_uint ?raw = Some n" "n > 0" "i = of_nat n"
    using assms(1) len pre suf
    by (auto simp: parseSegmentFilename_def filenameWidth_def Let_def split: option.splits if_splits)
  have dig: "list_all is_digit ?raw" "digits_val ?raw = n" "n < 2 ^ 64"
    using n(1) by (auto simp: parse_uint_def not_le split: if_splits)
  have un: "unat i = n" using n(3) dig(3) by (simp add: unat_of_nat)
  have "padded (length ?raw) (digits_val ?raw) = ?raw"
    by (rule padded_digits_val [OF dig(1)]) (use len in auto)
  then have "padded 20 n = ?raw" using dig(2) len by simp
  moreover have "name = walSegmentPrefix @ trim_prefix name walSegmentPrefix"
    using pre by (rule has_prefix_split)
  moreover have "trim_prefix name walSegmentPrefix = ?raw @ suffix"
  proof (rule has_suffix_split, rule ccontr)
    let ?t = "trim_prefix name walSegmentPrefix"
    assume no: "\<not> has_suffix ?t suffix"
    then have t: "length ?t = 20" using len by (simp add: trim_suffix_def)
    have "name = walSegmentPrefix @ ?t" using pre by (rule has_prefix_split)
    moreover have "length suffix \<le> length ?t" using t assms(2) by simp
    ultimately show False using no suf has_suffix_append_left by metis
  qed
  ultimately show "name = walSegmentPrefix @ padded 20 (unat i) @ suffix" using un by simp
  show "i \<noteq> 0" using n(2) un by auto
qed

end
