(* ===== verification/Disk.thy ===== *)
theory Disk
  imports Go_Lib
begin

text \<open>
  The file system as the spool uses it (packages \<open>os\<close> and \<open>io\<close>): one directory of named
  files, each with its contents and the length that has reached stable storage. Every
  fallible call consumes one outcome of a script, so a theorem that quantifies over scripts
  covers every combination of failed calls; an exhausted script means success. A failed
  write may leave any prefix of its bytes in the file; every other failed call has no
  effect. Files are append-only or replaced by rename, as in the code.

  A crash keeps, of each file, the synced prefix and any prefix of what follows it.
  Directory operations (create, rename, remove) are taken to be durable at once.
\<close>

datatype io = IoOk | IoFail nat

record fs_file =
  contents :: bytes
  synced :: nat

record world =
  disk :: "fs_file gomap"
  script :: "io list"

abbreviation lookup_file :: "world \<Rightarrow> string \<Rightarrow> fs_file option" where
  "lookup_file w name \<equiv> map_of (disk w) name"

definition next_io :: "world \<Rightarrow> io \<times> world" where
  "next_io w = (case script w of [] \<Rightarrow> (IoOk, w) | r # rs \<Rightarrow> (r, w\<lparr>script := rs\<rparr>))"

lemma next_io_disk [simp]: "disk (snd (next_io w)) = disk w"
  by (simp add: next_io_def split: list.splits)

lemma next_io_noscript [simp]: "script w = [] \<Longrightarrow> next_io w = (IoOk, w)"
  by (simp add: next_io_def)

definition put_file :: "string \<Rightarrow> fs_file \<Rightarrow> world \<Rightarrow> world" where
  "put_file name f w = w\<lparr>disk := AList.update name f (disk w)\<rparr>"

definition drop_file :: "string \<Rightarrow> world \<Rightarrow> world" where
  "drop_file name w = w\<lparr>disk := AList.delete name (disk w)\<rparr>"

lemma lookup_put_file [simp]:
  "lookup_file (put_file name f w) name' = (if name' = name then Some f else lookup_file w name')"
  by (simp add: put_file_def)

lemma lookup_drop_file [simp]:
  "lookup_file (drop_file name w) name' = (if name' = name then None else lookup_file w name')"
  by (simp add: drop_file_def)

lemma script_put_file [simp]: "script (put_file name f w) = script w"
  by (simp add: put_file_def)

lemma script_drop_file [simp]: "script (drop_file name w) = script w"
  by (simp add: drop_file_def)

section \<open>Calls\<close>

text \<open>\<open>File.Write\<close> on a file opened with \<open>O_APPEND\<close>: the number of bytes written and
  whether the call succeeded. A handle of a file that is gone writes to nothing.\<close>

definition append_file :: "string \<Rightarrow> bytes \<Rightarrow> world \<Rightarrow> world" where
  "append_file name bs w = (case lookup_file w name of
     None \<Rightarrow> w
   | Some f \<Rightarrow> put_file name (f\<lparr>contents := contents f @ bs\<rparr>) w)"

lemma script_append_file [simp]: "script (append_file name bs w) = script w"
  by (simp add: append_file_def split: option.split)

definition os_write :: "string \<Rightarrow> bytes \<Rightarrow> world \<Rightarrow> (nat \<times> bool) \<times> world" where
  "os_write name bs w = (case next_io w of
     (IoOk, w') \<Rightarrow> ((length bs, True), append_file name bs w')
   | (IoFail n, w') \<Rightarrow> ((min n (length bs), False), append_file name (take n bs) w'))"

definition os_sync :: "string \<Rightarrow> world \<Rightarrow> bool \<times> world" where
  "os_sync name w = (case next_io w of
     (IoOk, w') \<Rightarrow> (True, case lookup_file w' name of
         None \<Rightarrow> w'
       | Some f \<Rightarrow> put_file name (f\<lparr>synced := length (contents f)\<rparr>) w')
   | (IoFail _, w') \<Rightarrow> (False, w'))"

text \<open>\<open>os.OpenFile\<close> with \<open>O_CREATE|O_EXCL\<close>.\<close>

definition os_create_excl :: "string \<Rightarrow> world \<Rightarrow> bool \<times> world" where
  "os_create_excl name w = (case next_io w of
     (IoOk, w') \<Rightarrow> (case lookup_file w' name of
         None \<Rightarrow> (True, put_file name \<lparr>contents = [], synced = 0\<rparr> w')
       | Some _ \<Rightarrow> (False, w'))
   | (IoFail _, w') \<Rightarrow> (False, w'))"

text \<open>\<open>os.OpenFile\<close> on a file that must exist.\<close>

definition os_open :: "string \<Rightarrow> world \<Rightarrow> bool \<times> world" where
  "os_open name w = (case next_io w of
     (IoOk, w') \<Rightarrow> (lookup_file w' name \<noteq> None, w')
   | (IoFail _, w') \<Rightarrow> (False, w'))"

definition os_close :: "world \<Rightarrow> bool \<times> world" where
  "os_close w = (case next_io w of (r, w') \<Rightarrow> (r = IoOk, w'))"

definition os_rename :: "string \<Rightarrow> string \<Rightarrow> world \<Rightarrow> bool \<times> world" where
  "os_rename old new w = (case next_io w of
     (IoOk, w') \<Rightarrow> (case lookup_file w' old of
         None \<Rightarrow> (False, w')
       | Some f \<Rightarrow> (True, put_file new f (drop_file old w')))
   | (IoFail _, w') \<Rightarrow> (False, w'))"

datatype remove_result = Removed | RemoveNotExist | RemoveError

definition os_remove :: "string \<Rightarrow> world \<Rightarrow> remove_result \<times> world" where
  "os_remove name w = (case next_io w of
     (IoOk, w') \<Rightarrow> (case lookup_file w' name of
         None \<Rightarrow> (RemoveNotExist, w')
       | Some _ \<Rightarrow> (Removed, drop_file name w'))
   | (IoFail _, w') \<Rightarrow> (RemoveError, w'))"

definition os_truncate :: "string \<Rightarrow> nat \<Rightarrow> world \<Rightarrow> bool \<times> world" where
  "os_truncate name n w = (case next_io w of
     (IoOk, w') \<Rightarrow> (True, case lookup_file w' name of
         None \<Rightarrow> w'
       | Some f \<Rightarrow> put_file name
           (f\<lparr>contents := take n (contents f), synced := min n (synced f)\<rparr>) w')
   | (IoFail _, w') \<Rightarrow> (False, w'))"

datatype read_result = ReadOk bytes | ReadNotExist | ReadError

definition os_read_file :: "string \<Rightarrow> world \<Rightarrow> read_result \<times> world" where
  "os_read_file name w = (case next_io w of
     (IoOk, w') \<Rightarrow> (case lookup_file w' name of
         None \<Rightarrow> (ReadNotExist, w')
       | Some f \<Rightarrow> (ReadOk (contents f), w'))
   | (IoFail _, w') \<Rightarrow> (ReadError, w'))"

text \<open>\<open>os.ReadDir\<close>: the entries of the spool directory, sorted by name, each with whether it
  is a directory. A file of a subdirectory is named by its path; an empty subdirectory is
  not represented.\<close>

definition top_entry :: "string \<Rightarrow> string \<times> bool" where
  "top_entry name = (takeWhile (\<lambda>c. c \<noteq> CHR ''/'') name, CHR ''/'' \<in> set name)"

definition os_read_dir :: "world \<Rightarrow> (string \<times> bool) list option \<times> world" where
  "os_read_dir w = (case next_io w of
     (IoOk, w') \<Rightarrow> (Some (sort_key fst (remdups (List.map top_entry (keys (disk w'))))), w')
   | (IoFail _, w') \<Rightarrow> (None, w'))"

definition os_read_subdir :: "string \<Rightarrow> world \<Rightarrow> string list option \<times> world" where
  "os_read_subdir dir w = (case next_io w of
     (IoOk, w') \<Rightarrow>
       (Some (sort (List.map (drop (length dir + 1))
          (filter (\<lambda>name. has_prefix name (dir @ ''/'')) (keys (disk w'))))), w')
   | (IoFail _, w') \<Rightarrow> (None, w'))"

text \<open>A call that changes nothing the model represents: \<open>os.MkdirAll\<close>, \<open>os.Chmod\<close>.\<close>

definition os_call :: "world \<Rightarrow> bool \<times> world" where
  "os_call w = (case next_io w of (r, w') \<Rightarrow> (r = IoOk, w'))"

definition sync_directory :: "world \<Rightarrow> bool \<times> world" where
  "sync_directory w =
     (let (opened, w1) = os_close w
      in if \<not> opened then (False, w1) else os_close w1)"

text \<open>\<open>File.Stat().Size()\<close>.\<close>

definition os_stat_size :: "string \<Rightarrow> world \<Rightarrow> nat option \<times> world" where
  "os_stat_size name w = (case next_io w of
     (IoOk, w') \<Rightarrow> (map_option (\<lambda>f. length (contents f)) (lookup_file w' name), w')
   | (IoFail _, w') \<Rightarrow> (None, w'))"

text \<open>\<open>File.ReadAt\<close> into a zeroed buffer of \<open>n\<close> bytes, a read that ends at the end of the file
  being accepted.\<close>

definition os_read_at :: "string \<Rightarrow> int \<Rightarrow> int \<Rightarrow> world \<Rightarrow> bytes option \<times> world" where
  "os_read_at name n offset w = (case next_io w of
     (IoOk, w') \<Rightarrow>
       (map_option (\<lambda>f. let got = slice (nat offset) (nat offset + nat n) (contents f)
                       in got @ replicate (nat n - length got) 0) (lookup_file w' name), w')
   | (IoFail _, w') \<Rightarrow> (None, w'))"

section \<open>Crashes\<close>

definition cut_file :: "fs_file \<Rightarrow> fs_file \<Rightarrow> bool" where
  "cut_file f f' \<longleftrightarrow> (\<exists>k. synced f \<le> k \<and> k \<le> length (contents f)
     \<and> f' = \<lparr>contents = take k (contents f), synced = k\<rparr>)"

definition crash :: "world \<Rightarrow> world \<Rightarrow> bool" where
  "crash w w' \<longleftrightarrow> keys (disk w') = keys (disk w)
     \<and> (\<forall>name f'. lookup_file w' name = Some f' \<longrightarrow>
          (\<exists>f. lookup_file w name = Some f \<and> cut_file f f'))"

definition sane_files :: "world \<Rightarrow> bool" where
  "sane_files w \<longleftrightarrow> distinct (keys (disk w))
     \<and> (\<forall>name f. lookup_file w name = Some f \<longrightarrow> synced f \<le> length (contents f))"

text \<open>A file all of whose bytes are synced survives a crash unchanged.\<close>

lemma crash_lookup_iff: "crash w w' \<Longrightarrow> lookup_file w' name = None \<longleftrightarrow> lookup_file w name = None"
  by (simp add: crash_def map_of_eq_None_iff set_map [symmetric] del: set_map)

lemma crash_cut:
  assumes "crash w w'" "lookup_file w name = Some f"
  obtains k where "synced f \<le> k" "k \<le> length (contents f)"
    "lookup_file w' name = Some \<lparr>contents = take k (contents f), synced = k\<rparr>"
proof -
  obtain f' where f': "lookup_file w' name = Some f'"
    using crash_lookup_iff [OF assms(1), of name] assms(2) by fastforce
  then have "cut_file f f'" using assms unfolding crash_def by fastforce
  then show ?thesis using f' that by (auto simp: cut_file_def)
qed

lemma crash_synced:
  assumes "crash w w'" "lookup_file w name = Some f" "synced f = length (contents f)"
  shows "lookup_file w' name = Some f"
proof -
  obtain k where "synced f \<le> k" "k \<le> length (contents f)"
    "lookup_file w' name = Some \<lparr>contents = take k (contents f), synced = k\<rparr>"
    using crash_cut [OF assms(1,2)] .
  then show ?thesis using assms(3) by (cases f) simp
qed

end
