(* ===== verification/Wal_Core.thy ===== *)
theory Wal_Core
  imports Wal_Format Wal_Names Disk
begin

text \<open>
  The state of the write-ahead log (type \<open>WAL\<close> of \<open>wal.go\<close>) and the operations that run
  under its locks: creating and rotating segments, compaction, the group commit, the
  preparation of append requests, and the reads. A pointer to a segment is its identifier;
  a file handle is a flag that says whether it is open. Sizes and counters are unbounded
  integers (Go's \<open>int64\<close>, never near its bounds), identifiers are 64-bit words.

  Calls of the observer are kept in a log of events, without their durations. The clock is
  an input: each append request carries the reading taken when its record is built, and
  \<open>w_now\<close> is the reading used for the header of a new segment.
\<close>

section \<open>State\<close>

record walConfig =
  cfg_Directory :: string
  cfg_MaxBytes :: int
  cfg_SegmentBytes :: int
  cfg_MaxBatchRecords :: int
  cfg_MaxFlushInterval :: int
  cfg_AppendQueueSize :: int
  cfg_MaxRecordAttempts :: int

record walRecordMetadata =
  md_segmentID :: u64
  md_offset :: int
  md_frameSize :: int
  md_attempts :: nat

record walSegment =
  seg_id :: u64
  seg_path :: string
  seg_statePath :: string
  seg_file :: bool
  seg_stateFile :: bool
  seg_size :: int
  seg_stateSize :: int
  seg_recordIDs :: "u64 list"
  seg_activeRecords :: int
  seg_quarantinedRecords :: int
  seg_closed :: bool

datatype corruption =
    PartialHeader
  | BadFormat format_error
  | PayloadChecksum
  | DuplicateSequence
  | InvalidCommitMarker
  | IncompleteTail
  | DuplicateSegment
  | RecordUnreadable

datatype spool_error =
    ErrFull
  | ErrBusy
  | ErrCorruptRecord
  | ErrCorruptWAL corruption
  | ErrLegacySpool
  | ErrClosedStorage
  | ErrContext
  | ErrFormat format_error
  | ErrIO string
  | ErrRetryCount u64
  | ErrUnavailableSegment
  | ErrConfig
  | NilDereference

datatype wal_event =
    SetWALUsage int nat nat int
  | ObserveWALSync
  | ObserveWALGroupCommit nat
  | ObserveWALCompaction nat
  | RecordWALCorruption
  | RecordWALDiskFullRejection nat

text \<open>A request names the channel its result goes to by a tag.\<close>

record walAppendRequest =
  rq_tag :: nat
  rq_envelope :: envelope
  rq_now :: int

record walAppendResult =
  ar_record :: "spool_record option"
  ar_err :: "spool_error option"

record preparedWALRecord =
  pr_tag :: nat
  pr_record :: spool_record
  pr_frame :: bytes

record WAL =
  w_config :: walConfig
  w_closed :: bool
  w_fault :: "spool_error option"
  w_nextID :: u64
  w_nextSegmentID :: u64
  w_current :: u64
  w_segments :: "u64 \<rightharpoonup> walSegment"
  w_segmentIDs :: "u64 list"
  w_active :: "u64 \<rightharpoonup> walRecordMetadata"
  w_ids :: "u64 list"
  w_usedBytes :: int
  w_reservedBytes :: int
  w_quarantined :: int
  w_appendQueue :: "walAppendRequest list"
  w_compact :: bool
  w_events :: "wal_event list"
  w_now :: int
  w_world :: world

definition observe :: "wal_event \<Rightarrow> WAL \<Rightarrow> WAL" where
  "observe e w = w\<lparr>w_events := w_events w @ [e]\<rparr>"

definition observeUsageLocked :: "WAL \<Rightarrow> WAL" where
  "observeUsageLocked w =
     observe (SetWALUsage (w_usedBytes w) (card (dom (w_segments w))) (card (dom (w_active w)))
        (w_quarantined w)) w"

text \<open>A call of the operating system on behalf of the log.\<close>

definition lift_io :: "(world \<Rightarrow> 'a \<times> world) \<Rightarrow> WAL \<Rightarrow> 'a \<times> WAL" where
  "lift_io f w = (let (r, fs) = f (w_world w) in (r, w\<lparr>w_world := fs\<rparr>))"

text \<open>An assignment through a segment pointer.\<close>

definition upd_segment :: "u64 \<Rightarrow> (walSegment \<Rightarrow> walSegment) \<Rightarrow> WAL \<Rightarrow> WAL" where
  "upd_segment i f w = w\<lparr>w_segments := (w_segments w)(i := map_option f (w_segments w i))\<rparr>"

section \<open>Creating segments\<close>

definition tmp_name :: "string \<Rightarrow> string" where
  "tmp_name path = path @ ''.tmp''"

text \<open>\<open>createSegment\<close>: both files are written and synced under temporary names, renamed,
  and the directory synced, before they are opened for appending.\<close>

definition create_cleanup :: "u64 \<Rightarrow> world \<Rightarrow> world" where
  "create_cleanup i fs =
     snd (os_remove (tmp_name (stateFilename i))
       (snd (os_remove (tmp_name (segmentFilename i)) (snd (os_close fs)))))"

definition createSegment :: "u64 \<Rightarrow> int \<Rightarrow> world \<Rightarrow> (spool_error + walSegment) \<times> world" where
  "createSegment i now fs0 =
     (let path = segmentFilename i; statePath = stateFilename i;
          tmp = tmp_name path; stmp = tmp_name statePath;
          (ok, fs) = os_create_excl tmp fs0
      in if \<not> ok then (Inl (ErrIO ''create WAL segment''), fs)
      else let ((_, ok), fs) = os_write tmp (encodeWALSegmentHeader i now) fs
      in if \<not> ok then (Inl (ErrIO ''write segment header''), create_cleanup i fs)
      else let (ok, fs) = os_sync tmp fs
      in if \<not> ok then (Inl (ErrIO ''sync segment header''), create_cleanup i fs)
      else let (ok, fs) = os_close fs
      in if \<not> ok then (Inl (ErrIO ''close segment''), create_cleanup i fs)
      else let (ok, fs) = os_create_excl stmp fs
      in if \<not> ok then (Inl (ErrIO ''create checkpoint''), create_cleanup i fs)
      else let ((_, ok), fs) = os_write stmp (encodeWALStateHeader i) fs
      in if \<not> ok then (Inl (ErrIO ''write checkpoint header''), create_cleanup i (snd (os_close fs)))
      else let (ok, fs) = os_sync stmp fs
      in if \<not> ok then (Inl (ErrIO ''sync checkpoint header''), create_cleanup i (snd (os_close fs)))
      else let (ok, fs) = os_close fs
      in if \<not> ok then (Inl (ErrIO ''close checkpoint''), create_cleanup i fs)
      else let (ok, fs) = os_rename tmp path fs
      in if \<not> ok then (Inl (ErrIO ''rename segment''), create_cleanup i fs)
      else let (ok, fs) = os_rename stmp statePath fs
      in if \<not> ok then (Inl (ErrIO ''rename checkpoint''), fs)
      else let (ok, fs) = sync_directory fs
      in if \<not> ok then (Inl (ErrIO ''sync directory''), fs)
      else let (ok, fs) = os_open path fs
      in if \<not> ok then (Inl (ErrIO ''open segment''), fs)
      else let (ok, fs) = os_open statePath fs
      in if \<not> ok then (Inl (ErrIO ''open checkpoint''), snd (os_close fs))
      else (Inr \<lparr>seg_id = i, seg_path = path, seg_statePath = statePath,
                 seg_file = True, seg_stateFile = True,
                 seg_size = int walSegmentHeaderSize, seg_stateSize = int walStateHeaderSize,
                 seg_recordIDs = [], seg_activeRecords = 0, seg_quarantinedRecords = 0,
                 seg_closed = False\<rparr>, fs))"

definition installSegment :: "walSegment \<Rightarrow> WAL \<Rightarrow> WAL" where
  "installSegment s w =
     w\<lparr>w_segments := (w_segments w)(seg_id s \<mapsto> s),
       w_segmentIDs := w_segmentIDs w @ [seg_id s],
       w_usedBytes := w_usedBytes w + seg_size s + seg_stateSize s,
       w_nextSegmentID := (if seg_id s \<ge> w_nextSegmentID w then seg_id s + 1
                           else w_nextSegmentID w)\<rparr>"

text \<open>\<open>rotateLocked\<close>: the current segment is closed for appending and a fresh one takes
  its place.\<close>

definition rotateLocked :: "WAL \<Rightarrow> spool_error option \<times> WAL" where
  "rotateLocked w =
     (case lift_io (createSegment (w_nextSegmentID w) (w_now w)) w of
        (Inl e, w1) \<Rightarrow> (Some e, w1)
      | (Inr s, w1) \<Rightarrow>
          (case w_segments w1 (w_current w1) of
             None \<Rightarrow> (Some NilDereference, w1)
           | Some cur \<Rightarrow>
               let (closed, w2) = (if seg_file cur then lift_io os_close w1 else (True, w1))
               in if \<not> closed
                  then (Some (ErrIO ''close segment''),
                        snd (lift_io os_close (snd (lift_io os_close w2))))
                  else (None, (installSegment s
                          (upd_segment (w_current w2) (\<lambda>c. c\<lparr>seg_file := False, seg_closed := True\<rparr>) w2))
                          \<lparr>w_current := seg_id s\<rparr>)))"

section \<open>Compaction\<close>

text \<open>
  \<open>compactSegmentsLocked\<close> deletes the segments that are closed and have neither active nor
  quarantined records. A failed call marks the log as faulty and keeps the segment.
\<close>

definition removable :: "WAL \<Rightarrow> u64 \<Rightarrow> walSegment \<Rightarrow> bool" where
  "removable w i s \<longleftrightarrow> \<not> (i = w_current w \<or> \<not> seg_closed s \<or> seg_activeRecords s > 0
     \<or> seg_quarantinedRecords s > 0)"

text \<open>The body of the loop for one removable segment: whether it was removed.\<close>

definition remove_segment :: "u64 \<Rightarrow> walSegment \<Rightarrow> WAL \<Rightarrow> bool \<times> WAL" where
  "remove_segment i s w =
     (let (closed, w1) = (if seg_stateFile s then lift_io os_close w else (True, w))
      in if \<not> closed then (False, w1\<lparr>w_fault := Some (ErrIO ''close checkpoint'')\<rparr>)
      else let w2 = upd_segment i (\<lambda>c. c\<lparr>seg_stateFile := False\<rparr>) w1;
               (r, w3) = lift_io (os_remove (seg_path s)) w2
      in if r = RemoveError then (False, w3\<lparr>w_fault := Some (ErrIO ''remove segment'')\<rparr>)
      else let (r, w4) = lift_io (os_remove (seg_statePath s)) w3
      in if r = RemoveError then (False, w4\<lparr>w_fault := Some (ErrIO ''remove checkpoint'')\<rparr>)
      else (True, w4\<lparr>w_usedBytes := w_usedBytes w4 - (seg_size s + seg_stateSize s),
                     w_segments := (w_segments w4)(i := None)\<rparr>))"

fun compact_loop :: "u64 list \<Rightarrow> nat \<Rightarrow> u64 list \<Rightarrow> WAL \<Rightarrow> nat \<times> u64 list \<times> WAL" where
  "compact_loop [] removed remaining w = (removed, remaining, w)"
| "compact_loop (i # is) removed remaining w =
     (case w_segments w i of
        None \<Rightarrow> (removed, remaining @ i # is, w\<lparr>w_fault := Some NilDereference\<rparr>)
      | Some s \<Rightarrow>
          if \<not> removable w i s then compact_loop is removed (remaining @ [i]) w
          else (case remove_segment i s w of
                  (True, w') \<Rightarrow> compact_loop is (Suc removed) remaining w'
                | (False, w') \<Rightarrow> compact_loop is removed (remaining @ [i]) w'))"

definition compactSegmentsLocked :: "WAL \<Rightarrow> nat \<times> WAL" where
  "compactSegmentsLocked w =
     (let (removed, remaining, w1) = compact_loop (w_segmentIDs w) 0 [] w;
          w2 = w1\<lparr>w_segmentIDs := remaining\<rparr>
      in if removed > 0
         then (let (ok, w3) = lift_io sync_directory w2;
                   w4 = (if ok then w3 else w3\<lparr>w_fault := Some (ErrIO ''sync directory'')\<rparr>)
               in (removed, observeUsageLocked w4))
         else (removed, w2))"

definition compactSegments :: "WAL \<Rightarrow> WAL" where
  "compactSegments w =
     (let (removed, w1) = compactSegmentsLocked w
      in if removed > 0 then observe (ObserveWALCompaction removed) w1 else w1)"

section \<open>Group commit\<close>

definition group_data :: "preparedWALRecord list \<Rightarrow> bytes" where
  "group_data records = concat (List.map pr_frame records)"

definition group_commit :: "preparedWALRecord list \<Rightarrow> walCommit" where
  "group_commit records =
     \<lparr>firstID = RecordID (pr_record (hd records)), lastID = RecordID (pr_record (last records)),
      cm_count = of_nat (length records), dataBytes = of_nat (length (group_data records)),
      cm_checksum = crc32 (group_data records)\<rparr>"

definition encode_group :: "preparedWALRecord list \<Rightarrow> bytes" where
  "encode_group records = group_data records @ encodeWALCommitFrame (group_commit records)"

text \<open>The bookkeeping for each record of a committed group.\<close>

fun install_records :: "preparedWALRecord list \<Rightarrow> int \<Rightarrow> WAL \<Rightarrow> WAL" where
  "install_records [] offset w = w"
| "install_records (p # ps) offset w =
     (let i = RecordID (pr_record p);
          md = \<lparr>md_segmentID = w_current w, md_offset = offset,
                md_frameSize = int (length (pr_frame p)), md_attempts = 0\<rparr>;
          w1 = w\<lparr>w_active := (w_active w)(i \<mapsto> md), w_ids := w_ids w @ [i],
                 w_reservedBytes := w_reservedBytes w
                   + cfg_MaxRecordAttempts (w_config w) * int walStateEntrySize\<rparr>
      in install_records ps (offset + int (length (pr_frame p)))
           (upd_segment (w_current w) (\<lambda>c. c\<lparr>seg_recordIDs := seg_recordIDs c @ [i],
               seg_activeRecords := seg_activeRecords c + 1\<rparr>) w1))"

text \<open>The second half of \<open>commitGroup\<close>: write, sync, bookkeeping.\<close>

definition write_group :: "preparedWALRecord list \<Rightarrow> bytes \<Rightarrow> WAL \<Rightarrow> spool_error option \<times> WAL" where
  "write_group records encoded w =
     (case w_segments w (w_current w) of
        None \<Rightarrow> (Some NilDereference, w)
      | Some cur \<Rightarrow>
          let offset = seg_size cur;
              ((written, ok), w1) = lift_io (os_write (seg_path cur) encoded) w;
              w2 = (upd_segment (w_current w1) (\<lambda>c. c\<lparr>seg_size := seg_size c + int written\<rparr>) w1)
                     \<lparr>w_usedBytes := w_usedBytes w1 + int written\<rparr>
          in if \<not> ok \<or> written \<noteq> length encoded
             then (Some (ErrIO ''append WAL group''),
                   observeUsageLocked (w2\<lparr>w_fault := Some (ErrIO ''append WAL group'')\<rparr>))
          else let (synced, w3) = lift_io (os_sync (seg_path cur)) w2
          in if \<not> synced
             then (Some (ErrIO ''sync WAL group''),
                   observeUsageLocked (w3\<lparr>w_fault := Some (ErrIO ''sync WAL group'')\<rparr>))
          else let w4 = observe (ObserveWALGroupCommit (length records)) (observe ObserveWALSync w3)
          in (None, observeUsageLocked (install_records records offset w4)))"

definition needs_rotation :: "nat \<Rightarrow> walSegment \<Rightarrow> WAL \<Rightarrow> bool" where
  "needs_rotation len cur w \<longleftrightarrow>
     seg_size cur > int walSegmentHeaderSize
     \<and> seg_size cur + int len > cfg_SegmentBytes (w_config w)"

text \<open>The size the log would have after the group, with every checkpoint entry its records
  may still need, and with what a rotation adds and frees.\<close>

definition projected_bytes :: "nat \<Rightarrow> nat \<Rightarrow> walSegment \<Rightarrow> WAL \<Rightarrow> int" where
  "projected_bytes n len cur w =
     (let newReserve = int n * cfg_MaxRecordAttempts (w_config w) * int walStateEntrySize;
          projected = w_usedBytes w + w_reservedBytes w + int len + newReserve
      in if needs_rotation len cur w
         then (let projected = projected + int walSegmentHeaderSize + int walStateHeaderSize
               in if seg_activeRecords cur = 0 \<and> seg_quarantinedRecords cur = 0
                  then projected - (seg_size cur + seg_stateSize cur) else projected)
         else projected)"

definition commitGroup :: "preparedWALRecord list \<Rightarrow> WAL \<Rightarrow> spool_error option \<times> WAL" where
  "commitGroup records w =
     (let encoded = encode_group records
      in case w_fault w of
        Some e \<Rightarrow> (Some e, w)
      | None \<Rightarrow>
          (case w_segments w (w_current w) of
             None \<Rightarrow> (Some NilDereference, w)
           | Some cur \<Rightarrow>
               if projected_bytes (length records) (length encoded) cur w
                    > cfg_MaxBytes (w_config w)
               then (Some ErrFull, observe (RecordWALDiskFullRejection (length records)) w)
               else if needs_rotation (length encoded) cur w
               then (case rotateLocked w of
                       (Some e, w1) \<Rightarrow> (Some e, w1\<lparr>w_fault := Some e\<rparr>)
                     | (None, w1) \<Rightarrow> write_group records encoded (snd (compactSegmentsLocked w1)))
               else write_group records encoded w))"

section \<open>Append requests\<close>

text \<open>
  \<open>processAppendRequests\<close>: identifiers are taken in order, frames collected, and a group is
  committed before it would outgrow a segment. The loop's local state is the group prepared
  so far and its size; the replies are the values sent on the requests' channels.
\<close>

type_synonym replies = "(nat \<times> walAppendResult) list"

definition flush_group ::
  "preparedWALRecord list \<Rightarrow> WAL \<Rightarrow> spool_error option \<times> replies \<times> WAL" where
  "flush_group prepared w =
     (if prepared = [] then (None, [], w)
      else case commitGroup prepared w of
        (err, w') \<Rightarrow>
          (err, List.map (\<lambda>p. (pr_tag p, \<lparr>ar_record = Some (pr_record p), ar_err = err\<rparr>)) prepared, w'))"

fun process_loop :: "codec \<Rightarrow> walAppendRequest list \<Rightarrow> preparedWALRecord list \<Rightarrow> int
    \<Rightarrow> WAL \<Rightarrow> replies \<times> WAL" where
  "process_loop js [] prepared preparedBytes w =
     (case flush_group prepared w of (_, out, w') \<Rightarrow> (out, w'))"
| "process_loop js (rq # rqs) prepared preparedBytes w =
     (let i = w_nextID w;
          w1 = w\<lparr>w_nextID := w_nextID w + 1\<rparr>;
          r = \<lparr>RecordID = i, Attempts = 0, EnqueuedAt = rq_now rq, Envelope = rq_envelope rq\<rparr>
      in case encodeWALDataFrame js r of
        Inl e \<Rightarrow>
          (case process_loop js rqs prepared preparedBytes w1 of
             (out, w2) \<Rightarrow> ((rq_tag rq, \<lparr>ar_record = None, ar_err = Some (ErrFormat e)\<rparr>) # out, w2))
      | Inr frame \<Rightarrow>
          let overhead = int (walFrameHeaderSize + walCommitPayloadSize);
              p = \<lparr>pr_tag = rq_tag rq, pr_record = r, pr_frame = frame\<rparr>
          in if prepared \<noteq> [] \<and> preparedBytes + int (length frame) + overhead
                  > cfg_SegmentBytes (w_config w1)
             then (case flush_group prepared w1 of
                     (Some e, out, w2) \<Rightarrow>
                       (out @ List.map (\<lambda>q. (rq_tag q, \<lparr>ar_record = None, ar_err = Some e\<rparr>)) (rq # rqs), w2)
                   | (None, out, w2) \<Rightarrow>
                       (case process_loop js rqs [p] (int (length frame)) w2 of
                          (out', w3) \<Rightarrow> (out @ out', w3)))
             else process_loop js rqs (prepared @ [p]) (preparedBytes + int (length frame)) w1)"

definition processAppendRequests :: "codec \<Rightarrow> walAppendRequest list \<Rightarrow> WAL \<Rightarrow> replies \<times> WAL" where
  "processAppendRequests js requests w = process_loop js requests [] 0 w"

end
