(* ===== verification/Wal_State.thy ===== *)
theory Wal_State
  imports Wal_Core
begin

text \<open>
  Checkpoints (\<open>wal_state.go\<close>): acknowledging, retrying and quarantining records appends
  entries to the checkpoint files of the records' segments and then updates the log's
  tables and its reservation of disk space. The three operations share
  \<open>writeRecordStates\<close>.
\<close>

section \<open>The reservation\<close>

definition consumeReserveLocked :: "int \<Rightarrow> WAL \<Rightarrow> WAL" where
  "consumeReserveLocked n w =
     (let r = w_reservedBytes w - n in w\<lparr>w_reservedBytes := (if r < 0 then 0 else r)\<rparr>)"

definition remaining_attempts :: "walConfig \<Rightarrow> nat \<Rightarrow> int" where
  "remaining_attempts c attempts =
     (let remaining = cfg_MaxRecordAttempts c - int attempts
      in if remaining < 1 then 1 else remaining)"

definition releaseRecordReserveLocked :: "nat \<Rightarrow> WAL \<Rightarrow> WAL" where
  "releaseRecordReserveLocked attempts w =
     consumeReserveLocked (remaining_attempts (w_config w) attempts * int walStateEntrySize) w"

definition compactRecordIndexLocked :: "WAL \<Rightarrow> WAL" where
  "compactRecordIndexLocked w =
     (if length (w_ids w) < 1024 \<or> length (w_ids w) \<le> card (dom (w_active w)) * 2 then w
      else w\<lparr>w_ids := filter (\<lambda>i. w_active w i \<noteq> None) (w_ids w)\<rparr>)"

definition reconcileStateSize :: "u64 \<Rightarrow> walSegment \<Rightarrow> WAL \<Rightarrow> WAL" where
  "reconcileStateSize sid s w =
     (case lift_io (os_stat_size (seg_statePath s)) w of
        (None, w1) \<Rightarrow> w1
      | (Some n, w1) \<Rightarrow>
          (case w_segments w1 sid of
             None \<Rightarrow> w1
           | Some seg \<Rightarrow>
               let delta = int n - seg_stateSize seg
               in observeUsageLocked
                    ((upd_segment sid (\<lambda>c. c\<lparr>seg_stateSize := int n\<rparr>) w1)
                       \<lparr>w_usedBytes := w_usedBytes w1 + delta\<rparr>)))"

section \<open>Collecting the entries\<close>

text \<open>The entries of one call, per segment: Go's \<open>map[uint64]*segmentStateBatch\<close>.\<close>

type_synonym batches = "(u64 \<times> walStateEntry list) list"

definition add_entry :: "u64 \<Rightarrow> walStateEntry \<Rightarrow> batches \<Rightarrow> batches" where
  "add_entry sid e m =
     AList.update sid ((case map_of m sid of None \<Rightarrow> [] | Some es \<Rightarrow> es) @ [e]) m"

fun collect_entries :: "walStateKind \<Rightarrow> walStateReason \<Rightarrow> bool \<Rightarrow> WAL \<Rightarrow> spool_record list
    \<Rightarrow> batches \<Rightarrow> spool_error + batches" where
  "collect_entries kind reason inc w [] m = Inr m"
| "collect_entries kind reason inc w (r # rs) m =
     (case w_active w (RecordID r) of
        None \<Rightarrow> collect_entries kind reason inc w rs m
      | Some md \<Rightarrow>
          let attempts = (if inc then md_attempts md + 1 else md_attempts md)
          in if inc \<and> attempts > 99999 then Inl (ErrRetryCount (RecordID r))
             else collect_entries kind reason inc w rs
               (add_entry (md_segmentID md)
                  \<lparr>se_kind = kind, se_reason = reason, se_id = RecordID r,
                   se_attempts = of_nat attempts\<rparr> m))"

definition encode_entries :: "walStateEntry list \<Rightarrow> bytes" where
  "encode_entries es = concat (List.map encodeWALStateEntry es)"

lemma length_encode_entries [simp]: "length (encode_entries es) = length es * 24"
  by (induction es) (simp_all add: encode_entries_def)

section \<open>Writing and applying\<close>

text \<open>One batch: append to the checkpoint file of its segment and sync it.\<close>

definition write_batch :: "u64 \<Rightarrow> walStateEntry list \<Rightarrow> WAL \<Rightarrow> spool_error option \<times> WAL" where
  "write_batch sid es w =
     (case w_segments w sid of
        None \<Rightarrow> (Some ErrUnavailableSegment, w)
      | Some s \<Rightarrow>
          if \<not> seg_stateFile s then (Some ErrUnavailableSegment, w)
          else let encoded = encode_entries es;
                   ((written, ok), w1) = lift_io (os_write (seg_statePath s) encoded) w
          in if \<not> ok \<or> written \<noteq> length encoded
             then (Some (ErrIO ''append WAL checkpoint''), reconcileStateSize sid s w1)
          else let (synced, w2) = lift_io (os_sync (seg_statePath s)) w1
          in if \<not> synced
             then (Some (ErrIO ''sync WAL checkpoint''), reconcileStateSize sid s w2)
             else (None, observe ObserveWALSync w2))"

fun write_batches :: "(u64 \<times> walStateEntry list) list \<Rightarrow> WAL \<Rightarrow> spool_error option \<times> WAL" where
  "write_batches [] w = (None, w)"
| "write_batches ((sid, es) # bs) w =
     (case write_batch sid es w of
        (Some e, w1) \<Rightarrow> (Some e, w1)
      | (None, w1) \<Rightarrow> write_batches bs w1)"

definition apply_entry :: "u64 \<Rightarrow> walStateEntry \<Rightarrow> WAL \<Rightarrow> WAL" where
  "apply_entry sid e w =
     (case w_active w (se_id e) of
        None \<Rightarrow> w
      | Some md \<Rightarrow>
          (case se_kind e of
             StateRetry \<Rightarrow>
               (let w1 = consumeReserveLocked (int walStateEntrySize) w
                in w1\<lparr>w_active := (w_active w1)(se_id e \<mapsto> md\<lparr>md_attempts := unat (se_attempts e)\<rparr>)\<rparr>)
           | StateAck \<Rightarrow>
               (let w1 = releaseRecordReserveLocked (md_attempts md) w
                in upd_segment sid (\<lambda>c. c\<lparr>seg_activeRecords := seg_activeRecords c - 1\<rparr>)
                     (w1\<lparr>w_active := (w_active w1)(se_id e := None)\<rparr>))
           | StateQuarantine \<Rightarrow>
               (let w1 = releaseRecordReserveLocked (md_attempts md) w;
                    w2 = w1\<lparr>w_active := (w_active w1)(se_id e := None),
                            w_quarantined := w_quarantined w1 + 1\<rparr>
                in upd_segment sid (\<lambda>c. c\<lparr>seg_activeRecords := seg_activeRecords c - 1,
                     seg_quarantinedRecords := seg_quarantinedRecords c + 1\<rparr>) w2)))"

definition apply_batch :: "u64 \<Rightarrow> walStateEntry list \<Rightarrow> WAL \<Rightarrow> WAL" where
  "apply_batch sid es w =
     (let n = int (length (encode_entries es));
          w1 = (upd_segment sid (\<lambda>c. c\<lparr>seg_stateSize := seg_stateSize c + n\<rparr>) w)
                 \<lparr>w_usedBytes := w_usedBytes w + n\<rparr>
      in foldl (\<lambda>w e. apply_entry sid e w) w1 es)"

definition apply_batches :: "(u64 \<times> walStateEntry list) list \<Rightarrow> WAL \<Rightarrow> WAL" where
  "apply_batches bs w = foldl (\<lambda>w (sid, es). apply_batch sid es w) w bs"

text \<open>The attempt counts written back into the caller's records.\<close>

definition update_attempts :: "(u64 \<times> walStateEntry list) list \<Rightarrow> spool_record list \<Rightarrow> spool_record list" where
  "update_attempts bs rs =
     (let byID = map_of (rev (List.map (\<lambda>e. (se_id e, unat (se_attempts e))) (concat (List.map snd bs))))
      in List.map (\<lambda>r. case byID (RecordID r) of None \<Rightarrow> r | Some a \<Rightarrow> r\<lparr>Attempts := a\<rparr>) rs)"

definition writeRecordStates :: "spool_record list \<Rightarrow> walStateKind \<Rightarrow> walStateReason \<Rightarrow> bool \<Rightarrow> WAL
    \<Rightarrow> spool_error option \<times> spool_record list \<times> WAL" where
  "writeRecordStates records kind reason inc w =
     (if records = [] then (None, records, w)
      else case w_fault w of
        Some e \<Rightarrow> (Some e, records, w)
      | None \<Rightarrow>
          (case collect_entries kind reason inc w records [] of
             Inl e \<Rightarrow> (Some e, records, w)
           | Inr m \<Rightarrow>
               let bs = sort_key fst m
               in case write_batches bs w of
                    (Some e, w1) \<Rightarrow> (Some e, records, w1)
                  | (None, w1) \<Rightarrow>
                      let w2 = observeUsageLocked (compactRecordIndexLocked (apply_batches bs w1));
                          records' = (if inc then update_attempts bs records else records)
                      in (None, records', w2\<lparr>w_compact := True\<rparr>)))"

definition Ack :: "spool_record list \<Rightarrow> WAL \<Rightarrow> spool_error option \<times> WAL" where
  "Ack records w =
     (case writeRecordStates records StateAck walReasonNone False w of (e, _, w') \<Rightarrow> (e, w'))"

definition MarkRetry :: "spool_record list \<Rightarrow> WAL \<Rightarrow> spool_error option \<times> spool_record list \<times> WAL" where
  "MarkRetry records w = writeRecordStates records StateRetry walReasonNone True w"

definition Quarantine :: "spool_record list \<Rightarrow> string \<Rightarrow> WAL \<Rightarrow> spool_error option \<times> WAL" where
  "Quarantine records reason w =
     (let stateReason = (if reason = ''permanent'' then walReasonPermanent
                         else walReasonAttemptsExhausted)
      in case writeRecordStates records StateQuarantine stateReason False w of (e, _, w') \<Rightarrow> (e, w'))"

end
