(* ===== verification/Wal_Recovery.thy ===== *)
theory Wal_Recovery
  imports Wal_State
begin

text \<open>
  Recovery (\<open>wal_recovery.go\<close>): the directory is listed, checkpoint files and segments are
  read back, the tables of the log are rebuilt from the committed groups, and only the tail
  of the last segment may be cut off. Every other irregularity stops the start-up with an
  error. Also here: reading one record of an open log.
\<close>

record recovery =
  rc_Records :: int
  rc_Bytes :: int
  rc_Corruptions :: int
  rc_Segments :: int
  rc_Truncated :: int

section \<open>Checkpoint files\<close>

text \<open>\<open>createStateFile\<close>: a fresh checkpoint file for a segment that has none.\<close>

definition createStateFile :: "u64 \<Rightarrow> string \<Rightarrow> world \<Rightarrow> spool_error option \<times> world" where
  "createStateFile i path fs0 =
     (let tmp = tmp_name path;
          abandon = (\<lambda>fs. snd (os_remove tmp (snd (os_close fs))));
          (ok, fs) = os_create_excl tmp fs0
      in if \<not> ok then (Some (ErrIO ''create checkpoint''), fs)
      else let ((_, ok), fs) = os_write tmp (encodeWALStateHeader i) fs
      in if \<not> ok then (Some (ErrIO ''write checkpoint header''), abandon fs)
      else let (ok, fs) = os_sync tmp fs
      in if \<not> ok then (Some (ErrIO ''sync checkpoint header''), abandon fs)
      else let (ok, fs) = os_close fs
      in if \<not> ok then (Some (ErrIO ''close checkpoint''), abandon fs)
      else let (ok, fs) = os_rename tmp path fs
      in if \<not> ok then (Some (ErrIO ''rename checkpoint''), abandon fs)
      else let (ok, fs) = sync_directory fs
      in if \<not> ok then (Some (ErrIO ''sync directory''), fs)
      else (None, fs))"

text \<open>The entries of a checkpoint file, the last one of each record winning.\<close>

fun decode_entries :: "nat \<Rightarrow> bytes \<Rightarrow> (u64 \<rightharpoonup> walStateEntry) \<Rightarrow> spool_error + (u64 \<rightharpoonup> walStateEntry)" where
  "decode_entries 0 data m = Inr m"
| "decode_entries (Suc n) data m =
     (case decodeWALStateEntry (take walStateEntrySize data) of
        Inl e \<Rightarrow> Inl (ErrCorruptWAL (BadFormat e))
      | Inr st \<Rightarrow> decode_entries n (drop walStateEntrySize data) (m(se_id st \<mapsto> st)))"

text \<open>\<open>recoverState\<close>: the states, the size of the complete entries, the bytes cut off.\<close>

definition recover_state_data :: "u64 \<Rightarrow> bytes \<Rightarrow> spool_error + ((u64 \<rightharpoonup> walStateEntry) \<times> nat)" where
  "recover_state_data i data =
     (if length data < walStateHeaderSize then Inl (ErrCorruptWAL PartialHeader)
      else case decodeWALStateHeader (take walStateHeaderSize data) i of
        Inl e \<Rightarrow> Inl (ErrCorruptWAL (BadFormat e))
      | Inr _ \<Rightarrow>
          let n = (length data - walStateHeaderSize) div walStateEntrySize
          in case decode_entries n (drop walStateHeaderSize data) Map.empty of
               Inl e \<Rightarrow> Inl e
             | Inr m \<Rightarrow> Inr (m, walStateHeaderSize + n * walStateEntrySize))"

definition recoverState :: "walSegment \<Rightarrow> world
    \<Rightarrow> (spool_error + ((u64 \<rightharpoonup> walStateEntry) \<times> nat \<times> nat)) \<times> world" where
  "recoverState s fs0 =
     (let (r, fs) = os_read_file (seg_statePath s) fs0;
          (d, fs) = (case r of
              ReadError \<Rightarrow> (Inl (ErrIO ''read WAL checkpoint''), fs)
            | ReadOk data \<Rightarrow> (Inr data, fs)
            | ReadNotExist \<Rightarrow>
                (case createStateFile (seg_id s) (seg_statePath s) fs of
                   (Some e, fs) \<Rightarrow> (Inl e, fs)
                 | (None, fs) \<Rightarrow> (Inr (encodeWALStateHeader (seg_id s)), fs)))
      in case d of
        Inl e \<Rightarrow> (Inl e, fs)
      | Inr data \<Rightarrow>
          (case recover_state_data (seg_id s) data of
             Inl e \<Rightarrow> (Inl e, fs)
           | Inr (m, whole) \<Rightarrow>
               let truncated = length data - whole
               in if truncated > 0
                  then (let (ok, fs) = os_open (seg_statePath s) fs
                        in if \<not> ok then (Inl (ErrIO ''open checkpoint''), fs)
                        else let (ok, fs) = os_truncate (seg_statePath s) whole fs
                        in if \<not> ok then (Inl (ErrIO ''truncate checkpoint''), snd (os_close fs))
                        else let (ok, fs) = os_sync (seg_statePath s) fs
                        in if \<not> ok then (Inl (ErrIO ''sync checkpoint''), snd (os_close fs))
                        else let (ok, fs) = os_close fs
                        in if \<not> ok then (Inl (ErrIO ''close checkpoint''), fs)
                        else (Inr (m, whole, truncated), fs))
                  else (Inr (m, whole, truncated), fs)))"

section \<open>Segments\<close>

record recoveredWALFrame =
  rf_id :: u64
  rf_offset :: int
  rf_frameSize :: int
  rf_encoded :: bytes

definition validRecoveredCommit :: "walCommit \<Rightarrow> recoveredWALFrame list \<Rightarrow> bytes \<Rightarrow> u64 \<Rightarrow> bool" where
  "validRecoveredCommit c pending encoded sequence \<longleftrightarrow>
     \<not> (pending = [] \<or> unat (cm_count c) \<noteq> length pending \<or> sequence \<noteq> lastID c)
     \<and> firstID c = rf_id (hd pending) \<and> lastID c = rf_id (last pending)
     \<and> unat (dataBytes c) = length encoded \<and> crc32 encoded = cm_checksum c"

text \<open>A committed record: its state decides whether it is active again.\<close>

record recover_tables =
  rt_active :: "u64 \<rightharpoonup> walRecordMetadata"
  rt_seen :: "u64 set"
  rt_nextID :: u64
  rt_quarantined :: int
  rt_recordIDs :: "u64 list"
  rt_segActive :: int
  rt_segQuarantined :: int

definition recover_frame :: "u64 \<Rightarrow> (u64 \<rightharpoonup> walStateEntry) \<Rightarrow> recover_tables \<Rightarrow> recoveredWALFrame
    \<Rightarrow> recover_tables" where
  "recover_frame sid states t f =
     (let t1 = t\<lparr>rt_seen := insert (rf_id f) (rt_seen t),
                 rt_recordIDs := rt_recordIDs t @ [rf_id f],
                 rt_nextID := (if rf_id f \<ge> rt_nextID t then rf_id f + 1 else rt_nextID t)\<rparr>
      in case map_option se_kind (states (rf_id f)) of
           Some StateAck \<Rightarrow> t1
         | Some StateQuarantine \<Rightarrow>
             t1\<lparr>rt_segQuarantined := rt_segQuarantined t1 + 1,
                rt_quarantined := rt_quarantined t1 + 1\<rparr>
         | _ \<Rightarrow>
             t1\<lparr>rt_active := (rt_active t1)(rf_id f \<mapsto>
                  \<lparr>md_segmentID = sid, md_offset = rf_offset f, md_frameSize = rf_frameSize f,
                   md_attempts = (case states (rf_id f) of None \<Rightarrow> 0
                                  | Some st \<Rightarrow> unat (se_attempts st))\<rparr>),
                rt_segActive := rt_segActive t1 + 1\<rparr>)"

datatype scan_end =
    ScanComplete
  | ScanTail nat

text \<open>
  The loop of \<open>recoverSegment\<close> from \<open>offset\<close> on: \<open>pending\<close> are the data frames since the
  last commit, \<open>committed\<close> the offset after it. The loop ends at the end of the data, with
  an error, or asking for the tail after the last commit to be cut off. A pending
  identifier is one of \<open>pending\<close>, and \<open>pendingBytes\<close> the concatenation of their bytes.
\<close>

definition pending_bytes :: "recoveredWALFrame list \<Rightarrow> bytes" where
  "pending_bytes pending = concat (List.map rf_encoded pending)"

function scan_segment :: "codec \<Rightarrow> walConfig \<Rightarrow> u64 \<Rightarrow> (u64 \<rightharpoonup> walStateEntry) \<Rightarrow> bytes \<Rightarrow> nat
    \<Rightarrow> nat \<Rightarrow> recoveredWALFrame list \<Rightarrow> recover_tables
    \<Rightarrow> spool_error + (scan_end \<times> recover_tables)" where
  "scan_segment js cfg sid states data offset committed pending t =
     (if \<not> offset < length data
      then Inr (if pending \<noteq> [] then ScanTail committed else ScanComplete, t)
      else
        let remaining = length data - offset
        in if remaining < walFrameHeaderSize then Inr (ScanTail committed, t)
        else case decodeWALFrameHeader (slice offset (offset + walFrameHeaderSize) data) of
          Inl e \<Rightarrow> Inl (ErrCorruptWAL (BadFormat e))
        | Inr (kind, sequence, payloadSize, payloadChecksum) \<Rightarrow>
          let frameSize = walFrameHeaderSize + unat payloadSize
          in if payloadSize > of_int (cfg_SegmentBytes cfg) \<or> remaining < frameSize
          then Inr (ScanTail committed, t)
          else let payload = slice (offset + walFrameHeaderSize) (offset + frameSize) data
          in if crc32 payload \<noteq> payloadChecksum then Inl (ErrCorruptWAL PayloadChecksum)
          else case kind of
            FrameData \<Rightarrow>
              if sequence \<in> rt_seen t \<or> sequence \<in> rf_id ` set pending
              then Inl (ErrCorruptWAL DuplicateSequence)
              else (case decodeWALRecord js payload sequence of
                Inl e \<Rightarrow> Inl (ErrCorruptWAL (BadFormat e))
              | Inr _ \<Rightarrow>
                  scan_segment js cfg sid states data (offset + frameSize) committed
                    (pending @ [\<lparr>rf_id = sequence, rf_offset = int offset,
                       rf_frameSize = int frameSize,
                       rf_encoded = slice offset (offset + frameSize) data\<rparr>]) t)
          | FrameCommit \<Rightarrow>
              (case decodeWALCommit payload of
                Inl _ \<Rightarrow> Inl (ErrCorruptWAL InvalidCommitMarker)
              | Inr c \<Rightarrow>
                  if \<not> validRecoveredCommit c pending (pending_bytes pending) sequence
                  then Inl (ErrCorruptWAL InvalidCommitMarker)
                  else scan_segment js cfg sid states data (offset + frameSize) (offset + frameSize)
                    [] (foldl (recover_frame sid states) t pending)))"
  by pat_completeness auto
termination
  by (relation "measure (\<lambda>(js, cfg, sid, states, data, offset, committed, pending, t).
        length data - offset)") (auto simp: walFrameHeaderSize_def)

declare scan_segment.simps [simp del]

text \<open>\<open>truncateUncommittedTail\<close>: only the last segment may lose a tail.\<close>

definition truncateUncommittedTail :: "walSegment \<Rightarrow> nat \<Rightarrow> nat \<Rightarrow> bool \<Rightarrow> world
    \<Rightarrow> (spool_error + (nat \<times> nat)) \<times> world" where
  "truncateUncommittedTail s len committed isLast fs =
     (if \<not> isLast then (Inl (ErrCorruptWAL IncompleteTail), fs)
      else let truncated = len - committed
      in if truncated = 0 then (Inr (0, len), fs)
      else let (ok, fs) = os_open (seg_path s) fs
      in if \<not> ok then (Inl (ErrIO ''open WAL tail''), fs)
      else let (ok, fs) = os_truncate (seg_path s) committed fs
      in if \<not> ok then (Inl (ErrIO ''truncate WAL tail''), snd (os_close fs))
      else let (ok, fs) = os_sync (seg_path s) fs
      in if \<not> ok then (Inl (ErrIO ''sync WAL tail''), snd (os_close fs))
      else (Inr (truncated, committed), snd (os_close fs)))"

text \<open>\<open>recoverSegment\<close>: the bytes cut off and the tables; the segment's new size is set by
  the caller from the second component.\<close>

definition recoverSegment :: "codec \<Rightarrow> walConfig \<Rightarrow> walSegment \<Rightarrow> (u64 \<rightharpoonup> walStateEntry)
    \<Rightarrow> recover_tables \<Rightarrow> bool \<Rightarrow> world \<Rightarrow> (spool_error + (nat \<times> nat \<times> recover_tables)) \<times> world" where
  "recoverSegment js cfg s states t isLast fs0 =
     (case os_read_file (seg_path s) fs0 of
        (ReadOk data, fs) \<Rightarrow>
          if length data < walSegmentHeaderSize then (Inl (ErrCorruptWAL PartialHeader), fs)
          else (case decodeWALSegmentHeader (take walSegmentHeaderSize data) (seg_id s) of
            Inl e \<Rightarrow> (Inl (ErrCorruptWAL (BadFormat e)), fs)
          | Inr _ \<Rightarrow>
              (case scan_segment js cfg (seg_id s) states data walSegmentHeaderSize
                      walSegmentHeaderSize [] t of
                 Inl e \<Rightarrow> (Inl e, fs)
               | Inr (ScanComplete, t') \<Rightarrow> (Inr (0, length data, t'), fs)
               | Inr (ScanTail committed, t') \<Rightarrow>
                   (case truncateUncommittedTail s (length data) committed isLast fs of
                      (Inl e, fs) \<Rightarrow> (Inl e, fs)
                    | (Inr (truncated, len), fs) \<Rightarrow> (Inr (truncated, len, t'), fs))))
      | (_, fs) \<Rightarrow> (Inl (ErrIO ''read WAL segment''), fs))"

section \<open>The directory\<close>

text \<open>\<open>rejectLegacySpool\<close>: active records of the per-envelope spool, or a quarantine that is
  not empty, stop the start-up.\<close>

fun rejectLegacySpool :: "(string \<times> bool) list \<Rightarrow> world \<Rightarrow> spool_error option \<times> world" where
  "rejectLegacySpool [] fs = (None, fs)"
| "rejectLegacySpool ((name, isDir) # es) fs =
     (if isDir
      then if name \<noteq> ''quarantine'' then rejectLegacySpool es fs
           else (case os_read_subdir name fs of
                   (None, fs1) \<Rightarrow> (Some (ErrIO ''inspect legacy quarantine''), fs1)
                 | (Some quarantined, fs1) \<Rightarrow>
                     if quarantined \<noteq> [] then (Some ErrLegacySpool, fs1)
                     else rejectLegacySpool es fs1)
      else if parseActiveFilename name \<noteq> None then (Some ErrLegacySpool, fs)
      else rejectLegacySpool es fs)"

text \<open>The incomplete files of an interrupted creation are removed; the flag says whether there
  were any.\<close>

fun remove_temporaries :: "(string \<times> bool) list \<Rightarrow> bool \<Rightarrow> world \<Rightarrow> (spool_error + bool) \<times> world" where
  "remove_temporaries [] removed fs = (Inr removed, fs)"
| "remove_temporaries ((name, isDir) # es) removed fs =
     (if isDir \<or> \<not> has_suffix name ''.tmp'' then remove_temporaries es removed fs
      else case os_remove name fs of
             (Removed, fs1) \<Rightarrow> remove_temporaries es True fs1
           | (_, fs1) \<Rightarrow> (Inl (ErrIO ''remove incomplete WAL metadata''), fs1))"

definition found_segment :: "string \<Rightarrow> u64 \<Rightarrow> walSegment" where
  "found_segment name i =
     \<lparr>seg_id = i, seg_path = name, seg_statePath = stateFilename i, seg_file = False,
      seg_stateFile = False, seg_size = 0, seg_stateSize = 0, seg_recordIDs = [],
      seg_activeRecords = 0, seg_quarantinedRecords = 0, seg_closed = True\<rparr>"

fun find_segments :: "(string \<times> bool) list \<Rightarrow> WAL \<Rightarrow> spool_error option \<times> WAL" where
  "find_segments [] w = (None, w)"
| "find_segments ((name, isDir) # es) w =
     (if isDir then find_segments es w
      else case parseSegmentFilename name walSegmentSuffix of
             None \<Rightarrow> find_segments es w
           | Some i \<Rightarrow>
               if w_segments w i \<noteq> None then (Some (ErrCorruptWAL DuplicateSegment), w)
               else find_segments es
                 (w\<lparr>w_segments := (w_segments w)(i \<mapsto> found_segment name i),
                    w_segmentIDs := w_segmentIDs w @ [i],
                    w_nextSegmentID := (if i \<ge> w_nextSegmentID w then i + 1
                                        else w_nextSegmentID w)\<rparr>))"

section \<open>Rebuilding the tables\<close>

definition tables_of :: "u64 set \<Rightarrow> WAL \<Rightarrow> recover_tables" where
  "tables_of seen w =
     \<lparr>rt_active = w_active w, rt_seen = seen, rt_nextID = w_nextID w,
      rt_quarantined = w_quarantined w, rt_recordIDs = [], rt_segActive = 0,
      rt_segQuarantined = 0\<rparr>"

definition install_tables :: "u64 \<Rightarrow> nat \<Rightarrow> recover_tables \<Rightarrow> WAL \<Rightarrow> WAL" where
  "install_tables sid len t w =
     (upd_segment sid (\<lambda>s. s\<lparr>seg_size := int len, seg_recordIDs := rt_recordIDs t,
        seg_activeRecords := rt_segActive t, seg_quarantinedRecords := rt_segQuarantined t\<rparr>) w)
       \<lparr>w_active := rt_active t, w_nextID := rt_nextID t, w_quarantined := rt_quarantined t\<rparr>"

definition corrupted :: "recovery \<Rightarrow> recovery" where
  "corrupted rc = rc\<lparr>rc_Corruptions := rc_Corruptions rc + 1\<rparr>"

fun recover_segments :: "codec \<Rightarrow> u64 list \<Rightarrow> u64 set \<Rightarrow> recovery \<Rightarrow> WAL
    \<Rightarrow> spool_error option \<times> recovery \<times> WAL" where
  "recover_segments js [] seen rc w = (None, rc, w)"
| "recover_segments js (i # is) seen rc w =
     (case w_segments w i of
        None \<Rightarrow> (Some NilDereference, rc, w)
      | Some s \<Rightarrow>
          (case lift_io (recoverState s) w of
             (Inl e, w1) \<Rightarrow> (Some e, corrupted rc, observe RecordWALCorruption w1)
           | (Inr (states, stateSize, truncated), w1) \<Rightarrow>
               let w2 = upd_segment i (\<lambda>c. c\<lparr>seg_stateSize := int stateSize\<rparr>) w1;
                   rc1 = rc\<lparr>rc_Truncated := rc_Truncated rc + int truncated\<rparr>
               in (case lift_io (recoverSegment js (w_config w2) s states (tables_of seen w2)
                          (is = [])) w2 of
                     (Inl e, w3) \<Rightarrow> (Some e, corrupted rc1, observe RecordWALCorruption w3)
                   | (Inr (truncatedData, len, t), w3) \<Rightarrow>
                       let w4 = (install_tables i len t w3)
                                  \<lparr>w_usedBytes := w_usedBytes w3 + (int len + int stateSize)\<rparr>
                       in recover_segments js is (rt_seen t)
                            (rc1\<lparr>rc_Truncated := rc_Truncated rc1 + int truncatedData\<rparr>) w4)))"

definition close_handles :: "u64 \<Rightarrow> WAL \<Rightarrow> WAL" where
  "close_handles i w =
     (case w_segments w i of
        None \<Rightarrow> w
      | Some s \<Rightarrow>
          let w1 = (if seg_file s then snd (lift_io os_close w) else w);
              w2 = (if seg_stateFile s then snd (lift_io os_close w1) else w1)
          in upd_segment i (\<lambda>c. c\<lparr>seg_file := False, seg_stateFile := False\<rparr>) w2)"

definition closeRecoveredFiles :: "WAL \<Rightarrow> WAL" where
  "closeRecoveredFiles w = foldl (\<lambda>w i. close_handles i w) w (w_segmentIDs w)"

fun open_checkpoints :: "u64 list \<Rightarrow> WAL \<Rightarrow> spool_error option \<times> WAL" where
  "open_checkpoints [] w = (None, w)"
| "open_checkpoints (i # is) w =
     (case w_segments w i of
        None \<Rightarrow> (Some NilDereference, w)
      | Some s \<Rightarrow>
          (case lift_io (os_open (seg_statePath s)) w of
             (False, w1) \<Rightarrow> (Some (ErrIO ''open WAL checkpoint''), closeRecoveredFiles w1)
           | (True, w1) \<Rightarrow>
               open_checkpoints is (upd_segment i (\<lambda>c. c\<lparr>seg_stateFile := True\<rparr>) w1)))"

text \<open>The reservation for every active record, and the sorted list of identifiers.\<close>

definition record_reserve :: "walConfig \<Rightarrow> walRecordMetadata \<Rightarrow> int" where
  "record_reserve c md = remaining_attempts c (md_attempts md) * int walStateEntrySize"

definition finish_tables :: "WAL \<Rightarrow> WAL" where
  "finish_tables w =
     w\<lparr>w_reservedBytes := w_reservedBytes w
          + map_sum (\<lambda>_. record_reserve (w_config w)) (w_active w),
       w_ids := sorted_list_of_set (dom (w_active w))\<rparr>"

definition open_recovered :: "recovery \<Rightarrow> WAL \<Rightarrow> spool_error option \<times> recovery \<times> WAL" where
  "open_recovered rc w =
     (let i = last (w_segmentIDs w)
      in case w_segments w i of
        None \<Rightarrow> (Some NilDereference, rc, w)
      | Some s \<Rightarrow>
          let w1 = upd_segment i (\<lambda>c. c\<lparr>seg_closed := False\<rparr>) w
          in (case lift_io (os_open (seg_path s)) w1 of
                (False, w2) \<Rightarrow> (Some (ErrIO ''open active WAL segment''), rc, w2)
              | (True, w2) \<Rightarrow>
                  let w3 = (upd_segment i (\<lambda>c. c\<lparr>seg_file := True\<rparr>) w2)\<lparr>w_current := i\<rparr>
                  in (case open_checkpoints (w_segmentIDs w3) w3 of
                        (Some e, w4) \<Rightarrow> (Some e, rc, w4)
                      | (None, w4) \<Rightarrow>
                          let w5 = finish_tables w4
                          in (None, rc\<lparr>rc_Records := int (card (dom (w_active w5))),
                                rc_Bytes := w_usedBytes w5,
                                rc_Segments := int (card (dom (w_segments w5)))\<rparr>, w5))))"

section \<open>\<open>recover\<close> and \<open>OpenWAL\<close>\<close>

definition no_recovery :: recovery where
  "no_recovery = \<lparr>rc_Records = 0, rc_Bytes = 0, rc_Corruptions = 0, rc_Segments = 0, rc_Truncated = 0\<rparr>"

text \<open>The directory is listed twice: before and after the incomplete files are removed.\<close>

definition scan_directory :: "WAL \<Rightarrow> spool_error option \<times> WAL" where
  "scan_directory w =
     (case lift_io os_read_dir w of
        (None, w1) \<Rightarrow> (Some (ErrIO ''read WAL directory''), w1)
      | (Some entries, w1) \<Rightarrow>
          (case lift_io (rejectLegacySpool entries) w1 of
             (Some e, w2) \<Rightarrow> (Some e, w2)
           | (None, w2) \<Rightarrow>
               (case lift_io (remove_temporaries entries False) w2 of
                  (Inl e, w3) \<Rightarrow> (Some e, w3)
                | (Inr removed, w3) \<Rightarrow>
                    let (ok, w4) = (if removed then lift_io sync_directory w3 else (True, w3))
                    in if \<not> ok then (Some (ErrIO ''sync directory''), w4)
                    else (case lift_io os_read_dir w4 of
                            (None, w5) \<Rightarrow> (Some (ErrIO ''read WAL directory''), w5)
                          | (Some entries, w5) \<Rightarrow>
                              (case find_segments entries w5 of
                                 (Some e, w6) \<Rightarrow> (Some e, w6)
                               | (None, w6) \<Rightarrow>
                                   (None, w6\<lparr>w_segmentIDs := sort (w_segmentIDs w6)\<rparr>))))))"

definition recover :: "codec \<Rightarrow> WAL \<Rightarrow> spool_error option \<times> recovery \<times> WAL" where
  "recover js w =
     (case scan_directory w of
        (Some e, w1) \<Rightarrow> (Some e, no_recovery, w1)
      | (None, w1) \<Rightarrow>
          if w_segmentIDs w1 = []
          then (case lift_io (createSegment (w_nextSegmentID w1) (w_now w1)) w1 of
                  (Inl e, w2) \<Rightarrow> (Some e, no_recovery, w2)
                | (Inr s, w2) \<Rightarrow>
                    let w3 = (installSegment s w2)\<lparr>w_current := seg_id s\<rparr>
                    in (None, no_recovery\<lparr>rc_Bytes := w_usedBytes w3, rc_Segments := 1\<rparr>, w3))
          else (case recover_segments js (w_segmentIDs w1) {} no_recovery w1 of
                  (Some e, rc, w2) \<Rightarrow> (Some e, rc, w2)
                | (None, rc, w2) \<Rightarrow> open_recovered rc w2))"

definition valid_config :: "walConfig \<Rightarrow> bool" where
  "valid_config c \<longleftrightarrow>
     \<not> (cfg_MaxBytes c < 1 \<or> cfg_SegmentBytes c < int (walSegmentHeaderSize + walFrameHeaderSize * 2)
        \<or> cfg_MaxBatchRecords c < 1 \<or> cfg_MaxFlushInterval c \<le> 0 \<or> cfg_AppendQueueSize c < 1
        \<or> cfg_MaxRecordAttempts c < 1 \<or> cfg_SegmentBytes c > 4294967295)"

definition new_wal :: "walConfig \<Rightarrow> int \<Rightarrow> world \<Rightarrow> WAL" where
  "new_wal c now fs =
     \<lparr>w_config = c, w_closed = False, w_fault = None, w_nextID = 1, w_nextSegmentID = 1,
      w_current = 0, w_segments = Map.empty, w_segmentIDs = [], w_active = Map.empty,
      w_ids = [], w_usedBytes = 0, w_reservedBytes = 0, w_quarantined = 0, w_appendQueue = [],
      w_compact = False, w_events = [], w_now = now, w_world = fs\<rparr>"

text \<open>\<open>closeFiles\<close>: every handle is closed; the first error becomes the fault, unless there is
  one already.\<close>

definition close_and_record :: "(walSegment \<Rightarrow> bool) \<Rightarrow> walSegment \<Rightarrow> WAL \<Rightarrow> WAL" where
  "close_and_record handle s w =
     (if handle s
      then (case lift_io os_close w of
              (True, w1) \<Rightarrow> w1
            | (False, w1) \<Rightarrow> (if w_fault w1 = None then w1\<lparr>w_fault := Some (ErrIO ''close'')\<rparr> else w1))
      else w)"

definition closeFiles :: "WAL \<Rightarrow> WAL" where
  "closeFiles w = foldl (\<lambda>w i. case w_segments w i of
       None \<Rightarrow> w
     | Some s \<Rightarrow> upd_segment i (\<lambda>c. c\<lparr>seg_file := False, seg_stateFile := False\<rparr>)
         (close_and_record seg_stateFile s (close_and_record seg_file s w))) w (w_segmentIDs w)"

text \<open>White space for \<open>strings.TrimSpace\<close> within ASCII.\<close>

definition blank :: "string \<Rightarrow> bool" where
  "blank s \<longleftrightarrow> (\<forall>c\<in>set s. c \<in> {CHR '' '', CHR 0x09, CHR 0x0A, CHR 0x0B, CHR 0x0C, CHR 0x0D})"

definition OpenWAL :: "codec \<Rightarrow> walConfig \<Rightarrow> int \<Rightarrow> world
    \<Rightarrow> (spool_error + WAL) \<times> recovery \<times> world" where
  "OpenWAL js c now fs =
     (if blank (cfg_Directory c) \<or> \<not> valid_config c then (Inl ErrConfig, no_recovery, fs)
      else let (ok, fs) = os_call fs
      in if \<not> ok then (Inl (ErrIO ''resolve WAL directory''), no_recovery, fs)
      else let (ok, fs) = os_call fs
      in if \<not> ok then (Inl (ErrIO ''create WAL directory''), no_recovery, fs)
      else let (ok, fs) = os_call fs
      in if \<not> ok then (Inl (ErrIO ''secure WAL directory''), no_recovery, fs)
      else (case recover js (new_wal c now fs) of
              (Some e, rc, w) \<Rightarrow> (Inl e, rc, w_world w)
            | (None, rc, w) \<Rightarrow>
                let w1 = compactSegments w
                in (case w_fault w1 of
                      Some e \<Rightarrow> (Inl e, rc, w_world (closeFiles w1))
                    | None \<Rightarrow> let w2 = observeUsageLocked w1 in (Inr w2, rc, w_world w2))))"

section \<open>Reading one record\<close>

definition readRecordLocked :: "codec \<Rightarrow> u64 \<Rightarrow> walRecordMetadata \<Rightarrow> WAL
    \<Rightarrow> spool_record option \<times> WAL" where
  "readRecordLocked js i md w =
     (case w_segments w (md_segmentID md) of
        None \<Rightarrow> (None, w)
      | Some s \<Rightarrow>
          (case lift_io (os_open (seg_path s)) w of
             (False, w1) \<Rightarrow> (None, w1)
           | (True, w1) \<Rightarrow>
               (case lift_io (os_read_at (seg_path s) (md_frameSize md) (md_offset md)) w1 of
                  (None, w2) \<Rightarrow> (None, snd (lift_io os_close w2))
                | (Some encoded, w2) \<Rightarrow>
                    let w3 = snd (lift_io os_close w2)
                    in (case decodeWALFrameHeader (take walFrameHeaderSize encoded) of
                          Inl _ \<Rightarrow> (None, w3)
                        | Inr (kind, sequence, payloadSize, payloadChecksum) \<Rightarrow>
                            if kind \<noteq> FrameData \<or> sequence \<noteq> i
                              \<or> int walFrameHeaderSize + int (unat payloadSize) \<noteq> md_frameSize md
                            then (None, w3)
                            else let payload = drop walFrameHeaderSize encoded
                            in if crc32 payload \<noteq> payloadChecksum then (None, w3)
                            else (case decodeWALRecord js payload i of
                                    Inl _ \<Rightarrow> (None, w3)
                                  | Inr r \<Rightarrow> (Some (r\<lparr>Attempts := md_attempts md\<rparr>), w3))))))"

end
