(* ===== verification/Wal_Ops.thy ===== *)
theory Wal_Ops
  imports Wal_Recovery
begin

text \<open>
  The operations of the log that other parts call (\<open>Append\<close>, \<open>NextAfter\<close>, \<open>Stats\<close>, \<open>Ready\<close>,
  \<open>Close\<close> of \<open>wal.go\<close>), the writer goroutine \<open>writeLoop\<close>, and the log as a system of
  interleaved steps: clients that append, the writer that collects, commits and compacts, a
  consumer that reads and settles records, and a closer. A step is a part of the code that
  runs under the locks or touches one channel.
\<close>

section \<open>Operations of the clients\<close>

record wal_stats =
  st_Bytes :: int
  st_ReservedBytes :: int
  st_ActiveRecords :: int
  st_QuarantinedRecords :: int
  st_Segments :: int

definition Stats :: "WAL \<Rightarrow> wal_stats" where
  "Stats w =
     \<lparr>st_Bytes = w_usedBytes w, st_ReservedBytes = w_reservedBytes w,
      st_ActiveRecords = int (card (dom (w_active w))), st_QuarantinedRecords = w_quarantined w,
      st_Segments = int (card (dom (w_segments w)))\<rparr>"

definition Ready :: "WAL \<Rightarrow> spool_error option" where
  "Ready w =
     (case w_fault w of
        Some e \<Rightarrow> Some e
      | None \<Rightarrow>
          if w_closed w then Some ErrClosedStorage
          else if w_usedBytes w + w_reservedBytes w \<ge> cfg_MaxBytes (w_config w) then Some ErrFull
          else None)"

text \<open>
  The admission half of \<open>Append\<close>: \<open>cancelled\<close> says that the context was done on entry,
  \<open>late\<close> that the select saw it done and chose that case. \<open>None\<close> means the request is
  queued and its reply awaited.
\<close>

definition append_admit :: "bool \<Rightarrow> bool \<Rightarrow> walAppendRequest \<Rightarrow> WAL \<Rightarrow> spool_error option \<times> WAL" where
  "append_admit cancelled late request w =
     (if cancelled then (Some ErrContext, w)
      else case w_fault w of
        Some e \<Rightarrow> (Some e, w)
      | None \<Rightarrow>
          if w_closed w then (Some ErrClosedStorage, w)
          else if late then (Some ErrContext, w)
          else if int (length (w_appendQueue w)) < cfg_AppendQueueSize (w_config w)
          then (None, w\<lparr>w_appendQueue := w_appendQueue w @ [request]\<rparr>)
          else (Some ErrBusy, w))"

text \<open>The loop of \<open>NextAfter\<close> over the index, from the first identifier above \<open>after\<close>.\<close>

fun next_active :: "codec \<Rightarrow> u64 list \<Rightarrow> WAL
    \<Rightarrow> ((u64 + spool_record) option \<times> spool_error option) \<times> WAL" where
  "next_active js [] w = ((None, None), w)"
| "next_active js (i # is) w =
     (case w_active w i of
        None \<Rightarrow> next_active js is w
      | Some md \<Rightarrow>
          (case readRecordLocked js i md w of
             (Some r, w1) \<Rightarrow> ((Some (Inr r), None), w1)
           | (None, w1) \<Rightarrow>
               let e = ErrCorruptWAL RecordUnreadable
               in ((Some (Inl i), Some e), observe RecordWALCorruption (w1\<lparr>w_fault := Some e\<rparr>))))"

text \<open>The result: the record found (only its identifier when it cannot be read), and the
  error.\<close>

definition NextAfter :: "codec \<Rightarrow> u64 \<Rightarrow> WAL
    \<Rightarrow> ((u64 + spool_record) option \<times> spool_error option) \<times> WAL" where
  "NextAfter js after w =
     (case w_fault w of
        Some e \<Rightarrow> ((None, Some e), w)
      | None \<Rightarrow>
          let index = sort_search (length (w_ids w)) (\<lambda>i. w_ids w ! i > after)
          in next_active js (drop index (w_ids w)) w)"

section \<open>The writer\<close>

text \<open>\<open>drainAndClose\<close>: the queue is emptied in groups of at most \<open>MaxBatchRecords\<close>, then the
  files are closed. Nothing is queued meanwhile, the gate being closed. (\<open>OpenWAL\<close> refuses a
  limit below one, with which the code would loop.)\<close>

function drain_loop :: "codec \<Rightarrow> walAppendRequest list \<Rightarrow> replies \<Rightarrow> WAL \<Rightarrow> replies \<times> WAL" where
  "drain_loop js queue out w =
     (let n = nat (cfg_MaxBatchRecords (w_config w));
          requests = take n queue;
          w1 = w\<lparr>w_appendQueue := drop n queue\<rparr>
      in if n = 0 \<or> length requests < n
         then (case (if requests \<noteq> [] then processAppendRequests js requests w1 else ([], w1)) of
                 (rs, w2) \<Rightarrow> (out @ rs, closeFiles (compactSegments w2)))
         else (case processAppendRequests js requests w1 of
                 (rs, w2) \<Rightarrow> drain_loop js (drop n queue) (out @ rs) w2))"
  by pat_completeness auto
termination
  by (relation "measure (\<lambda>(js, queue, out, w). length queue)") auto

declare drain_loop.simps [simp del]

definition drainAndClose :: "codec \<Rightarrow> WAL \<Rightarrow> replies \<times> WAL" where
  "drainAndClose js w = drain_loop js (w_appendQueue w) [] w"

section \<open>The system\<close>

text \<open>
  \<open>sys_group\<close> are the requests the writer has taken from the queue and not processed yet
  (\<open>collectAppendGroup\<close>), \<open>sys_waiting\<close> the tags of the \<open>Append\<close> calls that wait for their
  reply, each of them holding the gate for reading, and \<open>sys_done\<close> says that the writer has
  returned.
\<close>

record wal_system =
  sys_wal :: WAL
  sys_group :: "walAppendRequest list"
  sys_waiting :: "nat list"
  sys_replies :: replies
  sys_done :: bool

inductive wal_step :: "codec \<Rightarrow> wal_system \<Rightarrow> wal_system \<Rightarrow> bool" for js :: codec where
  admit: "rq_tag rq \<notin> set (sys_waiting s) \<Longrightarrow> rq_tag rq \<notin> fst ` set (sys_replies s) \<Longrightarrow>
    append_admit cancelled late rq (sys_wal s) = (None, w) \<Longrightarrow>
    wal_step js s (s\<lparr>sys_wal := w, sys_waiting := sys_waiting s @ [rq_tag rq]\<rparr>)"
| collect: "\<not> sys_done s \<Longrightarrow> w_appendQueue (sys_wal s) = rq # rqs \<Longrightarrow>
    int (length (sys_group s)) < max 1 (cfg_MaxBatchRecords (w_config (sys_wal s))) \<Longrightarrow>
    wal_step js s (s\<lparr>sys_wal := (sys_wal s)\<lparr>w_appendQueue := rqs\<rparr>,
      sys_group := sys_group s @ [rq]\<rparr>)"
| commit: "\<not> sys_done s \<Longrightarrow> sys_group s \<noteq> [] \<Longrightarrow>
    processAppendRequests js (sys_group s) (sys_wal s) = (out, w) \<Longrightarrow>
    wal_step js s (s\<lparr>sys_wal := compactSegments w, sys_group := [],
      sys_replies := sys_replies s @ out\<rparr>)"
| compaction: "\<not> sys_done s \<Longrightarrow> sys_group s = [] \<Longrightarrow> w_compact (sys_wal s) \<Longrightarrow>
    wal_step js s (s\<lparr>sys_wal := compactSegments ((sys_wal s)\<lparr>w_compact := False\<rparr>)\<rparr>)"
| deliver: "(tag, r) \<in> set (sys_replies s) \<Longrightarrow> tag \<in> set (sys_waiting s) \<Longrightarrow>
    wal_step js s (s\<lparr>sys_waiting := remove1 tag (sys_waiting s)\<rparr>)"
| ack: "Ack records (sys_wal s) = (e, w) \<Longrightarrow> wal_step js s (s\<lparr>sys_wal := w\<rparr>)"
| retry: "MarkRetry records (sys_wal s) = (e, records', w) \<Longrightarrow> wal_step js s (s\<lparr>sys_wal := w\<rparr>)"
| quarantine: "Quarantine records reason (sys_wal s) = (e, w) \<Longrightarrow> wal_step js s (s\<lparr>sys_wal := w\<rparr>)"
| read_next: "NextAfter js after (sys_wal s) = (r, w) \<Longrightarrow> wal_step js s (s\<lparr>sys_wal := w\<rparr>)"
| close_gate: "sys_waiting s = [] \<Longrightarrow> wal_step js s (s\<lparr>sys_wal := (sys_wal s)\<lparr>w_closed := True\<rparr>\<rparr>)"
| drain: "\<not> sys_done s \<Longrightarrow> w_closed (sys_wal s) \<Longrightarrow> sys_group s = [] \<Longrightarrow>
    drainAndClose js (sys_wal s) = (out, w) \<Longrightarrow>
    wal_step js s (s\<lparr>sys_wal := w, sys_replies := sys_replies s @ out, sys_done := True\<rparr>)"

inductive wal_reachable :: "codec \<Rightarrow> WAL \<Rightarrow> wal_system \<Rightarrow> bool" for js :: codec and w0 :: WAL where
  start: "w_appendQueue w0 = [] \<Longrightarrow>
    wal_reachable js w0 \<lparr>sys_wal = w0, sys_group = [], sys_waiting = [], sys_replies = [],
      sys_done = False\<rparr>"
| step: "wal_reachable js w0 s \<Longrightarrow> wal_step js s s' \<Longrightarrow> wal_reachable js w0 s'"

end
