(* ===== verification/Wal_Frame.thy ===== *)
theory Wal_Frame
  imports Wal_Ops
begin

text \<open>
  Which fields of the log each operation leaves alone, for the simplifier. Every fact is
  one equation per field.
\<close>

section \<open>Small steps\<close>

lemma observe_frame [simp, wal_frame]:
  "w_config (observe e w) = w_config w" "w_closed (observe e w) = w_closed w"
  "w_fault (observe e w) = w_fault w" "w_nextID (observe e w) = w_nextID w"
  "w_nextSegmentID (observe e w) = w_nextSegmentID w" "w_current (observe e w) = w_current w"
  "w_segments (observe e w) = w_segments w" "w_segmentIDs (observe e w) = w_segmentIDs w"
  "w_active (observe e w) = w_active w" "w_ids (observe e w) = w_ids w"
  "w_usedBytes (observe e w) = w_usedBytes w" "w_reservedBytes (observe e w) = w_reservedBytes w"
  "w_quarantined (observe e w) = w_quarantined w" "w_appendQueue (observe e w) = w_appendQueue w"
  "w_compact (observe e w) = w_compact w" "w_now (observe e w) = w_now w"
  "w_world (observe e w) = w_world w"
  by (simp_all add: observe_def)

lemma observeUsageLocked_frame [simp, wal_frame]:
  "w_config (observeUsageLocked w) = w_config w" "w_closed (observeUsageLocked w) = w_closed w"
  "w_fault (observeUsageLocked w) = w_fault w" "w_nextID (observeUsageLocked w) = w_nextID w"
  "w_nextSegmentID (observeUsageLocked w) = w_nextSegmentID w" "w_current (observeUsageLocked w) = w_current w"
  "w_segments (observeUsageLocked w) = w_segments w" "w_segmentIDs (observeUsageLocked w) = w_segmentIDs w"
  "w_active (observeUsageLocked w) = w_active w" "w_ids (observeUsageLocked w) = w_ids w"
  "w_usedBytes (observeUsageLocked w) = w_usedBytes w" "w_reservedBytes (observeUsageLocked w) = w_reservedBytes w"
  "w_quarantined (observeUsageLocked w) = w_quarantined w" "w_appendQueue (observeUsageLocked w) = w_appendQueue w"
  "w_compact (observeUsageLocked w) = w_compact w" "w_now (observeUsageLocked w) = w_now w"
  "w_world (observeUsageLocked w) = w_world w"
  by (simp_all add: observeUsageLocked_def)

lemma lift_io_frame [simp, wal_frame]:
  "w_config (snd (lift_io f w)) = w_config w" "w_closed (snd (lift_io f w)) = w_closed w"
  "w_fault (snd (lift_io f w)) = w_fault w" "w_nextID (snd (lift_io f w)) = w_nextID w"
  "w_nextSegmentID (snd (lift_io f w)) = w_nextSegmentID w" "w_current (snd (lift_io f w)) = w_current w"
  "w_segments (snd (lift_io f w)) = w_segments w" "w_segmentIDs (snd (lift_io f w)) = w_segmentIDs w"
  "w_active (snd (lift_io f w)) = w_active w" "w_ids (snd (lift_io f w)) = w_ids w"
  "w_usedBytes (snd (lift_io f w)) = w_usedBytes w" "w_reservedBytes (snd (lift_io f w)) = w_reservedBytes w"
  "w_quarantined (snd (lift_io f w)) = w_quarantined w" "w_appendQueue (snd (lift_io f w)) = w_appendQueue w"
  "w_compact (snd (lift_io f w)) = w_compact w" "w_events (snd (lift_io f w)) = w_events w"
  "w_now (snd (lift_io f w)) = w_now w"
  by (simp_all add: lift_io_def split_beta)

lemma upd_segment_frame [simp, wal_frame]:
  "w_config (upd_segment i f w) = w_config w" "w_closed (upd_segment i f w) = w_closed w"
  "w_fault (upd_segment i f w) = w_fault w" "w_nextID (upd_segment i f w) = w_nextID w"
  "w_nextSegmentID (upd_segment i f w) = w_nextSegmentID w" "w_current (upd_segment i f w) = w_current w"
  "w_segmentIDs (upd_segment i f w) = w_segmentIDs w" "w_active (upd_segment i f w) = w_active w"
  "w_ids (upd_segment i f w) = w_ids w" "w_usedBytes (upd_segment i f w) = w_usedBytes w"
  "w_reservedBytes (upd_segment i f w) = w_reservedBytes w" "w_quarantined (upd_segment i f w) = w_quarantined w"
  "w_appendQueue (upd_segment i f w) = w_appendQueue w" "w_compact (upd_segment i f w) = w_compact w"
  "w_events (upd_segment i f w) = w_events w" "w_now (upd_segment i f w) = w_now w"
  "w_world (upd_segment i f w) = w_world w"
  by (simp_all add: upd_segment_def)

lemma upd_segment_segments [simp]:
  "w_segments (upd_segment i f w) = (w_segments w)(i := map_option f (w_segments w i))"
  by (simp add: upd_segment_def)

lemma lift_io_world [simp]:
  "fst (lift_io f w) = fst (f (w_world w))" "w_world (snd (lift_io f w)) = snd (f (w_world w))"
  by (simp_all add: lift_io_def split_beta)

text \<open>The same for a call whose result has been named.\<close>

lemma lift_io_result:
  assumes "lift_io f w = (r, w')"
  shows "f (w_world w) = (r, w_world w')" "w' = w\<lparr>w_world := w_world w'\<rparr>"
  using assms by (auto simp: lift_io_def split_beta)

lemma lift_io_some:
  assumes "lift_io f w = (r, w')"
  obtains fs where "f (w_world w) = (r, fs)" "w' = w\<lparr>w_world := fs\<rparr>"
  using assms by (cases "f (w_world w)") (auto simp: lift_io_def)

section \<open>Segments\<close>

lemma installSegment_frame [simp, wal_frame]:
  "w_config (installSegment s w) = w_config w" "w_closed (installSegment s w) = w_closed w"
  "w_fault (installSegment s w) = w_fault w" "w_nextID (installSegment s w) = w_nextID w"
  "w_current (installSegment s w) = w_current w" "w_active (installSegment s w) = w_active w"
  "w_ids (installSegment s w) = w_ids w" "w_reservedBytes (installSegment s w) = w_reservedBytes w"
  "w_quarantined (installSegment s w) = w_quarantined w" "w_appendQueue (installSegment s w) = w_appendQueue w"
  "w_compact (installSegment s w) = w_compact w" "w_events (installSegment s w) = w_events w"
  "w_now (installSegment s w) = w_now w" "w_world (installSegment s w) = w_world w"
  by (simp_all add: installSegment_def)

lemma remove_segment_frame [simp, wal_frame]:
  "w_config (snd (remove_segment i s w)) = w_config w" "w_closed (snd (remove_segment i s w)) = w_closed w"
  "w_nextID (snd (remove_segment i s w)) = w_nextID w" "w_nextSegmentID (snd (remove_segment i s w)) = w_nextSegmentID w"
  "w_current (snd (remove_segment i s w)) = w_current w" "w_segmentIDs (snd (remove_segment i s w)) = w_segmentIDs w"
  "w_active (snd (remove_segment i s w)) = w_active w" "w_ids (snd (remove_segment i s w)) = w_ids w"
  "w_reservedBytes (snd (remove_segment i s w)) = w_reservedBytes w" "w_quarantined (snd (remove_segment i s w)) = w_quarantined w"
  "w_appendQueue (snd (remove_segment i s w)) = w_appendQueue w" "w_compact (snd (remove_segment i s w)) = w_compact w"
  "w_events (snd (remove_segment i s w)) = w_events w" "w_now (snd (remove_segment i s w)) = w_now w"
  by (simp_all add: remove_segment_def Let_def split_beta)

lemma compact_loop_frame [simp, wal_frame]:
  shows "w_config (snd (snd (compact_loop is removed remaining w))) = w_config w"
    "w_closed (snd (snd (compact_loop is removed remaining w))) = w_closed w"
    "w_nextID (snd (snd (compact_loop is removed remaining w))) = w_nextID w"
    "w_nextSegmentID (snd (snd (compact_loop is removed remaining w))) = w_nextSegmentID w"
    "w_current (snd (snd (compact_loop is removed remaining w))) = w_current w"
    "w_segmentIDs (snd (snd (compact_loop is removed remaining w))) = w_segmentIDs w"
    "w_active (snd (snd (compact_loop is removed remaining w))) = w_active w"
    "w_ids (snd (snd (compact_loop is removed remaining w))) = w_ids w"
    "w_reservedBytes (snd (snd (compact_loop is removed remaining w))) = w_reservedBytes w"
    "w_quarantined (snd (snd (compact_loop is removed remaining w))) = w_quarantined w"
    "w_appendQueue (snd (snd (compact_loop is removed remaining w))) = w_appendQueue w"
    "w_compact (snd (snd (compact_loop is removed remaining w))) = w_compact w"
    "w_events (snd (snd (compact_loop is removed remaining w))) = w_events w"
    "w_now (snd (snd (compact_loop is removed remaining w))) = w_now w"
  by (induction "is" arbitrary: removed remaining w)
    (simp_all add: split_beta split: option.split bool.split)

lemma compactSegmentsLocked_frame [simp, wal_frame]:
  "w_config (snd (compactSegmentsLocked w)) = w_config w" "w_closed (snd (compactSegmentsLocked w)) = w_closed w"
  "w_nextID (snd (compactSegmentsLocked w)) = w_nextID w" "w_nextSegmentID (snd (compactSegmentsLocked w)) = w_nextSegmentID w"
  "w_current (snd (compactSegmentsLocked w)) = w_current w" "w_active (snd (compactSegmentsLocked w)) = w_active w"
  "w_ids (snd (compactSegmentsLocked w)) = w_ids w" "w_reservedBytes (snd (compactSegmentsLocked w)) = w_reservedBytes w"
  "w_quarantined (snd (compactSegmentsLocked w)) = w_quarantined w" "w_appendQueue (snd (compactSegmentsLocked w)) = w_appendQueue w"
  "w_compact (snd (compactSegmentsLocked w)) = w_compact w" "w_now (snd (compactSegmentsLocked w)) = w_now w"
  by (simp_all add: compactSegmentsLocked_def Let_def split_beta)

lemma compactSegments_frame [simp, wal_frame]:
  "w_config (compactSegments w) = w_config w" "w_closed (compactSegments w) = w_closed w"
  "w_nextID (compactSegments w) = w_nextID w" "w_nextSegmentID (compactSegments w) = w_nextSegmentID w"
  "w_current (compactSegments w) = w_current w" "w_active (compactSegments w) = w_active w"
  "w_ids (compactSegments w) = w_ids w" "w_reservedBytes (compactSegments w) = w_reservedBytes w"
  "w_quarantined (compactSegments w) = w_quarantined w" "w_appendQueue (compactSegments w) = w_appendQueue w"
  "w_compact (compactSegments w) = w_compact w" "w_now (compactSegments w) = w_now w"
  by (simp_all add: compactSegments_def split_beta)

section \<open>Group commit\<close>

lemma install_records_frame [simp, wal_frame]:
  "w_config (install_records ps off w) = w_config w" "w_closed (install_records ps off w) = w_closed w"
  "w_fault (install_records ps off w) = w_fault w" "w_nextID (install_records ps off w) = w_nextID w"
  "w_nextSegmentID (install_records ps off w) = w_nextSegmentID w" "w_current (install_records ps off w) = w_current w"
  "w_segmentIDs (install_records ps off w) = w_segmentIDs w" "w_usedBytes (install_records ps off w) = w_usedBytes w"
  "w_quarantined (install_records ps off w) = w_quarantined w" "w_appendQueue (install_records ps off w) = w_appendQueue w"
  "w_compact (install_records ps off w) = w_compact w" "w_events (install_records ps off w) = w_events w"
  "w_now (install_records ps off w) = w_now w" "w_world (install_records ps off w) = w_world w"
  by (induction ps arbitrary: off w) (simp_all add: Let_def)

end
