(* ===== verification/Wal_Invariant.thy ===== *)
theory Wal_Invariant
  imports Wal_Frame
begin

text \<open>
  The invariant of the log's tables and its preservation by every operation: segments are
  stored under their own identifiers and file names, the current one is open; the used
  bytes are the sum of the sizes; the reservation is the sum of what the active records may
  still need; each segment counts its active records; the index is sorted and covers the
  active records.
\<close>

section \<open>The invariant\<close>

definition seg_total :: "u64 \<Rightarrow> walSegment \<Rightarrow> int" where
  "seg_total i s = seg_size s + seg_stateSize s"

definition actives_of :: "(u64 \<rightharpoonup> walRecordMetadata) \<Rightarrow> u64 \<Rightarrow> u64 set" where
  "actives_of act i = {j. \<exists>md. act j = Some md \<and> md_segmentID md = i}"

definition segment_ok :: "WAL \<Rightarrow> u64 \<Rightarrow> walSegment \<Rightarrow> bool" where
  "segment_ok w i s \<longleftrightarrow> seg_id s = i \<and> seg_path s = segmentFilename i
     \<and> seg_statePath s = stateFilename i \<and> i < w_nextSegmentID w
     \<and> seg_activeRecords s = int (card (actives_of (w_active w) i))
     \<and> 0 \<le> seg_quarantinedRecords s \<and> 0 \<le> seg_size s \<and> 0 \<le> seg_stateSize s"

definition tables_ok :: "u64 list \<Rightarrow> WAL \<Rightarrow> bool" where
  "tables_ok ids w \<longleftrightarrow> distinct ids \<and> set ids = dom (w_segments w)
     \<and> (\<forall>i s. w_segments w i = Some s \<longrightarrow> segment_ok w i s)
     \<and> (\<exists>c. w_segments w (w_current w) = Some c \<and> \<not> seg_closed c)
     \<and> w_usedBytes w = map_sum seg_total (w_segments w)
     \<and> (\<forall>j md. w_active w j = Some md \<longrightarrow> md_segmentID md \<in> dom (w_segments w))
     \<and> w_reservedBytes w = map_sum (\<lambda>_. record_reserve (w_config w)) (w_active w)"

definition index_ok :: "WAL \<Rightarrow> bool" where
  "index_ok w \<longleftrightarrow> sorted_wrt (<) (w_ids w) \<and> dom (w_active w) \<subseteq> set (w_ids w)
     \<and> (\<forall>j\<in>set (w_ids w). j < w_nextID w)"

definition wal_inv :: "WAL \<Rightarrow> bool" where
  "wal_inv w \<longleftrightarrow> tables_ok (w_segmentIDs w) w \<and> index_ok w"

definition within_limit :: "WAL \<Rightarrow> bool" where
  "within_limit w \<longleftrightarrow> w_usedBytes w + w_reservedBytes w \<le> cfg_MaxBytes (w_config w)"

lemma tables_ok_cong:
  assumes "w_segments w' = w_segments w" "w_current w' = w_current w"
    "w_usedBytes w' = w_usedBytes w" "w_active w' = w_active w"
    "w_reservedBytes w' = w_reservedBytes w" "w_config w' = w_config w"
    "w_nextSegmentID w' = w_nextSegmentID w"
  shows "tables_ok ids w' = tables_ok ids w"
  using assms by (simp add: tables_ok_def segment_ok_def)

lemma index_ok_cong:
  assumes "w_ids w' = w_ids w" "w_active w' = w_active w" "w_nextID w' = w_nextID w"
  shows "index_ok w' = index_ok w"
  using assms by (simp add: index_ok_def)

lemma finite_actives_of [simp]: "finite (actives_of act i)"
  by (rule finite_set_word)

lemma record_reserve_pos: "0 < record_reserve c md"
  by (simp add: record_reserve_def remaining_attempts_def wal_sizes Let_def)

lemma map_sum_nonneg:
  fixes f :: "'k \<Rightarrow> 'v \<Rightarrow> int"
  shows "(\<And>k v. m k = Some v \<Longrightarrow> 0 \<le> f k v) \<Longrightarrow> 0 \<le> map_sum f m"
  by (auto simp: map_sum_def intro!: sum_nonneg)

lemma tables_ok_lookup:
  assumes "tables_ok ids w" "i \<in> set ids"
  obtains s where "w_segments w i = Some s" "segment_ok w i s" "0 \<le> seg_total i s"
proof -
  have "i \<in> dom (w_segments w)" using assms unfolding tables_ok_def by blast
  then obtain s where s: "w_segments w i = Some s" by blast
  then have "segment_ok w i s" using assms(1) unfolding tables_ok_def by blast
  then show ?thesis using that s by (simp add: segment_ok_def seg_total_def)
qed

text \<open>Changing only what the invariant does not read of a segment.\<close>

lemma map_sum_map_entry:
  assumes "finite (dom m)" "\<And>v. m k = Some v \<Longrightarrow> f k (g v) = f k v"
  shows "map_sum f (m(k := map_option g (m k))) = map_sum f m"
proof (cases "m k")
  case None
  then show ?thesis by (simp add: fun_upd_idem)
next
  case (Some v)
  have "dom (m(k := map_option g (m k))) = dom m" using Some by auto
  then show ?thesis
    unfolding map_sum_def using assms(2) Some by (auto intro!: sum.cong)
qed

definition handle_change :: "(walSegment \<Rightarrow> walSegment) \<Rightarrow> bool" where
  "handle_change g \<longleftrightarrow> (\<forall>s. \<exists>a b. g s = s\<lparr>seg_file := a, seg_stateFile := b\<rparr>)"

lemma handle_changeD:
  assumes "handle_change g"
  shows "seg_id (g s) = seg_id s" "seg_path (g s) = seg_path s" "seg_statePath (g s) = seg_statePath s"
    "seg_size (g s) = seg_size s" "seg_stateSize (g s) = seg_stateSize s"
    "seg_activeRecords (g s) = seg_activeRecords s" "seg_closed (g s) = seg_closed s"
    "seg_quarantinedRecords (g s) = seg_quarantinedRecords s" "seg_recordIDs (g s) = seg_recordIDs s"
proof -
  obtain a b where "g s = s\<lparr>seg_file := a, seg_stateFile := b\<rparr>"
    using assms unfolding handle_change_def by blast
  then show "seg_id (g s) = seg_id s" "seg_path (g s) = seg_path s" "seg_statePath (g s) = seg_statePath s"
    "seg_size (g s) = seg_size s" "seg_stateSize (g s) = seg_stateSize s"
    "seg_activeRecords (g s) = seg_activeRecords s" "seg_closed (g s) = seg_closed s"
    "seg_quarantinedRecords (g s) = seg_quarantinedRecords s" "seg_recordIDs (g s) = seg_recordIDs s"
    by simp_all
qed

lemma handle_change_close: "handle_change (\<lambda>c. c\<lparr>seg_stateFile := False\<rparr>)"
  unfolding handle_change_def
proof
  fix s :: walSegment
  have "s\<lparr>seg_stateFile := False\<rparr> = s\<lparr>seg_file := seg_file s, seg_stateFile := False\<rparr>" by (cases s) simp
  then show "\<exists>a b. s\<lparr>seg_stateFile := False\<rparr> = s\<lparr>seg_file := a, seg_stateFile := b\<rparr>" by blast
qed

lemma tables_ok_handles:
  assumes "handle_change g" "tables_ok ids w"
  shows "tables_ok ids (upd_segment i g w)"
proof -
  have "map_sum seg_total ((w_segments w)(i := map_option g (w_segments w i)))
      = map_sum seg_total (w_segments w)"
    by (rule map_sum_map_entry) (simp_all add: seg_total_def handle_changeD [OF assms(1)])
  moreover have "dom ((w_segments w)(i := map_option g (w_segments w i))) = dom (w_segments w)"
    by (auto simp: domIff split: if_splits)
  ultimately show ?thesis
    using assms(2) unfolding tables_ok_def
    by (auto simp: segment_ok_def handle_changeD [OF assms(1)])
qed

section \<open>Compaction\<close>

text \<open>One removal: either it failed, the log is faulty and the tables are as they were, or
  the segment is gone with its bytes.\<close>

lemma remove_segment_cases:
  assumes "remove_segment i s w = (b, w')"
  shows "if b then w_segments w' = (w_segments w)(i := None)
            \<and> w_usedBytes w' = w_usedBytes w - seg_total i s \<and> w_fault w' = w_fault w
         else w_fault w' \<noteq> None \<and> w_usedBytes w' = w_usedBytes w
            \<and> (w_segments w' = w_segments w
               \<or> w_segments w' = w_segments (upd_segment i (\<lambda>c. c\<lparr>seg_stateFile := False\<rparr>) w))"
  using assms
  by (auto simp: remove_segment_def Let_def split_beta seg_total_def split: if_splits)

lemma remove_tables_ok:
  assumes ok: "tables_ok (remaining @ i # is) w" and s: "w_segments w i = Some s"
    and r: "removable w i s" and run: "remove_segment i s w = (b, w')"
  shows "tables_ok (if b then remaining @ is else remaining @ i # is) w'"
proof -
  have w': "w' = snd (remove_segment i s w)" using run by simp
  note same = remove_segment_frame [of i s w, folded w']
  show ?thesis
  proof (cases b)
    case False
    have up: "tables_ok (remaining @ i # is) (upd_segment i (\<lambda>c. c\<lparr>seg_stateFile := False\<rparr>) w)"
      using handle_change_close ok by (rule tables_ok_handles)
    have "w_usedBytes w' = w_usedBytes w" "w_segments w' = w_segments w
      \<or> w_segments w' = w_segments (upd_segment i (\<lambda>c. c\<lparr>seg_stateFile := False\<rparr>) w)"
      using remove_segment_cases [OF run] False by simp_all
    then have "tables_ok (remaining @ i # is) w'"
      using tables_ok_cong [of w' w] tables_ok_cong [of w' "upd_segment i (\<lambda>c. c\<lparr>seg_stateFile := False\<rparr>) w"]
        ok up same by auto
    then show ?thesis using False by simp
  next
    case True
    have segs: "w_segments w' = (w_segments w)(i := None)"
      and used: "w_usedBytes w' = w_usedBytes w - seg_total i s"
      using remove_segment_cases [OF run] True by simp_all
    have "segment_ok w i s" using ok s by (simp add: tables_ok_def)
    then have "int (card (actives_of (w_active w) i)) = 0"
      using r by (simp add: segment_ok_def removable_def)
    then have none: "actives_of (w_active w) i = {}" by simp
    have md: "md_segmentID md \<noteq> i" if "w_active w j = Some md" for j md
      using none that by (auto simp: actives_of_def)
    have sum: "map_sum seg_total (w_segments w) = seg_total i s + map_sum seg_total ((w_segments w)(i := None))"
      by (rule map_sum_delete) (simp_all add: s)
    have ids: "distinct (remaining @ is)" "set (remaining @ is) = dom ((w_segments w)(i := None))"
      using ok by (auto simp: tables_ok_def)
    have "\<exists>c. w_segments w' (w_current w') = Some c \<and> \<not> seg_closed c"
      using ok r segs same(5) unfolding tables_ok_def by (auto simp: removable_def)
    moreover have "\<forall>k c. w_segments w' k = Some c \<longrightarrow> segment_ok w' k c"
      using ok segs same unfolding tables_ok_def by (auto simp: segment_ok_def)
    moreover have "\<forall>j md. w_active w' j = Some md \<longrightarrow> md_segmentID md \<in> dom (w_segments w')"
      using ok segs same md unfolding tables_ok_def by simp
    moreover have "w_usedBytes w' = map_sum seg_total (w_segments w')"
      using ok used sum segs unfolding tables_ok_def by simp
    moreover have "w_reservedBytes w' = map_sum (\<lambda>_. record_reserve (w_config w')) (w_active w')"
      using ok same unfolding tables_ok_def by simp
    ultimately show ?thesis
      using True ids segs unfolding tables_ok_def by simp
  qed
qed

text \<open>What the loop does to the tables, to the bytes and to the other segments.\<close>

lemma compact_loop_inv:
  assumes "compact_loop is removed remaining w = (n, ids, w')" "tables_ok (remaining @ is) w"
  shows "tables_ok ids w' \<and> w_usedBytes w' \<le> w_usedBytes w \<and> (w_fault w' = None \<longrightarrow> w_fault w = None)"
  using assms
proof (induction "is" arbitrary: removed remaining w)
  case (Cons i "is")
  obtain s where s: "w_segments w i = Some s" and total: "0 \<le> seg_total i s"
    using tables_ok_lookup [OF Cons.prems(2), of i] by auto
  show ?case
  proof (cases "removable w i s")
    case False
    then show ?thesis using Cons.IH [of removed "remaining @ [i]" w] Cons.prems s by simp
  next
    case True
    obtain b w1 where run: "remove_segment i s w = (b, w1)" by fastforce
    have ok: "tables_ok (if b then remaining @ is else remaining @ i # is) w1"
      by (rule remove_tables_ok [OF Cons.prems(2) s True run])
    have w1: "w_usedBytes w1 \<le> w_usedBytes w" "w_fault w1 = None \<longrightarrow> w_fault w = None"
      using remove_segment_cases [OF run] total by (auto split: if_splits)
    show ?thesis
    proof (cases b)
      case True
      then show ?thesis
        using Cons.IH [of "Suc removed" remaining w1] Cons.prems(1) s run ok w1 \<open>removable w i s\<close> by auto
    next
      case False
      then show ?thesis
        using Cons.IH [of removed "remaining @ [i]" w1] Cons.prems(1) s run ok w1 \<open>removable w i s\<close> by auto
    qed
  qed
qed simp

text \<open>Segments that are not removable keep what is recorded of them; a removable one that
  the loop meets is gone, unless the log became faulty.\<close>

definition same_but_handles :: "walSegment \<Rightarrow> walSegment \<Rightarrow> bool" where
  "same_but_handles s s' \<longleftrightarrow> (\<exists>a b. s' = s\<lparr>seg_file := a, seg_stateFile := b\<rparr>)"

lemma removable_other:
  assumes "remove_segment i s w = (b, w')"
  shows "removable w' j c = removable w j c"
proof -
  have "w_current w' = w_current w" using remove_segment_frame(5) [of i s w] assms by simp
  then show ?thesis by (simp add: removable_def)
qed

lemma compact_loop_keeps:
  assumes "compact_loop is removed remaining w = (n, ids, w')" "w_segments w j = Some c"
    "\<not> removable w j c"
  shows "w_segments w' j = Some c"
  using assms
proof (induction "is" arbitrary: removed remaining w)
  case (Cons i "is")
  show ?case
  proof (cases "w_segments w i")
    case None
    then show ?thesis using Cons.prems by auto
  next
    case (Some s)
    show ?thesis
    proof (cases "removable w i s")
      case False
      then show ?thesis using Cons.IH Cons.prems Some by simp
    next
      case True
      obtain b w1 where run: "remove_segment i s w = (b, w1)" by fastforce
      have "j \<noteq> i" using True Some Cons.prems(2,3) by auto
      then have "w_segments w1 j = Some c"
        using remove_segment_cases [OF run] Cons.prems(2) by (auto split: if_splits)
      then show ?thesis
        using Cons.IH [of "if b then Suc removed else removed" "if b then remaining else remaining @ [i]" w1]
          Cons.prems Some True run removable_other [OF run, of j c] by (cases b) auto
    qed
  qed
qed simp

lemma compact_loop_absent:
  assumes "compact_loop is removed remaining w = (n, ids, w')" "w_segments w j = None"
  shows "w_segments w' j = None"
  using assms
proof (induction "is" arbitrary: removed remaining w)
  case (Cons i "is")
  show ?case
  proof (cases "w_segments w i")
    case None
    then show ?thesis using Cons.prems by auto
  next
    case (Some s)
    obtain b w1 where run: "remove_segment i s w = (b, w1)" by fastforce
    have "w_segments w1 j = None"
      using remove_segment_cases [OF run] Cons.prems(2) by (auto split: if_splits)
    then show ?thesis
      using Cons Some run by (cases "removable w i s"; cases b) auto
  qed
qed simp

lemma compact_loop_frees:
  assumes "compact_loop is removed remaining w = (n, ids, w')" "tables_ok (remaining @ is) w"
    "w_segments w j = Some c" "removable w j c" "j \<in> set is" "w_fault w' = None"
  shows "w_segments w' j = None \<and> w_usedBytes w' \<le> w_usedBytes w - seg_total j c"
  using assms
proof (induction "is" arbitrary: removed remaining w)
  case (Cons i "is")
  obtain s where s: "w_segments w i = Some s" and total: "0 \<le> seg_total i s"
    using tables_ok_lookup [OF Cons.prems(2), of i] by auto
  show ?case
  proof (cases "removable w i s")
    case False
    then have "j \<noteq> i" using Cons.prems(3,4) s by auto
    then show ?thesis using Cons.IH [of removed "remaining @ [i]" w] Cons.prems s False by simp
  next
    case True
    obtain b w1 where run: "remove_segment i s w = (b, w1)" by fastforce
    have ok: "tables_ok (if b then remaining @ is else remaining @ i # is) w1"
      by (rule remove_tables_ok [OF Cons.prems(2) s True run])
    have loop: "compact_loop is (if b then Suc removed else removed)
        (if b then remaining else remaining @ [i]) w1 = (n, ids, w')"
      using Cons.prems(1) s True run by (cases b) simp_all
    have ok': "tables_ok ((if b then remaining else remaining @ [i]) @ is) w1" using ok by (cases b) simp_all
    have rest: "w_usedBytes w' \<le> w_usedBytes w1" "w_fault w1 = None"
      using compact_loop_inv [OF loop ok'] Cons.prems(6) by simp_all
    then have b using remove_segment_cases [OF run] by (cases b) simp_all
    have w1: "w_segments w1 = (w_segments w)(i := None)" "w_usedBytes w1 = w_usedBytes w - seg_total i s"
      using remove_segment_cases [OF run] \<open>b\<close> by simp_all
    show ?thesis
    proof (cases "j = i")
      case True
      have gone: "w_segments w' i = None" if "w_segments w1 i = None"
        using compact_loop_absent [OF loop that] .
      then show ?thesis using True w1 rest s Cons.prems(3) by simp
    next
      case False
      then show ?thesis
        using Cons.IH [OF loop ok' _ _ _ Cons.prems(6)] w1 total False Cons.prems(3-5)
          removable_other [OF run, of j c] by auto
    qed
  qed
qed simp

lemma compactSegmentsLocked_loop:
  assumes "compactSegmentsLocked w = (n, w')"
  obtains ids w1 where "compact_loop (w_segmentIDs w) 0 [] w = (n, ids, w1)"
    "w_segments w' = w_segments w1" "w_segmentIDs w' = ids" "w_usedBytes w' = w_usedBytes w1"
    "w_fault w' = None \<longrightarrow> w_fault w1 = None"
proof -
  obtain m ids w1 where l: "compact_loop (w_segmentIDs w) 0 [] w = (m, ids, w1)"
    using prod_cases3 by blast
  then have "m = n" "w_segments w' = w_segments w1" "w_segmentIDs w' = ids"
    "w_usedBytes w' = w_usedBytes w1" "w_fault w' = None \<longrightarrow> w_fault w1 = None"
    using assms by (auto simp: compactSegmentsLocked_def Let_def split_beta split: if_splits)
  then show ?thesis using that l by simp
qed

lemma compactSegmentsLocked_inv:
  assumes "compactSegmentsLocked w = (n, w')" "wal_inv w"
  shows "wal_inv w' \<and> w_usedBytes w' \<le> w_usedBytes w \<and> (w_fault w' = None \<longrightarrow> w_fault w = None)"
proof -
  obtain ids w1 where l: "compact_loop (w_segmentIDs w) 0 [] w = (n, ids, w1)"
    "w_segments w' = w_segments w1" "w_segmentIDs w' = ids" "w_usedBytes w' = w_usedBytes w1"
    "w_fault w' = None \<longrightarrow> w_fault w1 = None"
    using compactSegmentsLocked_loop [OF assms(1)] .
  have w': "w' = snd (compactSegmentsLocked w)" using assms(1) by simp
  have w1: "w1 = snd (snd (compact_loop (w_segmentIDs w) 0 [] w))" using l(1) by simp
  note same = compactSegmentsLocked_frame [of w, folded w']
    compact_loop_frame [of "w_segmentIDs w" 0 "[]" w, folded w1]
  have inv: "tables_ok ids w1" "w_usedBytes w1 \<le> w_usedBytes w" "w_fault w1 = None \<longrightarrow> w_fault w = None"
    using compact_loop_inv [OF l(1)] assms(2) by (simp_all add: wal_inv_def)
  have "tables_ok (w_segmentIDs w') w'"
    using inv(1) tables_ok_cong [of w' w1 ids] l same by simp
  moreover have "index_ok w'"
    using assms(2) index_ok_cong [of w' w] same by (simp add: wal_inv_def)
  ultimately show ?thesis using inv l by (simp add: wal_inv_def)
qed

lemma compactSegmentsLocked_keeps:
  assumes "compactSegmentsLocked w = (n, w')" "w_segments w j = Some c" "\<not> removable w j c"
  shows "w_segments w' j = Some c"
proof -
  obtain ids w1 where "compact_loop (w_segmentIDs w) 0 [] w = (n, ids, w1)"
    "w_segments w' = w_segments w1"
    using compactSegmentsLocked_loop [OF assms(1)] by metis
  then show ?thesis using compact_loop_keeps assms(2,3) by metis
qed

lemma compactSegmentsLocked_frees:
  assumes "compactSegmentsLocked w = (n, w')" "wal_inv w" "w_segments w j = Some c"
    "removable w j c" "w_fault w' = None"
  shows "w_segments w' j = None \<and> w_usedBytes w' \<le> w_usedBytes w - seg_total j c"
proof -
  obtain ids w1 where l: "compact_loop (w_segmentIDs w) 0 [] w = (n, ids, w1)"
    "w_segments w' = w_segments w1" "w_usedBytes w' = w_usedBytes w1"
    "w_fault w' = None \<longrightarrow> w_fault w1 = None"
    using compactSegmentsLocked_loop [OF assms(1)] by metis
  have ok: "tables_ok ([] @ w_segmentIDs w) w" using assms(2) by (simp add: wal_inv_def)
  then have "j \<in> set (w_segmentIDs w)" using assms(3) by (auto simp: tables_ok_def)
  then show ?thesis
    using compact_loop_frees [OF l(1) ok assms(3,4)] l assms(5) by simp
qed

lemma compactSegments_as_locked:
  assumes "compactSegmentsLocked w = (n, w1)"
  shows "w_segments (compactSegments w) = w_segments w1"
    "w_segmentIDs (compactSegments w) = w_segmentIDs w1"
    "w_usedBytes (compactSegments w) = w_usedBytes w1"
    "w_fault (compactSegments w) = w_fault w1" "w_world (compactSegments w) = w_world w1"
  using assms by (simp_all add: compactSegments_def)

lemma compactSegments_inv:
  assumes "wal_inv w"
  shows "wal_inv (compactSegments w) \<and> w_usedBytes (compactSegments w) \<le> w_usedBytes w"
proof -
  obtain n w1 where l: "compactSegmentsLocked w = (n, w1)" by fastforce
  then have w1: "w1 = snd (compactSegmentsLocked w)" by simp
  note same = compactSegmentsLocked_frame [of w, folded w1] compactSegments_as_locked [OF l]
  show ?thesis
    using compactSegmentsLocked_inv [OF l assms] same
      tables_ok_cong [of "compactSegments w" w1] index_ok_cong [of "compactSegments w" w1]
    by (simp add: wal_inv_def)
qed

section \<open>Rotation\<close>

definition fresh_segment :: "u64 \<Rightarrow> walSegment" where
  "fresh_segment i =
     \<lparr>seg_id = i, seg_path = segmentFilename i, seg_statePath = stateFilename i,
      seg_file = True, seg_stateFile = True,
      seg_size = int walSegmentHeaderSize, seg_stateSize = int walStateHeaderSize,
      seg_recordIDs = [], seg_activeRecords = 0, seg_quarantinedRecords = 0,
      seg_closed = False\<rparr>"

lemma createSegment_Inr:
  "createSegment i now fs = (Inr s, fs') \<Longrightarrow> s = fresh_segment i"
  unfolding createSegment_def fresh_segment_def Let_def split_beta
  by (auto split: if_splits)

lemma rotateLocked_None:
  assumes "rotateLocked w = (None, w')"
  obtains fs fs' cur where "createSegment (w_nextSegmentID w) (w_now w) (w_world w)
      = (Inr (fresh_segment (w_nextSegmentID w)), fs)"
    "fs' = fs \<or> fs' = snd (os_close fs)"
    "w_segments w (w_current w) = Some cur"
    "w' = (installSegment (fresh_segment (w_nextSegmentID w))
        (upd_segment (w_current w) (\<lambda>c. c\<lparr>seg_file := False, seg_closed := True\<rparr>)
          (w\<lparr>w_world := fs'\<rparr>)))\<lparr>w_current := w_nextSegmentID w\<rparr>"
proof -
  obtain r fs where c: "createSegment (w_nextSegmentID w) (w_now w) (w_world w) = (r, fs)" by fastforce
  have l: "lift_io (createSegment (w_nextSegmentID w) (w_now w)) w = (r, w\<lparr>w_world := fs\<rparr>)"
    by (simp add: lift_io_def c)
  obtain s where r: "r = Inr s" using assms l by (cases r) (auto simp: rotateLocked_def)
  have s: "s = fresh_segment (w_nextSegmentID w)" using createSegment_Inr c r by blast
  obtain cur where cur: "w_segments w (w_current w) = Some cur"
    using assms l r by (auto simp: rotateLocked_def split: option.splits)
  have i: "seg_id s = w_nextSegmentID w" by (simp add: s fresh_segment_def)
  obtain b fs2 where o: "os_close fs = (b, fs2)" by fastforce
  have lo: "lift_io os_close (w\<lparr>w_world := fs\<rparr>) = (b, w\<lparr>w_world := fs2\<rparr>)"
    by (simp add: lift_io_def o)
  have "w' = (installSegment s
        (upd_segment (w_current w) (\<lambda>c. c\<lparr>seg_file := False, seg_closed := True\<rparr>)
          (w\<lparr>w_world := if seg_file cur then fs2 else fs\<rparr>)))\<lparr>w_current := w_nextSegmentID w\<rparr>"
  proof (cases "seg_file cur")
    case True
    then have b using assms l r cur lo by (cases b) (simp_all add: rotateLocked_def)
    then show ?thesis using True assms l r cur lo i by (simp add: rotateLocked_def)
  next
    case False
    then show ?thesis using assms l r cur i by (simp add: rotateLocked_def)
  qed
  then show ?thesis
    using that [of fs "if seg_file cur then fs2 else fs" cur] c r s cur o by simp
qed

lemma rotate_segments:
  assumes "rotateLocked w = (None, w')" "tables_ok ids w" "w_segments w (w_current w) = Some cur"
  shows "w_segments w' = (w_segments w)(w_current w \<mapsto> cur\<lparr>seg_file := False, seg_closed := True\<rparr>,
      w_nextSegmentID w \<mapsto> fresh_segment (w_nextSegmentID w))"
    "w_segmentIDs w' = w_segmentIDs w @ [w_nextSegmentID w]"
    "w_usedBytes w' = w_usedBytes w + int walSegmentHeaderSize + int walStateHeaderSize"
    "w_nextSegmentID w' = w_nextSegmentID w + 1" "w_current w' = w_nextSegmentID w"
    "w_active w' = w_active w" "w_reservedBytes w' = w_reservedBytes w" "w_config w' = w_config w"
    "w_ids w' = w_ids w" "w_nextID w' = w_nextID w" "w_fault w' = w_fault w"
    "w_segments w (w_nextSegmentID w) = None"
proof -
  show "w_segments w (w_nextSegmentID w) = None"
  proof (rule ccontr)
    assume "w_segments w (w_nextSegmentID w) \<noteq> None"
    then obtain s where "w_segments w (w_nextSegmentID w) = Some s" by blast
    then have "segment_ok w (w_nextSegmentID w) s" using assms(2) unfolding tables_ok_def by blast
    then show False by (simp add: segment_ok_def)
  qed
  obtain fs' where "w' = (installSegment (fresh_segment (w_nextSegmentID w))
        (upd_segment (w_current w) (\<lambda>c. c\<lparr>seg_file := False, seg_closed := True\<rparr>)
          (w\<lparr>w_world := fs'\<rparr>)))\<lparr>w_current := w_nextSegmentID w\<rparr>"
    using rotateLocked_None [OF assms(1)] by metis
  then show "w_segments w' = (w_segments w)(w_current w \<mapsto> cur\<lparr>seg_file := False, seg_closed := True\<rparr>,
      w_nextSegmentID w \<mapsto> fresh_segment (w_nextSegmentID w))"
    "w_segmentIDs w' = w_segmentIDs w @ [w_nextSegmentID w]"
    "w_usedBytes w' = w_usedBytes w + int walSegmentHeaderSize + int walStateHeaderSize"
    "w_nextSegmentID w' = w_nextSegmentID w + 1" "w_current w' = w_nextSegmentID w"
    "w_active w' = w_active w" "w_reservedBytes w' = w_reservedBytes w" "w_config w' = w_config w"
    "w_ids w' = w_ids w" "w_nextID w' = w_nextID w" "w_fault w' = w_fault w"
    using assms(3) by (simp_all add: installSegment_def fresh_segment_def)
qed

lemma actives_of_absent:
  "tables_ok ids w \<Longrightarrow> w_segments w i = None \<Longrightarrow> actives_of (w_active w) i = {}"
  by (rule ccontr) (fastforce simp: tables_ok_def actives_of_def)

lemma rotate_tables_ok:
  assumes "rotateLocked w = (None, w')" "tables_ok (w_segmentIDs w) w" "w_nextSegmentID w \<noteq> - 1"
  shows "tables_ok (w_segmentIDs w') w'"
proof -
  obtain cur where cur: "w_segments w (w_current w) = Some cur"
    using assms(2) unfolding tables_ok_def by blast
  note r = rotate_segments [OF assms(1,2) cur]
  let ?n = "w_nextSegmentID w" and ?c = "w_current w"
  let ?cur = "cur\<lparr>seg_file := False, seg_closed := True\<rparr>"
  have self: "?n < ?n + 1" using assms(3) by (rule word_less_plus_1)
  have next_gt: "i < ?n + 1" if "i < ?n" for i using that self by (rule order_less_trans)
  have "map_sum seg_total ((w_segments w)(?c := map_option (\<lambda>c. ?cur) (w_segments w ?c)))
      = map_sum seg_total (w_segments w)"
    by (rule map_sum_map_entry) (simp_all add: seg_total_def cur)
  then have sum1: "map_sum seg_total ((w_segments w)(?c \<mapsto> ?cur)) = map_sum seg_total (w_segments w)"
    by (simp add: cur)
  have "((w_segments w)(?c \<mapsto> ?cur)) ?n = None" using r(12) cur by auto
  then have sum2: "map_sum seg_total (w_segments w') = seg_total ?n (fresh_segment ?n) + map_sum seg_total (w_segments w)"
    using map_sum_insert [of "(w_segments w)(?c \<mapsto> ?cur)" ?n seg_total "fresh_segment ?n"] sum1 r(1) by simp
  show ?thesis
    unfolding tables_ok_def
  proof (intro conjI allI impI)
    show "distinct (w_segmentIDs w')" "set (w_segmentIDs w') = dom (w_segments w')"
      using assms(2) r(1,2,12) cur unfolding tables_ok_def by auto
    show "segment_ok w' i s" if "w_segments w' i = Some s" for i s
    proof (cases "i = ?n")
      case True
      then show ?thesis
        using that r(1,4,6) self actives_of_absent [OF assms(2) r(12)]
        by (auto simp: segment_ok_def fresh_segment_def wal_sizes)
    next
      case False
      have "segment_ok w i s0" if "w_segments w i = Some s0" for s0
        using assms(2) that unfolding tables_ok_def by blast
      then show ?thesis
        using that False r(1,4,6) cur next_gt by (auto simp: segment_ok_def split: if_splits)
    qed
    show "\<exists>c. w_segments w' (w_current w') = Some c \<and> \<not> seg_closed c"
      by (simp add: r fresh_segment_def)
    show "w_usedBytes w' = map_sum seg_total (w_segments w')"
      using sum2 r(3) assms(2) unfolding tables_ok_def by (simp add: seg_total_def fresh_segment_def)
    show "md_segmentID md \<in> dom (w_segments w')" if "w_active w' j = Some md" for j md
      using that assms(2) r(1,6) unfolding tables_ok_def by auto
    show "w_reservedBytes w' = map_sum (\<lambda>_. record_reserve (w_config w')) (w_active w')"
      using assms(2) r(6,7,8) unfolding tables_ok_def by simp
  qed
qed

section \<open>Bookkeeping of a group\<close>

text \<open>The identifiers of a group are new and ascending.\<close>

definition fresh_ids :: "u64 list \<Rightarrow> WAL \<Rightarrow> bool" where
  "fresh_ids is w \<longleftrightarrow> sorted_wrt (<) is
     \<and> (\<forall>k\<in>set is. k < w_nextID w \<and> (\<forall>j\<in>set (w_ids w). j < k))"

definition prepared_id :: "preparedWALRecord \<Rightarrow> u64" where
  "prepared_id p = RecordID (pr_record p)"

lemma tables_ok_grow:
  assumes "tables_ok ids w" "0 \<le> n" and s: "w_segments w i = Some s"
  shows "tables_ok ids ((upd_segment i (\<lambda>c. c\<lparr>seg_size := seg_size c + n\<rparr>) w)
    \<lparr>w_usedBytes := w_usedBytes w + n\<rparr>)"
proof -
  let ?s = "s\<lparr>seg_size := seg_size s + n\<rparr>"
  have "map_sum seg_total ((w_segments w)(i \<mapsto> ?s)) + seg_total i s = map_sum seg_total (w_segments w) + seg_total i ?s"
    by (rule map_sum_update) (simp_all add: s)
  then have "map_sum seg_total ((w_segments w)(i \<mapsto> ?s)) = map_sum seg_total (w_segments w) + n"
    by (simp add: seg_total_def)
  then show ?thesis
    using assms unfolding tables_ok_def by (auto simp: segment_ok_def)
qed

lemma actives_of_insert:
  "act j = None \<Longrightarrow> actives_of (act(j \<mapsto> md)) i =
     (if md_segmentID md = i then insert j (actives_of act i) else actives_of act i)"
  by (auto simp: actives_of_def)

lemma install_one_ok:
  assumes ok: "tables_ok ids w" and new: "w_active w j = None"
    and cur: "w_segments w (w_current w) = Some cur"
    and md: "md_segmentID md = w_current w" "md_attempts md = 0"
    and max: "1 \<le> cfg_MaxRecordAttempts (w_config w)"
  shows "tables_ok ids (upd_segment (w_current w)
      (\<lambda>c. c\<lparr>seg_recordIDs := seg_recordIDs c @ [j], seg_activeRecords := seg_activeRecords c + 1\<rparr>)
      (w\<lparr>w_active := (w_active w)(j \<mapsto> md), w_ids := w_ids w @ [j],
         w_reservedBytes := w_reservedBytes w
           + cfg_MaxRecordAttempts (w_config w) * int walStateEntrySize\<rparr>))"
    (is "tables_ok ids ?w")
proof -
  let ?g = "\<lambda>c. c\<lparr>seg_recordIDs := seg_recordIDs c @ [j], seg_activeRecords := seg_activeRecords c + 1\<rparr>"
  have "map_sum seg_total ((w_segments w)(w_current w := map_option ?g (w_segments w (w_current w))))
      = map_sum seg_total (w_segments w)"
    by (rule map_sum_map_entry) (simp_all add: seg_total_def)
  then have sum: "map_sum seg_total ((w_segments w)(w_current w \<mapsto> ?g cur)) = map_sum seg_total (w_segments w)"
    by (simp add: cur)
  have res: "map_sum (\<lambda>_. record_reserve (w_config w)) ((w_active w)(j \<mapsto> md))
      = cfg_MaxRecordAttempts (w_config w) * int walStateEntrySize
        + map_sum (\<lambda>_. record_reserve (w_config w)) (w_active w)"
    using max new by (simp add: map_sum_insert record_reserve_def remaining_attempts_def md Let_def)
  have j: "j \<notin> actives_of (w_active w) i" for i using new by (simp add: actives_of_def)
  have "\<forall>i s. w_segments ?w i = Some s \<longrightarrow> segment_ok ?w i s"
    using ok cur new md(1) j unfolding tables_ok_def
    by (auto simp: segment_ok_def actives_of_insert)
  then show ?thesis
    using ok cur sum res md(1) unfolding tables_ok_def by (auto simp: domIff)
qed

lemma install_records_ok:
  assumes "tables_ok ids w" "index_ok w" "fresh_ids (List.map prepared_id ps) w"
    "1 \<le> cfg_MaxRecordAttempts (w_config w)"
  shows "tables_ok ids (install_records ps offset w) \<and> index_ok (install_records ps offset w)
    \<and> w_reservedBytes (install_records ps offset w) = w_reservedBytes w
        + int (length ps) * cfg_MaxRecordAttempts (w_config w) * int walStateEntrySize"
  using assms
proof (induction ps arbitrary: offset w)
  case (Cons p ps)
  let ?j = "prepared_id p"
  let ?md = "\<lparr>md_segmentID = w_current w, md_offset = offset,
      md_frameSize = int (length (pr_frame p)), md_attempts = 0\<rparr>"
  let ?w = "upd_segment (w_current w)
      (\<lambda>c. c\<lparr>seg_recordIDs := seg_recordIDs c @ [?j], seg_activeRecords := seg_activeRecords c + 1\<rparr>)
      (w\<lparr>w_active := (w_active w)(?j \<mapsto> ?md), w_ids := w_ids w @ [?j],
         w_reservedBytes := w_reservedBytes w
           + cfg_MaxRecordAttempts (w_config w) * int walStateEntrySize\<rparr>)"
  obtain cur where cur: "w_segments w (w_current w) = Some cur"
    using Cons.prems(1) unfolding tables_ok_def by blast
  have "?j \<notin> set (w_ids w)" using Cons.prems(3) by (auto simp: fresh_ids_def)
  then have new: "w_active w ?j = None" using Cons.prems(2) by (auto simp: index_ok_def)
  have "tables_ok ids ?w"
    by (rule install_one_ok [OF Cons.prems(1) new cur]) (simp_all add: Cons.prems(4))
  moreover have "index_ok ?w"
    using Cons.prems(2,3) by (auto simp: index_ok_def fresh_ids_def sorted_wrt_append)
  moreover have "fresh_ids (List.map prepared_id ps) ?w"
    using Cons.prems(3) by (auto simp: fresh_ids_def)
  moreover have "install_records (p # ps) offset w
      = install_records ps (offset + int (length (pr_frame p))) ?w"
    by (simp add: Let_def prepared_id_def)
  ultimately show ?case
    using Cons.IH [of ?w "offset + int (length (pr_frame p))"] Cons.prems(4)
    by (simp add: distrib_right)
qed simp

section \<open>The group commit\<close>

lemma os_write_bound: "os_write name bs w = ((n, ok), w') \<Longrightarrow> n \<le> length bs"
  by (auto simp: os_write_def split: prod.splits io.splits)

text \<open>The log after \<open>n\<close> bytes were appended to the current segment: only the sizes, the disk
  and the events differ.\<close>

definition grown :: "walSegment \<Rightarrow> nat \<Rightarrow> WAL \<Rightarrow> WAL \<Rightarrow> bool" where
  "grown cur n w w1 \<longleftrightarrow>
     w_segments w1 = (w_segments w)(w_current w \<mapsto> cur\<lparr>seg_size := seg_size cur + int n\<rparr>)
     \<and> w_usedBytes w1 = w_usedBytes w + int n
     \<and> w_config w1 = w_config w \<and> w_fault w1 = w_fault w \<and> w_nextID w1 = w_nextID w
     \<and> w_nextSegmentID w1 = w_nextSegmentID w \<and> w_current w1 = w_current w
     \<and> w_segmentIDs w1 = w_segmentIDs w \<and> w_active w1 = w_active w \<and> w_ids w1 = w_ids w
     \<and> w_reservedBytes w1 = w_reservedBytes w"

lemma write_group_cases:
  assumes "write_group ps encoded w = (err, w')" "w_segments w (w_current w) = Some cur"
  obtains n w1 where "n \<le> length encoded" "grown cur n w w1"
    "err \<noteq> None \<Longrightarrow> w' = observeUsageLocked (w1\<lparr>w_fault := err\<rparr>)"
    "err = None \<Longrightarrow> n = length encoded \<and> w' = observeUsageLocked (install_records ps (seg_size cur) w1)"
proof -
  obtain n ok wa where wr: "lift_io (os_write (seg_path cur) encoded) w = ((n, ok), wa)"
    by (metis surj_pair)
  have b: "n \<le> length encoded"
    using lift_io_result(1) [OF wr] os_write_bound by blast
  let ?wb = "(upd_segment (w_current wa) (\<lambda>c. c\<lparr>seg_size := seg_size c + int n\<rparr>) wa)
      \<lparr>w_usedBytes := w_usedBytes wa + int n\<rparr>"
  obtain fa where wa: "wa = w\<lparr>w_world := fa\<rparr>" using lift_io_some [OF wr] by metis
  have gb: "grown cur n w ?wb" by (simp add: wa grown_def assms(2))
  obtain sy wc where sn: "lift_io (os_sync (seg_path cur)) ?wb = (sy, wc)" by (metis surj_pair)
  obtain fc where wc: "wc = ?wb\<lparr>w_world := fc\<rparr>" using lift_io_some [OF sn] by metis
  have gc: "grown cur n w wc" by (simp add: wc wa grown_def assms(2))
  show ?thesis
  proof (cases "ok \<and> n = length encoded")
    case False
    then have "err = Some (ErrIO ''append WAL group'')" "w' = observeUsageLocked (?wb\<lparr>w_fault := err\<rparr>)"
      using assms(1) by (auto simp: write_group_def assms(2) wr Let_def)
    then show ?thesis using that [OF b gb] by simp
  next
    case wrote: True
    show ?thesis
    proof (cases sy)
      case False
      then have "err = Some (ErrIO ''sync WAL group'')" "w' = observeUsageLocked (wc\<lparr>w_fault := err\<rparr>)"
        using assms(1) wrote sn by (auto simp: write_group_def assms(2) wr Let_def)
      then show ?thesis using that [OF b gc] by simp
    next
      case True
      let ?wd = "observe (ObserveWALGroupCommit (length ps)) (observe ObserveWALSync wc)"
      have "grown cur n w ?wd" using gc by (simp add: grown_def)
      moreover have "err = None" "w' = observeUsageLocked (install_records ps (seg_size cur) ?wd)"
        using assms(1) wrote sn True by (auto simp: write_group_def assms(2) wr Let_def)
      ultimately show ?thesis using that [OF b, of ?wd] wrote by simp
    qed
  qed
qed

lemma grown_tables_ok:
  assumes "grown cur n w w1" "tables_ok ids w" "w_segments w (w_current w) = Some cur"
  shows "tables_ok ids w1"
proof -
  let ?w0 = "(upd_segment (w_current w) (\<lambda>c. c\<lparr>seg_size := seg_size c + int n\<rparr>) w)
      \<lparr>w_usedBytes := w_usedBytes w + int n\<rparr>"
  have "tables_ok ids ?w0" by (rule tables_ok_grow [OF assms(2) _ assms(3)]) simp
  moreover have "tables_ok ids w1 = tables_ok ids ?w0"
    by (rule tables_ok_cong) (use assms(1,3) in \<open>simp_all add: grown_def\<close>)
  ultimately show ?thesis by simp
qed

lemma write_group_ok:
  assumes run: "write_group ps encoded w = (err, w')" and inv: "wal_inv w"
    and fresh: "fresh_ids (List.map prepared_id ps) w"
    and max: "1 \<le> cfg_MaxRecordAttempts (w_config w)"
  shows "wal_inv w' \<and> w_usedBytes w' \<le> w_usedBytes w + int (length encoded)
    \<and> w_reservedBytes w' = w_reservedBytes w + (if err = None
        then int (length ps) * cfg_MaxRecordAttempts (w_config w) * int walStateEntrySize else 0)
    \<and> (err = None \<longrightarrow> w_fault w' = w_fault w) \<and> (err \<noteq> None \<longrightarrow> w_fault w' = err)"
proof -
  obtain cur where cur: "w_segments w (w_current w) = Some cur"
    using inv unfolding wal_inv_def tables_ok_def by blast
  obtain n w1 where n: "n \<le> length encoded" and g: "grown cur n w w1"
    and w1: "err \<noteq> None \<Longrightarrow> w' = observeUsageLocked (w1\<lparr>w_fault := err\<rparr>)"
    "err = None \<Longrightarrow> n = length encoded \<and> w' = observeUsageLocked (install_records ps (seg_size cur) w1)"
    using write_group_cases [OF run cur] by metis
  note f1 = g [unfolded grown_def]
  have t1: "tables_ok (w_segmentIDs w) w1"
    using grown_tables_ok [OF g _ cur] inv by (simp add: wal_inv_def)
  have i1: "index_ok w1" using inv f1 index_ok_cong [of w1 w] by (simp add: wal_inv_def)
  have fr: "fresh_ids (List.map prepared_id ps) w1" using fresh f1 by (simp add: fresh_ids_def)
  show ?thesis
  proof (cases err)
    case (Some e)
    then have w': "w' = observeUsageLocked (w1\<lparr>w_fault := err\<rparr>)" using w1(1) by simp
    have "tables_ok (w_segmentIDs w') w'" "index_ok w'"
      using t1 i1 tables_ok_cong [of w' w1] index_ok_cong [of w' w1] f1 by (simp_all add: w')
    moreover have "w_usedBytes w' = w_usedBytes w + int n" "w_reservedBytes w' = w_reservedBytes w"
      "w_fault w' = err" using f1 by (simp_all add: w')
    ultimately show ?thesis using Some n by (simp add: wal_inv_def)
  next
    case None
    let ?w2 = "install_records ps (seg_size cur) w1"
    have len: "n = length encoded" and w': "w' = observeUsageLocked ?w2" using w1(2) None by simp_all
    have inst: "tables_ok (w_segmentIDs w) ?w2 \<and> index_ok ?w2
        \<and> w_reservedBytes ?w2 = w_reservedBytes w1
          + int (length ps) * cfg_MaxRecordAttempts (w_config w1) * int walStateEntrySize"
      by (rule install_records_ok [OF t1 i1 fr]) (simp add: f1 max)
    then have "tables_ok (w_segmentIDs w') w'" "index_ok w'"
      using tables_ok_cong [of w' ?w2] index_ok_cong [of w' ?w2] f1 by (simp_all add: w')
    moreover have "w_usedBytes w' = w_usedBytes w + int n" "w_fault w' = w_fault w"
      "w_reservedBytes w' = w_reservedBytes ?w2" using f1 by (simp_all add: w')
    ultimately show ?thesis using None len inst f1 by (simp add: wal_inv_def)
  qed
qed

lemma write_group_config:
  assumes "write_group ps encoded w = (err, w')"
  shows "w_config w' = w_config w" "w_current w' = w_current w" "w_nextID w' = w_nextID w"
    "w_nextSegmentID w' = w_nextSegmentID w" "w_appendQueue w' = w_appendQueue w"
    "w_closed w' = w_closed w" "w_segmentIDs w' = w_segmentIDs w"
  using assms
  by (auto simp: write_group_def Let_def split_beta split: option.splits if_splits)

text \<open>A failed rotation changes only the disk.\<close>

lemma rotateLocked_Some:
  assumes "rotateLocked w = (Some e, w')"
  obtains fs where "w' = w\<lparr>w_world := fs\<rparr>"
proof -
  obtain r w1 where l: "lift_io (createSegment (w_nextSegmentID w) (w_now w)) w = (r, w1)" by fastforce
  obtain f1 where w1: "w1 = w\<lparr>w_world := f1\<rparr>" using lift_io_some [OF l] by metis
  have lift: "\<exists>fs. snd (lift_io f (w\<lparr>w_world := g\<rparr>)) = w\<lparr>w_world := fs\<rparr>" for f :: "world \<Rightarrow> bool \<times> world" and g
    by (simp add: lift_io_def split_beta) metis
  have "\<exists>fs. w' = w\<lparr>w_world := fs\<rparr>"
  proof (cases r)
    case (Inl x)
    then show ?thesis using assms l w1 by (auto simp: rotateLocked_def)
  next
    case (Inr s)
    show ?thesis
    proof (cases "w_segments w1 (w_current w1)")
      case None
      then show ?thesis using assms l w1 Inr by (auto simp: rotateLocked_def)
    next
      case (Some cur)
      then show ?thesis
        using assms l Inr w1 lift
        by (auto simp: rotateLocked_def Let_def split_beta lift_io_def split: if_splits)
    qed
  qed
  then show ?thesis using that by blast
qed

lemma rotateLocked_Some_ok:
  assumes "rotateLocked w = (Some e, w')" "wal_inv w"
  shows "wal_inv (w'\<lparr>w_fault := x\<rparr>)" "w_usedBytes w' = w_usedBytes w"
    "w_reservedBytes w' = w_reservedBytes w" "w_config w' = w_config w"
proof -
  obtain fs where w': "w' = w\<lparr>w_world := fs\<rparr>" using rotateLocked_Some [OF assms(1)] .
  show "wal_inv (w'\<lparr>w_fault := x\<rparr>)"
    using assms(2) tables_ok_cong [of "w'\<lparr>w_fault := x\<rparr>" w] index_ok_cong [of "w'\<lparr>w_fault := x\<rparr>" w]
    by (simp add: wal_inv_def w')
  show "w_usedBytes w' = w_usedBytes w" "w_reservedBytes w' = w_reservedBytes w" "w_config w' = w_config w"
    by (simp_all add: w')
qed

text \<open>Rotation followed by compaction: the invariant, and the bytes.\<close>

lemma rotate_compact_ok:
  assumes rot: "rotateLocked w = (None, w1)" and comp: "compactSegmentsLocked w1 = (n, w2)"
    and inv: "wal_inv w" and cur: "w_segments w (w_current w) = Some cur"
    and next_id: "w_nextSegmentID w \<noteq> - 1"
  shows "wal_inv w2" "w_reservedBytes w2 = w_reservedBytes w" "w_config w2 = w_config w"
    "w_ids w2 = w_ids w" "w_nextID w2 = w_nextID w"
    "w_segments w2 (w_current w2) = Some (fresh_segment (w_nextSegmentID w))"
    "w_usedBytes w2 \<le> w_usedBytes w + int walSegmentHeaderSize + int walStateHeaderSize"
    "w_fault w2 = None \<Longrightarrow> seg_activeRecords cur = 0 \<Longrightarrow> seg_quarantinedRecords cur = 0 \<Longrightarrow>
      w_usedBytes w2 \<le> w_usedBytes w + int walSegmentHeaderSize + int walStateHeaderSize
        - (seg_size cur + seg_stateSize cur)"
proof -
  have ok: "tables_ok (w_segmentIDs w) w" using inv by (simp add: wal_inv_def)
  note r = rotate_segments [OF rot ok cur]
  have inv1: "wal_inv w1"
    using rotate_tables_ok [OF rot ok next_id] inv index_ok_cong [of w1 w] r by (simp add: wal_inv_def)
  have w2: "w2 = snd (compactSegmentsLocked w1)" using comp by simp
  note same = compactSegmentsLocked_frame [of w1, folded w2]
  have c: "wal_inv w2 \<and> w_usedBytes w2 \<le> w_usedBytes w1"
    using compactSegmentsLocked_inv [OF comp inv1] by simp
  then show "wal_inv w2" "w_usedBytes w2 \<le> w_usedBytes w + int walSegmentHeaderSize + int walStateHeaderSize"
    using r(3) by simp_all
  show "w_reservedBytes w2 = w_reservedBytes w" "w_config w2 = w_config w"
    "w_ids w2 = w_ids w" "w_nextID w2 = w_nextID w"
    using same r by simp_all
  have "w_segments w1 (w_nextSegmentID w) = Some (fresh_segment (w_nextSegmentID w))"
    "\<not> removable w1 (w_nextSegmentID w) (fresh_segment (w_nextSegmentID w))"
    using r(1,5) by (simp_all add: removable_def)
  then show "w_segments w2 (w_current w2) = Some (fresh_segment (w_nextSegmentID w))"
    using compactSegmentsLocked_keeps [OF comp] same r(5) by simp
  assume a: "w_fault w2 = None" "seg_activeRecords cur = 0" "seg_quarantinedRecords cur = 0"
  let ?cur = "cur\<lparr>seg_file := False, seg_closed := True\<rparr>"
  have ne: "w_current w \<noteq> w_nextSegmentID w" using r(12) cur by auto
  then have s: "w_segments w1 (w_current w) = Some ?cur" "removable w1 (w_current w) ?cur"
    using r(1,5) a(2,3) by (simp_all add: removable_def)
  show "w_usedBytes w2 \<le> w_usedBytes w + int walSegmentHeaderSize + int walStateHeaderSize
        - (seg_size cur + seg_stateSize cur)"
    using compactSegmentsLocked_frees [OF comp inv1 s a(1)] r(3) by (simp add: seg_total_def)
qed

lemma commitGroup_inv:
  assumes run: "commitGroup ps w = (err, w')" and inv: "wal_inv w"
    and fresh: "fresh_ids (List.map prepared_id ps) w"
    and max: "1 \<le> cfg_MaxRecordAttempts (w_config w)" and next_id: "w_nextSegmentID w \<noteq> - 1"
  shows "wal_inv w' \<and> (within_limit w \<and> (w_fault w' = None
      \<or> (\<forall>cur. w_segments w (w_current w) = Some cur \<longrightarrow>
           \<not> needs_rotation (length (encode_group ps)) cur w)) \<longrightarrow> within_limit w')"
proof (cases "w_fault w")
  case (Some e)
  then show ?thesis using run inv by (simp add: commitGroup_def)
next
  case None
  obtain cur where cur: "w_segments w (w_current w) = Some cur"
    using inv unfolding wal_inv_def tables_ok_def by blast
  let ?enc = "encode_group ps"
  let ?proj = "projected_bytes (length ps) (length ?enc) cur w"
  consider (full) "?proj > cfg_MaxBytes (w_config w)"
    | (plain) "\<not> ?proj > cfg_MaxBytes (w_config w)" "\<not> needs_rotation (length ?enc) cur w"
    | (rotate) "\<not> ?proj > cfg_MaxBytes (w_config w)" "needs_rotation (length ?enc) cur w"
    by blast
  then show ?thesis
  proof cases
    case full
    then have "w' = observe (RecordWALDiskFullRejection (length ps)) w"
      using run None cur by (simp add: commitGroup_def)
    then show ?thesis
      using inv tables_ok_cong [of w' w] index_ok_cong [of w' w]
      by (simp add: wal_inv_def within_limit_def)
  next
    case plain
    then have wg: "write_group ps ?enc w = (err, w')" using run None cur by (simp add: commitGroup_def)
    have c: "w_config w' = w_config w" using write_group_config(1) [OF wg] .
    have "0 \<le> int (length ps) * cfg_MaxRecordAttempts (w_config w) * int walStateEntrySize"
      using max by simp
    then show ?thesis
      using write_group_ok [OF wg inv fresh max] plain c
      by (auto simp: within_limit_def projected_bytes_def Let_def)
  next
    case rotate
    show ?thesis
    proof (cases "rotateLocked w")
      case (Pair e w1)
      show ?thesis
      proof (cases e)
        case (Some x)
        then have "w' = w1\<lparr>w_fault := Some x\<rparr>" using run None cur rotate Pair by (auto simp: commitGroup_def)
        then show ?thesis
          using rotateLocked_Some_ok [OF Pair [unfolded Some] inv] by (simp add: within_limit_def)
      next
        case none: None
        obtain n w2 where comp: "compactSegmentsLocked w1 = (n, w2)" by fastforce
        have wg: "write_group ps ?enc w2 = (err, w')"
          using run None cur rotate Pair none comp by (simp add: commitGroup_def)
        note rc = rotate_compact_ok [OF Pair [unfolded none] comp inv cur next_id]
        have fr: "fresh_ids (List.map prepared_id ps) w2" using fresh rc(4,5) by (simp add: fresh_ids_def)
        have w2: "wal_inv w' \<and> w_usedBytes w' \<le> w_usedBytes w2 + int (length ?enc)
            \<and> w_reservedBytes w' = w_reservedBytes w2 + (if err = None
                then int (length ps) * cfg_MaxRecordAttempts (w_config w2) * int walStateEntrySize else 0)
            \<and> (err = None \<longrightarrow> w_fault w' = w_fault w2) \<and> (err \<noteq> None \<longrightarrow> w_fault w' = err)"
          by (rule write_group_ok [OF wg rc(1) fr]) (simp add: rc(3) max)
        have c: "w_config w' = w_config w" using write_group_config(1) [OF wg] rc(3) by simp
        show ?thesis
        proof (cases "w_fault w' = None")
          case False
          then show ?thesis using w2 rotate cur by auto
        next
          case True
          then have f2: "w_fault w2 = None" "err = None" using w2 by auto
          have "w_usedBytes w2 + w_reservedBytes w + int (length ?enc)
              + int (length ps) * cfg_MaxRecordAttempts (w_config w) * int walStateEntrySize \<le> ?proj"
            using rc(7) rc(8) [OF f2(1)] rotate(2)
            by (auto simp: projected_bytes_def Let_def)
          then show ?thesis using w2 rotate(1) c rc(2,3) f2(2) by (simp add: within_limit_def)
        qed
      qed
    qed
  qed
qed

end
