(* ===== verification/Wal_Checkpoint.thy ===== *)
theory Wal_Checkpoint
  imports Wal_Invariant
begin

text \<open>
  What \<open>Ack\<close>, \<open>MarkRetry\<close> and \<open>Quarantine\<close> do to the log's tables: the entries they write,
  their effect on the active records, and the preservation of the invariant and of the
  limit on used and reserved bytes.
\<close>

section \<open>Which fields the checkpoint operations change\<close>

lemma consumeReserve_frame [simp]:
  "w_config (consumeReserveLocked n w) = w_config w"
  "w_active (consumeReserveLocked n w) = w_active w"
  "w_segments (consumeReserveLocked n w) = w_segments w"
  "w_usedBytes (consumeReserveLocked n w) = w_usedBytes w"
  "w_current (consumeReserveLocked n w) = w_current w"
  "w_nextSegmentID (consumeReserveLocked n w) = w_nextSegmentID w"
  "w_segmentIDs (consumeReserveLocked n w) = w_segmentIDs w"
  "w_ids (consumeReserveLocked n w) = w_ids w" "w_nextID (consumeReserveLocked n w) = w_nextID w"
  "w_fault (consumeReserveLocked n w) = w_fault w" "w_closed (consumeReserveLocked n w) = w_closed w"
  "w_appendQueue (consumeReserveLocked n w) = w_appendQueue w"
  "w_quarantined (consumeReserveLocked n w) = w_quarantined w"
  "w_world (consumeReserveLocked n w) = w_world w"
  by (simp_all add: consumeReserveLocked_def Let_def)

lemma releaseRecordReserve_frame [simp]:
  "w_config (releaseRecordReserveLocked n w) = w_config w"
  "w_active (releaseRecordReserveLocked n w) = w_active w"
  "w_segments (releaseRecordReserveLocked n w) = w_segments w"
  "w_usedBytes (releaseRecordReserveLocked n w) = w_usedBytes w"
  "w_current (releaseRecordReserveLocked n w) = w_current w"
  "w_nextSegmentID (releaseRecordReserveLocked n w) = w_nextSegmentID w"
  "w_segmentIDs (releaseRecordReserveLocked n w) = w_segmentIDs w"
  "w_ids (releaseRecordReserveLocked n w) = w_ids w" "w_nextID (releaseRecordReserveLocked n w) = w_nextID w"
  "w_fault (releaseRecordReserveLocked n w) = w_fault w" "w_closed (releaseRecordReserveLocked n w) = w_closed w"
  "w_appendQueue (releaseRecordReserveLocked n w) = w_appendQueue w"
  "w_quarantined (releaseRecordReserveLocked n w) = w_quarantined w"
  "w_world (releaseRecordReserveLocked n w) = w_world w"
  by (simp_all add: releaseRecordReserveLocked_def)

lemma apply_entry_frame [simp, wal_frame]:
  "w_config (apply_entry sid e w) = w_config w" "w_usedBytes (apply_entry sid e w) = w_usedBytes w"
  "w_current (apply_entry sid e w) = w_current w"
  "w_nextSegmentID (apply_entry sid e w) = w_nextSegmentID w"
  "w_segmentIDs (apply_entry sid e w) = w_segmentIDs w" "w_ids (apply_entry sid e w) = w_ids w"
  "w_nextID (apply_entry sid e w) = w_nextID w" "w_fault (apply_entry sid e w) = w_fault w"
  "w_closed (apply_entry sid e w) = w_closed w" "w_appendQueue (apply_entry sid e w) = w_appendQueue w"
  "w_world (apply_entry sid e w) = w_world w"
  by (simp_all add: apply_entry_def Let_def split: option.split walStateKind.split)

section \<open>The effect of an entry on the active records\<close>

definition settle_entry :: "walStateEntry \<Rightarrow> (u64 \<rightharpoonup> walRecordMetadata) \<Rightarrow> (u64 \<rightharpoonup> walRecordMetadata)" where
  "settle_entry e act =
     (case act (se_id e) of
        None \<Rightarrow> act
      | Some md \<Rightarrow>
          if se_kind e = StateRetry
          then act(se_id e \<mapsto> md\<lparr>md_attempts := unat (se_attempts e)\<rparr>) else act(se_id e := None))"

lemma apply_entry_active [simp]: "w_active (apply_entry sid e w) = settle_entry e (w_active w)"
  by (simp add: apply_entry_def settle_entry_def Let_def split: option.split walStateKind.split)

definition settle_entries :: "walStateEntry list \<Rightarrow> (u64 \<rightharpoonup> walRecordMetadata) \<Rightarrow> (u64 \<rightharpoonup> walRecordMetadata)" where
  "settle_entries es act = foldl (\<lambda>a e. settle_entry e a) act es"

lemma settle_entries_simps [simp]:
  "settle_entries [] act = act"
  "settle_entries (e # es) act = settle_entries es (settle_entry e act)"
  "settle_entries (es @ es') act = settle_entries es' (settle_entries es act)"
  by (simp_all add: settle_entries_def)

lemma apply_entries_active:
  "w_active (foldl (\<lambda>w e. apply_entry sid e w) w es) = settle_entries es (w_active w)"
  by (induction es arbitrary: w) simp_all

lemma apply_batch_active [simp]: "w_active (apply_batch sid es w) = settle_entries es (w_active w)"
  by (simp add: apply_batch_def Let_def apply_entries_active)

lemma apply_batches_active:
  "w_active (apply_batches bs w) = settle_entries (concat (List.map snd bs)) (w_active w)"
  by (induction bs arbitrary: w) (auto simp: apply_batches_def split_beta)

lemma settle_entries_final:
  assumes "\<forall>e\<in>set es. se_kind e \<noteq> StateRetry"
  shows "settle_entries es act = (\<lambda>j. if j \<in> se_id ` set es then None else act j)"
  using assms
  by (induction es arbitrary: act) (auto simp: settle_entry_def fun_eq_iff split: option.splits)

lemma settle_entries_retry:
  assumes "\<forall>e\<in>set es. se_kind e = StateRetry
      \<and> (\<exists>md. act (se_id e) = Some md \<and> unat (se_attempts e) = md_attempts md + 1)"
  shows "settle_entries es act = (\<lambda>j. if j \<in> se_id ` set es
    then map_option (\<lambda>md. md\<lparr>md_attempts := md_attempts md + 1\<rparr>) (act j) else act j)"
  using assms
proof (induction es rule: rev_induct)
  case (snoc e es)
  obtain md where md: "act (se_id e) = Some md" "unat (se_attempts e) = md_attempts md + 1"
    "se_kind e = StateRetry"
    using snoc.prems by auto
  have "settle_entries es act = (\<lambda>j. if j \<in> se_id ` set es
    then map_option (\<lambda>md. md\<lparr>md_attempts := md_attempts md + 1\<rparr>) (act j) else act j)"
    using snoc by simp
  then show ?case using md by (auto simp: settle_entry_def fun_eq_iff)
qed simp

section \<open>The entries of a call\<close>

definition entries_of :: "batches \<Rightarrow> u64 \<Rightarrow> walStateEntry list" where
  "entries_of m sid = (case map_of m sid of None \<Rightarrow> [] | Some es \<Rightarrow> es)"

definition record_entry :: "walStateKind \<Rightarrow> walStateReason \<Rightarrow> bool \<Rightarrow> WAL \<Rightarrow> spool_record \<Rightarrow> walStateEntry" where
  "record_entry kind reason inc w r =
     \<lparr>se_kind = kind, se_reason = reason, se_id = RecordID r,
      se_attempts = (case w_active w (RecordID r) of
         None \<Rightarrow> 0 | Some md \<Rightarrow> of_nat (if inc then md_attempts md + 1 else md_attempts md))\<rparr>"

definition active_records :: "WAL \<Rightarrow> spool_record list \<Rightarrow> spool_record list" where
  "active_records w rs = filter (\<lambda>r. w_active w (RecordID r) \<noteq> None) rs"

definition record_segment :: "WAL \<Rightarrow> spool_record \<Rightarrow> u64" where
  "record_segment w r = (case w_active w (RecordID r) of None \<Rightarrow> 0 | Some md \<Rightarrow> md_segmentID md)"

lemma entries_of_add:
  "entries_of (add_entry sid e m) sid' = entries_of m sid' @ (if sid' = sid then [e] else [])"
  by (simp add: entries_of_def add_entry_def split: option.split)

lemma keys_add: "fst ` set (add_entry sid e m) = insert sid (fst ` set m)"
  by (simp add: add_entry_def dom_update)

lemma distinct_keys_add: "distinct (keys m) \<Longrightarrow> distinct (keys (add_entry sid e m))"
  by (simp add: add_entry_def)

lemma collect_entries_spec:
  assumes "collect_entries kind reason inc w rs m = Inr m'" "distinct (keys m)"
  shows "distinct (keys m')
    \<and> set (keys m') = set (keys m) \<union> record_segment w ` set (active_records w rs)
    \<and> (\<forall>sid. entries_of m' sid = entries_of m sid
        @ List.map (record_entry kind reason inc w)
            (filter (\<lambda>r. record_segment w r = sid) (active_records w rs)))
    \<and> (inc \<longrightarrow> (\<forall>r\<in>set rs. \<forall>md. w_active w (RecordID r) = Some md \<longrightarrow> md_attempts md < 99999))"
  using assms
proof (induction rs arbitrary: m)
  case Nil
  then show ?case by (simp add: active_records_def)
next
  case (Cons r rs)
  show ?case
  proof (cases "w_active w (RecordID r)")
    case None
    then show ?thesis using Cons.IH [of m] Cons.prems by (auto simp: active_records_def)
  next
    case (Some md)
    let ?m = "add_entry (md_segmentID md) (record_entry kind reason inc w r) m"
    have lim: "\<not> (inc \<and> md_attempts md + 1 > 99999)"
      and run: "collect_entries kind reason inc w rs ?m = Inr m'"
      using Cons.prems(1) Some by (auto simp: record_entry_def Let_def split: if_splits)
    have seg: "record_segment w r = md_segmentID md" by (simp add: record_segment_def Some)
    show ?thesis
      using Cons.IH [OF run distinct_keys_add [OF Cons.prems(2)]] lim Some seg
      by (auto simp: active_records_def entries_of_add keys_add)
  qed
qed

text \<open>The batches in the order they are written: each holds the entries of its segment's
  records.\<close>

definition batches_for :: "(spool_record \<Rightarrow> walStateEntry) \<Rightarrow> (spool_record \<Rightarrow> u64) \<Rightarrow> spool_record list
    \<Rightarrow> (u64 \<times> walStateEntry list) list \<Rightarrow> bool" where
  "batches_for ent seg rs bs \<longleftrightarrow> distinct (keys bs) \<and> set (keys bs) = seg ` set rs
     \<and> (\<forall>(sid, es)\<in>set bs. es = List.map ent (filter (\<lambda>r. seg r = sid) rs))"

lemma collected_batches:
  assumes "collect_entries kind reason inc w rs [] = Inr m"
  shows "batches_for (record_entry kind reason inc w) (record_segment w) (active_records w rs) (sort_key fst m)"
proof -
  note c = collect_entries_spec [OF assms, simplified]
  have "es = List.map (record_entry kind reason inc w) (filter (\<lambda>r. record_segment w r = sid) (active_records w rs))"
    if "(sid, es) \<in> set m" for sid es
  proof -
    have "map_of m sid = Some es" using that c by simp
    then have "entries_of m sid = es" by (simp add: entries_of_def)
    then show ?thesis using c by (simp add: entries_of_def)
  qed
  moreover have "distinct (keys (sort_key fst m))"
    using c by (metis distinct_sort distinct_map set_sort)
  ultimately show ?thesis using c by (auto simp: batches_for_def)
qed

lemma set_batches:
  assumes "batches_for ent seg rs bs"
  shows "set (concat (List.map snd bs)) = ent ` set rs"
proof -
  have 1: "e \<in> ent ` set rs" if "(sid, es) \<in> set bs" "e \<in> set es" for sid es e
  proof -
    have "es = List.map ent (filter (\<lambda>r. seg r = sid) rs)"
      using assms that(1) unfolding batches_for_def by fast
    then show ?thesis using that(2) by auto
  qed
  have 2: "\<exists>es. (seg r, es) \<in> set bs \<and> ent r \<in> set es" if r: "r \<in> set rs" for r
  proof -
    have "seg r \<in> set (keys bs)" using assms r by (simp add: batches_for_def)
    then obtain es where "(seg r, es) \<in> set bs" by auto
    moreover have "es = List.map ent (filter (\<lambda>x. seg x = seg r) rs)"
      using assms calculation unfolding batches_for_def by fast
    ultimately show ?thesis using r by auto
  qed
  show ?thesis
  proof (intro set_eqI iffI)
    fix e
    assume "e \<in> set (concat (List.map snd bs))"
    then show "e \<in> ent ` set rs" using 1 by auto
  next
    fix e
    assume "e \<in> ent ` set rs"
    then obtain r where "r \<in> set rs" "e = ent r" by auto
    then obtain es where "(seg r, es) \<in> set bs" "e \<in> set es" using 2 [of r] by blast
    then show "e \<in> set (concat (List.map snd bs))" by (auto intro!: bexI [of _ "(seg r, es)"])
  qed
qed

lemma distinct_batches:
  assumes "distinct (keys bs)" "\<forall>(sid, es)\<in>set bs. es = List.map ent (filter (\<lambda>r. seg r = sid) rs)"
    "distinct (List.map f rs)" "\<And>r. se_id (ent r) = f r"
  shows "distinct (List.map se_id (concat (List.map snd bs)))"
  using assms(1,2)
proof (induction bs)
  case (Cons b bs)
  obtain sid es where b: "b = (sid, es)" by fastforce
  have es: "es = List.map ent (filter (\<lambda>r. seg r = sid) rs)" using Cons.prems b by simp
  have inj: "inj_on f (set rs)" using assms(3) by (simp add: distinct_map)
  have "List.map se_id es = List.map f (filter (\<lambda>r. seg r = sid) rs)" by (simp add: es assms(4))
  then have d: "distinct (List.map se_id es)" using assms(3) by (simp add: distinct_map_filter)
  have False if x: "x \<in> set es" and y: "(sid', es') \<in> set bs" "y \<in> set es'" "se_id x = se_id y" for x y sid' es'
  proof -
    have "es' = List.map ent (filter (\<lambda>r. seg r = sid') rs)" using Cons.prems y(1) by auto
    then obtain r' where r': "r' \<in> set rs" "seg r' = sid'" "y = ent r'" using y(2) by auto
    obtain r where r: "r \<in> set rs" "seg r = sid" "x = ent r" using x es by auto
    have "r = r'" using inj r r' y(3) assms(4) by (auto dest: inj_onD)
    then have "(sid, es') \<in> set bs" using r r' y(1) by simp
    then have "sid \<in> fst ` set bs" by force
    then show False using Cons.prems(1) b by simp
  qed
  then show ?case using Cons d b by fastforce
qed simp

section \<open>The invariant\<close>

text \<open>An entry may be applied when its record is active in the segment and, for a retry, when
  it counts one attempt more and another one is left.\<close>

definition entry_ok :: "WAL \<Rightarrow> u64 \<Rightarrow> walStateEntry \<Rightarrow> bool" where
  "entry_ok w sid e \<longleftrightarrow> (\<exists>md. w_active w (se_id e) = Some md \<and> md_segmentID md = sid
     \<and> (se_kind e = StateRetry \<longrightarrow> unat (se_attempts e) = md_attempts md + 1
          \<and> int (md_attempts md) + 1 < cfg_MaxRecordAttempts (w_config w)))"

lemma reserve_entry: "int walStateEntrySize \<le> record_reserve c md"
  by (simp add: record_reserve_def remaining_attempts_def Let_def wal_sizes)

lemma reserve_retry:
  "int (md_attempts md) + 1 < cfg_MaxRecordAttempts c \<Longrightarrow>
    record_reserve c (md\<lparr>md_attempts := md_attempts md + 1\<rparr>) = record_reserve c md - int walStateEntrySize"
  by (simp add: record_reserve_def remaining_attempts_def Let_def wal_sizes algebra_simps)

lemma total_reserve_ge:
  fixes act :: "u64 \<rightharpoonup> walRecordMetadata"
  assumes "act j = Some md"
  shows "record_reserve c md \<le> map_sum (\<lambda>_. record_reserve c) act"
proof -
  have "map_sum (\<lambda>_. record_reserve c) act = record_reserve c md + map_sum (\<lambda>_. record_reserve c) (act(j := None))"
    by (rule map_sum_delete) (simp_all add: assms)
  moreover have "0 \<le> map_sum (\<lambda>_. record_reserve c) (act(j := None))"
    by (rule map_sum_nonneg) (simp add: less_imp_le record_reserve_pos)
  ultimately show ?thesis by simp
qed

lemma actives_of_delete:
  "actives_of (act(j := None)) i = actives_of act i - {j}"
  by (auto simp: actives_of_def)

lemma actives_of_update:
  "act j = Some md \<Longrightarrow> md_segmentID md' = md_segmentID md \<Longrightarrow> actives_of (act(j \<mapsto> md')) i = actives_of act i"
  by (auto simp: actives_of_def)

text \<open>Removing a record from the tables, as acknowledging and quarantining do.\<close>

lemma drop_record_ok:
  assumes ok: "tables_ok ids w" and md: "w_active w j = Some md" "md_segmentID md = sid"
    and w': "w_active w' = (w_active w)(j := None)"
      "w_reservedBytes w' = w_reservedBytes w - record_reserve (w_config w) md"
      "w_segments w' = (w_segments w)(sid := map_option g (w_segments w sid))"
      "w_config w' = w_config w" "w_usedBytes w' = w_usedBytes w" "w_current w' = w_current w"
      "w_nextSegmentID w' = w_nextSegmentID w"
    and g: "\<And>c. seg_id (g c) = seg_id c \<and> seg_path (g c) = seg_path c \<and> seg_statePath (g c) = seg_statePath c
      \<and> seg_size (g c) = seg_size c \<and> seg_stateSize (g c) = seg_stateSize c \<and> seg_closed (g c) = seg_closed c
      \<and> seg_activeRecords (g c) = seg_activeRecords c - 1
      \<and> seg_quarantinedRecords c \<le> seg_quarantinedRecords (g c)"
  shows "tables_ok ids w'"
proof -
  have sum: "map_sum seg_total ((w_segments w)(sid := map_option g (w_segments w sid))) = map_sum seg_total (w_segments w)"
    by (rule map_sum_map_entry) (simp_all add: seg_total_def g)
  have res: "map_sum (\<lambda>_. record_reserve (w_config w)) (w_active w)
      = record_reserve (w_config w) md + map_sum (\<lambda>_. record_reserve (w_config w)) ((w_active w)(j := None))"
    by (rule map_sum_delete) (simp_all add: md)
  have dom: "dom (w_segments w') = dom (w_segments w)" using w'(3) by (auto simp: domIff)
  have j: "j \<in> actives_of (w_active w) sid" using md by (simp add: actives_of_def)
  have "segment_ok w' i s" if i: "w_segments w' i = Some s" for i s
  proof (cases "i = sid")
    case True
    then obtain c where c: "w_segments w sid = Some c" "s = g c" using i w'(3) by auto
    then have "segment_ok w sid c" using ok unfolding tables_ok_def by blast
    moreover have "int (card (actives_of (w_active w') sid)) = int (card (actives_of (w_active w) sid)) - 1"
      using j card_gt_0_iff [of "actives_of (w_active w) sid"]
      by (auto simp: w'(1) actives_of_delete card_Diff_singleton of_nat_diff Suc_le_eq)
    ultimately show ?thesis
      using True c(2) g [of c] w'(7) by (simp add: segment_ok_def)
  next
    case False
    then have "segment_ok w i s" using ok i w'(3) unfolding tables_ok_def by auto
    moreover have "actives_of (w_active w') i = actives_of (w_active w) i"
      using False md by (auto simp: w'(1) actives_of_def)
    ultimately show ?thesis using w'(7) by (simp add: segment_ok_def)
  qed
  moreover have "\<exists>c. w_segments w' (w_current w') = Some c \<and> \<not> seg_closed c"
    using ok g w'(3,6) unfolding tables_ok_def by auto
  ultimately show ?thesis
    using ok dom sum res w' unfolding tables_ok_def by auto
qed

lemma release_amount:
  assumes "tables_ok ids w" "w_active w j = Some md"
  shows "w_reservedBytes (releaseRecordReserveLocked (md_attempts md) w)
    = w_reservedBytes w - record_reserve (w_config w) md"
proof -
  have "w_reservedBytes w = map_sum (\<lambda>_. record_reserve (w_config w)) (w_active w)"
    using assms(1) unfolding tables_ok_def by blast
  then have "record_reserve (w_config w) md \<le> w_reservedBytes w"
    using total_reserve_ge [of "w_active w" j md "w_config w", OF assms(2)] by simp
  then show ?thesis
    by (simp add: releaseRecordReserveLocked_def consumeReserveLocked_def record_reserve_def Let_def)
qed

lemma apply_entry_ok:
  assumes ok: "tables_ok ids w" and e: "entry_ok w sid e"
  shows "tables_ok ids (apply_entry sid e w)
    \<and> w_reservedBytes (apply_entry sid e w) \<le> w_reservedBytes w - int walStateEntrySize"
proof -
  obtain md where md: "w_active w (se_id e) = Some md" "md_segmentID md = sid"
    and retry: "se_kind e = StateRetry \<longrightarrow> unat (se_attempts e) = md_attempts md + 1
      \<and> int (md_attempts md) + 1 < cfg_MaxRecordAttempts (w_config w)"
    using e by (auto simp: entry_ok_def)
  have rel: "w_reservedBytes (releaseRecordReserveLocked (md_attempts md) w)
      = w_reservedBytes w - record_reserve (w_config w) md"
    by (rule release_amount [OF ok md(1)])
  have total: "w_reservedBytes w = map_sum (\<lambda>_. record_reserve (w_config w)) (w_active w)"
    using ok unfolding tables_ok_def by blast
  show ?thesis
  proof (cases "se_kind e")
    case StateAck
    have "tables_ok ids (apply_entry sid e w)"
      by (rule drop_record_ok [OF ok md, where g = "\<lambda>c. c\<lparr>seg_activeRecords := seg_activeRecords c - 1\<rparr>"])
        (simp_all add: apply_entry_def settle_entry_def StateAck md(1) rel Let_def)
    then show ?thesis
      using reserve_entry [of "w_config w" md] by (simp add: apply_entry_def StateAck md(1) rel Let_def)
  next
    case StateQuarantine
    have "tables_ok ids (apply_entry sid e w)"
      by (rule drop_record_ok [OF ok md, where g = "\<lambda>c. c\<lparr>seg_activeRecords := seg_activeRecords c - 1,
            seg_quarantinedRecords := seg_quarantinedRecords c + 1\<rparr>"])
        (simp_all add: apply_entry_def settle_entry_def StateQuarantine md(1) rel Let_def)
    then show ?thesis
      using reserve_entry [of "w_config w" md] by (simp add: apply_entry_def StateQuarantine md(1) rel Let_def)
  next
    case StateRetry
    let ?md = "md\<lparr>md_attempts := md_attempts md + 1\<rparr>"
    let ?w = "apply_entry sid e w"
    have r: "record_reserve (w_config w) ?md = record_reserve (w_config w) md - int walStateEntrySize"
      using retry StateRetry reserve_retry by blast
    have "int walStateEntrySize \<le> w_reservedBytes w"
      using total total_reserve_ge [of "w_active w" "se_id e" md "w_config w", OF md(1)] reserve_entry [of "w_config w" md] by simp
    then have res: "w_reservedBytes ?w = w_reservedBytes w - int walStateEntrySize"
      by (simp add: apply_entry_def StateRetry md(1) Let_def consumeReserveLocked_def)
    have act: "w_active ?w = (w_active w)(se_id e \<mapsto> ?md)"
      using retry StateRetry by (simp add: settle_entry_def md(1))
    have seg: "w_segments ?w = w_segments w"
      by (simp add: apply_entry_def StateRetry md(1) Let_def)
    have "map_sum (\<lambda>_. record_reserve (w_config w)) ((w_active w)(se_id e \<mapsto> ?md)) + record_reserve (w_config w) md
        = map_sum (\<lambda>_. record_reserve (w_config w)) (w_active w) + record_reserve (w_config w) ?md"
      by (rule map_sum_update) (simp_all add: md(1))
    then have sum: "w_reservedBytes ?w = map_sum (\<lambda>_. record_reserve (w_config ?w)) (w_active ?w)"
      using res r total by (simp add: act [simplified])
    have "actives_of (w_active ?w) i = actives_of (w_active w) i" for i
      unfolding act by (rule actives_of_update [of "w_active w" "se_id e" md]) (simp_all add: md(1))
    then have "tables_ok ids ?w"
      using ok sum md unfolding tables_ok_def
      by (auto simp: seg act [simplified] segment_ok_def)
    then show ?thesis using res by simp
  qed
qed

lemma entry_ok_other:
  assumes "entry_ok w sid' e'" "se_id e' \<noteq> se_id e"
  shows "entry_ok (apply_entry sid e w) sid' e'"
proof -
  have "w_active (apply_entry sid e w) (se_id e') = w_active w (se_id e')"
    using assms(2) by (simp add: settle_entry_def split: option.split)
  then show ?thesis using assms(1) by (simp add: entry_ok_def)
qed

lemma apply_entries_ok:
  assumes "tables_ok ids w" "\<forall>e\<in>set es. entry_ok w sid e" "distinct (List.map se_id es)"
  shows "let w' = foldl (\<lambda>w e. apply_entry sid e w) w es in
    tables_ok ids w' \<and> w_reservedBytes w' \<le> w_reservedBytes w - int (length es) * int walStateEntrySize
    \<and> w_usedBytes w' = w_usedBytes w \<and> w_config w' = w_config w \<and> w_segmentIDs w' = w_segmentIDs w
    \<and> w_ids w' = w_ids w \<and> w_nextID w' = w_nextID w \<and> w_fault w' = w_fault w
    \<and> (\<forall>sid' e'. se_id e' \<notin> se_id ` set es \<longrightarrow> entry_ok w sid' e' \<longrightarrow> entry_ok w' sid' e')"
  using assms
proof (induction es arbitrary: w)
  case (Cons e es)
  let ?w = "apply_entry sid e w"
  have a: "tables_ok ids ?w" "w_reservedBytes ?w \<le> w_reservedBytes w - int walStateEntrySize"
    using apply_entry_ok [OF Cons.prems(1), of sid e] Cons.prems(2) by simp_all
  have "\<forall>x\<in>set es. entry_ok ?w sid x"
  proof
    fix x
    assume x: "x \<in> set es"
    then have "se_id x \<noteq> se_id e" using Cons.prems(3) by (metis distinct.simps(2) image_eqI list.map(2) set_map)
    then show "entry_ok ?w sid x" using Cons.prems(2) x by (simp add: entry_ok_other)
  qed
  then have "let w' = foldl (\<lambda>w e. apply_entry sid e w) ?w es in
    tables_ok ids w' \<and> w_reservedBytes w' \<le> w_reservedBytes ?w - int (length es) * int walStateEntrySize
    \<and> w_usedBytes w' = w_usedBytes ?w \<and> w_config w' = w_config ?w \<and> w_segmentIDs w' = w_segmentIDs ?w
    \<and> w_ids w' = w_ids ?w \<and> w_nextID w' = w_nextID ?w \<and> w_fault w' = w_fault ?w
    \<and> (\<forall>sid' e'. se_id e' \<notin> se_id ` set es \<longrightarrow> entry_ok ?w sid' e' \<longrightarrow> entry_ok w' sid' e')"
    using Cons.IH [OF a(1)] Cons.prems(3) by simp
  then show ?case
    using a(2) entry_ok_other [of w _ _ e sid] by (auto simp: Let_def distrib_right)
qed simp

lemma tables_ok_grow_state:
  assumes "tables_ok ids w" "0 \<le> n" and s: "w_segments w i = Some s"
  shows "tables_ok ids ((upd_segment i (\<lambda>c. c\<lparr>seg_stateSize := seg_stateSize c + n\<rparr>) w)
    \<lparr>w_usedBytes := w_usedBytes w + n\<rparr>)"
proof -
  let ?s = "s\<lparr>seg_stateSize := seg_stateSize s + n\<rparr>"
  have "map_sum seg_total ((w_segments w)(i \<mapsto> ?s)) + seg_total i s = map_sum seg_total (w_segments w) + seg_total i ?s"
    by (rule map_sum_update) (simp_all add: s)
  then have "map_sum seg_total ((w_segments w)(i \<mapsto> ?s)) = map_sum seg_total (w_segments w) + n"
    by (simp add: seg_total_def)
  then show ?thesis
    using assms unfolding tables_ok_def by (auto simp: segment_ok_def)
qed

text \<open>The bytes written are taken out of the reservation, entry by entry.\<close>

lemma apply_batch_ok:
  assumes ok: "tables_ok ids w" and e: "\<forall>e\<in>set es. entry_ok w sid e" "distinct (List.map se_id es)"
    and ne: "es \<noteq> []"
  shows "tables_ok ids (apply_batch sid es w)
    \<and> w_usedBytes (apply_batch sid es w) + w_reservedBytes (apply_batch sid es w)
        \<le> w_usedBytes w + w_reservedBytes w
    \<and> w_config (apply_batch sid es w) = w_config w \<and> w_segmentIDs (apply_batch sid es w) = w_segmentIDs w
    \<and> w_ids (apply_batch sid es w) = w_ids w \<and> w_nextID (apply_batch sid es w) = w_nextID w
    \<and> w_fault (apply_batch sid es w) = w_fault w
    \<and> (\<forall>sid' e'. se_id e' \<notin> se_id ` set es \<longrightarrow> entry_ok w sid' e' \<longrightarrow> entry_ok (apply_batch sid es w) sid' e')"
proof -
  let ?n = "int (length (encode_entries es))"
  let ?w = "(upd_segment sid (\<lambda>c. c\<lparr>seg_stateSize := seg_stateSize c + ?n\<rparr>) w)
      \<lparr>w_usedBytes := w_usedBytes w + ?n\<rparr>"
  obtain md where "md_segmentID md = sid" "\<exists>j. w_active w j = Some md"
    using e(1) ne unfolding entry_ok_def by (metis list.set_intros(1) neq_Nil_conv)
  then have "sid \<in> dom (w_segments w)" using ok unfolding tables_ok_def by blast
  then obtain s where s: "w_segments w sid = Some s" by blast
  define w0 where "w0 = ?w"
  have t: "tables_ok ids w0" unfolding w0_def by (rule tables_ok_grow_state [OF ok _ s]) simp
  have eo: "entry_ok w0 sid' e' = entry_ok w sid' e'" for sid' e' by (simp add: entry_ok_def w0_def)
  have ap: "apply_batch sid es w = foldl (\<lambda>w e. apply_entry sid e w) w0 es"
    by (simp add: apply_batch_def Let_def w0_def)
  have f: "w_usedBytes w0 = w_usedBytes w + int (length es) * int walStateEntrySize"
    "w_reservedBytes w0 = w_reservedBytes w" "w_config w0 = w_config w"
    "w_segmentIDs w0 = w_segmentIDs w" "w_ids w0 = w_ids w" "w_nextID w0 = w_nextID w"
    "w_fault w0 = w_fault w"
    by (simp_all add: w0_def walStateEntrySize_def)
  have "\<forall>e\<in>set es. entry_ok w0 sid e" using e(1) by (simp add: eo)
  then show ?thesis
    using apply_entries_ok [OF t _ e(2), of sid] f by (simp add: ap eo Let_def)
qed

lemma apply_batches_ok:
  assumes "tables_ok ids w" "\<forall>(sid, es)\<in>set bs. es \<noteq> [] \<and> (\<forall>e\<in>set es. entry_ok w sid e)"
    "distinct (List.map se_id (concat (List.map snd bs)))"
  shows "tables_ok ids (apply_batches bs w)
    \<and> w_usedBytes (apply_batches bs w) + w_reservedBytes (apply_batches bs w)
        \<le> w_usedBytes w + w_reservedBytes w
    \<and> w_config (apply_batches bs w) = w_config w \<and> w_segmentIDs (apply_batches bs w) = w_segmentIDs w
    \<and> w_ids (apply_batches bs w) = w_ids w \<and> w_nextID (apply_batches bs w) = w_nextID w
    \<and> w_fault (apply_batches bs w) = w_fault w"
  using assms
proof (induction bs arbitrary: w)
  case Nil
  then show ?case by (simp add: apply_batches_def)
next
  case (Cons b bs)
  obtain sid es where b: "b = (sid, es)" by fastforce
  let ?w = "apply_batch sid es w"
  have "distinct (List.map se_id es @ List.map se_id (concat (List.map snd bs)))"
    using Cons.prems(3) b by simp
  then have d: "distinct (List.map se_id es)" "distinct (List.map se_id (concat (List.map snd bs)))"
    and dis: "se_id ` set es \<inter> se_id ` set (concat (List.map snd bs)) = {}"
    unfolding distinct_append by simp_all
  have d3: "se_id e \<notin> se_id ` set es" if "(sid', es') \<in> set bs" "e \<in> set es'" for sid' es' e
  proof -
    have "e \<in> set (concat (List.map snd bs))"
      using that by (auto intro!: bexI [of _ "(sid', es')"])
    then show ?thesis using dis by blast
  qed
  have one: "\<forall>e\<in>set es. entry_ok w sid e" "es \<noteq> []" using Cons.prems(2) b by auto
  note a = apply_batch_ok [OF Cons.prems(1) one(1) d(1) one(2)]
  have "\<forall>(sid', es')\<in>set bs. es' \<noteq> [] \<and> (\<forall>e\<in>set es'. entry_ok ?w sid' e)"
  proof (intro ballI, clarify, intro conjI ballI)
    fix sid' es'
    assume m: "(sid', es') \<in> set bs"
    then show "es' \<noteq> []" using Cons.prems(2) by auto
    fix e
    assume "e \<in> set es'"
    then show "entry_ok ?w sid' e" using m d3 [OF m] a Cons.prems(2) by auto
  qed
  then show ?case
    using Cons.IH [of ?w] a d(2) by (auto simp: apply_batches_def b)
qed

section \<open>Writing\<close>

text \<open>Writing the checkpoints of a call changes, when it succeeds, only the disk and the
  events.\<close>

definition only_io :: "WAL \<Rightarrow> WAL \<Rightarrow> bool" where
  "only_io w w' \<longleftrightarrow>
     w_config w' = w_config w \<and> w_closed w' = w_closed w \<and> w_fault w' = w_fault w
     \<and> w_nextID w' = w_nextID w \<and> w_nextSegmentID w' = w_nextSegmentID w
     \<and> w_current w' = w_current w \<and> w_segments w' = w_segments w
     \<and> w_segmentIDs w' = w_segmentIDs w \<and> w_active w' = w_active w \<and> w_ids w' = w_ids w
     \<and> w_usedBytes w' = w_usedBytes w \<and> w_reservedBytes w' = w_reservedBytes w
     \<and> w_quarantined w' = w_quarantined w \<and> w_appendQueue w' = w_appendQueue w
     \<and> w_compact w' = w_compact w"

lemma only_io_refl [simp]: "only_io w w" by (simp add: only_io_def)

lemma only_io_trans: "only_io w w1 \<Longrightarrow> only_io w1 w2 \<Longrightarrow> only_io w w2"
  by (simp add: only_io_def)

lemma only_io_lift: "only_io w (snd (lift_io f w))"
  by (simp add: only_io_def)

lemma only_io_tables: "only_io w w' \<Longrightarrow> tables_ok ids w' = tables_ok ids w"
  by (rule tables_ok_cong) (simp_all add: only_io_def)

lemma write_batch_None:
  assumes "write_batch sid es w = (None, w')"
  shows "only_io w w' \<and> (\<exists>s. w_segments w sid = Some s)"
  using assms
  by (auto simp: write_batch_def only_io_def Let_def split_beta split: option.splits if_splits)

lemma write_batches_None:
  assumes "write_batches bs w = (None, w')"
  shows "only_io w w'"
  using assms
proof (induction bs arbitrary: w)
  case (Cons b bs)
  obtain sid es where b: "b = (sid, es)" by fastforce
  obtain e w1 where r: "write_batch sid es w = (e, w1)" by fastforce
  then have e: "e = None" "write_batches bs w1 = (None, w')"
    using Cons.prems b by (auto split: option.splits)
  then show ?case
    using write_batch_None [of sid es w w1] Cons.IH [of w1] only_io_trans r by blast
qed simp

text \<open>When the writing fails, the records stay as they were.\<close>

lemma reconcile_frame [simp]:
  "w_active (reconcileStateSize sid s w) = w_active w" "w_ids (reconcileStateSize sid s w) = w_ids w"
  "w_reservedBytes (reconcileStateSize sid s w) = w_reservedBytes w"
  "w_fault (reconcileStateSize sid s w) = w_fault w" "w_config (reconcileStateSize sid s w) = w_config w"
  "w_nextID (reconcileStateSize sid s w) = w_nextID w"
  "w_quarantined (reconcileStateSize sid s w) = w_quarantined w"
  "w_appendQueue (reconcileStateSize sid s w) = w_appendQueue w"
  "w_closed (reconcileStateSize sid s w) = w_closed w"
  "w_current (reconcileStateSize sid s w) = w_current w"
  "w_segmentIDs (reconcileStateSize sid s w) = w_segmentIDs w"
  "w_nextSegmentID (reconcileStateSize sid s w) = w_nextSegmentID w"
  by (simp_all add: reconcileStateSize_def Let_def split_beta split: option.split)

lemma reconcile_tables_ok:
  assumes "tables_ok ids w"
  shows "tables_ok ids (reconcileStateSize sid s w)"
proof -
  obtain r w1 where l: "lift_io (os_stat_size (seg_statePath s)) w = (r, w1)" by fastforce
  have w1: "w1 = snd (lift_io (os_stat_size (seg_statePath s)) w)" using l by simp
  have "only_io w w1" unfolding w1 by (rule only_io_lift)
  then have ok1: "tables_ok ids w1" using assms only_io_tables by blast
  show ?thesis
  proof (cases r)
    case None
    then show ?thesis using ok1 l by (simp add: reconcileStateSize_def)
  next
    case (Some n)
    show ?thesis
    proof (cases "w_segments w1 sid")
      case None
      then show ?thesis using ok1 l Some by (simp add: reconcileStateSize_def)
    next
      case (Some c)
      let ?c = "c\<lparr>seg_stateSize := int n\<rparr>"
      let ?w = "(upd_segment sid (\<lambda>c. c\<lparr>seg_stateSize := int n\<rparr>) w1)
          \<lparr>w_usedBytes := w_usedBytes w1 + (int n - seg_stateSize c)\<rparr>"
      have "map_sum seg_total ((w_segments w1)(sid \<mapsto> ?c)) + seg_total sid c = map_sum seg_total (w_segments w1) + seg_total sid ?c"
        by (rule map_sum_update) (simp_all add: Some)
      then have "tables_ok ids ?w"
        using ok1 Some unfolding tables_ok_def by (auto simp: segment_ok_def seg_total_def)
      moreover have "reconcileStateSize sid s w = observeUsageLocked ?w"
        using l Some \<open>r = Some n\<close> by (simp add: reconcileStateSize_def Let_def)
      ultimately show ?thesis using tables_ok_cong [of "observeUsageLocked ?w" ?w ids] by simp
    qed
  qed
qed

definition records_same :: "WAL \<Rightarrow> WAL \<Rightarrow> bool" where
  "records_same w w' \<longleftrightarrow> w_active w' = w_active w \<and> w_ids w' = w_ids w
     \<and> w_reservedBytes w' = w_reservedBytes w \<and> w_quarantined w' = w_quarantined w
     \<and> w_fault w' = w_fault w \<and> w_nextID w' = w_nextID w \<and> w_config w' = w_config w
     \<and> w_segmentIDs w' = w_segmentIDs w \<and> w_appendQueue w' = w_appendQueue w
     \<and> w_closed w' = w_closed w"

lemma write_batch_Some:
  assumes "write_batch sid es w = (Some e, w')" "tables_ok ids w"
  shows "tables_ok ids w' \<and> records_same w w'"
proof (cases "w_segments w sid")
  case None
  then show ?thesis using assms by (simp add: write_batch_def records_same_def)
next
  case (Some s)
  let ?enc = "encode_entries es"
  obtain n ok w1 where l: "lift_io (os_write (seg_statePath s) ?enc) w = ((n, ok), w1)" by (metis surj_pair)
  obtain sy w2 where l2: "lift_io (os_sync (seg_statePath s)) w1 = (sy, w2)" by fastforce
  have o1: "only_io w w1" using only_io_lift [of w "os_write (seg_statePath s) ?enc"] l by simp
  have o2: "only_io w w2" using only_io_trans [OF o1] only_io_lift [of w1 "os_sync (seg_statePath s)"] l2 by simp
  have "w' = w \<or> w' = reconcileStateSize sid s w1 \<or> w' = reconcileStateSize sid s w2"
    using assms(1) Some l l2 by (auto simp: write_batch_def Let_def split: if_splits)
  then show ?thesis
    using o1 o2 assms(2) reconcile_tables_ok only_io_tables [OF o1, of ids] only_io_tables [OF o2, of ids]
    by (auto simp: records_same_def only_io_def)
qed

lemma write_batches_Some:
  assumes "write_batches bs w = (Some e, w')" "tables_ok ids w"
  shows "tables_ok ids w' \<and> records_same w w'"
  using assms
proof (induction bs arbitrary: w)
  case (Cons b bs)
  obtain sid es where b: "b = (sid, es)" by fastforce
  obtain r w1 where r: "write_batch sid es w = (r, w1)" by fastforce
  show ?case
  proof (cases r)
    case None
    then have o: "only_io w w1" using write_batch_None r by blast
    then have "tables_ok ids w1" using Cons.prems(2) only_io_tables by blast
    then have "tables_ok ids w' \<and> records_same w1 w'"
      using Cons.IH [of w1] Cons.prems(1) b r None by simp
    then show ?thesis using o by (simp add: records_same_def only_io_def)
  next
    case (Some x)
    then show ?thesis using Cons.prems b r write_batch_Some by simp
  qed
qed simp

section \<open>A whole call\<close>

lemma compactRecordIndex_frame [simp]:
  "w_config (compactRecordIndexLocked w) = w_config w" "w_active (compactRecordIndexLocked w) = w_active w"
  "w_segments (compactRecordIndexLocked w) = w_segments w"
  "w_usedBytes (compactRecordIndexLocked w) = w_usedBytes w"
  "w_reservedBytes (compactRecordIndexLocked w) = w_reservedBytes w"
  "w_current (compactRecordIndexLocked w) = w_current w"
  "w_nextSegmentID (compactRecordIndexLocked w) = w_nextSegmentID w"
  "w_segmentIDs (compactRecordIndexLocked w) = w_segmentIDs w"
  "w_nextID (compactRecordIndexLocked w) = w_nextID w" "w_fault (compactRecordIndexLocked w) = w_fault w"
  "w_quarantined (compactRecordIndexLocked w) = w_quarantined w"
  "w_appendQueue (compactRecordIndexLocked w) = w_appendQueue w"
  "w_closed (compactRecordIndexLocked w) = w_closed w"
  "w_world (compactRecordIndexLocked w) = w_world w"
  by (simp_all add: compactRecordIndexLocked_def)

lemma compactRecordIndex_ok: "index_ok w \<Longrightarrow> index_ok (compactRecordIndexLocked w)"
  unfolding index_ok_def compactRecordIndexLocked_def
  by (auto intro!: strict_sorted_filter)

lemma writeRecordStates_cases:
  assumes "writeRecordStates records kind reason inc w = (err, records', w')"
  obtains (nothing) "err = None" "records = []" "w' = w" "records' = records"
    | (refused) e where "err = Some e" "w' = w" "records' = records"
        "w_fault w = Some e \<or> (\<exists>i. e = ErrRetryCount i)"
    | (failed) e bs where "err = Some e" "write_batches bs w = (Some e, w')" "records' = records"
    | (written) m w1 where "err = None" "w_fault w = None" "collect_entries kind reason inc w records [] = Inr m"
        "write_batches (sort_key fst m) w = (None, w1)"
        "w' = (observeUsageLocked (compactRecordIndexLocked (apply_batches (sort_key fst m) w1)))
            \<lparr>w_compact := True\<rparr>"
        "records' = (if inc then update_attempts (sort_key fst m) records else records)"
proof (cases "records = [] \<or> w_fault w \<noteq> None")
  case True
  show ?thesis
  proof (cases "records = []")
    case True
    then have "err = None" "w' = w" "records' = records"
      using assms by (simp_all add: writeRecordStates_def)
    then show thesis using True by - (rule nothing)
  next
    case ne: False
    then obtain e where e: "w_fault w = Some e" using True by auto
    then have "err = Some e" "w' = w" "records' = records"
      using assms ne by (simp_all add: writeRecordStates_def)
    then show ?thesis using refused e by simp
  qed
next
  case False
  have retry: "\<exists>i. e = ErrRetryCount i" if "collect_entries kind reason inc w rs m = Inl e" for rs m e
    using that by (induction rs arbitrary: m) (auto simp: Let_def split: option.splits if_splits)
  show ?thesis
  proof (cases "collect_entries kind reason inc w records []")
    case (Inl e)
    then show ?thesis using assms False refused retry by (auto simp: writeRecordStates_def)
  next
    case (Inr m)
    obtain r w1 where wr: "write_batches (sort_key fst m) w = (r, w1)" by fastforce
    show ?thesis
    proof (cases r)
      case None
      then show ?thesis using assms False Inr wr written by (auto simp: writeRecordStates_def Let_def)
    next
      case (Some e)
      then show ?thesis using assms False Inr wr failed by (auto simp: writeRecordStates_def Let_def)
    qed
  qed
qed

text \<open>The records of a call may be settled: distinct, and for a retry with another attempt left.\<close>

definition settleable :: "bool \<Rightarrow> WAL \<Rightarrow> spool_record list \<Rightarrow> bool" where
  "settleable inc w records \<longleftrightarrow> distinct (List.map RecordID records)
     \<and> (inc \<longrightarrow> (\<forall>r\<in>set records. \<forall>md. w_active w (RecordID r) = Some md \<longrightarrow>
          int (md_attempts md) + 1 < cfg_MaxRecordAttempts (w_config w)))"

lemma record_entry_ok:
  assumes "r \<in> set (active_records w records)" "settleable inc w records"
    and "inc = (kind = StateRetry)" "r \<in> set records"
    and "\<And>md. inc \<Longrightarrow> w_active w (RecordID r) = Some md \<Longrightarrow> md_attempts md < 99999"
  shows "entry_ok w (record_segment w r) (record_entry kind reason inc w r)"
proof -
  obtain md where md: "w_active w (RecordID r) = Some md"
    using assms(1) by (auto simp: active_records_def)
  have "unat (1 + of_nat (md_attempts md) :: u32) = Suc (md_attempts md)" if inc
    using assms(5) [OF that md] by (simp add: unat_of_nat flip: of_nat_Suc)
  then show ?thesis
    using md assms(2-4) by (auto simp: entry_ok_def record_entry_def record_segment_def settleable_def)
qed

lemma collected_ok:
  assumes m: "collect_entries kind reason inc w records [] = Inr m" and s: "settleable inc w records"
    and k: "inc = (kind = StateRetry)"
  shows "\<forall>(sid, es)\<in>set (sort_key fst m). es \<noteq> [] \<and> (\<forall>e\<in>set es. entry_ok w sid e)"
    and "distinct (List.map se_id (concat (List.map snd (sort_key fst m))))"
proof -
  note b = collected_batches [OF m]
  have att: "md_attempts md < 99999" if "inc" "r \<in> set records" "w_active w (RecordID r) = Some md" for r md
    using collect_entries_spec [OF m] that by simp
  show "\<forall>(sid, es)\<in>set (sort_key fst m). es \<noteq> [] \<and> (\<forall>e\<in>set es. entry_ok w sid e)"
  proof (intro ballI, clarify, intro conjI ballI)
    fix sid es
    assume i: "(sid, es) \<in> set (sort_key fst m)"
    have es: "es = List.map (record_entry kind reason inc w)
        (filter (\<lambda>r. record_segment w r = sid) (active_records w records))"
      using b i unfolding batches_for_def by fast
    have "sid \<in> set (keys (sort_key fst m))" using i by force
    then have "sid \<in> record_segment w ` set (active_records w records)"
      using b unfolding batches_for_def by simp
    then show "es \<noteq> []" using es by (auto simp: filter_empty_conv)
    fix e
    assume "e \<in> set es"
    then obtain r where r: "r \<in> set (active_records w records)" "record_segment w r = sid"
      "e = record_entry kind reason inc w r" using es by auto
    have "r \<in> set records" using r(1) by (simp add: active_records_def)
    then show "entry_ok w sid e"
      using record_entry_ok [OF r(1) s k, of reason] att r(2,3) by blast
  qed
  have "distinct (List.map RecordID (active_records w records))"
    using s by (simp add: settleable_def active_records_def distinct_map_filter)
  then show "distinct (List.map se_id (concat (List.map snd (sort_key fst m))))"
    using b distinct_batches [of "sort_key fst m" "record_entry kind reason inc w" "record_segment w"
        "active_records w records" RecordID]
    by (simp add: batches_for_def record_entry_def)
qed

lemma entry_ok_cong:
  "w_active w' = w_active w \<Longrightarrow> w_config w' = w_config w \<Longrightarrow> entry_ok w' sid e = entry_ok w sid e"
  by (simp add: entry_ok_def)

lemma settle_shrinks: "dom (settle_entry e act) \<subseteq> dom act"
  by (auto simp: settle_entry_def split: option.splits if_splits)

lemma settles_shrink: "dom (settle_entries es act) \<subseteq> dom act"
proof (induction es arbitrary: act)
  case (Cons e es)
  then show ?case using settle_shrinks [of e act] by fastforce
qed simp

lemma writeRecordStates_inv:
  assumes run: "writeRecordStates records kind reason inc w = (err, records', w')" and inv: "wal_inv w"
    and s: "settleable inc w records" and k: "inc = (kind = StateRetry)"
  shows "wal_inv w' \<and> w_fault w' = w_fault w \<and> w_config w' = w_config w \<and> w_nextID w' = w_nextID w
    \<and> (err = None \<longrightarrow> w_usedBytes w' + w_reservedBytes w' \<le> w_usedBytes w + w_reservedBytes w)"
  using run
proof (cases rule: writeRecordStates_cases)
  case (failed e bs)
  have "tables_ok (w_segmentIDs w) w" using inv by (simp add: wal_inv_def)
  then have "tables_ok (w_segmentIDs w) w' \<and> records_same w w'"
    by (rule write_batches_Some [OF failed(2)])
  then show ?thesis
    using inv failed(1) index_ok_cong [of w' w] by (simp add: wal_inv_def records_same_def)
next
  case (written m w1)
  let ?bs = "sort_key fst m"
  have o: "only_io w w1" using write_batches_None written(4) by blast
  have t1: "tables_ok (w_segmentIDs w) w1" using inv only_io_tables [OF o] by (simp add: wal_inv_def)
  have e1: "\<forall>(sid, es)\<in>set ?bs. es \<noteq> [] \<and> (\<forall>e\<in>set es. entry_ok w1 sid e)"
    using collected_ok(1) [OF written(3) s k] entry_ok_cong [of w1 w] o by (simp add: only_io_def)
  let ?w2 = "apply_batches ?bs w1"
  note a = apply_batches_ok [OF t1 e1 collected_ok(2) [OF written(3) s k]]
  have "index_ok ?w2"
    using inv a o settles_shrink [of "concat (List.map snd ?bs)" "w_active w"]
    by (auto simp: wal_inv_def index_ok_def apply_batches_active only_io_def)
  then have i2: "index_ok (compactRecordIndexLocked ?w2)" by (rule compactRecordIndex_ok)
  have t2: "tables_ok (w_segmentIDs w) w'"
    using a tables_ok_cong [of w' ?w2 "w_segmentIDs w"] written(5) by simp
  have i3: "index_ok w'" using i2 index_ok_cong [of w' "compactRecordIndexLocked ?w2"] written(5) by simp
  show ?thesis
    using t2 i3 a o written(1,5) by (simp add: wal_inv_def only_io_def)
qed (use inv in auto)

section \<open>The effect of a call\<close>

lemma active_ids: "j \<in> RecordID ` set (active_records w rs) \<longleftrightarrow> j \<in> RecordID ` set rs \<and> w_active w j \<noteq> None"
  by (auto simp: active_records_def)

lemma written_active:
  assumes m: "collect_entries kind reason inc w records [] = Inr m"
    and wr: "write_batches (sort_key fst m) w = (None, w1)" and k: "inc = (kind = StateRetry)"
  shows "w_active (apply_batches (sort_key fst m) w1) = (\<lambda>j. if j \<in> RecordID ` set records
    then (if inc then map_option (\<lambda>md. md\<lparr>md_attempts := md_attempts md + 1\<rparr>) (w_active w j) else None)
    else w_active w j)"
proof -
  let ?es = "concat (List.map snd (sort_key fst m))"
  have o: "w_active w1 = w_active w" using write_batches_None [OF wr] by (simp add: only_io_def)
  have es: "set ?es = record_entry kind reason inc w ` set (active_records w records)"
    by (rule set_batches [OF collected_batches [OF m]])
  have ids: "se_id ` set ?es = RecordID ` set (active_records w records)"
    unfolding es by (simp add: image_image record_entry_def)
  have kinds: "\<forall>e\<in>set ?es. se_kind e = kind" unfolding es by (simp add: record_entry_def)
  have act: "w_active (apply_batches (sort_key fst m) w1) = settle_entries ?es (w_active w)"
    by (simp add: apply_batches_active o)
  show ?thesis
  proof (cases inc)
    case False
    then have "settle_entries ?es (w_active w) = (\<lambda>j. if j \<in> se_id ` set ?es then None else w_active w j)"
      using kinds k by (intro settle_entries_final) auto
    then show ?thesis unfolding act ids active_ids by (simp add: False fun_eq_iff)
  next
    case True
    have "\<forall>e\<in>set ?es. se_kind e = StateRetry
      \<and> (\<exists>md. w_active w (se_id e) = Some md \<and> unat (se_attempts e) = md_attempts md + 1)"
    proof
      fix e
      assume e: "e \<in> set ?es"
      then obtain r where r: "r \<in> set (active_records w records)" "e = record_entry kind reason inc w r"
        using es by auto
      then obtain md where md: "w_active w (RecordID r) = Some md" "r \<in> set records"
        by (auto simp: active_records_def)
      have "md_attempts md < 99999" using collect_entries_spec [OF m] True md by simp
      then have "unat (1 + of_nat (md_attempts md) :: u32) = Suc (md_attempts md)"
        by (simp add: unat_of_nat flip: of_nat_Suc)
      then show "se_kind e = StateRetry
          \<and> (\<exists>md. w_active w (se_id e) = Some md \<and> unat (se_attempts e) = md_attempts md + 1)"
        using r(2) md(1) True k by (simp add: record_entry_def)
    qed
    then have "settle_entries ?es (w_active w) = (\<lambda>j. if j \<in> se_id ` set ?es
      then map_option (\<lambda>md. md\<lparr>md_attempts := md_attempts md + 1\<rparr>) (w_active w j) else w_active w j)"
      by (rule settle_entries_retry)
    then show ?thesis unfolding act ids active_ids by (simp add: True fun_eq_iff)
  qed
qed

lemma writeRecordStates_active:
  assumes "writeRecordStates records kind reason inc w = (None, records', w')" "inc = (kind = StateRetry)"
  shows "w_active w' = (\<lambda>j. if j \<in> RecordID ` set records
    then (if inc then map_option (\<lambda>md. md\<lparr>md_attempts := md_attempts md + 1\<rparr>) (w_active w j) else None)
    else w_active w j)"
  using assms(1)
proof (cases rule: writeRecordStates_cases)
  case (written m w1)
  then show ?thesis using written_active [OF written(3,4) assms(2)] by simp
qed auto

text \<open>A failed call keeps the records, their attempts and the reservation.\<close>

lemma writeRecordStates_error:
  assumes "writeRecordStates records kind reason inc w = (Some e, records', w')" "wal_inv w"
  shows "records_same w w' \<and> records' = records"
  using assms(1)
proof (cases rule: writeRecordStates_cases)
  case (failed e' bs)
  have "tables_ok (w_segmentIDs w) w" using assms(2) by (simp add: wal_inv_def)
  then show ?thesis using write_batches_Some [OF failed(2)] failed(3) by blast
qed (auto simp: records_same_def)

text \<open>Quarantining moves records from the active ones to the quarantined ones.\<close>

lemma quarantine_balance:
  assumes "se_kind e = StateQuarantine"
  shows "w_quarantined (apply_entry sid e w) + int (card (dom (w_active (apply_entry sid e w))))
    = w_quarantined w + int (card (dom (w_active w)))"
proof (cases "w_active w (se_id e)")
  case None
  then show ?thesis by (simp add: apply_entry_def)
next
  case (Some md)
  then have "se_id e \<in> dom (w_active w)" by blast
  then have "int (card (dom (w_active w) - {se_id e})) = int (card (dom (w_active w))) - 1"
    using card_gt_0_iff [of "dom (w_active w)"] by (auto simp: card_Diff_singleton of_nat_diff Suc_le_eq)
  then show ?thesis using Some assms by (simp add: apply_entry_def settle_entry_def Let_def)
qed

lemma quarantine_balance_entries:
  assumes "\<forall>e\<in>set es. se_kind e = StateQuarantine"
  shows "w_quarantined (foldl (\<lambda>w e. apply_entry sid e w) w es)
      + int (card (dom (w_active (foldl (\<lambda>w e. apply_entry sid e w) w es))))
    = w_quarantined w + int (card (dom (w_active w)))"
  using assms
proof (induction es arbitrary: w)
  case (Cons e es)
  then show ?case using quarantine_balance [of e sid w] by simp
qed simp

lemma quarantine_balance_batches:
  assumes "\<forall>e\<in>set (concat (List.map snd bs)). se_kind e = StateQuarantine"
  shows "w_quarantined (apply_batches bs w) + int (card (dom (w_active (apply_batches bs w))))
    = w_quarantined w + int (card (dom (w_active w)))"
  using assms
proof (induction bs arbitrary: w)
  case (Cons b bs)
  obtain sid es where b: "b = (sid, es)" by fastforce
  let ?w = "apply_batch sid es w"
  have "w_quarantined ?w + int (card (dom (w_active ?w))) = w_quarantined w + int (card (dom (w_active w)))"
    using quarantine_balance_entries [of es sid] Cons.prems b
    by (simp add: apply_batch_def Let_def del: apply_batch_active)
  then show ?case
    using Cons.IH [of ?w] Cons.prems b by (simp add: apply_batches_def)
qed (simp add: apply_batches_def)

lemma Quarantine_balance:
  assumes "Quarantine records reason w = (None, w')"
  shows "w_quarantined w' + int (card (dom (w_active w'))) = w_quarantined w + int (card (dom (w_active w)))"
proof -
  obtain sr r' where run: "writeRecordStates records StateQuarantine sr False w = (None, r', w')"
    using assms by (auto simp: Quarantine_def Let_def split: prod.splits)
  show ?thesis
    using run
  proof (cases rule: writeRecordStates_cases)
    case (written m w1)
    let ?bs = "sort_key fst m"
    have o: "only_io w w1" using write_batches_None written(4) by blast
    have "\<forall>e\<in>set (concat (List.map snd ?bs)). se_kind e = StateQuarantine"
      using set_batches [OF collected_batches [OF written(3)]] by (auto simp: record_entry_def)
    then have "w_quarantined (apply_batches ?bs w1) + int (card (dom (w_active (apply_batches ?bs w1))))
        = w_quarantined w1 + int (card (dom (w_active w1)))"
      by (rule quarantine_balance_batches)
    then show ?thesis using o written(5) by (simp add: only_io_def)
  qed auto
qed

end
