(* ===== verification/Wal_Scan.thy ===== *)
theory Wal_Scan
  imports Wal_Recovery
begin

text \<open>
  What recovery reads from a segment (\<open>recoverSegment\<close>) whose bytes are committed groups
  followed by a torn group: exactly the committed groups, and the offset at which the torn
  bytes are cut off. Together with what a crash leaves of a file, this is the atomicity of
  the group commit.
\<close>

section \<open>One frame\<close>

definition fits :: "walConfig \<Rightarrow> nat \<Rightarrow> bool" where
  "fits cfg n \<longleftrightarrow> n < 2 ^ 32 \<and> \<not> (of_nat n :: u32) > of_int (cfg_SegmentBytes cfg)"

lemma fits_iff:
  assumes "0 \<le> cfg_SegmentBytes cfg" "cfg_SegmentBytes cfg < 2 ^ 32"
  shows "fits cfg n \<longleftrightarrow> int n \<le> cfg_SegmentBytes cfg"
proof (cases "n < 2 ^ 32")
  case True
  have "unat (of_int (cfg_SegmentBytes cfg) :: u32) = nat (cfg_SegmentBytes cfg)"
    using assms by (simp add: unsigned_of_int take_bit_int_eq_self nat_take_bit_eq)
  moreover have "unat (of_nat n :: u32) = n" using True by (simp add: unat_of_nat)
  ultimately show ?thesis
    using True assms(1) by (simp add: fits_def word_less_nat_alt not_less le_nat_iff)
next
  case False
  then show ?thesis using assms by (simp add: fits_def)
qed

lemma fits_unat: "fits cfg n \<Longrightarrow> unat (of_nat n :: u32) = n"
  by (simp add: fits_def unat_of_nat)

text \<open>A whole frame at the current offset is decoded, and the loop goes on behind it.\<close>

definition frame_result :: "codec \<Rightarrow> walConfig \<Rightarrow> u64 \<Rightarrow> (u64 \<rightharpoonup> walStateEntry) \<Rightarrow> bytes \<Rightarrow> nat
    \<Rightarrow> nat \<Rightarrow> recoveredWALFrame list \<Rightarrow> recover_tables \<Rightarrow> walFrameKind \<Rightarrow> u64 \<Rightarrow> bytes
    \<Rightarrow> spool_error + (scan_end \<times> recover_tables)" where
  "frame_result js cfg sid states data offset committed pending t kind sequence payload =
     (let next = offset + (28 + length payload)
      in case kind of
        FrameData \<Rightarrow>
          if sequence \<in> rt_seen t \<or> sequence \<in> rf_id ` set pending
          then Inl (ErrCorruptWAL DuplicateSequence)
          else (case decodeWALRecord js payload sequence of
            Inl e \<Rightarrow> Inl (ErrCorruptWAL (BadFormat e))
          | Inr _ \<Rightarrow>
              scan_segment js cfg sid states data next committed
                (pending @ [\<lparr>rf_id = sequence, rf_offset = int offset,
                   rf_frameSize = int (28 + length payload),
                   rf_encoded = slice offset next data\<rparr>]) t)
      | FrameCommit \<Rightarrow>
          (case decodeWALCommit payload of
            Inl _ \<Rightarrow> Inl (ErrCorruptWAL InvalidCommitMarker)
          | Inr c \<Rightarrow>
              if \<not> validRecoveredCommit c pending (pending_bytes pending) sequence
              then Inl (ErrCorruptWAL InvalidCommitMarker)
              else scan_segment js cfg sid states data next next []
                (foldl (recover_frame sid states) t pending)))"

lemma scan_frame:
  assumes "data = pre @ encodeWALFrame kind sequence payload @ post"
    and "offset = length pre" and "fits cfg (length payload)"
  shows "scan_segment js cfg sid states data offset committed pending t =
    frame_result js cfg sid states data offset committed pending t kind sequence payload"
proof -
  have data: "data = pre @ frame_header kind sequence (of_nat (length payload)) (crc32 payload)
      @ payload @ post"
    using assms(1) by (simp add: encodeWALFrame_def)
  have len: "\<not> length data - offset < 28 + length payload" "offset < length data"
    using data assms(2) by simp_all
  have header: "slice offset (offset + 28) data
      = frame_header kind sequence (of_nat (length payload)) (crc32 payload)"
    unfolding data by (rule slice_mid) (simp_all add: assms(2))
  have body: "slice (offset + 28) (offset + (28 + length payload)) data = payload"
    using slice_mid [of "offset + 28" "pre @ frame_header kind sequence (of_nat (length payload)) (crc32 payload)"
        "offset + (28 + length payload)" payload post] assms(2) unfolding data by simp
  have size_ok: "unat (of_nat (length payload) :: u32) = length payload"
    "\<not> (of_nat (length payload) :: u32) > of_int (cfg_SegmentBytes cfg)"
    using assms(3) by (rule fits_unat, simp add: assms(3) [unfolded fits_def])
  show ?thesis
    using len size_ok
    by (subst scan_segment.simps, cases kind)
      (simp_all add: frame_result_def Let_def header body codec_simps walFrameHeaderSize_def
        split: sum.split)
qed

text \<open>A frame of which only a proper part is there ends the loop.\<close>

lemma scan_torn_frame:
  assumes "data = pre @ take k (encodeWALFrame kind sequence payload)"
    and "offset = length pre" and "fits cfg (length payload)"
    and "k < 28 + length payload" and "0 < k \<or> pending \<noteq> []"
  shows "scan_segment js cfg sid states data offset committed pending t
    = Inr (ScanTail committed, t)"
proof (cases "k < 28")
  case True
  then have "length data - offset = k" "offset < length data \<longleftrightarrow> 0 < k"
    using assms(1,2) by simp_all
  then show ?thesis
    using True assms(5) by (subst scan_segment.simps) (auto simp: walFrameHeaderSize_def)
next
  case False
  have data: "data = pre @ frame_header kind sequence (of_nat (length payload)) (crc32 payload)
      @ take (k - 28) payload"
    using assms(1) False by (simp add: encodeWALFrame_def)
  have len: "length data - offset = k" "offset < length data"
    using assms(1,2,4) False by simp_all
  have header: "slice offset (offset + 28) data
      = frame_header kind sequence (of_nat (length payload)) (crc32 payload)"
    unfolding data by (rule slice_mid) (simp_all add: assms(2))
  show ?thesis
    using len False assms(4) fits_unat [OF assms(3)]
    by (subst scan_segment.simps) (simp add: header codec_simps walFrameHeaderSize_def Let_def)
qed

section \<open>Committed groups\<close>

definition record_id :: "preparedWALRecord \<Rightarrow> u64" where
  "record_id p = RecordID (pr_record p)"

definition good_record :: "codec \<Rightarrow> walConfig \<Rightarrow> preparedWALRecord \<Rightarrow> bool" where
  "good_record js cfg p \<longleftrightarrow> (\<exists>payload.
     pr_frame p = encodeWALFrame FrameData (record_id p) payload
     \<and> decodeWALRecord js payload (record_id p) = Inr ((pr_record p)\<lparr>Attempts := 0\<rparr>)
     \<and> fits cfg (length payload))"

definition good_group :: "codec \<Rightarrow> walConfig \<Rightarrow> preparedWALRecord list \<Rightarrow> bool" where
  "good_group js cfg ps \<longleftrightarrow> ps \<noteq> [] \<and> (\<forall>p\<in>set ps. good_record js cfg p)
     \<and> length ps < 2 ^ 32 \<and> length (group_data ps) < 2 ^ 32 \<and> fits cfg 28"

fun group_frames :: "nat \<Rightarrow> preparedWALRecord list \<Rightarrow> recoveredWALFrame list" where
  "group_frames offset [] = []"
| "group_frames offset (p # ps) =
     \<lparr>rf_id = record_id p, rf_offset = int offset, rf_frameSize = int (length (pr_frame p)),
      rf_encoded = pr_frame p\<rparr> # group_frames (offset + length (pr_frame p)) ps"

lemma rf_id_group_frames [simp]: "List.map rf_id (group_frames offset ps) = List.map record_id ps"
  by (induction ps arbitrary: offset) simp_all

lemma set_rf_id_group_frames [simp]: "rf_id ` set (group_frames offset ps) = record_id ` set ps"
  by (metis rf_id_group_frames image_set)

lemma pending_bytes_group_frames [simp]: "pending_bytes (group_frames offset ps) = group_data ps"
  by (induction ps arbitrary: offset) (simp_all add: pending_bytes_def group_data_def)

lemma length_group_frames [simp]: "length (group_frames offset ps) = length ps"
  by (induction ps arbitrary: offset) simp_all

lemma group_frames_Nil [simp]: "group_frames offset ps = [] \<longleftrightarrow> ps = []"
  by (cases ps) simp_all

lemma group_data_Cons: "group_data (p # ps) = pr_frame p @ group_data ps"
  by (simp add: group_data_def)

lemma scan_data_frames:
  assumes "data = pre @ group_data ps @ post" "offset = length pre"
    and "\<forall>p\<in>set ps. good_record js cfg p" "distinct (List.map record_id ps)"
    and "record_id ` set ps \<inter> rt_seen t = {}"
    and "record_id ` set ps \<inter> rf_id ` set pending = {}"
  shows "scan_segment js cfg sid states data offset committed pending t =
    scan_segment js cfg sid states data (offset + length (group_data ps)) committed
      (pending @ group_frames offset ps) t"
  using assms
proof (induction ps arbitrary: pre offset pending)
  case Nil
  then show ?case by (simp add: group_data_def)
next
  case (Cons p ps)
  obtain payload where f: "pr_frame p = encodeWALFrame FrameData (record_id p) payload"
    and d: "decodeWALRecord js payload (record_id p) = Inr ((pr_record p)\<lparr>Attempts := 0\<rparr>)"
    and fit: "fits cfg (length payload)"
    using Cons.prems(3) unfolding good_record_def by auto
  let ?next = "offset + length (pr_frame p)"
  let ?fr = "\<lparr>rf_id = record_id p, rf_offset = int offset,
      rf_frameSize = int (length (pr_frame p)), rf_encoded = pr_frame p\<rparr>"
  have data: "data = pre @ pr_frame p @ group_data ps @ post"
    using Cons.prems(1) by (simp add: group_data_Cons)
  have sl: "slice offset (offset + (28 + length payload)) data = pr_frame p"
    unfolding data by (rule slice_mid) (simp_all add: Cons.prems(2) f)
  have "scan_segment js cfg sid states data offset committed pending t
      = scan_segment js cfg sid states data ?next committed (pending @ [?fr]) t"
    using scan_frame [OF data [unfolded f] Cons.prems(2) fit, of js sid states committed pending t]
      Cons.prems(5,6) d sl
    by (simp add: frame_result_def Let_def f)
  also have "\<dots> = scan_segment js cfg sid states data (?next + length (group_data ps)) committed
      ((pending @ [?fr]) @ group_frames ?next ps) t"
    by (rule Cons.IH [of "pre @ pr_frame p"]) (use Cons.prems data in auto)
  finally show ?case by (simp add: group_data_Cons add.assoc)
qed

lemma valid_group_commit:
  assumes "ps \<noteq> []" "length ps < 2 ^ 32" "length (group_data ps) < 2 ^ 32"
  shows "validRecoveredCommit (group_commit ps) (group_frames offset ps)
    (pending_bytes (group_frames offset ps)) (lastID (group_commit ps))"
proof -
  have "hd (List.map rf_id (group_frames offset ps)) = hd (List.map record_id ps)"
    "last (List.map rf_id (group_frames offset ps)) = last (List.map record_id ps)"
    by simp_all
  then have "rf_id (hd (group_frames offset ps)) = record_id (hd ps)"
    "rf_id (last (group_frames offset ps)) = record_id (last ps)"
    using assms(1) by (simp_all add: hd_map last_map del: rf_id_group_frames)
  then show ?thesis
    using assms by (simp add: validRecoveredCommit_def group_commit_def record_id_def unat_of_nat)
qed

lemma scan_group:
  assumes "data = pre @ encode_group ps @ post" "offset = length pre" "good_group js cfg ps"
    and "distinct (List.map record_id ps)" "record_id ` set ps \<inter> rt_seen t = {}"
  shows "scan_segment js cfg sid states data offset committed [] t =
    scan_segment js cfg sid states data (offset + length (encode_group ps))
      (offset + length (encode_group ps)) []
      (foldl (recover_frame sid states) t (group_frames offset ps))"
proof -
  let ?mid = "offset + length (group_data ps)"
  let ?c = "group_commit ps"
  have data: "data = pre @ group_data ps @ encodeWALCommitFrame ?c @ post"
    using assms(1) by (simp add: encode_group_def)
  have "scan_segment js cfg sid states data offset committed [] t =
      scan_segment js cfg sid states data ?mid committed (group_frames offset ps) t"
    using scan_data_frames [OF data assms(2), of js cfg t "[]" sid states committed] assms(3-5)
    by (simp add: good_group_def)
  moreover have "data = (pre @ group_data ps) @ encodeWALFrame FrameCommit (lastID ?c)
      (encodeWALCommit ?c) @ post"
    using data by (simp add: encodeWALCommitFrame_def)
  ultimately show ?thesis
    using scan_frame [of data "pre @ group_data ps" FrameCommit "lastID ?c" "encodeWALCommit ?c"
        post ?mid cfg js sid states committed "group_frames offset ps" t]
      assms(2,3) valid_group_commit [of ps offset]
    by (simp add: good_group_def frame_result_def Let_def codec_simps encode_group_def add.assoc)
qed

section \<open>A log of groups with a torn tail\<close>

definition log_bytes :: "preparedWALRecord list list \<Rightarrow> bytes" where
  "log_bytes gs = concat (List.map encode_group gs)"

definition log_ids :: "preparedWALRecord list list \<Rightarrow> u64 list" where
  "log_ids gs = List.map record_id (concat gs)"

fun log_frames :: "nat \<Rightarrow> preparedWALRecord list list \<Rightarrow> recoveredWALFrame list" where
  "log_frames offset [] = []"
| "log_frames offset (g # gs) =
     group_frames offset g @ log_frames (offset + length (encode_group g)) gs"

lemma log_bytes_simps [simp]:
  "log_bytes [] = []" "log_bytes (g # gs) = encode_group g @ log_bytes gs"
  "log_bytes (gs @ gs') = log_bytes gs @ log_bytes gs'"
  by (simp_all add: log_bytes_def)

lemma log_ids_simps [simp]:
  "log_ids [] = []" "log_ids (g # gs) = List.map record_id g @ log_ids gs"
  "log_ids (gs @ gs') = log_ids gs @ log_ids gs'"
  by (simp_all add: log_ids_def)

lemma rf_id_log_frames [simp]: "List.map rf_id (log_frames offset gs) = log_ids gs"
  by (induction gs arbitrary: offset) simp_all

lemma rt_seen_recover_frame [simp]:
  "rt_seen (recover_frame sid states t f) = insert (rf_id f) (rt_seen t)"
  by (simp add: recover_frame_def Let_def split: option.splits walStateKind.splits)

lemma rt_seen_recover_frames [simp]:
  "rt_seen (foldl (recover_frame sid states) t fs) = rt_seen t \<union> rf_id ` set fs"
  by (induction fs arbitrary: t) auto

lemma scan_groups:
  assumes "data = pre @ log_bytes gs @ post" "offset = length pre"
    and "\<forall>g\<in>set gs. good_group js cfg g" "distinct (log_ids gs)"
    and "set (log_ids gs) \<inter> rt_seen t = {}"
  shows "scan_segment js cfg sid states data offset offset [] t =
    scan_segment js cfg sid states data (offset + length (log_bytes gs))
      (offset + length (log_bytes gs)) []
      (foldl (recover_frame sid states) t (log_frames offset gs))"
  using assms
proof (induction gs arbitrary: pre offset t)
  case Nil
  then show ?case by simp
next
  case (Cons g gs)
  let ?next = "offset + length (encode_group g)"
  let ?t = "foldl (recover_frame sid states) t (group_frames offset g)"
  have "scan_segment js cfg sid states data offset offset [] t =
      scan_segment js cfg sid states data ?next ?next [] ?t"
    by (rule scan_group [of data pre g "log_bytes gs @ post"]) (use Cons.prems in auto)
  also have "\<dots> = scan_segment js cfg sid states data (?next + length (log_bytes gs))
      (?next + length (log_bytes gs)) []
      (foldl (recover_frame sid states) ?t (log_frames ?next gs))"
    by (rule Cons.IH [of "pre @ encode_group g"]) (use Cons.prems in auto)
  finally show ?case by (simp add: add.assoc)
qed

lemma scan_torn_group:
  assumes "data = pre @ take k (group_data ps @ encodeWALCommitFrame c)" "offset = length pre"
    and "k < length (group_data ps) + 56" "0 < k \<or> pending \<noteq> []"
    and "\<forall>p\<in>set ps. good_record js cfg p" "fits cfg 28"
    and "distinct (List.map record_id ps)" "record_id ` set ps \<inter> rt_seen t = {}"
    and "record_id ` set ps \<inter> rf_id ` set pending = {}"
  shows "scan_segment js cfg sid states data offset committed pending t
    = Inr (ScanTail committed, t)"
  using assms
proof (induction ps arbitrary: pre offset pending k)
  case Nil
  then show ?case
    using scan_torn_frame [of data pre k FrameCommit "lastID c" "encodeWALCommit c" offset cfg pending]
    by (simp add: group_data_def encodeWALCommitFrame_def)
next
  case (Cons p ps)
  obtain payload where f: "pr_frame p = encodeWALFrame FrameData (record_id p) payload"
    and d: "decodeWALRecord js payload (record_id p) = Inr ((pr_record p)\<lparr>Attempts := 0\<rparr>)"
    and fit: "fits cfg (length payload)"
    using Cons.prems(5) unfolding good_record_def by auto
  let ?n = "length (pr_frame p)"
  show ?case
  proof (cases "k < ?n")
    case True
    have "data = pre @ take k (encodeWALFrame FrameData (record_id p) payload)"
      using Cons.prems(1) True by (simp add: group_data_Cons f)
    then show ?thesis
      using scan_torn_frame [OF _ Cons.prems(2) fit _ Cons.prems(4)] True by (simp add: f)
  next
    case False
    let ?next = "offset + ?n"
    let ?fr = "\<lparr>rf_id = record_id p, rf_offset = int offset,
        rf_frameSize = int ?n, rf_encoded = pr_frame p\<rparr>"
    have data: "data = pre @ pr_frame p @ take (k - ?n) (group_data ps @ encodeWALCommitFrame c)"
      using Cons.prems(1) False by (simp add: group_data_Cons)
    have sl: "slice offset (offset + (28 + length payload)) data = pr_frame p"
      unfolding data by (rule slice_mid) (simp_all add: Cons.prems(2) f)
    have "scan_segment js cfg sid states data offset committed pending t
        = scan_segment js cfg sid states data ?next committed (pending @ [?fr]) t"
      using scan_frame [OF data [unfolded f] Cons.prems(2) fit, of js sid states committed pending t]
        Cons.prems(8,9) d sl
      by (simp add: frame_result_def Let_def f)
    also have "\<dots> = Inr (ScanTail committed, t)"
      by (rule Cons.IH [of "pre @ pr_frame p" "k - ?n"])
        (use Cons.prems data False in \<open>auto simp: group_data_Cons\<close>)
    finally show ?thesis .
  qed
qed

end
