(* ===== verification/Wal_Crash.thy ===== *)
theory Wal_Crash
  imports Wal_Scan Wal_Frame
begin

text \<open>
  Crash consistency of one segment: what is in the file after a group commit that may have
  failed at any call, what a crash leaves of it, and what \<open>recoverSegment\<close> makes of the rest.
\<close>

section \<open>Recovering a segment image\<close>

definition segment_image :: "u64 \<Rightarrow> int \<Rightarrow> preparedWALRecord list list \<Rightarrow> bytes" where
  "segment_image i now gs = encodeWALSegmentHeader i now @ log_bytes gs"

lemma length_segment_image [simp]:
  "length (segment_image i now gs) = walSegmentHeaderSize + length (log_bytes gs)"
  by (simp add: segment_image_def wal_sizes)

lemma segment_image_snoc: "segment_image i now (gs @ [g]) = segment_image i now gs @ encode_group g"
  by (simp add: segment_image_def)

definition recovered_tables :: "u64 \<Rightarrow> (u64 \<rightharpoonup> walStateEntry) \<Rightarrow> preparedWALRecord list list
    \<Rightarrow> recover_tables \<Rightarrow> recover_tables" where
  "recovered_tables sid states gs t =
     foldl (recover_frame sid states) t (log_frames walSegmentHeaderSize gs)"

definition good_log :: "codec \<Rightarrow> walConfig \<Rightarrow> recover_tables \<Rightarrow> preparedWALRecord list list \<Rightarrow> bool" where
  "good_log js cfg t gs \<longleftrightarrow> (\<forall>g\<in>set gs. good_group js cfg g) \<and> distinct (log_ids gs)
     \<and> set (log_ids gs) \<inter> rt_seen t = {}"

lemma good_log_prefix: "good_log js cfg t (gs @ gs') \<Longrightarrow> good_log js cfg t gs"
  by (auto simp: good_log_def)

lemma log_bytes_Nil_iff: "\<forall>g\<in>set gs. good_group js cfg g \<Longrightarrow> log_bytes gs = [] \<longleftrightarrow> gs = []"
  by (cases gs) (auto simp: encode_group_def encodeWALCommitFrame_def encodeWALFrame_def
      frame_header_def Let_def)

lemma length_encode_group: "length (encode_group ps) = length (group_data ps) + 56"
  by (simp add: encode_group_def)

lemma scan_image:
  assumes "good_log js cfg t gs"
  shows "scan_segment js cfg sid states (segment_image i now gs) walSegmentHeaderSize
    walSegmentHeaderSize [] t = Inr (ScanComplete, recovered_tables sid states gs t)"
proof -
  let ?data = "segment_image i now gs"
  let ?t = "recovered_tables sid states gs t"
  have "scan_segment js cfg sid states ?data walSegmentHeaderSize walSegmentHeaderSize [] t
      = scan_segment js cfg sid states ?data (length ?data) (length ?data) [] ?t"
    using scan_groups [of ?data "encodeWALSegmentHeader i now" gs "[]"
        walSegmentHeaderSize js cfg t sid states] assms
    by (simp add: good_log_def segment_image_def wal_sizes recovered_tables_def)
  also have "\<dots> = Inr (ScanComplete, ?t)"
    by (subst scan_segment.simps) simp
  finally show ?thesis .
qed

lemma scan_image_torn:
  assumes "good_log js cfg t (gs @ [ps])" "0 < k" "k < length (encode_group ps)"
  shows "scan_segment js cfg sid states (segment_image i now gs @ take k (encode_group ps))
    walSegmentHeaderSize walSegmentHeaderSize [] t
    = Inr (ScanTail (length (segment_image i now gs)), recovered_tables sid states gs t)"
proof -
  let ?data = "segment_image i now gs @ take k (encode_group ps)"
  let ?stop = "length (segment_image i now gs)"
  have "scan_segment js cfg sid states ?data walSegmentHeaderSize walSegmentHeaderSize [] t
      = scan_segment js cfg sid states ?data ?stop ?stop [] (recovered_tables sid states gs t)"
    using scan_groups [of ?data "encodeWALSegmentHeader i now" gs "take k (encode_group ps)"
        walSegmentHeaderSize js cfg t sid states] good_log_prefix [OF assms(1)]
    by (simp add: good_log_def segment_image_def wal_sizes recovered_tables_def)
  also have "\<dots> = Inr (ScanTail ?stop, recovered_tables sid states gs t)"
  proof (rule scan_torn_group)
    show "?data = segment_image i now gs @ take k (group_data ps @ encodeWALCommitFrame (group_commit ps))"
      by (simp add: encode_group_def)
    have "rf_id ` set (log_frames walSegmentHeaderSize gs) = set (log_ids gs)"
      by (metis rf_id_log_frames set_map)
    then show "record_id ` set ps \<inter> rt_seen (recovered_tables sid states gs t) = {}"
      using assms(1) by (auto simp: good_log_def recovered_tables_def)
  qed (use assms in \<open>auto simp: good_log_def good_group_def length_encode_group\<close>)
  finally show ?thesis .
qed

text \<open>Recovery of the bytes a crash leaves: the committed groups, with the last group either
  whole or cut off.\<close>

definition recovered_groups :: "preparedWALRecord list list \<Rightarrow> preparedWALRecord list \<Rightarrow> nat
    \<Rightarrow> preparedWALRecord list list" where
  "recovered_groups gs ps k = (if k < length (encode_group ps) then gs else gs @ [ps])"

definition leftover_bytes :: "preparedWALRecord list \<Rightarrow> nat \<Rightarrow> nat" where
  "leftover_bytes ps k = (if k < length (encode_group ps) then k else 0)"

lemma recover_image_header:
  "decodeWALSegmentHeader (take walSegmentHeaderSize (segment_image i now gs @ tail)) i = Inr ()"
  by (simp add: segment_image_def wal_sizes codec_simps)

lemma recoverSegment_image:
  assumes "good_log js cfg t (gs @ [ps])" "k \<le> length (encode_group ps)"
    and "lookup_file fs (seg_path s) = Some f"
    and "contents f = segment_image (seg_id s) now gs @ take k (encode_group ps)"
    and "script fs = []"
  shows "\<exists>fs' f'. recoverSegment js cfg s states t True fs =
      (Inr (leftover_bytes ps k,
            length (segment_image (seg_id s) now (recovered_groups gs ps k)),
            recovered_tables (seg_id s) states (recovered_groups gs ps k) t), fs')
    \<and> lookup_file fs' (seg_path s) = Some f'
    \<and> contents f' = segment_image (seg_id s) now (recovered_groups gs ps k)"
proof -
  have read: "os_read_file (seg_path s) fs = (ReadOk (contents f), fs)"
    using assms(3,5) by (simp add: os_read_file_def)
  have header: "decodeWALSegmentHeader (take walSegmentHeaderSize (contents f)) (seg_id s) = Inr ()"
    unfolding assms(4) by (rule recover_image_header)
  have long: "\<not> length (contents f) < walSegmentHeaderSize" unfolding assms(4) by simp
  consider "k = 0" | "0 < k" "k < length (encode_group ps)" | "k = length (encode_group ps)"
    using assms(2) by linarith
  then show ?thesis
  proof cases
    case 1
    have "recovered_groups gs ps k = gs" "leftover_bytes ps k = 0"
      using 1 by (simp_all add: recovered_groups_def leftover_bytes_def length_encode_group)
    then show ?thesis
      using 1 read header long assms(3,4) scan_image [OF good_log_prefix [OF assms(1)]]
      by (simp add: recoverSegment_def)
  next
    case 2
    have g: "recovered_groups gs ps k = gs" "leftover_bytes ps k = k"
      using 2 by (simp_all add: recovered_groups_def leftover_bytes_def)
    have "length (contents f) - length (segment_image (seg_id s) now gs) = k"
      unfolding assms(4) using 2 by simp
    then show ?thesis
      using 2 g read header long assms(3,4,5) scan_image_torn [OF assms(1) 2]
      by (simp add: recoverSegment_def truncateUncommittedTail_def os_open_def os_truncate_def
          os_sync_def os_close_def Let_def)
  next
    case 3
    have g: "recovered_groups gs ps k = gs @ [ps]" "leftover_bytes ps k = 0"
      using 3 by (simp_all add: recovered_groups_def leftover_bytes_def)
    then show ?thesis
      using 3 read header long assms(3,4) scan_image [OF assms(1), of "seg_id s" states "seg_id s" now]
      by (simp add: recoverSegment_def segment_image_snoc)
  qed
qed

section \<open>What a group commit leaves in the file\<close>

lemma lookup_append_file [simp]:
  "lookup_file (append_file name bs w) name' =
     (if name' = name then map_option (\<lambda>f. f\<lparr>contents := contents f @ bs\<rparr>) (lookup_file w name)
      else lookup_file w name')"
  by (auto simp: append_file_def split: option.splits)

lemma os_write_file:
  assumes "os_write name bs w = ((n, ok), w')" "lookup_file w name = Some f"
  shows "n \<le> length bs \<and> (ok \<longrightarrow> n = length bs)
    \<and> lookup_file w' name = Some (f\<lparr>contents := contents f @ take n bs\<rparr>)"
  using assms by (auto simp: os_write_def next_io_def min_def split: io.splits list.splits)

lemma os_sync_file:
  assumes "os_sync name w = (ok, w')" "lookup_file w name = Some f"
  shows "lookup_file w' name = Some (if ok then f\<lparr>synced := length (contents f)\<rparr> else f)"
  using assms by (auto simp: os_sync_def next_io_def split: io.splits list.splits)

text \<open>The reply of the commit and the file: a prefix of the group, all of it when the call
  succeeds, and then synced.\<close>

lemma write_group_file:
  assumes "w_segments w (w_current w) = Some cur" "lookup_file (w_world w) (seg_path cur) = Some f"
    and "write_group ps encoded w = (err, w')"
  shows "\<exists>n f'. n \<le> length encoded \<and> lookup_file (w_world w') (seg_path cur) = Some f'
    \<and> contents f' = contents f @ take n encoded
    \<and> (synced f' = synced f \<or> synced f' = length (contents f'))
    \<and> (err = None \<longrightarrow> n = length encoded \<and> synced f' = length (contents f'))"
proof -
  obtain n ok fs1 where wr: "os_write (seg_path cur) encoded (w_world w) = ((n, ok), fs1)"
    by (metis surj_pair)
  let ?f1 = "f\<lparr>contents := contents f @ take n encoded\<rparr>"
  have w1: "n \<le> length encoded" "ok \<longrightarrow> n = length encoded" "lookup_file fs1 (seg_path cur) = Some ?f1"
    using os_write_file [OF wr assms(2)] by simp_all
  obtain sy fs2 where sn: "os_sync (seg_path cur) fs1 = (sy, fs2)" by (metis surj_pair)
  have w2: "lookup_file fs2 (seg_path cur) = Some (if sy then ?f1\<lparr>synced := length (contents ?f1)\<rparr> else ?f1)"
    using os_sync_file [OF sn w1(3)] .
  show ?thesis
  proof (cases "ok \<and> n = length encoded \<and> sy")
    case True
    then have "err = None \<and> w_world w' = fs2"
      using assms(1,3) wr sn
      by (auto simp: write_group_def lift_io_def Let_def wal_frame)
    then show ?thesis using True w1 w2 by auto
  next
    case False
    then have "err \<noteq> None \<and> (w_world w' = fs1 \<or> w_world w' = fs2)"
      using assms(1,3) wr sn
      by (auto simp: write_group_def lift_io_def Let_def wal_frame split: if_splits)
    then show ?thesis using w1 w2 by (auto split: if_splits)
  qed
qed

section \<open>Atomicity\<close>

text \<open>A crash keeps, of a file whose first \<open>length base\<close> bytes are synced, those bytes and a
  prefix of the rest.\<close>

lemma crash_keeps_prefix:
  assumes "crash fs fs'" "lookup_file fs name = Some f" "contents f = base @ take n enc"
    and "length base \<le> synced f"
  shows "\<exists>k f'. k \<le> length enc \<and> lookup_file fs' name = Some f' \<and> contents f' = base @ take k enc
    \<and> (n = length enc \<and> synced f = length (contents f) \<longrightarrow> k = length enc)"
proof -
  obtain j where j: "synced f \<le> j" "j \<le> length (contents f)"
    "lookup_file fs' name = Some \<lparr>contents = take j (contents f), synced = j\<rparr>"
    using crash_cut [OF assms(1,2)] .
  let ?k = "min (j - length base) (length enc)"
  have "length base \<le> j" using j(1) assms(4) by simp
  then have "take j (contents f) = base @ take (min (j - length base) n) enc"
    using assms(3) by (simp add: min_def)
  moreover have "j \<le> length base + min n (length enc)" using j(2) assms(3) by simp
  then have "take (min (j - length base) n) enc = take ?k enc"
    by (auto simp: min_def split: if_splits)
  moreover have "n = length enc \<and> synced f = length (contents f) \<longrightarrow> ?k = length enc"
    using j(1,2) assms(3) by auto
  ultimately show ?thesis using j(3) by auto
qed

lemma crash_after_write_group:
  assumes cur: "w_segments w (w_current w) = Some cur"
    and f: "lookup_file (w_world w) (seg_path cur) = Some f"
      "contents f = segment_image (seg_id cur) now gs" "synced f = length (contents f)"
    and good: "good_log js cfg t (gs @ [ps])"
    and run: "write_group ps (encode_group ps) w = (err, w')"
    and boom: "crash (w_world w') fs" "script fs = []"
  shows "\<exists>gs' n fs' f'.
    (gs' = gs \<or> gs' = gs @ [ps]) \<and> (err = None \<longrightarrow> gs' = gs @ [ps])
    \<and> recoverSegment js cfg cur states t True fs
        = (Inr (n, length (segment_image (seg_id cur) now gs'),
                recovered_tables (seg_id cur) states gs' t), fs')
    \<and> lookup_file fs' (seg_path cur) = Some f' \<and> contents f' = segment_image (seg_id cur) now gs'"
proof -
  obtain n f1 where f1: "lookup_file (w_world w') (seg_path cur) = Some f1"
    "contents f1 = contents f @ take n (encode_group ps)"
    and s1: "synced f1 = synced f \<or> synced f1 = length (contents f1)"
    and ok: "err = None \<longrightarrow> n = length (encode_group ps) \<and> synced f1 = length (contents f1)"
    using write_group_file [OF cur f(1) run] by blast
  have s1: "length (contents f) \<le> synced f1" using s1 f(3) f1(2) by auto
  obtain k f2 where f2: "k \<le> length (encode_group ps)" "lookup_file fs (seg_path cur) = Some f2"
    "contents f2 = contents f @ take k (encode_group ps)"
    "n = length (encode_group ps) \<and> synced f1 = length (contents f1) \<longrightarrow> k = length (encode_group ps)"
    using crash_keeps_prefix [OF boom(1) f1(1,2) s1] by blast
  show ?thesis
    using recoverSegment_image [OF good f2(1,2) f2(3) [unfolded f(2)] boom(2), of states] ok f2(4)
    by (metis recovered_groups_def less_irrefl)
qed

end
