(* ===== verification/Wal_Durability.thy ===== *)
theory Wal_Durability
  imports Wal_Crash Wal_Invariant
begin

text \<open>
  Durability across rotation: the files that \<open>createSegment\<close> leaves, the files that
  compaction does not touch, and the crash theorem for a whole \<open>commitGroup\<close>.
\<close>

section \<open>What the calls leave of other files\<close>

lemma lookup_next_io [simp]: "lookup_file (snd (next_io w)) name = lookup_file w name"
  by simp

lemma lookup_os_create [simp]:
  "fst (os_create_excl n w) \<Longrightarrow> lookup_file (snd (os_create_excl n w)) m
    = (if m = n then Some \<lparr>contents = [], synced = 0\<rparr> else lookup_file w m)"
  by (auto simp: os_create_excl_def next_io_def split: list.splits io.splits option.splits)

lemma lookup_os_write [simp]:
  "snd (fst (os_write n bs w)) \<Longrightarrow> lookup_file (snd (os_write n bs w)) m
    = (if m = n then map_option (\<lambda>f. f\<lparr>contents := contents f @ bs\<rparr>) (lookup_file w n)
       else lookup_file w m)"
  by (auto simp: os_write_def next_io_def split: list.splits io.splits)

lemma lookup_os_write_other [simp]:
  "m \<noteq> n \<Longrightarrow> lookup_file (snd (os_write n bs w)) m = lookup_file w m"
  by (auto simp: os_write_def next_io_def split: list.splits io.splits)

lemma lookup_os_sync [simp]:
  "fst (os_sync n w) \<Longrightarrow> lookup_file (snd (os_sync n w)) m
    = (if m = n then map_option (\<lambda>f. f\<lparr>synced := length (contents f)\<rparr>) (lookup_file w n)
       else lookup_file w m)"
  by (auto simp: os_sync_def next_io_def split: list.splits io.splits option.splits)

lemma lookup_os_sync_other [simp]:
  "m \<noteq> n \<Longrightarrow> lookup_file (snd (os_sync n w)) m = lookup_file w m"
  by (auto simp: os_sync_def next_io_def split: list.splits io.splits option.splits)

lemma lookup_os_close [simp]: "lookup_file (snd (os_close w)) m = lookup_file w m"
  by (simp add: os_close_def split_beta)

lemma lookup_sync_directory [simp]: "lookup_file (snd (sync_directory w)) m = lookup_file w m"
  by (simp add: sync_directory_def split_beta Let_def)

lemma lookup_os_open [simp]: "lookup_file (snd (os_open n w)) m = lookup_file w m"
  by (auto simp: os_open_def next_io_def split: list.splits io.splits)

lemma lookup_os_rename [simp]:
  "fst (os_rename old new w) \<Longrightarrow> lookup_file (snd (os_rename old new w)) m
    = (if m = new then lookup_file w old else if m = old then None else lookup_file w m)"
  by (auto simp: os_rename_def next_io_def split: list.splits io.splits option.splits)

lemma lookup_os_rename_other [simp]:
  "m \<noteq> old \<Longrightarrow> m \<noteq> new \<Longrightarrow> lookup_file (snd (os_rename old new w)) m = lookup_file w m"
  by (auto simp: os_rename_def next_io_def split: list.splits io.splits option.splits)

lemma lookup_os_create_other [simp]:
  "m \<noteq> n \<Longrightarrow> lookup_file (snd (os_create_excl n w)) m = lookup_file w m"
  by (auto simp: os_create_excl_def next_io_def split: list.splits io.splits option.splits)

lemma lookup_os_remove_other [simp]:
  "m \<noteq> n \<Longrightarrow> lookup_file (snd (os_remove n w)) m = lookup_file w m"
  by (auto simp: os_remove_def next_io_def split: list.splits io.splits option.splits)

section \<open>Names\<close>

lemma length_filenames [simp]:
  "length (segmentFilename i) = 32" "length (stateFilename i) = 34"
  "length (tmp_name name) = length name + 4"
  by (simp_all add: segmentFilename_def stateFilename_def tmp_name_def walSegmentPrefix_def
      walSegmentSuffix_def walStateSuffix_def)

lemma names_distinct [simp]:
  "segmentFilename i \<noteq> stateFilename j" "stateFilename j \<noteq> segmentFilename i"
  "segmentFilename i \<noteq> tmp_name (segmentFilename j)" "segmentFilename i \<noteq> tmp_name (stateFilename j)"
  "stateFilename i \<noteq> tmp_name (segmentFilename j)" "stateFilename i \<noteq> tmp_name (stateFilename j)"
  "tmp_name (segmentFilename j) \<noteq> segmentFilename i" "tmp_name (stateFilename j) \<noteq> segmentFilename i"
  "tmp_name (segmentFilename j) \<noteq> stateFilename i" "tmp_name (stateFilename j) \<noteq> stateFilename i"
  "tmp_name (segmentFilename j) \<noteq> tmp_name (stateFilename i)"
  "tmp_name (stateFilename j) \<noteq> tmp_name (segmentFilename i)"
  by (auto dest: arg_cong [of _ _ length])

section \<open>A new segment's files\<close>

lemma createSegment_files:
  assumes "createSegment i now fs = (Inr s, fs')"
  shows "lookup_file fs' (segmentFilename i)
      = Some \<lparr>contents = encodeWALSegmentHeader i now, synced = walSegmentHeaderSize\<rparr>"
    and "lookup_file fs' (stateFilename i)
      = Some \<lparr>contents = encodeWALStateHeader i, synced = walStateHeaderSize\<rparr>"
  using assms unfolding createSegment_def Let_def split_beta
  by (auto simp: wal_sizes split: if_splits)

lemma createSegment_other_files:
  assumes "createSegment i now fs = (r, fs')" "name \<notin> {segmentFilename i, stateFilename i,
      tmp_name (segmentFilename i), tmp_name (stateFilename i)}"
  shows "lookup_file fs' name = lookup_file fs name"
  using assms unfolding createSegment_def Let_def split_beta create_cleanup_def
  by (auto split: if_splits)

section \<open>Files that compaction leaves alone\<close>

lemma remove_segment_files:
  assumes "remove_segment i s w = (b, w')" "name \<noteq> seg_path s" "name \<noteq> seg_statePath s"
  shows "lookup_file (w_world w') name = lookup_file (w_world w) name"
  using assms
  by (auto simp: remove_segment_def Let_def split_beta split: if_splits)

lemma compact_loop_files:
  assumes "compact_loop is removed remaining w = (n, ids, w')" "tables_ok (remaining @ is) w"
    "name = segmentFilename j \<or> name = stateFilename j"
    "\<And>s. w_segments w j = Some s \<Longrightarrow> \<not> removable w j s"
  shows "lookup_file (w_world w') name = lookup_file (w_world w) name"
  using assms
proof (induction "is" arbitrary: removed remaining w)
  case (Cons i "is")
  obtain s where s: "w_segments w i = Some s" "segment_ok w i s"
    using tables_ok_lookup [OF Cons.prems(2), of i] by auto
  show ?case
  proof (cases "removable w i s")
    case False
    then show ?thesis using Cons.IH [of removed "remaining @ [i]" w] Cons.prems s by simp
  next
    case True
    then have "j \<noteq> i" using Cons.prems(4) s(1) by auto
    obtain b w1 where run: "remove_segment i s w = (b, w1)" by fastforce
    have ok: "tables_ok (if b then remaining @ is else remaining @ i # is) w1"
      by (rule remove_tables_ok [OF Cons.prems(2) s(1) True run])
    have same: "lookup_file (w_world w1) name = lookup_file (w_world w) name"
      using remove_segment_files [OF run, of name] Cons.prems(3) s(2) \<open>j \<noteq> i\<close>
      by (auto simp: segment_ok_def)
    have keep: "w_segments w1 j = w_segments w j"
      using remove_segment_cases [OF run] \<open>j \<noteq> i\<close> by (auto split: if_splits)
    have prem: "\<not> removable w1 j c" if "w_segments w1 j = Some c" for c
      using Cons.prems(4) that keep removable_other [OF run] by simp
    show ?thesis
    proof (cases b)
      case True
      then show ?thesis
        using Cons.IH [of "Suc removed" remaining w1] Cons.prems(1,3) s run ok same prem
          \<open>removable w i s\<close> by auto
    next
      case False
      then show ?thesis
        using Cons.IH [of removed "remaining @ [i]" w1] Cons.prems(1,3) s run ok same prem
          \<open>removable w i s\<close> by auto
    qed
  qed
qed simp

lemma compactSegmentsLocked_files:
  assumes "compactSegmentsLocked w = (n, w')" "wal_inv w"
    "name = segmentFilename j \<or> name = stateFilename j"
    "\<And>s. w_segments w j = Some s \<Longrightarrow> \<not> removable w j s"
  shows "lookup_file (w_world w') name = lookup_file (w_world w) name"
proof -
  obtain m ids w1 where l: "compact_loop (w_segmentIDs w) 0 [] w = (m, ids, w1)"
    using prod_cases3 by blast
  have "lookup_file (w_world w1) name = lookup_file (w_world w) name"
    by (rule compact_loop_files [OF l _ assms(3,4)]) (use assms(2) in \<open>simp_all add: wal_inv_def\<close>)
  moreover have "lookup_file (w_world w') name = lookup_file (w_world w1) name"
    using assms(1) l by (auto simp: compactSegmentsLocked_def Let_def split_beta split: if_splits)
  ultimately show ?thesis by simp
qed

section \<open>A group commit and a crash\<close>

definition holds_log :: "world \<Rightarrow> u64 \<Rightarrow> int \<Rightarrow> preparedWALRecord list list \<Rightarrow> bool" where
  "holds_log fs i now gs \<longleftrightarrow> (\<exists>f. lookup_file fs (segmentFilename i) = Some f
     \<and> contents f = segment_image i now gs \<and> synced f = length (contents f))"

lemma holds_log_crash: "holds_log fs i now gs \<Longrightarrow> crash fs fs' \<Longrightarrow> holds_log fs' i now gs"
  using crash_synced unfolding holds_log_def by blast

lemma holds_log_same:
  "holds_log fs i now gs \<Longrightarrow> lookup_file fs' (segmentFilename i) = lookup_file fs (segmentFilename i)
    \<Longrightarrow> holds_log fs' i now gs"
  by (simp add: holds_log_def)

text \<open>What \<open>recoverSegment\<close> finds in the segment \<open>s\<close>: the groups \<open>gs\<close>, whatever it cuts off.\<close>

definition recovers_groups :: "codec \<Rightarrow> walConfig \<Rightarrow> walSegment \<Rightarrow> (u64 \<rightharpoonup> walStateEntry)
    \<Rightarrow> recover_tables \<Rightarrow> world \<Rightarrow> preparedWALRecord list list \<Rightarrow> bool" where
  "recovers_groups js cfg s states t fs gs \<longleftrightarrow> (\<exists>n len fs'. recoverSegment js cfg s states t True fs
     = (Inr (n, len, recovered_tables (seg_id s) states gs t), fs'))"

lemma holds_log_recovers:
  assumes "holds_log fs i now gs" "good_log js cfg t gs" "script fs = []"
    "seg_path s = segmentFilename i" "seg_id s = i"
  shows "recovers_groups js cfg s states t fs gs"
proof -
  obtain f where f: "lookup_file fs (segmentFilename i) = Some f" "contents f = segment_image i now gs"
    using assms(1) by (auto simp: holds_log_def)
  have "decodeWALSegmentHeader (take walSegmentHeaderSize (contents f)) i = Inr ()"
    using recover_image_header [of i now gs "[]"] f(2) by simp
  then show ?thesis
    using f assms(3-5) scan_image [OF assms(2), of i states i now]
    by (simp add: recovers_groups_def recoverSegment_def os_read_file_def)
qed

lemma rotateLocked_world:
  assumes "rotateLocked w = (e, w')"
  obtains r fs where "createSegment (w_nextSegmentID w) (w_now w) (w_world w) = (r, fs)"
    "\<And>name. lookup_file (w_world w') name = lookup_file fs name"
proof -
  obtain r fs where c: "createSegment (w_nextSegmentID w) (w_now w) (w_world w) = (r, fs)" by fastforce
  have l: "lift_io (createSegment (w_nextSegmentID w) (w_now w)) w = (r, w\<lparr>w_world := fs\<rparr>)"
    by (simp add: lift_io_def c)
  have "lookup_file (w_world w') name = lookup_file fs name" for name
    using assms l
    by (auto simp: rotateLocked_def Let_def split_beta split: sum.splits option.splits if_splits)
  then show ?thesis using that c by blast
qed

text \<open>The segment a group goes to holds the groups that were in it before.\<close>

lemma crash_after_commit:
  assumes cur: "w_segments w (w_current w) = Some cur" and ok: "segment_ok w (w_current w) cur"
    and log: "holds_log (w_world w) (w_current w) now gs"
    and good: "good_log js cfg t (gs @ [ps])"
    and run: "write_group ps (encode_group ps) w = (err, w')"
    and boom: "crash (w_world w') fs" "script fs = []"
  shows "\<exists>gs'. (gs' = gs \<or> gs' = gs @ [ps]) \<and> (err = None \<longrightarrow> gs' = gs @ [ps])
    \<and> recovers_groups js cfg cur states t fs gs'"
proof -
  have p: "seg_path cur = segmentFilename (w_current w)" "seg_id cur = w_current w"
    using ok by (simp_all add: segment_ok_def)
  obtain f where f: "lookup_file (w_world w) (seg_path cur) = Some f"
    "contents f = segment_image (seg_id cur) now gs" "synced f = length (contents f)"
    using log p by (auto simp: holds_log_def)
  show ?thesis
    using crash_after_write_group [OF cur f good run boom, of states]
    unfolding recovers_groups_def by blast
qed

lemma recovers_groups_cong:
  "seg_id s = seg_id s' \<Longrightarrow> seg_path s = seg_path s' \<Longrightarrow>
    recovers_groups js cfg s states t fs gs = recovers_groups js cfg s' states t fs gs"
proof -
  assume id: "seg_id s = seg_id s'" and path: "seg_path s = seg_path s'"
  have "truncateUncommittedTail s = truncateUncommittedTail s'"
    by (intro ext) (simp only: truncateUncommittedTail_def path)
  then have "recoverSegment js cfg s states t True fs = recoverSegment js cfg s' states t True fs"
    by (simp only: recoverSegment_def id path)
  then show ?thesis by (simp add: recovers_groups_def id)
qed

lemma write_group_other_file:
  assumes "write_group ps encoded w = (err, w')" "w_segments w (w_current w) = Some cur"
    "name \<noteq> seg_path cur"
  shows "lookup_file (w_world w') name = lookup_file (w_world w) name"
  using assms
  by (auto simp: write_group_def Let_def split_beta split: if_splits)

definition unsettled :: "walSegment \<Rightarrow> bool" where
  "unsettled s \<longleftrightarrow> 0 < seg_activeRecords s \<or> 0 < seg_quarantinedRecords s"

text \<open>The four ways a group commit goes.\<close>

lemma commitGroup_cases:
  assumes "commitGroup ps w = (err, w')"
  obtains (refused) ev where "err \<noteq> None" "w' = w\<lparr>w_events := ev\<rparr>"
    | (plain) "write_group ps (encode_group ps) w = (err, w')"
    | (failed) e w1 where "rotateLocked w = (Some e, w1)" "err = Some e" "w' = w1\<lparr>w_fault := Some e\<rparr>"
    | (rotated) w1 n w2 where "rotateLocked w = (None, w1)" "compactSegmentsLocked w1 = (n, w2)"
        "write_group ps (encode_group ps) w2 = (err, w')"
proof (cases "w_fault w")
  case (Some e)
  then have "err = Some e" "w' = w\<lparr>w_events := w_events w\<rparr>"
    using assms(1) by (simp_all add: commitGroup_def)
  then show ?thesis using refused by blast
next
  case None
  show ?thesis
  proof (cases "w_segments w (w_current w)")
    case nil: None
    then have "err = Some NilDereference" "w' = w\<lparr>w_events := w_events w\<rparr>"
      using assms(1) None by (simp_all add: commitGroup_def)
    then show ?thesis using refused by blast
  next
    case (Some cur)
    let ?enc = "encode_group ps"
    show ?thesis
    proof (cases "projected_bytes (length ps) (length ?enc) cur w > cfg_MaxBytes (w_config w)")
      case True
      then have "err = Some ErrFull" "w' = w\<lparr>w_events := w_events w @ [RecordWALDiskFullRejection (length ps)]\<rparr>"
        using assms None Some by (simp_all add: commitGroup_def observe_def)
      then show ?thesis using refused by blast
    next
      case fits: False
      show ?thesis
      proof (cases "needs_rotation (length ?enc) cur w")
        case False
        then show ?thesis using assms None Some fits plain by (simp add: commitGroup_def)
      next
        case True
        obtain e w1 where r: "rotateLocked w = (e, w1)" by fastforce
        obtain n w2 where c: "compactSegmentsLocked w1 = (n, w2)" by fastforce
        show ?thesis
        proof (cases e)
          case (Some x)
          have "commitGroup ps w = (Some x, w1\<lparr>w_fault := Some x\<rparr>)"
            using \<open>w_segments w (w_current w) = Some cur\<close> None fits True r Some by (simp add: commitGroup_def)
          then show ?thesis using failed [of x w1] r Some assms(1) by simp
        next
          case None2: None
          have "write_group ps ?enc w2 = (err, w')"
            using assms None Some fits True r c None2 by (simp add: commitGroup_def)
          then show ?thesis using rotated r c None2 by blast
        qed
      qed
    qed
  qed
qed

text \<open>Whatever calls fail during a group commit, a crash after it leaves in the segment the
  log then writes to the groups committed before, with the new group all there or not at
  all, and all there when the commit reported success; and a segment the log moved on from
  keeps its groups as long as it has unsettled records.\<close>

lemma crash_after_commitGroup:
  assumes inv: "wal_inv w" and next_id: "w_nextSegmentID w \<noteq> - 1"
    and cur: "w_segments w (w_current w) = Some cur"
    and log: "holds_log (w_world w) (w_current w) now gs"
    and good: "good_log js cfg t (gs @ [ps])"
    and run: "commitGroup ps w = (err, w')" and boom: "crash (w_world w') fs" "script fs = []"
  shows "\<exists>base gs'.
      base = (if w_current w' = w_current w then gs else [])
    \<and> (gs' = base \<or> gs' = base @ [ps]) \<and> (err = None \<longrightarrow> gs' = base @ [ps])
    \<and> (\<forall>s. seg_id s = w_current w' \<and> seg_path s = segmentFilename (w_current w') \<longrightarrow>
          recovers_groups js cfg s states t fs gs')
    \<and> (w_current w' \<noteq> w_current w \<and> unsettled cur \<longrightarrow> holds_log fs (w_current w) now gs)"
proof -
  have ok: "segment_ok w (w_current w) cur"
    using inv cur unfolding wal_inv_def tables_ok_def by blast
  have t: "tables_ok (w_segmentIDs w) w" using inv by (simp add: wal_inv_def)
  have good0: "good_log js cfg t gs" and good1: "good_log js cfg t ([] @ [ps])"
    using good by (auto simp: good_log_def)
  have kept: ?thesis if "err \<noteq> None" "w_current w' = w_current w"
    "lookup_file (w_world w') (segmentFilename (w_current w)) = lookup_file (w_world w) (segmentFilename (w_current w))"
  proof -
    have "holds_log fs (w_current w) now gs"
      using holds_log_crash [OF holds_log_same [OF log that(3)] boom(1)] .
    then show ?thesis
      using that(1,2) holds_log_recovers [OF _ good0 boom(2)] by auto
  qed
  show ?thesis
    using run
  proof (cases rule: commitGroup_cases)
    case (refused ev)
    then show ?thesis using kept by simp
  next
    case plain
    obtain gs' where gs': "gs' = gs \<or> gs' = gs @ [ps]" "err = None \<longrightarrow> gs' = gs @ [ps]"
      "recovers_groups js cfg cur states t fs gs'"
      using crash_after_commit [OF cur ok log good plain boom] by blast
    have c: "w_current w' = w_current w" using write_group_config(2) [OF plain] .
    have "recovers_groups js cfg s states t fs gs'"
      if "seg_id s = w_current w" "seg_path s = segmentFilename (w_current w)" for s
      using gs'(3) recovers_groups_cong [of s cur] that ok by (simp add: segment_ok_def)
    then show ?thesis using gs'(1,2) c by auto
  next
    case (failed e w1)
    obtain fs0 where w1: "w1 = w\<lparr>w_world := fs0\<rparr>" using rotateLocked_Some [OF failed(1)] .
    obtain r fs1 where c: "createSegment (w_nextSegmentID w) (w_now w) (w_world w) = (r, fs1)"
      "\<And>name. lookup_file (w_world w1) name = lookup_file fs1 name"
      using rotateLocked_world [OF failed(1)] by metis
    have "w_current w \<noteq> w_nextSegmentID w" using ok by (auto simp: segment_ok_def)
    then have "lookup_file fs1 (segmentFilename (w_current w)) = lookup_file (w_world w) (segmentFilename (w_current w))"
      using createSegment_other_files [OF c(1), of "segmentFilename (w_current w)"] by simp
    then show ?thesis using kept failed c(2) w1 by simp
  next
    case (rotated w1 n w2)
    note r = rotate_segments [OF rotated(1) t cur]
    let ?n = "w_nextSegmentID w"
    have inv1: "wal_inv w1"
      using rotate_tables_ok [OF rotated(1) t next_id] inv index_ok_cong [of w1 w] r by (simp add: wal_inv_def)
    obtain fs1 where c: "createSegment ?n (w_now w) (w_world w) = (Inr (fresh_segment ?n), fs1)"
      "\<And>name. lookup_file (w_world w1) name = lookup_file fs1 name"
    proof -
      obtain r fs1 where c: "createSegment ?n (w_now w) (w_world w) = (r, fs1)"
        "\<And>name. lookup_file (w_world w1) name = lookup_file fs1 name"
        using rotateLocked_world [OF rotated(1)] by metis
      moreover have "r = Inr (fresh_segment ?n)"
        using rotateLocked_None [OF rotated(1)] c(1) by (metis prod.inject)
      ultimately show ?thesis using that by blast
    qed
    have ne: "w_current w \<noteq> ?n" using r(12) cur by auto
    note rc = rotate_compact_ok [OF rotated(1,2) inv cur next_id]
    have w2c: "w_current w2 = ?n"
      using compactSegmentsLocked_frame(5) [of w1] rotated(2) r(5) by simp
    have "holds_log fs1 ?n (w_now w) []"
      using createSegment_files(1) [OF c(1)] by (simp add: holds_log_def segment_image_def wal_sizes)
    then have "holds_log (w_world w1) ?n (w_now w) []" by (rule holds_log_same) (simp add: c(2))
    then have log2: "holds_log (w_world w2) (w_current w2) (w_now w) []"
      unfolding w2c
      by (rule holds_log_same)
        (rule compactSegmentsLocked_files [OF rotated(2) inv1, of _ ?n]; simp add: r(5) removable_def)
    have cur2: "w_segments w2 (w_current w2) = Some (fresh_segment ?n)" using rc(6) .
    then have ok2: "segment_ok w2 (w_current w2) (fresh_segment ?n)"
      using rc(1) unfolding wal_inv_def tables_ok_def by blast
    obtain gs' where gs': "gs' = [] \<or> gs' = [] @ [ps]" "err = None \<longrightarrow> gs' = [] @ [ps]"
      "recovers_groups js cfg (fresh_segment ?n) states t fs gs'"
      using crash_after_commit [OF cur2 ok2 log2 good1 rotated(3) boom] by blast
    have w'c: "w_current w' = ?n" using write_group_config(2) [OF rotated(3)] w2c by simp
    have rec: "recovers_groups js cfg s states t fs gs'"
      if "seg_id s = ?n" "seg_path s = segmentFilename ?n" for s
      using gs'(3) recovers_groups_cong [of s "fresh_segment ?n"] that by (simp add: fresh_segment_def)
    have old: "holds_log fs (w_current w) now gs" if u: "unsettled cur"
    proof -
      have "holds_log fs1 (w_current w) now gs"
        by (rule holds_log_same [OF log]) (use createSegment_other_files [OF c(1)] ne in simp)
      then have "holds_log (w_world w1) (w_current w) now gs"
        by (rule holds_log_same) (simp add: c(2))
      then have "holds_log (w_world w2) (w_current w) now gs"
        by (rule holds_log_same)
          (rule compactSegmentsLocked_files [OF rotated(2) inv1, of _ "w_current w"];
            use u ne in \<open>auto simp: r(1,5) removable_def unsettled_def\<close>)
      then have "holds_log (w_world w') (w_current w) now gs"
        by (rule holds_log_same)
          (rule write_group_other_file [OF rotated(3) cur2], use ne in \<open>simp add: fresh_segment_def\<close>)
      then show ?thesis by (rule holds_log_crash [OF _ boom(1)])
    qed
    show ?thesis using gs'(1,2) rec old w'c ne by auto
  qed
qed

end
