(* ===== verification/Wal_Reads.thy ===== *)
theory Wal_Reads
  imports Wal_Checkpoint Wal_Durability
begin

text \<open>
  Reading: \<open>NextAfter\<close> finds the least active record above an identifier, and \<open>recoverState\<close>
  reads back the last entry of each record from a checkpoint file, cutting off a torn one.
\<close>

section \<open>NextAfter\<close>

lemma readRecordLocked_result:
  assumes "readRecordLocked js i md w = (Some r, w')"
  shows "RecordID r = i \<and> Attempts r = md_attempts md"
  using assms
  by (auto simp: readRecordLocked_def Let_def decodeWALRecord_def
      split: option.splits prod.splits bool.splits sum.splits if_splits)

lemma readRecordLocked_io: "only_io w (snd (readRecordLocked js i md w))"
  by (simp add: readRecordLocked_def Let_def split_beta only_io_def split: option.split bool.split sum.split)

text \<open>The outcome of the loop: what is found is the first active identifier of the list.\<close>

definition found_id :: "u64 + spool_record \<Rightarrow> u64" where
  "found_id x = (case x of Inl i \<Rightarrow> i | Inr r \<Rightarrow> RecordID r)"

lemma next_active_spec:
  assumes "next_active js is w = ((found, err), w')" "sorted_wrt (<) is"
  shows "case found of
      None \<Rightarrow> err = None \<and> w' = w \<and> (\<forall>j\<in>set is. w_active w j = None)
    | Some x \<Rightarrow> found_id x \<in> set is \<and> w_active w (found_id x) \<noteq> None
        \<and> (\<forall>j\<in>set is. w_active w j \<noteq> None \<longrightarrow> found_id x \<le> j)
        \<and> (case x of Inl _ \<Rightarrow> err = Some (ErrCorruptWAL RecordUnreadable) \<and> w_fault w' = err
           | Inr r \<Rightarrow> err = None \<and> w_fault w' = w_fault w
               \<and> (\<exists>md. w_active w (RecordID r) = Some md \<and> Attempts r = md_attempts md))"
  using assms
proof (induction "is")
  case (Cons i "is")
  show ?case
  proof (cases "w_active w i")
    case None
    then show ?thesis using Cons by (auto split: option.splits)
  next
    case (Some md)
    obtain q w1 where q: "readRecordLocked js i md w = (q, w1)" by fastforce
    then have f: "w_fault w1 = w_fault w"
      using readRecordLocked_io [of w js i md] by (simp add: only_io_def)
    have least: "\<forall>j\<in>set (i # is). i \<le> j" using Cons.prems(2) by auto
    show ?thesis
    proof (cases q)
      case None
      then show ?thesis using Cons.prems(1) Some q least by (auto simp: Let_def found_id_def)
    next
      case (Some r)
      then have "RecordID r = i \<and> Attempts r = md_attempts md" using readRecordLocked_result q by blast
      then show ?thesis
        using Cons.prems(1) Some \<open>w_active w i = Some md\<close> q least f by (auto simp: found_id_def)
    qed
  qed
qed simp

lemma index_after:
  fixes xs :: "u64 list"
  assumes "sorted_wrt (<) xs"
  shows "set (drop (sort_search (length xs) (\<lambda>i. xs ! i > after)) xs) = {j \<in> set xs. j > after}"
proof -
  let ?n = "sort_search (length xs) (\<lambda>i. xs ! i > after)"
  have mono: "xs ! b > after" if "a \<le> b" "b < length xs" "xs ! a > after" for a b
  proof (cases "a = b")
    case False
    then have "xs ! a < xs ! b" using assms that(1,2) by (simp add: sorted_wrt_nth_less)
    then show ?thesis using that(3) by simp
  qed (use that in simp)
  have s: "\<not> xs ! k > after" if "k < ?n" for k
    using that by (rule sort_search_spec(2) [rotated]) (use mono in blast)
  have s3: "xs ! ?n > after" if "?n < length xs"
    using that by (rule sort_search_spec(3) [rotated]) (use mono in blast)
  have iff: "xs ! k > after \<longleftrightarrow> ?n \<le> k" if "k < length xs" for k
  proof
    assume "xs ! k > after"
    then show "?n \<le> k" using s [of k] by (meson leI)
  next
    assume "?n \<le> k"
    then show "xs ! k > after" using s3 mono [OF \<open>?n \<le> k\<close> that] that by simp
  qed
  show ?thesis
  proof (intro set_eqI iffI)
    fix j
    assume "j \<in> set (drop ?n xs)"
    then obtain k where "k < length xs - ?n" "j = xs ! (?n + k)" by (auto simp: in_set_conv_nth)
    then show "j \<in> {j \<in> set xs. j > after}" using iff [of "?n + k"] by simp
  next
    fix j
    assume "j \<in> {j \<in> set xs. j > after}"
    then obtain k where k: "k < length xs" "j = xs ! k" "?n \<le> k" using iff by (auto simp: in_set_conv_nth)
    then have "drop ?n xs ! (k - ?n) = j" "k - ?n < length (drop ?n xs)" by simp_all
    then show "j \<in> set (drop ?n xs)" by (metis nth_mem)
  qed
qed

text \<open>Under the invariant the index covers the active records, so the result is the least
  active identifier above \<open>after\<close>.\<close>

lemma NextAfter_spec:
  assumes "NextAfter js after w = ((found, err), w')" "index_ok w" "w_fault w = None"
  shows "case found of
      None \<Rightarrow> err = None \<and> w' = w \<and> (\<forall>j. after < j \<longrightarrow> w_active w j = None)
    | Some x \<Rightarrow> after < found_id x \<and> w_active w (found_id x) \<noteq> None
        \<and> (\<forall>j. after < j \<longrightarrow> w_active w j \<noteq> None \<longrightarrow> found_id x \<le> j)
        \<and> (case x of Inl _ \<Rightarrow> err = Some (ErrCorruptWAL RecordUnreadable) \<and> w_fault w' = err
           | Inr r \<Rightarrow> err = None \<and> w_fault w' = None
               \<and> (\<exists>md. w_active w (RecordID r) = Some md \<and> Attempts r = md_attempts md))"
proof -
  let ?tail = "drop (sort_search (length (w_ids w)) (\<lambda>i. w_ids w ! i > after)) (w_ids w)"
  have sorted: "sorted_wrt (<) (w_ids w)" and cover: "\<And>j. w_active w j \<noteq> None \<Longrightarrow> j \<in> set (w_ids w)"
    using assms(2) by (auto simp: index_ok_def)
  have tail: "set ?tail = {j \<in> set (w_ids w). j > after}" by (rule index_after [OF sorted])
  have "sorted_wrt (<) ?tail" using sorted by (simp add: sorted_wrt_drop)
  moreover have run: "next_active js ?tail w = ((found, err), w')"
    using assms(1,3) by (simp add: NextAfter_def Let_def)
  ultimately have spec: "case found of
      None \<Rightarrow> err = None \<and> w' = w \<and> (\<forall>j\<in>set ?tail. w_active w j = None)
    | Some x \<Rightarrow> found_id x \<in> set ?tail \<and> w_active w (found_id x) \<noteq> None
        \<and> (\<forall>j\<in>set ?tail. w_active w j \<noteq> None \<longrightarrow> found_id x \<le> j)
        \<and> (case x of Inl _ \<Rightarrow> err = Some (ErrCorruptWAL RecordUnreadable) \<and> w_fault w' = err
           | Inr r \<Rightarrow> err = None \<and> w_fault w' = w_fault w
               \<and> (\<exists>md. w_active w (RecordID r) = Some md \<and> Attempts r = md_attempts md))"
    by (intro next_active_spec)
  show ?thesis
  proof (cases found)
    case None
    then show ?thesis using spec cover tail by auto
  next
    case (Some x)
    then show ?thesis using spec cover tail assms(3) by (auto split: sum.splits)
  qed
qed

section \<open>Checkpoint files\<close>

text \<open>The states a run of entries stands for: the last entry of each record.\<close>

definition last_states :: "walStateEntry list \<Rightarrow> (u64 \<rightharpoonup> walStateEntry)" where
  "last_states es = map_of (rev (List.map (\<lambda>e. (se_id e, e)) es))"

lemma last_states_snoc: "last_states (es @ [e]) = (last_states es)(se_id e \<mapsto> e)"
  by (auto simp: last_states_def fun_eq_iff)

lemma last_states_Cons: "last_states (e # es) = [se_id e \<mapsto> e] ++ last_states es"
  by (simp add: last_states_def)

lemma decode_entries_spec:
  "decode_entries (length es) (encode_entries es @ tail) m = Inr (m ++ last_states es)"
proof (induction es arbitrary: m)
  case Nil
  then show ?case by (simp add: last_states_def)
next
  case (Cons e es)
  have "take walStateEntrySize (encode_entries (e # es) @ tail) = encodeWALStateEntry e"
    "drop walStateEntrySize (encode_entries (e # es) @ tail) = encode_entries es @ tail"
    by (simp_all add: encode_entries_def walStateEntrySize_def)
  then have "decode_entries (length (e # es)) (encode_entries (e # es) @ tail) m
      = decode_entries (length es) (encode_entries es @ tail) (m(se_id e \<mapsto> e))"
    by (simp only: list.size(4) add_Suc_right add_0_right decode_entries.simps codec_simps sum.case)
  also have "\<dots> = Inr (m(se_id e \<mapsto> e) ++ last_states es)" by (rule Cons.IH)
  also have "m(se_id e \<mapsto> e) ++ last_states es = m ++ last_states (e # es)"
    by (simp add: last_states_Cons map_add_assoc)
  finally show ?case .
qed

definition state_image :: "u64 \<Rightarrow> walStateEntry list \<Rightarrow> bytes" where
  "state_image i es = encodeWALStateHeader i @ encode_entries es"

lemma recover_state_image:
  assumes "length tail < walStateEntrySize"
  shows "recover_state_data i (state_image i es @ tail)
    = Inr (last_states es, walStateHeaderSize + length es * walStateEntrySize)"
proof -
  have n: "(length (state_image i es @ tail) - walStateHeaderSize) div walStateEntrySize = length es"
    using assms by (simp add: state_image_def wal_sizes)
  have h: "take walStateHeaderSize (state_image i es @ tail) = encodeWALStateHeader i"
    "drop walStateHeaderSize (state_image i es @ tail) = encode_entries es @ tail"
    "\<not> length (state_image i es @ tail) < walStateHeaderSize"
    by (simp_all add: state_image_def walStateHeaderSize_def)
  have d: "decode_entries (length es) (encode_entries es @ tail) Map.empty = Inr (last_states es)"
    by (simp add: decode_entries_spec)
  show ?thesis unfolding recover_state_data_def by (simp only: h n if_False codec_simps sum.case Let_def d)
qed

text \<open>A checkpoint file that ends in the middle of an entry is cut back to the last whole one.\<close>

lemma recoverState_image:
  assumes "lookup_file fs (seg_statePath s) = Some f" "contents f = state_image (seg_id s) es @ tail"
    and "length tail < walStateEntrySize" "script fs = []"
  shows "\<exists>fs' f'. recoverState s fs
      = (Inr (last_states es, length (state_image (seg_id s) es), length tail), fs')
    \<and> lookup_file fs' (seg_statePath s) = Some f' \<and> contents f' = state_image (seg_id s) es"
proof -
  have len: "length (state_image (seg_id s) es) = walStateHeaderSize + length es * walStateEntrySize"
    by (simp add: state_image_def wal_sizes)
  have read: "os_read_file (seg_statePath s) fs = (ReadOk (contents f), fs)"
    using assms(1,4) by (simp add: os_read_file_def)
  note r = recover_state_image [OF assms(3), of "seg_id s" es]
  show ?thesis
  proof (cases "tail = []")
    case True
    then show ?thesis
      using assms(1,2) read r len by (simp add: recoverState_def)
  next
    case False
    then show ?thesis
      using assms(1,2,4) read r len
      by (simp add: recoverState_def Let_def os_open_def os_truncate_def os_sync_def os_close_def)
  qed
qed

end
