(* ===== verification/Wal_System.thy ===== *)
theory Wal_System
  imports Wal_Reads "HOL-Library.Multiset"
begin

text \<open>
  The log as a system of interleaved steps: the writer keeps the invariant over a whole batch
  of requests, every request is answered exactly once, and closing leaves none unanswered.
\<close>

section \<open>Replies\<close>

definition tags_in :: "walAppendRequest list \<Rightarrow> nat multiset" where
  "tags_in rqs = mset (List.map rq_tag rqs)"

definition reply_tags :: "replies \<Rightarrow> nat multiset" where
  "reply_tags out = mset (List.map fst out)"

lemma tags_in_simps [simp]:
  "tags_in [] = {#}" "tags_in (rq # rqs) = add_mset (rq_tag rq) (tags_in rqs)"
  "tags_in (rqs @ rqs') = tags_in rqs + tags_in rqs'"
  by (simp_all add: tags_in_def)

lemma reply_tags_simps [simp]:
  "reply_tags [] = {#}" "reply_tags (x # out) = add_mset (fst x) (reply_tags out)"
  "reply_tags (out @ out') = reply_tags out + reply_tags out'"
  by (simp_all add: reply_tags_def)

lemma reply_tags_map [simp]: "reply_tags (List.map (\<lambda>q. (rq_tag q, r q)) rqs) = tags_in rqs"
  by (induction rqs) simp_all

lemma flush_group_tags:
  assumes "flush_group prepared w = (err, out, w')"
  shows "reply_tags out = mset (List.map pr_tag prepared)"
proof -
  have "List.map fst out = List.map pr_tag prepared"
    using assms by (auto simp: flush_group_def comp_def split: if_splits prod.splits)
  then show ?thesis by (simp only: reply_tags_def)
qed

lemma process_loop_tags:
  "process_loop js rqs prepared n w = (out, w') \<Longrightarrow>
    reply_tags out = mset (List.map pr_tag prepared) + tags_in rqs"
proof (induction js rqs prepared n w arbitrary: out w' rule: process_loop.induct)
  case (1 js prepared n w)
  then show ?case by (auto dest: flush_group_tags split: prod.splits)
next
  case (2 js rq rqs prepared n w)
  let ?i = "w_nextID w"
  let ?w1 = "w\<lparr>w_nextID := w_nextID w + 1\<rparr>"
  let ?r = "\<lparr>RecordID = ?i, Attempts = 0, EnqueuedAt = rq_now rq, Envelope = rq_envelope rq\<rparr>"
  show ?case
  proof (cases "encodeWALDataFrame js ?r")
    case (Inl e)
    obtain o2 w2 where l: "process_loop js rqs prepared n ?w1 = (o2, w2)" by fastforce
    have "reply_tags o2 = mset (List.map pr_tag prepared) + tags_in rqs"
      using "2.IH"(1) [OF refl refl refl Inl l] .
    then show ?thesis using "2.prems" Inl l by (auto simp: Let_def)
  next
    case (Inr frame)
    let ?p = "\<lparr>pr_tag = rq_tag rq, pr_record = ?r, pr_frame = frame\<rparr>"
    let ?full = "prepared \<noteq> [] \<and> n + int (length frame) + int (walFrameHeaderSize + walCommitPayloadSize)
        > cfg_SegmentBytes (w_config ?w1)"
    show ?thesis
    proof (cases ?full)
      case False
      obtain o2 w2 where l: "process_loop js rqs (prepared @ [?p]) (n + int (length frame)) ?w1 = (o2, w2)"
        by fastforce
      have "reply_tags o2 = mset (List.map pr_tag (prepared @ [?p])) + tags_in rqs"
        using "2.IH"(3) [OF refl refl refl Inr refl refl False l] .
      then show ?thesis using "2.prems" Inr False l by (auto simp: Let_def)
    next
      case True
      obtain err o1 w2 where f: "flush_group prepared ?w1 = (err, o1, w2)" by (metis surj_pair)
      note t = flush_group_tags [OF f]
      show ?thesis
      proof (cases err)
        case (Some e)
        then show ?thesis using "2.prems" Inr True f t by (auto simp: Let_def)
      next
        case None
        obtain o2 w3 where l: "process_loop js rqs [?p] (int (length frame)) w2 = (o2, w3)" by fastforce
        have "reply_tags o2 = mset (List.map pr_tag [?p]) + tags_in rqs"
          using "2.IH"(2) [OF refl refl refl Inr refl refl True f [symmetric] None refl l] .
        then show ?thesis using "2.prems" Inr True f t None l by (auto simp: Let_def)
      qed
    qed
  qed
qed

section \<open>What the operations leave of queue and gate\<close>

definition same_queue :: "WAL \<Rightarrow> WAL \<Rightarrow> bool" where
  "same_queue w w' \<longleftrightarrow> w_appendQueue w' = w_appendQueue w \<and> w_closed w' = w_closed w
     \<and> w_config w' = w_config w"

lemma same_queue_refl [simp]: "same_queue w w" by (simp add: same_queue_def)

lemma same_queue_trans: "same_queue w w1 \<Longrightarrow> same_queue w1 w2 \<Longrightarrow> same_queue w w2"
  by (simp add: same_queue_def)

lemma same_queue_compact: "same_queue w (snd (compactSegmentsLocked w))" "same_queue w (compactSegments w)"
  by (simp_all add: same_queue_def)

lemma same_queue_rotate: "same_queue w (snd (rotateLocked w))"
  by (simp add: same_queue_def rotateLocked_def Let_def split_beta split: sum.split option.split)

lemma same_queue_write_group: "write_group ps enc w = (err, w') \<Longrightarrow> same_queue w w'"
  using write_group_config by (simp add: same_queue_def)

lemma same_queue_commitGroup:
  assumes "commitGroup ps w = (err, w')"
  shows "same_queue w w'"
  using assms
proof (cases rule: commitGroup_cases)
  case (refused ev)
  then show ?thesis by (simp add: same_queue_def)
next
  case plain
  then show ?thesis by (rule same_queue_write_group)
next
  case (failed e w1)
  then show ?thesis using same_queue_rotate [of w] by (simp add: same_queue_def)
next
  case (rotated w1 n w2)
  have "same_queue w w1" using same_queue_rotate [of w] rotated(1) by simp
  moreover have "same_queue w1 w2" using same_queue_compact(1) [of w1] rotated(2) by simp
  ultimately show ?thesis using same_queue_trans same_queue_write_group [OF rotated(3)] by blast
qed

lemma same_queue_flush: "flush_group ps w = (err, out, w') \<Longrightarrow> same_queue w w'"
  by (auto simp: flush_group_def dest: same_queue_commitGroup split: if_splits prod.splits)

text \<open>A step of the loop over a batch, as the two things it may do.\<close>

lemma process_loop_step:
  fixes js rq w
  defines "r \<equiv> \<lparr>RecordID = w_nextID w, Attempts = 0, EnqueuedAt = rq_now rq, Envelope = rq_envelope rq\<rparr>"
    and "w1 \<equiv> w\<lparr>w_nextID := w_nextID w + 1\<rparr>"
  assumes "process_loop js (rq # rqs) prepared n w = (out, w')"
  obtains (unencodable) e out' where "encodeWALDataFrame js r = Inl e"
        "process_loop js rqs prepared n w1 = (out', w')"
    | (collected) frame m where "encodeWALDataFrame js r = Inr frame"
        "process_loop js rqs (prepared @ [\<lparr>pr_tag = rq_tag rq, pr_record = r, pr_frame = frame\<rparr>]) m w1 = (out, w')"
    | (stopped) e out' where "flush_group prepared w1 = (Some e, out', w')"
    | (flushed) frame out' w2 m out2 where "encodeWALDataFrame js r = Inr frame"
        "flush_group prepared w1 = (None, out', w2)" "prepared \<noteq> []"
        "process_loop js rqs [\<lparr>pr_tag = rq_tag rq, pr_record = r, pr_frame = frame\<rparr>] m w2 = (out2, w')"
proof (cases "encodeWALDataFrame js r")
  case (Inl e)
  obtain o2 w2 where l: "process_loop js rqs prepared n w1 = (o2, w2)" by fastforce
  have "w2 = w'" using assms(3) Inl l unfolding r_def w1_def by simp
  then show ?thesis using unencodable Inl l by simp
next
  case (Inr frame)
  let ?p = "\<lparr>pr_tag = rq_tag rq, pr_record = r, pr_frame = frame\<rparr>"
  let ?full = "prepared \<noteq> [] \<and> n + int (length frame) + int (walFrameHeaderSize + walCommitPayloadSize)
      > cfg_SegmentBytes (w_config w1)"
  obtain err o1 w2 where f: "flush_group prepared w1 = (err, o1, w2)" by (metis surj_pair)
  obtain o2 w3 where l: "process_loop js rqs [?p] (int (length frame)) w2 = (o2, w3)" by fastforce
  have run: "(if ?full then case err of
        None \<Rightarrow> (o1 @ o2, w3)
      | Some e \<Rightarrow> (o1 @ List.map (\<lambda>q. (rq_tag q, \<lparr>ar_record = None, ar_err = Some e\<rparr>)) (rq # rqs), w2)
    else process_loop js rqs (prepared @ [?p]) (n + int (length frame)) w1) = (out, w')"
    using assms(3) Inr f l unfolding r_def w1_def by (cases err) (auto simp: Let_def split: if_splits)
  show ?thesis
  proof (cases ?full)
    case False
    show ?thesis by (rule collected [OF Inr run [unfolded if_not_P [OF False]]])
  next
    case True
    show ?thesis
    proof (cases err)
      case None
      then have "w3 = w'" using run [unfolded if_P [OF True]] by simp
      then show ?thesis using flushed Inr f None True l by simp
    next
      case (Some e)
      then have "w2 = w'" using run [unfolded if_P [OF True]] by simp
      then show ?thesis using stopped f Some by simp
    qed
  qed
qed

lemma same_queue_process_loop:
  "process_loop js rqs prepared n w = (out, w') \<Longrightarrow> same_queue w w'"
proof (induction rqs arbitrary: prepared n w out)
  case Nil
  then show ?case by (auto dest: same_queue_flush split: prod.splits)
next
  case (Cons rq rqs)
  have s1: "same_queue w (w\<lparr>w_nextID := w_nextID w + 1\<rparr>)" by (simp add: same_queue_def)
  show ?case
    using Cons.prems
  proof (cases rule: process_loop_step)
    case (unencodable e out')
    then show ?thesis using Cons.IH s1 same_queue_trans by blast
  next
    case (collected frame m)
    then show ?thesis using Cons.IH s1 same_queue_trans by blast
  next
    case (stopped e out')
    then show ?thesis using same_queue_flush s1 same_queue_trans by blast
  next
    case (flushed frame out' w2 m out2)
    then have "same_queue (w\<lparr>w_nextID := w_nextID w + 1\<rparr>) w2" "same_queue w2 w'"
      using Cons.IH same_queue_flush by blast+
    then show ?thesis using s1 same_queue_trans by blast
  qed
qed

section \<open>Answering every request exactly once\<close>

lemma same_queue_apply_batches: "same_queue w (apply_batches bs w)"
proof -
  have e: "same_queue w (foldl (\<lambda>w e. apply_entry sid e w) w es)" for sid es w
    by (induction es arbitrary: w) (auto simp: same_queue_def)
  have b: "same_queue w (apply_batch sid es w)" for sid es w
    using e by (simp add: apply_batch_def Let_def same_queue_def)
  show ?thesis
    by (induction bs arbitrary: w) (auto simp: apply_batches_def split_beta intro: same_queue_trans b)
qed

lemma same_queue_write_batches: "write_batches bs w = (err, w') \<Longrightarrow> same_queue w w'"
proof (induction bs arbitrary: w)
  case (Cons b bs)
  obtain sid es where b: "b = (sid, es)" by fastforce
  obtain e w1 where r: "write_batch sid es w = (e, w1)" by fastforce
  have s: "same_queue w w1"
    using r by (auto simp: write_batch_def same_queue_def Let_def split_beta split: option.splits if_splits)
  then show ?case using Cons b r same_queue_trans by (cases e) auto
qed simp

lemma same_queue_states:
  assumes "writeRecordStates records kind reason inc w = (err, records', w')"
  shows "same_queue w w'"
  using assms
proof (cases rule: writeRecordStates_cases)
  case (failed e bs)
  then show ?thesis using same_queue_write_batches by blast
next
  case (written m w1)
  have "same_queue w w1" using same_queue_write_batches written(4) by blast
  moreover have "same_queue w1 (apply_batches (sort_key fst m) w1)" by (rule same_queue_apply_batches)
  ultimately show ?thesis using written(5) by (simp add: same_queue_def)
qed (simp_all add: same_queue_def)

lemma same_queue_settle:
  "Ack records w = (e, w') \<Longrightarrow> same_queue w w'"
  "MarkRetry records w = (e, rs, w') \<Longrightarrow> same_queue w w'"
  "Quarantine records reason w = (e, w') \<Longrightarrow> same_queue w w'"
  by (auto simp: Ack_def MarkRetry_def Quarantine_def Let_def dest: same_queue_states split: prod.splits)

lemma same_queue_next:
  assumes "NextAfter js after w = (r, w')"
  shows "same_queue w w'"
proof -
  have n: "same_queue w (snd (next_active js is w))" for "is"
  proof (induction "is")
    case (Cons i "is")
    show ?case
    proof (cases "w_active w i")
      case None
      then show ?thesis using Cons by simp
    next
      case (Some md)
      have "only_io w (snd (readRecordLocked js i md w))" by (rule readRecordLocked_io)
      then show ?thesis
        using Some by (simp add: same_queue_def split_beta only_io_def Let_def split: option.split)
    qed
  qed simp
  show ?thesis
  proof (cases "w_fault w")
    case None
    then have "next_active js (drop (sort_search (length (w_ids w)) (\<lambda>i. w_ids w ! i > after)) (w_ids w)) w = (r, w')"
      using assms by (simp add: NextAfter_def Let_def)
    then show ?thesis using n by (metis snd_conv)
  qed (use assms in \<open>simp add: NextAfter_def\<close>)
qed

lemma closeFiles_queue: "same_queue w (closeFiles w)"
proof -
  have one: "same_queue w (close_and_record h s w)" for h s w
    by (simp add: close_and_record_def same_queue_def split_beta split: bool.split)
  have step: "same_queue w (case w_segments w i of None \<Rightarrow> w
     | Some s \<Rightarrow> upd_segment i (\<lambda>c. c\<lparr>seg_file := False, seg_stateFile := False\<rparr>)
         (close_and_record seg_stateFile s (close_and_record seg_file s w)))" for i w
    using one [of w seg_file] one [of _ seg_stateFile]
    by (auto simp: same_queue_def split: option.split)
  have "same_queue w (foldl (\<lambda>w i. case w_segments w i of None \<Rightarrow> w
     | Some s \<Rightarrow> upd_segment i (\<lambda>c. c\<lparr>seg_file := False, seg_stateFile := False\<rparr>)
         (close_and_record seg_stateFile s (close_and_record seg_file s w))) w is)" for "is"
  proof (induction "is" arbitrary: w)
    case (Cons i "is")
    show ?case unfolding foldl_Cons by (rule same_queue_trans [OF step Cons.IH])
  qed simp
  then show ?thesis unfolding closeFiles_def .
qed

text \<open>With nothing queued the final drain does no more than close the files.\<close>

lemma drain_loop_Nil:
  "drain_loop js [] out w = (out, closeFiles (compactSegments (w\<lparr>w_appendQueue := []\<rparr>)))"
proof -
  let ?n = "nat (cfg_MaxBatchRecords (w_config w))"
  have "?n = 0 \<or> length (take ?n ([] :: walAppendRequest list)) < ?n"
    by (metis gr_zeroI list.size(3) take_Nil)
  then show ?thesis by (subst drain_loop.simps) (simp only: Let_def if_True take_Nil drop_Nil, simp)
qed

lemma drain_empty:
  assumes "w_appendQueue w = []" "drainAndClose js w = (out, w')"
  shows "out = [] \<and> same_queue w w'"
proof -
  have "out = []" "w' = closeFiles (compactSegments (w\<lparr>w_appendQueue := []\<rparr>))"
    using assms by (simp_all add: drainAndClose_def drain_loop_Nil)
  then show ?thesis
    using closeFiles_queue [of "compactSegments (w\<lparr>w_appendQueue := []\<rparr>)"] assms(1)
    by (simp add: same_queue_def)
qed

text \<open>Where a tag can be: in the queue, in the writer's group, or among the replies.\<close>

definition all_tags :: "wal_system \<Rightarrow> nat multiset" where
  "all_tags s = tags_in (w_appendQueue (sys_wal s)) + tags_in (sys_group s) + reply_tags (sys_replies s)"

definition system_ok :: "wal_system \<Rightarrow> bool" where
  "system_ok s \<longleftrightarrow>
     (\<forall>tag. count (all_tags s) tag \<le> 1)
     \<and> set (sys_waiting s) \<subseteq> set_mset (all_tags s)
     \<and> set_mset (tags_in (w_appendQueue (sys_wal s))) \<union> set_mset (tags_in (sys_group s)) \<subseteq> set (sys_waiting s)
     \<and> (w_closed (sys_wal s) \<longrightarrow> sys_waiting s = [])
     \<and> (sys_done s \<longrightarrow> w_closed (sys_wal s))"

lemma system_ok_cong:
  assumes "system_ok s" "same_queue (sys_wal s) w"
  shows "system_ok (s\<lparr>sys_wal := w\<rparr>)"
  using assms by (simp add: system_ok_def all_tags_def same_queue_def)

lemma append_admit_None:
  assumes "append_admit cancelled late rq w = (None, w')"
  shows "w' = w\<lparr>w_appendQueue := w_appendQueue w @ [rq]\<rparr>" "\<not> w_closed w" "w_fault w = None"
    "int (length (w_appendQueue w)) < cfg_AppendQueueSize (w_config w)"
  using assms by (auto simp: append_admit_def split: if_splits option.splits)

lemma step_ok: "wal_step js s s' \<Longrightarrow> system_ok s \<Longrightarrow> system_ok s'"
proof (induction rule: wal_step.induct)
  case (admit rq s cancelled late w)
  note a = append_admit_None [OF admit(3)]
  have "rq_tag rq \<notin># all_tags s"
    using admit(1,2,4) by (auto simp: system_ok_def all_tags_def reply_tags_def)
  then have "count (all_tags s) (rq_tag rq) = 0" by (simp add: not_in_iff)
  then show ?case
    using admit(4) a(1,2) by (auto simp: system_ok_def all_tags_def)
next
  case (collect s rq rqs)
  let ?s = "s\<lparr>sys_wal := (sys_wal s)\<lparr>w_appendQueue := rqs\<rparr>, sys_group := sys_group s @ [rq]\<rparr>"
  have "all_tags ?s = all_tags s" using collect by (simp add: all_tags_def)
  then show ?case using collect by (auto simp: system_ok_def)
next
  case (commit s out w)
  let ?s = "s\<lparr>sys_wal := compactSegments w, sys_group := [], sys_replies := sys_replies s @ out\<rparr>"
  have l: "process_loop js (sys_group s) [] 0 (sys_wal s) = (out, w)"
    using commit(3) by (simp add: processAppendRequests_def)
  have t: "reply_tags out = tags_in (sys_group s)" using process_loop_tags [OF l] by simp
  have q: "same_queue (sys_wal s) (compactSegments w)"
    using same_queue_process_loop [OF l] same_queue_compact(2) [of w] same_queue_trans by blast
  have "all_tags ?s = all_tags s" using t q by (simp add: all_tags_def same_queue_def)
  then show ?case using commit(4) q by (auto simp: system_ok_def same_queue_def)
next
  case (compaction s)
  have "same_queue (sys_wal s) (compactSegments ((sys_wal s)\<lparr>w_compact := False\<rparr>))"
    using same_queue_compact(2) [of "(sys_wal s)\<lparr>w_compact := False\<rparr>"] by (simp add: same_queue_def)
  then show ?case using system_ok_cong compaction(4) by blast
next
  case (deliver tag r s)
  have "count (all_tags s) tag \<le> 1" using deliver(3) by (simp add: system_ok_def)
  moreover have "tag \<in># reply_tags (sys_replies s)" using deliver(1) by (force simp: reply_tags_def)
  then have "1 \<le> count (reply_tags (sys_replies s)) tag" by simp
  ultimately have "count (tags_in (w_appendQueue (sys_wal s))) tag = 0" "count (tags_in (sys_group s)) tag = 0"
    unfolding all_tags_def plus_multiset.rep_eq by linarith+
  then have nt: "tag \<notin># tags_in (w_appendQueue (sys_wal s))" "tag \<notin># tags_in (sys_group s)"
    by (simp_all add: not_in_iff)
  let ?open = "set_mset (tags_in (w_appendQueue (sys_wal s))) \<union> set_mset (tags_in (sys_group s))"
  have "?open \<subseteq> set (remove1 tag (sys_waiting s))"
  proof
    fix x
    assume x: "x \<in> ?open"
    then have "x \<in> set (sys_waiting s)" using deliver(3) unfolding system_ok_def by blast
    moreover have "x \<noteq> tag" using x nt by blast
    ultimately show "x \<in> set (remove1 tag (sys_waiting s))" by simp
  qed
  moreover have "set (remove1 tag (sys_waiting s)) \<subseteq> set (sys_waiting s)" by (rule set_remove1_subset)
  ultimately show ?case
    using deliver(3) unfolding system_ok_def all_tags_def by (simp, blast)
next
  case (ack records s e w)
  then show ?case using system_ok_cong same_queue_settle(1) by blast
next
  case (retry records s e records' w)
  then show ?case using system_ok_cong same_queue_settle(2) by blast
next
  case (quarantine records reason s e w)
  then show ?case using system_ok_cong same_queue_settle(3) by blast
next
  case (read_next after s r w)
  then show ?case using system_ok_cong same_queue_next by blast
next
  case (close_gate s)
  then show ?case by (auto simp: system_ok_def all_tags_def)
next
  case (drain s out w)
  have w0: "sys_waiting s = []" using drain(2,5) by (auto simp: system_ok_def)
  then have "tags_in (w_appendQueue (sys_wal s)) = {#}" using drain(5) by (simp add: system_ok_def)
  then have "w_appendQueue (sys_wal s) = []" by (simp add: tags_in_def)
  then have d: "out = []" "same_queue (sys_wal s) w" using drain_empty drain(4) by blast+
  then show ?case using drain w0 by (auto simp: system_ok_def all_tags_def same_queue_def)
qed

lemma reachable_ok:
  assumes "wal_reachable js w0 s" "\<not> w_closed w0"
  shows "system_ok s"
  using assms
proof (induction rule: wal_reachable.induct)
  case start
  then show ?case by (simp add: system_ok_def all_tags_def)
next
  case (step s s')
  then show ?case using step_ok by blast
qed

section \<open>The invariant over a batch\<close>

lemma install_records_ids:
  "w_ids (install_records ps offset w) = w_ids w @ List.map prepared_id ps"
  by (induction ps arbitrary: offset w) (simp_all add: Let_def prepared_id_def)

lemma write_group_ids:
  assumes "write_group ps enc w = (err, w')"
  shows "w_ids w' = w_ids w \<or> w_ids w' = w_ids w @ List.map prepared_id ps"
proof (cases "w_segments w (w_current w)")
  case None
  then show ?thesis using assms by (auto simp: write_group_def)
next
  case (Some cur)
  obtain n w1 where g: "grown cur n w w1"
    and w1: "err \<noteq> None \<Longrightarrow> w' = observeUsageLocked (w1\<lparr>w_fault := err\<rparr>)"
    "err = None \<Longrightarrow> n = length enc \<and> w' = observeUsageLocked (install_records ps (seg_size cur) w1)"
    using write_group_cases [OF assms Some] by metis
  then show ?thesis by (cases err) (simp_all add: grown_def install_records_ids)
qed

lemma rotateLocked_ids:
  assumes "rotateLocked w = (e, w')"
  shows "w_ids w' = w_ids w \<and> w_nextID w' = w_nextID w
    \<and> (w_nextSegmentID w' = w_nextSegmentID w \<or> w_nextSegmentID w' = w_nextSegmentID w + 1)"
proof (cases e)
  case None
  obtain fs' where "w' = (installSegment (fresh_segment (w_nextSegmentID w))
        (upd_segment (w_current w) (\<lambda>c. c\<lparr>seg_file := False, seg_closed := True\<rparr>)
          (w\<lparr>w_world := fs'\<rparr>)))\<lparr>w_current := w_nextSegmentID w\<rparr>"
    using rotateLocked_None [OF assms [unfolded None]] by metis
  then show ?thesis by (simp add: installSegment_def fresh_segment_def)
next
  case (Some x)
  obtain fs where "w' = w\<lparr>w_world := fs\<rparr>" using rotateLocked_Some [OF assms [unfolded Some]] .
  then show ?thesis by simp
qed

lemma commitGroup_ids:
  assumes "commitGroup ps w = (err, w')"
  shows "(w_ids w' = w_ids w \<or> w_ids w' = w_ids w @ List.map prepared_id ps)
    \<and> w_nextID w' = w_nextID w
    \<and> (w_nextSegmentID w' = w_nextSegmentID w \<or> w_nextSegmentID w' = w_nextSegmentID w + 1)"
  using assms
proof (cases rule: commitGroup_cases)
  case plain
  then show ?thesis using write_group_ids write_group_config(3,4) by blast
next
  case (failed e w1)
  then show ?thesis using rotateLocked_ids by fastforce
next
  case (rotated w1 n w2)
  have "w_ids w2 = w_ids w1" "w_nextID w2 = w_nextID w1" "w_nextSegmentID w2 = w_nextSegmentID w1"
    using compactSegmentsLocked_frame [of w1] rotated(2) by simp_all
  then show ?thesis
    using rotateLocked_ids [OF rotated(1)] write_group_ids [OF rotated(3)] write_group_config(3,4) [OF rotated(3)]
    by auto
qed simp

definition room_for :: "nat \<Rightarrow> u64 \<Rightarrow> bool" where
  "room_for n i \<longleftrightarrow> unat i + n < 2 ^ 64"

lemma room_for_Suc: "room_for (Suc n) i \<Longrightarrow> i \<noteq> - 1 \<and> room_for n i \<and> room_for n (i + 1)"
proof -
  assume r: "room_for (Suc n) i"
  then have "i \<noteq> - 1"
    by (auto simp: room_for_def unsigned_minus_1_eq_mask mask_eq_exp_minus_1)
  moreover have "unat (i + 1) = unat i + 1"
    using r by (simp add: room_for_def unat_word_ariths)
  ultimately show ?thesis using r by (simp add: room_for_def)
qed

text \<open>The loop's state: what is prepared is fresh and below the next identifier.\<close>

lemma flush_group_inv:
  assumes "flush_group prepared w = (err, out, w')" "wal_inv w"
    "fresh_ids (List.map prepared_id prepared) w" "1 \<le> cfg_MaxRecordAttempts (w_config w)"
    "room_for (Suc n) (w_nextSegmentID w)"
  shows "wal_inv w' \<and> set (w_ids w') \<subseteq> set (w_ids w) \<union> prepared_id ` set prepared
    \<and> w_nextID w' = w_nextID w \<and> w_config w' = w_config w \<and> room_for n (w_nextSegmentID w')"
proof (cases "prepared = []")
  case True
  then show ?thesis using assms room_for_Suc by (auto simp: flush_group_def)
next
  case False
  then have c: "commitGroup prepared w = (err, w')"
    using assms(1) by (auto simp: flush_group_def split: prod.splits)
  note r = room_for_Suc [OF assms(5)]
  show ?thesis
    using commitGroup_inv [OF c assms(2-4)] commitGroup_ids [OF c] same_queue_commitGroup [OF c] r
    by (auto simp: same_queue_def)
qed

lemma process_loop_inv:
  assumes "process_loop js rqs prepared n w = (out, w')" "wal_inv w"
    "fresh_ids (List.map prepared_id prepared) w" "1 \<le> cfg_MaxRecordAttempts (w_config w)"
    "room_for (length rqs) (w_nextID w)" "room_for (Suc (length rqs)) (w_nextSegmentID w)"
  shows "wal_inv w'"
  using assms
proof (induction rqs arbitrary: prepared n w out)
  case Nil
  then obtain err o1 where "flush_group prepared w = (err, o1, w')" by (auto split: prod.splits)
  then show ?case using flush_group_inv [of prepared w err o1 w' 0] Nil by simp
next
  case (Cons rq rqs)
  let ?w = "w\<lparr>w_nextID := w_nextID w + 1\<rparr>"
  note room = room_for_Suc [of "length rqs" "w_nextID w"] room_for_Suc [of "Suc (length rqs)" "w_nextSegmentID w"]
  have less: "w_nextID w < w_nextID w + 1" using room Cons.prems(5) by (simp add: word_less_plus_1)
  have inv: "wal_inv ?w"
    using Cons.prems(2) less tables_ok_cong [of ?w w]
    by (auto simp: wal_inv_def index_ok_def)
  have fresh: "fresh_ids (List.map prepared_id prepared) ?w"
    using Cons.prems(3) less by (auto simp: fresh_ids_def)
  have below: "\<forall>j\<in>set (w_ids w). j < w_nextID w" using Cons.prems(2) by (simp add: wal_inv_def index_ok_def)
  let ?r = "\<lparr>RecordID = w_nextID w, Attempts = 0, EnqueuedAt = rq_now rq, Envelope = rq_envelope rq\<rparr>"
  have r1: "room_for (length rqs) (w_nextID ?w)" "room_for (Suc (length rqs)) (w_nextSegmentID ?w)"
    "room_for (Suc (Suc (length rqs))) (w_nextSegmentID ?w)"
    using room Cons.prems(5,6) by simp_all
  show ?case
    using Cons.prems(1)
  proof (cases rule: process_loop_step)
    case (unencodable e out')
    then show ?thesis using Cons.IH [OF unencodable(2) inv fresh] Cons.prems(4) r1 by simp
  next
    case (collected frame m)
    let ?p = "\<lparr>pr_tag = rq_tag rq, pr_record = ?r, pr_frame = frame\<rparr>"
    have "prepared_id ?p = w_nextID w" by (simp add: prepared_id_def)
    then have "fresh_ids (List.map prepared_id (prepared @ [?p])) ?w"
      using Cons.prems(3) less below
      by (auto simp: fresh_ids_def sorted_wrt_append)
    then show ?thesis using Cons.IH [OF collected(2) inv] Cons.prems(4) r1 by simp
  next
    case (stopped e out')
    then show ?thesis using flush_group_inv [OF stopped inv fresh _ r1(2)] Cons.prems(4) by simp
  next
    case (flushed frame out' w2 m out2)
    let ?p = "\<lparr>pr_tag = rq_tag rq, pr_record = ?r, pr_frame = frame\<rparr>"
    have f: "wal_inv w2 \<and> set (w_ids w2) \<subseteq> set (w_ids w) \<union> prepared_id ` set prepared
        \<and> w_nextID w2 = w_nextID w + 1 \<and> w_config w2 = w_config w \<and> room_for (Suc (length rqs)) (w_nextSegmentID w2)"
      using flush_group_inv [OF flushed(2) inv fresh _ r1(3)] Cons.prems(4) by simp
    have "\<forall>j\<in>set (w_ids w2). j < w_nextID w"
      using f below Cons.prems(3) by (auto simp: fresh_ids_def)
    then have "fresh_ids (List.map prepared_id [?p]) w2"
      using f less by (simp add: fresh_ids_def prepared_id_def)
    then show ?thesis using Cons.IH [OF flushed(4)] f Cons.prems(4) r1(1) by simp
  qed
qed

end
