(* ===== verification/Wal_Demo.thy ===== *)
theory Wal_Demo
  imports Wal_System
begin

text \<open>
  A small concrete log on which the properties of the write-ahead log are instantiated: a
  codec for one envelope, a configuration, and the log as it stands after start-up in an
  empty directory.
\<close>

definition demo_envelope :: envelope where
  "demo_envelope = \<lparr>ProtocolVersion = ''1.0'', SpanBatch = None, RuntimeMetrics = None\<rparr>"

text \<open>The codec writes the identifier and the time, and marshals nothing but the one envelope.\<close>

definition demo_marshal :: "diskRecord \<Rightarrow> bytes option" where
  "demo_marshal d =
     (if dr_Envelope d = demo_envelope \<and> 0 \<le> dr_EnqueuedAtUnixNano d \<and> dr_EnqueuedAtUnixNano d < 2 ^ 64
      then Some (put_uint 8 (dr_ID d) @ put_uint 8 (of_int (dr_EnqueuedAtUnixNano d) :: u64))
      else None)"

definition demo_unmarshal :: "bytes \<Rightarrow> (diskRecord \<times> bytes) option" where
  "demo_unmarshal bs =
     (if length bs < 16 then None
      else Some (\<lparr>dr_ID = get_uint (take 8 bs),
                  dr_EnqueuedAtUnixNano = uint (get_uint (slice 8 16 bs) :: u64),
                  dr_Envelope = demo_envelope\<rparr>, drop 16 bs))"

definition demo_codec :: codec where
  "demo_codec = \<lparr>marshal = demo_marshal, unmarshal = demo_unmarshal\<rparr>"

lemma uint_of_int_u64: "0 \<le> k \<Longrightarrow> k < 2 ^ 64 \<Longrightarrow> uint (of_int k :: u64) = k"
  by (simp add: unsigned_of_int take_bit_int_eq_self)

lemma demo_codec_ok: "codec_ok demo_codec"
  unfolding codec_ok_def
proof (intro allI impI)
  fix d bs
  assume "marshal demo_codec d = Some bs"
  then have bs: "bs = put_uint 8 (dr_ID d) @ put_uint 8 (of_int (dr_EnqueuedAtUnixNano d) :: u64)"
    and e: "dr_Envelope d = demo_envelope"
    and t: "0 \<le> dr_EnqueuedAtUnixNano d" "dr_EnqueuedAtUnixNano d < 2 ^ 64"
    by (auto simp: demo_codec_def demo_marshal_def split: if_splits)
  show "unmarshal demo_codec bs = Some (d, [])"
    using e uint_of_int_u64 [OF t]
    by (cases d) (simp add: bs demo_codec_def demo_unmarshal_def slice_def)
qed

definition demo_config :: walConfig where
  "demo_config =
     \<lparr>cfg_Directory = ''wal'', cfg_MaxBytes = 1000000, cfg_SegmentBytes = 4096,
      cfg_MaxBatchRecords = 2, cfg_MaxFlushInterval = 10, cfg_AppendQueueSize = 4,
      cfg_MaxRecordAttempts = 5\<rparr>"

definition demo_record :: "u64 \<Rightarrow> spool_record" where
  "demo_record i = \<lparr>RecordID = i, Attempts = 0, EnqueuedAt = 7, Envelope = demo_envelope\<rparr>"

definition demo_payload :: "u64 \<Rightarrow> bytes" where
  "demo_payload i = put_uint 8 i @ put_uint 8 (7 :: u64)"

definition demo_prepared :: "u64 \<Rightarrow> preparedWALRecord" where
  "demo_prepared i =
     \<lparr>pr_tag = unat i, pr_record = demo_record i,
      pr_frame = encodeWALFrame FrameData i (demo_payload i)\<rparr>"

definition demo_files :: "fs_file gomap" where
  "demo_files =
     [(segmentFilename 1, \<lparr>contents = encodeWALSegmentHeader 1 7, synced = 32\<rparr>),
      (stateFilename 1, \<lparr>contents = encodeWALStateHeader 1, synced = 24\<rparr>)]"

definition demo_wal :: WAL where
  "demo_wal =
     \<lparr>w_config = demo_config, w_closed = False, w_fault = None, w_nextID = 3, w_nextSegmentID = 2,
      w_current = 1, w_segments = [1 \<mapsto> fresh_segment 1], w_segmentIDs = [1],
      w_active = Map.empty, w_ids = [], w_usedBytes = 56, w_reservedBytes = 0,
      w_quarantined = 0, w_appendQueue = [], w_compact = False, w_events = [], w_now = 7,
      w_world = \<lparr>disk = demo_files, script = []\<rparr>\<rparr>"

lemma demo_wal_sel [simp]:
  "w_config demo_wal = demo_config" "w_closed demo_wal = False" "w_fault demo_wal = None"
  "w_nextID demo_wal = 3" "w_nextSegmentID demo_wal = 2" "w_current demo_wal = 1"
  "w_segments demo_wal = [1 \<mapsto> fresh_segment 1]" "w_segmentIDs demo_wal = [1]"
  "w_active demo_wal = Map.empty" "w_ids demo_wal = []" "w_usedBytes demo_wal = 56"
  "w_reservedBytes demo_wal = 0" "w_quarantined demo_wal = 0" "w_appendQueue demo_wal = []"
  "w_compact demo_wal = False" "w_now demo_wal = 7"
  "w_world demo_wal = \<lparr>disk = demo_files, script = []\<rparr>"
  by (simp_all add: demo_wal_def)

lemma fresh_segment_sel [simp]:
  "seg_id (fresh_segment i) = i" "seg_path (fresh_segment i) = segmentFilename i"
  "seg_statePath (fresh_segment i) = stateFilename i" "seg_file (fresh_segment i)"
  "seg_stateFile (fresh_segment i)" "seg_size (fresh_segment i) = 32"
  "seg_stateSize (fresh_segment i) = 24" "seg_activeRecords (fresh_segment i) = 0"
  "seg_quarantinedRecords (fresh_segment i) = 0" "\<not> seg_closed (fresh_segment i)"
  by (simp_all add: fresh_segment_def wal_sizes)

lemma length_demo_frame: "length (pr_frame (demo_prepared i)) = 44"
  by (simp add: demo_prepared_def demo_payload_def)

lemma demo_payload_decodes:
  "i \<noteq> 0 \<Longrightarrow> decodeWALRecord demo_codec (demo_payload i) i = Inr (demo_record i)"
  by (simp add: decodeWALRecord_def demo_codec_def demo_unmarshal_def demo_payload_def slice_def
      demo_record_def)

lemma demo_encode:
  "encodeWALDataFrame demo_codec (demo_record i) = Inr (pr_frame (demo_prepared i))"
  by (simp add: encodeWALDataFrame_def demo_codec_def demo_marshal_def demo_record_def
      demo_prepared_def demo_payload_def)

lemma demo_fits: "n \<le> 4096 \<Longrightarrow> fits demo_config n"
  by (simp add: fits_iff demo_config_def)

lemma demo_prepared_sel [simp]:
  "pr_record (demo_prepared i) = demo_record i"
  "pr_frame (demo_prepared i) = encodeWALFrame FrameData i (demo_payload i)"
  "RecordID (demo_record i) = i" "(demo_record i)\<lparr>Attempts := 0\<rparr> = demo_record i"
  "length (demo_payload i) = 16"
  by (simp_all add: demo_prepared_def demo_record_def demo_payload_def)

lemma demo_good_record: "i \<noteq> 0 \<Longrightarrow> good_record demo_codec demo_config (demo_prepared i)"
  unfolding good_record_def
  by (rule exI [of _ "demo_payload i"]) (simp add: record_id_def demo_payload_decodes demo_fits)

lemma demo_good_group:
  "ps \<noteq> [] \<Longrightarrow> length ps \<le> 10 \<Longrightarrow> 0 \<notin> set ps \<Longrightarrow>
    good_group demo_codec demo_config (List.map demo_prepared ps)"
proof -
  assume a: "ps \<noteq> []" "length ps \<le> 10" "0 \<notin> set ps"
  have "length (group_data (List.map demo_prepared ps)) = 44 * length ps"
    by (induction ps) (simp_all add: group_data_def del: demo_prepared_sel(2) add: length_demo_frame)
  then show ?thesis
    using a by (auto simp: good_group_def demo_fits intro!: demo_good_record)
qed

lemma demo_record_id [simp]: "record_id (demo_prepared i) = i" "prepared_id (demo_prepared i) = i"
  by (simp_all add: record_id_def prepared_id_def)

definition no_tables :: recover_tables where
  "no_tables = \<lparr>rt_active = Map.empty, rt_seen = {}, rt_nextID = 1, rt_quarantined = 0,
     rt_recordIDs = [], rt_segActive = 0, rt_segQuarantined = 0\<rparr>"

lemma demo_good_log: "good_log demo_codec demo_config no_tables ([] @ [[demo_prepared 1, demo_prepared 2]])"
  using demo_good_group [of "[1, 2]"] by (simp add: good_log_def no_tables_def)

lemma demo_inv: "wal_inv demo_wal"
  by (auto simp: wal_inv_def tables_ok_def index_ok_def demo_wal_def segment_ok_def fresh_segment_def
      actives_of_def map_sum_def seg_total_def wal_sizes split: if_splits)

lemma demo_fresh: "fresh_ids [1, 2] demo_wal"
  by (simp add: fresh_ids_def demo_wal_def)

lemma demo_holds: "holds_log (w_world demo_wal) (w_current demo_wal) 7 []"
  by (simp add: holds_log_def demo_wal_def demo_files_def segment_image_def)

text \<open>A crash that loses nothing that was written.\<close>

definition keep_all :: "world \<Rightarrow> world" where
  "keep_all w = \<lparr>disk = List.map (\<lambda>(n, f). (n, f\<lparr>synced := length (contents f)\<rparr>)) (disk w), script = []\<rparr>"

lemma crash_keep_all:
  assumes "sane_files w"
  shows "crash w (keep_all w)"
proof -
  have l: "lookup_file (keep_all w) n = map_option (\<lambda>f. f\<lparr>synced := length (contents f)\<rparr>) (lookup_file w n)" for n
    by (simp add: keep_all_def map_of_map)
  have "cut_file f (f\<lparr>synced := length (contents f)\<rparr>)" if "lookup_file w n = Some f" for n f
  proof -
    have "synced f \<le> length (contents f)" using assms that unfolding sane_files_def by blast
    then show ?thesis by (auto simp: cut_file_def intro!: exI [of _ "length (contents f)"])
  qed
  then show ?thesis using l by (auto simp: crash_def keep_all_def)
qed

section \<open>The log with one active record\<close>

definition demo_metadata :: walRecordMetadata where
  "demo_metadata = \<lparr>md_segmentID = 1, md_offset = 32, md_frameSize = 44, md_attempts = 1\<rparr>"

definition demo_segment :: walSegment where
  "demo_segment = (fresh_segment 1)\<lparr>seg_activeRecords := 1\<rparr>"

definition demo_active :: WAL where
  "demo_active = demo_wal\<lparr>w_active := [1 \<mapsto> demo_metadata], w_ids := [1], w_reservedBytes := 96,
     w_segments := [1 \<mapsto> demo_segment]\<rparr>"

lemma demo_active_sel [simp]:
  "w_config demo_active = demo_config" "w_closed demo_active = False" "w_fault demo_active = None"
  "w_nextID demo_active = 3" "w_nextSegmentID demo_active = 2" "w_current demo_active = 1"
  "w_segments demo_active = [1 \<mapsto> demo_segment]" "w_segmentIDs demo_active = [1]"
  "w_active demo_active = [1 \<mapsto> demo_metadata]" "w_ids demo_active = [1]"
  "w_usedBytes demo_active = 56" "w_reservedBytes demo_active = 96" "w_quarantined demo_active = 0"
  "w_appendQueue demo_active = []" "w_world demo_active = \<lparr>disk = demo_files, script = []\<rparr>"
  by (simp_all add: demo_active_def)

lemma demo_segment_sel [simp]:
  "seg_id demo_segment = 1" "seg_path demo_segment = segmentFilename 1"
  "seg_statePath demo_segment = stateFilename 1" "seg_stateFile demo_segment" "seg_size demo_segment = 32"
  "seg_stateSize demo_segment = 24" "seg_activeRecords demo_segment = 1"
  "seg_quarantinedRecords demo_segment = 0" "\<not> seg_closed demo_segment"
  by (simp_all add: demo_segment_def)

lemma demo_metadata_sel [simp]:
  "md_segmentID demo_metadata = 1" "md_attempts demo_metadata = 1"
  by (simp_all add: demo_metadata_def)

lemma demo_active_inv: "wal_inv demo_active"
proof -
  have a: "actives_of [1 \<mapsto> demo_metadata] i = (if i = 1 then {1} else {})" for i
    by (auto simp: actives_of_def)
  have m: "map_sum seg_total [1 \<mapsto> demo_segment] = 56"
    "map_sum (\<lambda>_. record_reserve demo_config) [1 \<mapsto> demo_metadata] = 96"
    by (simp_all add: map_sum_def seg_total_def record_reserve_def remaining_attempts_def demo_config_def
        Let_def walStateEntrySize_def)
  show ?thesis
    by (simp add: wal_inv_def tables_ok_def index_ok_def m segment_ok_def a)
qed

lemma demo_settleable: "settleable inc demo_active [demo_record 1]"
  by (simp add: settleable_def demo_config_def)

lemma demo_states:
  "writeRecordStates [demo_record 1] kind reason inc demo_active
    = (None, snd (writeRecordStates [demo_record 1] kind reason inc demo_active))"
proof -
  have "fst (writeRecordStates [demo_record 1] kind reason inc demo_active) = None"
    by (simp add: writeRecordStates_def write_batch_def add_entry_def Let_def
        os_write_def lift_io_def os_sync_def)
  then show ?thesis by (metis prod.collapse)
qed

lemma demo_settled:
  "\<exists>w'. Ack [demo_record 1] demo_active = (None, w')"
  "\<exists>rs w'. MarkRetry [demo_record 1] demo_active = (None, rs, w')"
  "\<exists>w'. Quarantine [demo_record 1] reason demo_active = (None, w')"
proof -
  note d = demo_states [of StateAck walReasonNone False] demo_states [of StateRetry walReasonNone True]
  show "\<exists>w'. Ack [demo_record 1] demo_active = (None, w')"
    by (subst Ack_def, subst demo_states) (simp split: prod.split)
  show "\<exists>rs w'. MarkRetry [demo_record 1] demo_active = (None, rs, w')"
    by (subst MarkRetry_def, subst demo_states) (metis prod.collapse)
  show "\<exists>w'. Quarantine [demo_record 1] reason demo_active = (None, w')"
    by (subst Quarantine_def, subst demo_states) (simp add: Let_def split: prod.split)
qed

end
