(* ===== verification/Wal_Properties.thy ===== *)
theory Wal_Properties
  imports Wal_Demo
begin

text \<open>
  The properties of the write-ahead log, each with an instance on the concrete log of
  \<open>Wal_Demo\<close>.
\<close>

section \<open>Durability\<close>

definition demo_group :: "preparedWALRecord list" where
  "demo_group = [demo_prepared 1, demo_prepared 2]"

lemma demo_group_length: "length (encode_group demo_group) = 144"
  by (simp add: demo_group_def encode_group_def group_data_def)

lemma demo_commit_plain:
  "commitGroup demo_group demo_wal = write_group demo_group (encode_group demo_group) demo_wal"
proof -
  have "needs_rotation n (fresh_segment 1) demo_wal = False" for n
    by (simp add: needs_rotation_def wal_sizes)
  moreover have "\<not> projected_bytes (length demo_group) 144 (fresh_segment 1) demo_wal
      > cfg_MaxBytes (w_config demo_wal)"
    by (simp add: projected_bytes_def needs_rotation_def wal_sizes demo_group_def demo_config_def)
  ultimately show ?thesis by (simp add: commitGroup_def demo_group_length)
qed

lemma demo_commit:
  "fst (commitGroup demo_group demo_wal) = None"
  "sane_files (w_world (snd (commitGroup demo_group demo_wal)))"
  "w_current (snd (commitGroup demo_group demo_wal)) = 1"
proof -
  note d = demo_commit_plain write_group_def lift_io_def os_write_def
    os_sync_def Let_def append_file_def demo_files_def put_file_def
  show "fst (commitGroup demo_group demo_wal) = None" by (simp add: d)
  show "w_current (snd (commitGroup demo_group demo_wal)) = 1" by (simp add: d)
  show "sane_files (w_world (snd (commitGroup demo_group demo_wal)))"
    by (simp add: d) (auto simp: sane_files_def demo_group_length split: if_splits)
qed

text \<open>What a log that is to be recovered may hold: groups that are not empty, of encoded records that decode to
  themselves, each identifier once. Frames have lengths of 32 bits.\<close>

definition decodable_record :: "codec \<Rightarrow> preparedWALRecord \<Rightarrow> bool" where
  "decodable_record js p \<longleftrightarrow> (\<exists>payload. pr_frame p = encodeWALFrame FrameData (record_id p) payload
     \<and> decodeWALRecord js payload (record_id p) = Inr ((pr_record p)\<lparr>Attempts := 0\<rparr>))"

definition decodable_log :: "codec \<Rightarrow> recover_tables \<Rightarrow> preparedWALRecord list list \<Rightarrow> bool" where
  "decodable_log js t gs \<longleftrightarrow> (\<forall>g\<in>set gs. g \<noteq> [] \<and> length g < 2 ^ 32 \<and> length (group_data g) < 2 ^ 32
       \<and> (\<forall>p\<in>set g. decodable_record js p))
     \<and> distinct (log_ids gs) \<and> set (log_ids gs) \<inter> rt_seen t = {}"

text \<open>The payload of a record is what its frame holds behind the header. \<open>commitGroup\<close> takes a payload of any
  length, and start-up expects none that is longer than a segment.\<close>

definition payload_length :: "preparedWALRecord \<Rightarrow> nat" where
  "payload_length p = length (pr_frame p) - walFrameHeaderSize"

definition payloads_fit :: "walConfig \<Rightarrow> preparedWALRecord list list \<Rightarrow> bool" where
  "payloads_fit cfg gs \<longleftrightarrow> (\<forall>g\<in>set gs. \<forall>p\<in>set g. int (payload_length p) \<le> cfg_SegmentBytes cfg)"

lemma payload_length_frame: "pr_frame p = encodeWALFrame k i payload \<Longrightarrow> payload_length p = length payload"
  by (simp add: payload_length_def walFrameHeaderSize_def)

lemma good_logI:
  assumes "valid_config cfg" "decodable_log js t gs" "payloads_fit cfg gs"
  shows "good_log js cfg t gs"
proof -
  have range: "28 \<le> cfg_SegmentBytes cfg" "cfg_SegmentBytes cfg < 2 ^ 32"
    using assms(1) by (simp_all add: valid_config_def wal_sizes)
  have fit: "fits cfg n" if "int n \<le> cfg_SegmentBytes cfg" for n
    using fits_iff [of cfg n] range that by simp
  have "good_record js cfg p" if "g \<in> set gs" "p \<in> set g" for g p
  proof -
    have "decodable_record js p" "int (payload_length p) \<le> cfg_SegmentBytes cfg"
      using assms(2,3) that by (auto simp: decodable_log_def payloads_fit_def)
    then show ?thesis using fit payload_length_frame by (auto simp: decodable_record_def good_record_def)
  qed
  then show ?thesis
    using assms(2) fit [of 28] range(1) by (auto simp: decodable_log_def good_log_def good_group_def)
qed

text \<open>C4: Group commits are atomic and durable, as long as no payload is longer than a segment
  (\<open>payloads_fit\<close>; what happens otherwise is the lemma \<open>oversized_group_is_cut\<close> below) and the groups are as
  the log makes them: records that decode to themselves, each identifier once, lengths within 32 bits
  (\<open>decodable_log\<close>). Whatever calls to the
  operating system fail during \<open>commitGroup\<close>, and whatever part of the unsynced bytes a crash right after
  it loses, recovery of the segment the log is writing to finds the groups committed before, followed
  by the whole new group or nothing of it; if the commit reported success, it finds the new
  group. If the commit moved on to a new segment, the previous one keeps its groups as long
  as it has records that are not settled.\<close>

theorem group_commit_atomic:
  assumes "wal_inv w" and "w_nextSegmentID w \<noteq> - 1"
    and "w_segments w (w_current w) = Some cur"
    and "holds_log (w_world w) (w_current w) now gs"
    and "valid_config cfg" and "decodable_log js t (gs @ [ps])" and "payloads_fit cfg (gs @ [ps])"
    and "commitGroup ps w = (err, w')" and "crash (w_world w') fs" and "script fs = []"
  shows "\<exists>base gs'.
      base = (if w_current w' = w_current w then gs else [])
    \<and> (gs' = base \<or> gs' = base @ [ps]) \<and> (err = None \<longrightarrow> gs' = base @ [ps])
    \<and> (\<forall>s. seg_id s = w_current w' \<and> seg_path s = segmentFilename (w_current w') \<longrightarrow>
          recovers_groups js cfg s states t fs gs')
    \<and> (w_current w' \<noteq> w_current w \<and> unsettled cur \<longrightarrow> holds_log fs (w_current w) now gs)"
  by (rule crash_after_commitGroup [OF assms(1-4) good_logI [OF assms(5-7)] assms(8-10)])

theorem group_commit_atomic_witness:
  "recovers_groups demo_codec demo_config (fresh_segment 1) Map.empty no_tables
     (keep_all (w_world (snd (commitGroup demo_group demo_wal)))) [demo_group]"
proof -
  let ?r = "commitGroup demo_group demo_wal"
  have cur: "w_segments demo_wal (w_current demo_wal) = Some (fresh_segment 1)"
    "w_nextSegmentID demo_wal \<noteq> - 1" "w_current demo_wal = 1"
    by (simp_all add: demo_wal_def)
  let ?fs = "keep_all (w_world (snd ?r))"
  have "decodable_log demo_codec no_tables ([] @ [demo_group])"
    using demo_good_log
    by (auto simp: demo_group_def good_log_def good_group_def good_record_def decodable_log_def decodable_record_def)
  moreover have "payloads_fit demo_config ([] @ [demo_group])"
    by (simp add: payloads_fit_def demo_group_def payload_length_def demo_prepared_def demo_payload_def
        walFrameHeaderSize_def demo_config_def)
  moreover have "valid_config demo_config" by (simp add: valid_config_def demo_config_def wal_sizes)
  moreover have "?r = (None, snd ?r)" using demo_commit(1) by (metis prod.collapse)
  moreover have "crash (w_world (snd ?r)) ?fs" using demo_commit(2) by (rule crash_keep_all)
  moreover have "script ?fs = []" by (simp add: keep_all_def)
  ultimately have "\<forall>s. seg_id s = 1 \<and> seg_path s = segmentFilename 1 \<longrightarrow>
      recovers_groups demo_codec demo_config s Map.empty no_tables ?fs [demo_group]"
    using group_commit_atomic [OF demo_inv cur(2,1) demo_holds, of demo_config demo_codec no_tables
        demo_group None "snd ?r" ?fs Map.empty] demo_commit(3)
    by simp
  then show ?thesis by simp
qed

text \<open>A committed group whose first payload is longer than a segment is taken for an unfinished tail by the next
  start-up, and cut off with whatever follows it.\<close>

lemma scan_oversized:
  assumes "data = pre @ encodeWALFrame kind sequence payload @ post" "offset = length pre"
    and "cfg_SegmentBytes cfg < int (length payload)" "length payload < 2 ^ 32" "0 \<le> cfg_SegmentBytes cfg"
  shows "scan_segment js cfg sid states data offset committed pending t = Inr (ScanTail committed, t)"
proof -
  have data: "data = pre @ frame_header kind sequence (of_nat (length payload)) (crc32 payload) @ payload @ post"
    using assms(1) by (simp add: encodeWALFrame_def)
  have header: "slice offset (offset + 28) data
      = frame_header kind sequence (of_nat (length payload)) (crc32 payload)"
    unfolding data by (rule slice_mid) (simp_all add: assms(2))
  have "int (length payload) < 2 ^ 32" using assms(4) by (simp add: zless_iff_Suc_zadd nat_less_iff flip: of_nat_less_iff [where 'a = int])
  then have "cfg_SegmentBytes cfg < 2 ^ 32" using assms(3) by linarith
  then have "(of_nat (length payload) :: u32) > of_int (cfg_SegmentBytes cfg)"
    using fits_iff [OF assms(5), of "length payload"] assms(3,4) by (simp add: fits_def)
  moreover have "offset < length data" unfolding data using assms(2) by (simp add: codec_simps)
  ultimately show ?thesis
    by (subst scan_segment.simps) (simp add: header codec_simps walFrameHeaderSize_def Let_def)
qed

lemma oversized_group_is_cut:
  assumes "good_log js cfg t gs" "valid_config cfg"
    and "decodable_record js p" "cfg_SegmentBytes cfg < int (payload_length p)" "payload_length p < 2 ^ 32"
    and "lookup_file fs (seg_path s) = Some f" "script fs = []"
    and "contents f = segment_image (seg_id s) now gs @ encode_group (p # ps)"
  shows "recovers_groups js cfg s states t fs gs
    \<and> (\<exists>f'. lookup_file (snd (recoverSegment js cfg s states t True fs)) (seg_path s) = Some f'
        \<and> contents f' = segment_image (seg_id s) now gs)"
proof -
  obtain payload where p: "pr_frame p = encodeWALFrame FrameData (record_id p) payload"
    using assms(3) by (auto simp: decodable_record_def)
  have len: "payload_length p = length payload" by (rule payload_length_frame [OF p])
  let ?data = "contents f" and ?stop = "length (segment_image (seg_id s) now gs)"
  let ?t = "recovered_tables (seg_id s) states gs t"
  have "scan_segment js cfg (seg_id s) states ?data walSegmentHeaderSize walSegmentHeaderSize [] t
      = scan_segment js cfg (seg_id s) states ?data ?stop ?stop [] ?t"
    using scan_groups [of ?data "encodeWALSegmentHeader (seg_id s) now" gs "encode_group (p # ps)"
        walSegmentHeaderSize js cfg t "seg_id s" states] assms(1,8)
    by (simp add: good_log_def segment_image_def wal_sizes recovered_tables_def)
  also have "\<dots> = Inr (ScanTail ?stop, ?t)"
    by (rule scan_oversized [of _ "segment_image (seg_id s) now gs" FrameData "record_id p" payload
          "group_data ps @ encodeWALCommitFrame (group_commit (p # ps))"])
      (use assms(2,4,5,8) len in \<open>simp_all add: encode_group_def group_data_Cons p valid_config_def wal_sizes\<close>)
  finally have scan: "scan_segment js cfg (seg_id s) states ?data walSegmentHeaderSize walSegmentHeaderSize [] t
      = Inr (ScanTail ?stop, ?t)" .
  have header: "decodeWALSegmentHeader (take walSegmentHeaderSize ?data) (seg_id s) = Inr ()"
    unfolding assms(8) by (rule recover_image_header)
  have read: "os_read_file (seg_path s) fs = (ReadOk ?data, fs)" using assms(6,7) by (simp add: os_read_file_def)
  have long: "\<not> length ?data < walSegmentHeaderSize" "?stop \<le> length ?data" unfolding assms(8) by simp_all
  have "?data = segment_image (seg_id s) now gs @ drop ?stop ?data" unfolding assms(8) by simp
  then show ?thesis
    using scan header read long assms(6,7,8)
    by (auto simp: recovers_groups_def recoverSegment_def truncateUncommittedTail_def os_open_def os_truncate_def
        os_sync_def os_close_def Let_def)
qed

text \<open>C11: The group commit keeps the log's tables consistent: the used bytes stay the sum of the
  segments' sizes, the reservation the sum of the checkpoint entries that the active records
  may still need, each segment's count the number of its active records, the index sorted;
  and it keeps used and reserved bytes together within \<open>MaxBytes\<close>, unless the compaction
  after a rotation failed (which leaves the log faulty).\<close>

theorem commitGroup_keeps_accounting:
  assumes "commitGroup ps w = (err, w')" and "wal_inv w"
    and "fresh_ids (List.map prepared_id ps) w"
    and "1 \<le> cfg_MaxRecordAttempts (w_config w)" and "w_nextSegmentID w \<noteq> - 1"
  shows "wal_inv w' \<and> (within_limit w \<and> (w_fault w' = None
      \<or> (\<forall>cur. w_segments w (w_current w) = Some cur \<longrightarrow>
           \<not> needs_rotation (length (encode_group ps)) cur w)) \<longrightarrow> within_limit w')"
  using assms by (rule commitGroup_inv)

theorem commitGroup_keeps_accounting_witness:
  "wal_inv (snd (commitGroup demo_group demo_wal)) \<and> within_limit (snd (commitGroup demo_group demo_wal))"
proof -
  let ?r = "commitGroup demo_group demo_wal"
  have "fresh_ids (List.map prepared_id demo_group) demo_wal"
    using demo_fresh by (simp add: demo_group_def)
  moreover have "\<not> needs_rotation n (fresh_segment 1) demo_wal" for n
    by (simp add: needs_rotation_def fresh_segment_def)
  moreover have "within_limit demo_wal" "1 \<le> cfg_MaxRecordAttempts (w_config demo_wal)"
    "w_nextSegmentID demo_wal \<noteq> - 1" "w_segments demo_wal (w_current demo_wal) = Some (fresh_segment 1)"
    by (simp_all add: within_limit_def demo_wal_def demo_config_def)
  ultimately show ?thesis
    using commitGroup_keeps_accounting [OF _ demo_inv, of demo_group "fst ?r" "snd ?r"] by simp
qed

section \<open>Settling records\<close>

text \<open>C12: What a successful call does to the active records, whatever the segments they are in
  and whatever calls failed before: \<open>Ack\<close> removes exactly the given records, \<open>MarkRetry\<close>
  counts one attempt more for exactly those that are active, \<open>Quarantine\<close> removes exactly the
  given records and counts each of them as quarantined.\<close>

theorem settle_effects:
  "(\<forall>w'. Ack records w = (None, w') \<longrightarrow>
      w_active w' = (\<lambda>j. if j \<in> RecordID ` set records then None else w_active w j))
   \<and> (\<forall>records' w'. MarkRetry records w = (None, records', w') \<longrightarrow>
      w_active w' = (\<lambda>j. if j \<in> RecordID ` set records
        then map_option (\<lambda>md. md\<lparr>md_attempts := md_attempts md + 1\<rparr>) (w_active w j)
        else w_active w j))
   \<and> (\<forall>w'. Quarantine records reason w = (None, w') \<longrightarrow>
      w_active w' = (\<lambda>j. if j \<in> RecordID ` set records then None else w_active w j)
      \<and> w_quarantined w' = w_quarantined w + int (card (dom (w_active w))) - int (card (dom (w_active w'))))"
proof (intro conjI allI impI)
  fix w'
  assume "Ack records w = (None, w')"
  then show "w_active w' = (\<lambda>j. if j \<in> RecordID ` set records then None else w_active w j)"
    using writeRecordStates_active [of records StateAck walReasonNone False w]
    by (auto simp: Ack_def split: prod.splits cong: if_cong)
next
  fix records' w'
  assume "MarkRetry records w = (None, records', w')"
  then show "w_active w' = (\<lambda>j. if j \<in> RecordID ` set records
        then map_option (\<lambda>md. md\<lparr>md_attempts := md_attempts md + 1\<rparr>) (w_active w j)
        else w_active w j)"
    using writeRecordStates_active [of records StateRetry walReasonNone True w]
    by (simp add: MarkRetry_def cong: if_cong)
next
  fix w'
  assume q: "Quarantine records reason w = (None, w')"
  then show "w_active w' = (\<lambda>j. if j \<in> RecordID ` set records then None else w_active w j)"
    using writeRecordStates_active [of records StateQuarantine _ False w]
    by (auto simp: Quarantine_def Let_def split: prod.splits cong: if_cong)
  show "w_quarantined w' = w_quarantined w + int (card (dom (w_active w))) - int (card (dom (w_active w')))"
    using Quarantine_balance [OF q] by simp
qed

theorem settle_effects_witness:
  "\<exists>w1 rs w2 w3. Ack [demo_record 1] demo_active = (None, w1) \<and> w_active w1 = Map.empty
     \<and> MarkRetry [demo_record 1] demo_active = (None, rs, w2)
     \<and> map_option md_attempts (w_active w2 1) = Some 2
     \<and> Quarantine [demo_record 1] ''permanent'' demo_active = (None, w3) \<and> w_quarantined w3 = 1"
proof -
  obtain w1 where 1: "Ack [demo_record 1] demo_active = (None, w1)" using demo_settled(1) by blast
  obtain rs w2 where 2: "MarkRetry [demo_record 1] demo_active = (None, rs, w2)" using demo_settled(2) by blast
  obtain w3 where 3: "Quarantine [demo_record 1] ''permanent'' demo_active = (None, w3)" using demo_settled(3) by blast
  have "w_active w1 = Map.empty" using settle_effects [of "[demo_record 1]" demo_active] 1 by (auto simp: fun_eq_iff)
  moreover have "map_option md_attempts (w_active w2 1) = Some 2" using settle_effects [of "[demo_record 1]" demo_active] 2 by auto
  moreover have q: "w_active w3 = (\<lambda>j. if j \<in> RecordID ` set [demo_record 1] then None else w_active demo_active j)
      \<and> w_quarantined w3 = w_quarantined demo_active + int (card (dom (w_active demo_active))) - int (card (dom (w_active w3)))"
    using settle_effects [of "[demo_record 1]" demo_active "''permanent''"] 3 by blast
  then have "w_active w3 = Map.empty" by (auto simp: fun_eq_iff)
  then have "w_quarantined w3 = 1" using q by simp
  ultimately show ?thesis using 1 2 3 by blast
qed

text \<open>Settling distinct records keeps the accounting invariant even when the checkpoint
  cannot be written; when it is written, the bytes it takes were reserved: used and reserved
  bytes together do not grow, so the limit is kept. (A retry needs an attempt to be left; the
  last attempt's entry is the one that settles the record.)\<close>

theorem settling_keeps_accounting:
  assumes "writeRecordStates records kind reason inc w = (err, records', w')" and "wal_inv w"
    and "settleable inc w records" and "inc = (kind = StateRetry)"
  shows "wal_inv w' \<and> (err = None \<longrightarrow> w_usedBytes w' + w_reservedBytes w' \<le> w_usedBytes w + w_reservedBytes w)
    \<and> (err = None \<and> within_limit w \<longrightarrow> within_limit w')"
  using writeRecordStates_inv [OF assms] by (auto simp: within_limit_def)

theorem settling_keeps_accounting_witness:
  "wal_inv (snd (snd (writeRecordStates [demo_record 1] StateRetry walReasonNone True demo_active)))
    \<and> within_limit (snd (snd (writeRecordStates [demo_record 1] StateRetry walReasonNone True demo_active)))"
proof -
  have "within_limit demo_active" by (simp add: within_limit_def demo_config_def)
  then show ?thesis
    using settling_keeps_accounting [of "[demo_record 1]" StateRetry walReasonNone True demo_active None
        "fst (snd (writeRecordStates [demo_record 1] StateRetry walReasonNone True demo_active))"
        "snd (snd (writeRecordStates [demo_record 1] StateRetry walReasonNone True demo_active))"]
      demo_states [of StateRetry walReasonNone True] demo_active_inv demo_settleable
    by (metis prod.collapse)
qed

text \<open>C13: A checkpoint that cannot be written changes nothing of the records: they stay active
  with their attempts, the reservation, the index and the quarantine count stay, the caller's
  records are returned as they were, and the log is not made faulty.\<close>

theorem settling_error_keeps_records:
  assumes "writeRecordStates records kind reason inc w = (Some e, records', w')" and "wal_inv w"
  shows "records_same w w' \<and> records' = records"
  using assms by (rule writeRecordStates_error)

theorem settling_error_keeps_records_witness:
  "w_active (snd (snd (writeRecordStates [demo_record 1] StateAck walReasonNone False
      (demo_active\<lparr>w_world := \<lparr>disk = demo_files, script = [IoFail 3]\<rparr>\<rparr>)))) 1 = Some demo_metadata"
proof -
  let ?w = "demo_active\<lparr>w_world := \<lparr>disk = demo_files, script = [IoFail 3]\<rparr>\<rparr>"
  let ?r = "writeRecordStates [demo_record 1] StateAck walReasonNone False ?w"
  have inv: "wal_inv ?w"
    using demo_active_inv tables_ok_cong [of ?w demo_active] index_ok_cong [of ?w demo_active]
    by (simp add: wal_inv_def)
  have "fst ?r = Some (ErrIO ''append WAL checkpoint'')"
    by (simp add: writeRecordStates_def write_batch_def add_entry_def Let_def os_write_def
        lift_io_def next_io_def encode_entries_def)
  then have "?r = (Some (ErrIO ''append WAL checkpoint''), fst (snd ?r), snd (snd ?r))" by (metis prod.collapse)
  then have "records_same ?w (snd (snd ?r))" using settling_error_keeps_records [OF _ inv] by blast
  then show ?thesis by (simp add: records_same_def)
qed

section \<open>The writer and its callers\<close>

text \<open>Every request of a batch is answered exactly once, whatever fails: an envelope that
  does not encode, a group that is not committed, or a batch cut into several groups.\<close>

theorem batch_answers_once:
  "mset (List.map fst (fst (processAppendRequests js requests w))) = mset (List.map rq_tag requests)"
proof -
  obtain out w' where run: "process_loop js requests [] 0 w = (out, w')" by fastforce
  then have "reply_tags out = tags_in requests" using process_loop_tags [OF run] by simp
  then show ?thesis using run by (simp add: processAppendRequests_def reply_tags_def tags_in_def)
qed

text \<open>A whole batch of requests keeps the accounting invariant of the log, whichever of its
  groups are committed, as long as the record and segment numbers do not run out.\<close>

theorem batch_keeps_accounting:
  assumes "wal_inv w" and "1 \<le> cfg_MaxRecordAttempts (w_config w)"
    and "room_for (length requests) (w_nextID w)"
    and "room_for (Suc (length requests)) (w_nextSegmentID w)"
  shows "wal_inv (snd (processAppendRequests js requests w))"
proof -
  obtain out w' where run: "process_loop js requests [] 0 w = (out, w')" by fastforce
  have "fresh_ids (List.map prepared_id []) w" by (simp add: fresh_ids_def)
  then show ?thesis
    using process_loop_inv [OF run assms(1) _ assms(2-4)] run by (simp add: processAppendRequests_def)
qed

definition demo_request :: "nat \<Rightarrow> walAppendRequest" where
  "demo_request tag = \<lparr>rq_tag = tag, rq_envelope = demo_envelope, rq_now = 9\<rparr>"

theorem batch_keeps_accounting_witness:
  "wal_inv (snd (processAppendRequests demo_codec [demo_request 1, demo_request 2] demo_wal))"
  using batch_keeps_accounting [OF demo_inv, of "[demo_request 1, demo_request 2]" demo_codec]
  by (simp add: demo_config_def room_for_def)

text \<open>C14: In every state that the writer and the callers of the log can reach, each request is in
  one place only (the queue, the writer's group or the replies), every caller that waits has
  its request in one of them, every request not answered yet has its caller waiting, and once
  the log is closed nobody waits, so that draining it cannot leave a caller without a reply.\<close>

theorem requests_are_never_lost:
  assumes "wal_reachable js w0 s" and "\<not> w_closed w0"
  shows "(\<forall>tag. count (all_tags s) tag \<le> 1)
    \<and> set (sys_waiting s) \<subseteq> set_mset (all_tags s)
    \<and> rq_tag ` (set (w_appendQueue (sys_wal s)) \<union> set (sys_group s)) \<subseteq> set (sys_waiting s)
    \<and> (w_closed (sys_wal s) \<longrightarrow> sys_waiting s = [] \<and> w_appendQueue (sys_wal s) = [] \<and> sys_group s = [])
    \<and> (sys_done s \<longrightarrow> w_closed (sys_wal s))"
  using reachable_ok [OF assms] by (auto simp: system_ok_def tags_in_def)

definition demo_system :: wal_system where
  "demo_system = \<lparr>sys_wal = demo_wal, sys_group = [], sys_waiting = [], sys_replies = [], sys_done = False\<rparr>"

definition demo_queued :: wal_system where
  "demo_queued = demo_system\<lparr>sys_wal := demo_wal\<lparr>w_appendQueue := [demo_request 1]\<rparr>, sys_waiting := [1]\<rparr>"

lemma demo_queued_reachable: "wal_reachable demo_codec demo_wal demo_queued"
proof -
  have "append_admit False False (demo_request 1) demo_wal = (None, demo_wal\<lparr>w_appendQueue := [demo_request 1]\<rparr>)"
    by (simp add: append_admit_def demo_config_def)
  then have "wal_step demo_codec demo_system demo_queued"
    using wal_step.admit [of "demo_request 1" demo_system False False "demo_wal\<lparr>w_appendQueue := [demo_request 1]\<rparr>" demo_codec]
    by (simp add: demo_system_def demo_queued_def demo_request_def)
  moreover have "wal_reachable demo_codec demo_wal demo_system"
    unfolding demo_system_def by (rule wal_reachable.start) simp
  ultimately show ?thesis by (rule wal_reachable.step [rotated])
qed

theorem requests_are_never_lost_witness:
  "count (all_tags demo_queued) 1 \<le> 1 \<and> 1 \<in># all_tags demo_queued"
  using requests_are_never_lost [OF demo_queued_reachable]
  by (simp add: demo_queued_def demo_system_def)

text \<open>C15: \<open>NextAfter\<close> finds the least active record above the given identifier and nothing
  only when there is none; a record that cannot be read makes the log faulty, so it is never
  skipped; a record read carries the attempts counted for it.\<close>

theorem NextAfter_least:
  assumes "NextAfter js after w = ((found, err), w')" and "wal_inv w" and "w_fault w = None"
  shows "case found of
      None \<Rightarrow> err = None \<and> w' = w \<and> (\<forall>j. after < j \<longrightarrow> w_active w j = None)
    | Some x \<Rightarrow> after < found_id x \<and> w_active w (found_id x) \<noteq> None
        \<and> (\<forall>j. after < j \<longrightarrow> w_active w j \<noteq> None \<longrightarrow> found_id x \<le> j)
        \<and> (case x of Inl _ \<Rightarrow> err = Some (ErrCorruptWAL RecordUnreadable) \<and> w_fault w' = err
           | Inr r \<Rightarrow> err = None \<and> w_fault w' = None
               \<and> (\<exists>md. w_active w (RecordID r) = Some md \<and> Attempts r = md_attempts md))"
  using assms by (intro NextAfter_spec) (simp_all add: wal_inv_def)

theorem NextAfter_least_witness:
  "\<exists>x err w'. NextAfter demo_codec 0 demo_active = ((Some x, err), w') \<and> found_id x = 1"
proof -
  obtain found err w' where run: "NextAfter demo_codec 0 demo_active = ((found, err), w')"
    by (metis prod.collapse)
  note spec = NextAfter_least [OF run demo_active_inv]
  show ?thesis
  proof (cases found)
    case None
    then have "\<forall>j. 0 < j \<longrightarrow> w_active demo_active j = None" using spec by simp
    then have "w_active demo_active 1 = None" by (metis word_neq_0_conv zero_neq_one)
    then show ?thesis by simp
  next
    case (Some x)
    then have "w_active demo_active (found_id x) \<noteq> None" using spec by simp
    then show ?thesis using run Some by (auto split: if_splits)
  qed
qed

section \<open>Compaction\<close>

text \<open>C16: Compaction removes from the tables only segments that are closed, are not written to,
  and have neither active nor quarantined records; when no call fails it removes all of them
  and their bytes; used bytes never grow and the accounting invariant is kept even when a
  file cannot be removed.\<close>

theorem compaction_removes_settled:
  assumes "wal_inv w"
  shows "wal_inv (compactSegments w) \<and> w_usedBytes (compactSegments w) \<le> w_usedBytes w
    \<and> (\<forall>j s. w_segments w j = Some s \<longrightarrow>
         (\<not> (seg_closed s \<and> j \<noteq> w_current w \<and> \<not> unsettled s)
            \<longrightarrow> w_segments (compactSegments w) j = Some s)
         \<and> (seg_closed s \<and> j \<noteq> w_current w \<and> \<not> unsettled s \<and> w_fault (compactSegments w) = None
            \<longrightarrow> w_segments (compactSegments w) j = None))"
proof -
  obtain n w1 where l: "compactSegmentsLocked w = (n, w1)" by fastforce
  note same = compactSegments_as_locked [OF l]
  have r: "removable w j s \<longleftrightarrow> seg_closed s \<and> j \<noteq> w_current w \<and> \<not> unsettled s" for j s
    by (auto simp: removable_def unsettled_def)
  show ?thesis
    using compactSegments_inv [OF assms] compactSegmentsLocked_keeps [OF l]
      compactSegmentsLocked_frees [OF l assms] same(1,4) r by simp
qed

definition demo_two :: WAL where
  "demo_two = demo_wal\<lparr>w_segments := [1 \<mapsto> (fresh_segment 1)\<lparr>seg_closed := True\<rparr>, 2 \<mapsto> fresh_segment 2],
     w_segmentIDs := [1, 2], w_current := 2, w_nextSegmentID := 3, w_usedBytes := 112\<rparr>"

lemma demo_two_inv: "wal_inv demo_two"
proof -
  have a: "actives_of Map.empty i = {}" for i by (auto simp: actives_of_def)
  have m: "map_sum seg_total [1 \<mapsto> (fresh_segment 1)\<lparr>seg_closed := True\<rparr>, 2 \<mapsto> fresh_segment 2] = 112"
    by (simp add: map_sum_def seg_total_def)
  show ?thesis
    by (auto simp: wal_inv_def tables_ok_def index_ok_def m segment_ok_def a demo_two_def)
qed

theorem compaction_removes_settled_witness:
  "w_segments (compactSegments demo_two) 1 = None
    \<and> w_segments (compactSegments demo_two) 2 = Some (fresh_segment 2)"
proof -
  have "w_fault (compactSegments demo_two) = None"
    by (simp add: compactSegments_def compactSegmentsLocked_def demo_two_def removable_def remove_segment_def
        Let_def lift_io_def os_close_def os_remove_def demo_files_def sync_directory_def upd_segment_def
        observeUsageLocked_def next_io_def)
  then show ?thesis
    using compaction_removes_settled [OF demo_two_inv]
    by (simp add: demo_two_def unsettled_def)
qed

end
