(* ===== verification/Wal_Format_Properties.thy ===== *)
theory Wal_Format_Properties
  imports Wal_Demo
begin

text \<open>
  The properties of the log's binary format, its file names and its checkpoint files.
\<close>

section \<open>Round trips\<close>

text \<open>C19: What the log encodes it decodes to the same value: segment and checkpoint headers,
  frame headers, commit markers, checkpoint entries, and, with a JSON codec that reads back
  what it wrote, records (whose attempts are counted in the checkpoints).\<close>

theorem format_round_trips:
  assumes "codec_ok js"
  shows "decodeWALSegmentHeader (encodeWALSegmentHeader i now) i = Inr ()
    \<and> decodeWALStateHeader (encodeWALStateHeader i) i = Inr ()
    \<and> decodeWALFrameHeader (frame_header k s n c) = Inr (k, s, n, c)
    \<and> decodeWALCommit (encodeWALCommit m) = Inr m
    \<and> decodeWALStateEntry (encodeWALStateEntry e) = Inr e
    \<and> (RecordID r \<noteq> 0 \<and> 0 < EnqueuedAt r \<and> encodeWALDataFrame js r = Inr frame \<longrightarrow>
         (\<exists>payload. frame = encodeWALFrame FrameData (RecordID r) payload
            \<and> decodeWALRecord js payload (RecordID r) = Inr (r\<lparr>Attempts := 0\<rparr>)))"
  using decode_encode_record [OF assms] by (auto simp: codec_simps)

theorem format_round_trips_witness:
  "\<exists>payload. encodeWALDataFrame demo_codec (demo_record 1) = Inr (encodeWALFrame FrameData 1 payload)
    \<and> decodeWALRecord demo_codec payload 1 = Inr (demo_record 1)"
proof -
  obtain frame where f: "encodeWALDataFrame demo_codec (demo_record 1) = Inr frame"
    using demo_encode by blast
  moreover have r: "RecordID (demo_record 1) = 1" "0 < EnqueuedAt (demo_record 1)"
    "(demo_record 1)\<lparr>Attempts := 0\<rparr> = demo_record 1"
    by (simp_all add: demo_record_def)
  moreover note format_round_trips [OF demo_codec_ok, THEN conjunct2, THEN conjunct2, THEN conjunct2,
      THEN conjunct2, THEN conjunct2, THEN mp, of "demo_record 1" frame]
  ultimately have "\<exists>payload. frame = encodeWALFrame FrameData 1 payload
      \<and> decodeWALRecord demo_codec payload 1 = Inr (demo_record 1)" by simp
  then show ?thesis using f r by auto
qed

text \<open>C18: A single damaged byte anywhere in a segment header, a frame header, a checkpoint
  header or a checkpoint entry is detected: the decoder refuses it.\<close>

theorem damaged_byte_is_refused:
  assumes "i < length bs" and "b \<noteq> bs ! i"
  shows "(decodeWALSegmentHeader bs j = Inr u \<longrightarrow> (\<exists>e. decodeWALSegmentHeader (bs[i := b]) j = Inl e))
    \<and> (decodeWALStateHeader bs j = Inr u \<longrightarrow> (\<exists>e. decodeWALStateHeader (bs[i := b]) j = Inl e))
    \<and> (decodeWALFrameHeader bs = Inr h \<longrightarrow> (\<exists>e. decodeWALFrameHeader (bs[i := b]) = Inl e))
    \<and> (decodeWALStateEntry bs = Inr se \<longrightarrow> (\<exists>e. decodeWALStateEntry (bs[i := b]) = Inl e))"
  using segment_header.detects_one_byte [OF _ assms] state_header.detects_one_byte [OF _ assms]
    wal_frame_header.detects_one_byte [OF _ assms] state_entry.detects_one_byte [OF _ assms]
  by blast

definition demo_entry :: walStateEntry where
  "demo_entry = \<lparr>se_kind = StateAck, se_reason = 0, se_id = 1, se_attempts = 1\<rparr>"

theorem damaged_byte_is_refused_witness:
  "\<exists>e. decodeWALStateEntry ((encodeWALStateEntry demo_entry)[4 := encodeWALStateEntry demo_entry ! 4 + 1]) = Inl e"
  using damaged_byte_is_refused [of 4 "encodeWALStateEntry demo_entry" "encodeWALStateEntry demo_entry ! 4 + 1"]
  by (auto simp: codec_simps)

text \<open>A segment's and a checkpoint's file names are parsed back to the segment's number, and
  nothing else is taken for one of them: the names the recovery acts on are exactly those the
  log created, and different segments have different files.\<close>

theorem file_names_round_trip:
  assumes "i \<noteq> 0"
  shows "(parseSegmentFilename name walSegmentSuffix = Some i \<longleftrightarrow> name = segmentFilename i)
    \<and> (parseSegmentFilename name walStateSuffix = Some i \<longleftrightarrow> name = stateFilename i)"
  using parse_segmentFilename [OF assms] parse_stateFilename [OF assms]
    parseSegmentFilename_Some [of name walSegmentSuffix i] parseSegmentFilename_Some [of name walStateSuffix i]
  by (auto simp: segmentFilename_def stateFilename_def walSegmentSuffix_def walStateSuffix_def filenameWidth_def)

theorem file_names_round_trip_witness:
  "parseSegmentFilename ''segment-00000000000000000007.wal'' walSegmentSuffix = Some 7"
proof -
  have "segmentFilename 7 = ''segment-00000000000000000007.wal''" by code_simp
  then show ?thesis
    using file_names_round_trip [of 7 "segmentFilename 7"] by simp
qed

section \<open>Checkpoint recovery\<close>

text \<open>C17: A checkpoint file that ends in the middle of an entry (the last write was torn by a
  crash) is recovered: of the whole entries the last one of each record counts, and the file
  is cut back to them, so that later entries are aligned.\<close>

theorem torn_checkpoint_recovered:
  assumes "lookup_file fs (seg_statePath s) = Some f"
    and "contents f = state_image (seg_id s) es @ tail"
    and "length tail < walStateEntrySize" and "script fs = []"
  shows "\<exists>fs' f'. recoverState s fs
      = (Inr (last_states es, length (state_image (seg_id s) es), length tail), fs')
    \<and> lookup_file fs' (seg_statePath s) = Some f' \<and> contents f' = state_image (seg_id s) es"
  using assms by (rule recoverState_image)

theorem torn_checkpoint_recovered_witness:
  "\<exists>fs'. recoverState (fresh_segment 1)
      \<lparr>disk = [(stateFilename 1, \<lparr>contents = state_image 1 [demo_entry] @ [1, 2, 3], synced = 24\<rparr>)], script = []\<rparr>
    = (Inr ([1 \<mapsto> demo_entry], 48, 3), fs')"
proof -
  have "last_states [demo_entry] = [1 \<mapsto> demo_entry]" by (simp add: last_states_def demo_entry_def)
  moreover have "length (state_image 1 [demo_entry]) = 48" by (simp add: state_image_def encode_entries_def)
  ultimately show ?thesis
    using torn_checkpoint_recovered [of
        "\<lparr>disk = [(stateFilename 1, \<lparr>contents = state_image 1 [demo_entry] @ [1, 2, 3], synced = 24\<rparr>)], script = []\<rparr>"
        "fresh_segment 1" "\<lparr>contents = state_image 1 [demo_entry] @ [1, 2, 3], synced = 24\<rparr>" "[demo_entry]" "[1, 2, 3]"]
    by (auto simp: walStateEntrySize_def)
qed

end
