(* ===== verification/Float_Format.thy ===== *)
theory Float_Format
  imports Go_Lib Float64
begin

text \<open>
  \<open>strconv.FormatFloat\<close> with precision \<open>-1\<close>: the shortest decimal that reads back as the same
  number, in the formats \<open>'f'\<close> and \<open>'g'\<close>.
\<close>

definition pow10 :: "int \<Rightarrow> rat" where
  "pow10 e = (if e \<ge> 0 then 10 ^ nat e else 1 / 10 ^ nat (- e))"

text \<open>The decimal exponent of a positive rational: \<open>10 ^ e \<le> x < 10 ^ (e + 1)\<close>.\<close>

definition exponent10 :: "rat \<Rightarrow> int" where
  "exponent10 x =
     (let (n, d) = quotient_of x;
          e = int (length (decimal (nat n))) - int (length (decimal (nat d)))
      in if pow10 e \<le> x then e else e - 1)"

text \<open>With \<open>k\<close> digits: the nearest decimal, or its neighbour on the other side of \<open>x\<close>, if it
  rounds to \<open>x\<close>; the result is \<open>m\<close> and \<open>e\<close> with the value \<open>m * 10 ^ e\<close>.\<close>

definition decimal_with :: "nat \<Rightarrow> rat \<Rightarrow> (int \<times> int) option" where
  "decimal_with k x =
     (let e = exponent10 x - int k + 1;
          q = x / pow10 e;
          near = round_even q;
          other = (if of_int near \<le> q then near + 1 else near - 1)
      in if round_f64 (of_int near * pow10 e) = Fin x then Some (near, e)
         else if round_f64 (of_int other * pow10 e) = Fin x then Some (other, e)
         else None)"

text \<open>Seventeen digits always suffice.\<close>

fun shortest_from :: "nat \<Rightarrow> nat \<Rightarrow> rat \<Rightarrow> int \<times> int" where
  "shortest_from 0 k x = (round_even (x / pow10 (exponent10 x - 16)), exponent10 x - 16)"
| "shortest_from (Suc n) k x =
     (case decimal_with k x of Some r \<Rightarrow> r | None \<Rightarrow> shortest_from n (Suc k) x)"

definition strip_zero :: "int \<times> int \<Rightarrow> int \<times> int" where
  "strip_zero r = (if fst r mod 10 = 0 then (fst r div 10, snd r + 1) else r)"

definition shortest :: "rat \<Rightarrow> int \<times> int" where
  "shortest x = strip_zero (shortest_from 16 1 x)"

text \<open>The digits with the decimal point after the first \<open>p\<close> of them.\<close>

definition point_at :: "string \<Rightarrow> int \<Rightarrow> string" where
  "point_at ds p =
     (if p \<le> 0 then ''0.'' @ replicate (nat (- p)) CHR ''0'' @ ds
      else if p \<ge> int (length ds) then ds @ replicate (nat p - length ds) CHR ''0''
      else take (nat p) ds @ ''.'' @ drop (nat p) ds)"

definition format_exponent :: "int \<Rightarrow> string" where
  "format_exponent e = (if e < 0 then ''e-'' else ''e+'')
     @ (if \<bar>e\<bar> < 10 then ''0'' else []) @ decimal (nat \<bar>e\<bar>)"

definition format_abs :: "bool \<Rightarrow> rat \<Rightarrow> string" where
  "format_abs general x =
     (if x = 0 then ''0''
      else let (m, e) = shortest x;
               ds = decimal (nat m);
               p = int (length ds) + e
      in if general \<and> (p - 1 < - 4 \<or> p - 1 \<ge> 21)
         then take 1 ds @ (if length ds > 1 then ''.'' @ drop 1 ds else []) @ format_exponent (p - 1)
         else point_at ds p)"

text \<open>\<open>general\<close> is the format of \<open>fmt\<close>'s \<open>%v\<close>, otherwise \<open>'f'\<close>.\<close>

fun format_float :: "bool \<Rightarrow> f64 \<Rightarrow> string" where
  "format_float general (Fin q) = (if q < 0 then ''-'' else []) @ format_abs general \<bar>q\<bar>"
| "format_float general PInf = ''+Inf''"
| "format_float general NInf = ''-Inf''"
| "format_float general NaN = ''NaN''"

end
