(* ===== verification/Go_Strings.thy ===== *)
theory Go_Strings
  imports Go_Lib Float64
begin

text \<open>
  The parts of Go's \<open>strings\<close>, \<open>unicode/utf8\<close>, \<open>unicode/utf16\<close> and \<open>strconv\<close> that the
  validation and the topology use, on strings of bytes.
\<close>

section \<open>strings.TrimSpace\<close>

text \<open>The encodings of the characters that \<open>unicode.IsSpace\<close> accepts: six of ASCII, and those
  of two and three bytes.\<close>

definition bytes_of :: "nat list \<Rightarrow> string" where
  "bytes_of ns = List.map char_of ns"

definition spaces :: "string list" where
  "spaces = List.map (\<lambda>n. bytes_of [n]) [9, 10, 11, 12, 13, 32]
     @ [bytes_of [0xC2, 0x85], bytes_of [0xC2, 0xA0], bytes_of [0xE1, 0x9A, 0x80]]
     @ List.map (\<lambda>n. bytes_of [0xE2, 0x80, n])
         [0x80, 0x81, 0x82, 0x83, 0x84, 0x85, 0x86, 0x87, 0x88, 0x89, 0x8A, 0xA8, 0xA9, 0xAF]
     @ [bytes_of [0xE2, 0x81, 0x9F], bytes_of [0xE3, 0x80, 0x80]]"

lemma spaces_nonempty: "[] \<notin> set spaces"
  by (simp add: spaces_def bytes_of_def)

text \<open>The first of some encodings that a string starts with.\<close>

definition leading :: "string list \<Rightarrow> string \<Rightarrow> string option" where
  "leading ps s = find (has_prefix s) ps"

lemma leading_Some: "leading ps s = Some p \<Longrightarrow> p \<in> set ps \<and> s = p @ drop (length p) s"
  using has_prefix_split [of s p]
  by (auto simp: leading_def find_Some_iff trim_prefix_def in_set_conv_nth)

lemma leading_shorter:
  assumes "leading ps s = Some p" "p \<noteq> []"
  shows "length (drop (length p) s) < length s"
proof -
  have "s \<noteq> []" using leading_Some [OF assms(1)] assms(2) by auto
  then show ?thesis using assms(2) by simp
qed

text \<open>A run of the given characters at the front is cut off.\<close>

function trim_left :: "string list \<Rightarrow> string \<Rightarrow> string" where
  "trim_left ps s =
     (case leading ps s of
        Some p \<Rightarrow> if p = [] then s else trim_left ps (drop (length p) s)
      | None \<Rightarrow> s)"
  by pat_completeness auto
termination
  by (relation "measure (\<lambda>(ps, s). length s)") (simp_all add: leading_shorter del: length_drop)

declare trim_left.simps [simp del]

definition trim_right :: "string list \<Rightarrow> string \<Rightarrow> string" where
  "trim_right ps s = rev (trim_left (List.map rev ps) (rev s))"

definition trim_space :: "string \<Rightarrow> string" where
  "trim_space s = trim_right spaces (trim_left spaces s)"

lemma trim_left_drop: "\<exists>n. trim_left ps s = drop n s"
proof (induction ps s rule: trim_left.induct)
  case (1 ps s)
  show ?case
  proof (cases "\<exists>p. leading ps s = Some p \<and> p \<noteq> []")
    case True
    then obtain p where p: "leading ps s = Some p" "p \<noteq> []" by blast
    then obtain n where "trim_left ps (drop (length p) s) = drop n (drop (length p) s)"
      using 1 by blast
    then have "trim_left ps s = drop (n + length p) s" using p by (subst trim_left.simps) simp
    then show ?thesis by blast
  next
    case False
    then have "trim_left ps s = drop 0 s" by (subst trim_left.simps) (simp split: option.split)
    then show ?thesis by blast
  qed
qed

lemma trim_left_stop: "leading ps s = None \<Longrightarrow> trim_left ps s = s"
  by (simp add: trim_left.simps)

lemma trim_left_leading: "[] \<notin> set ps \<Longrightarrow> leading ps (trim_left ps s) = None"
proof (induction ps s rule: trim_left.induct)
  case (1 ps s)
  show ?case
  proof (cases "leading ps s")
    case None
    then show ?thesis by (simp add: trim_left_stop)
  next
    case (Some p)
    then have "p \<noteq> []" using leading_Some 1(2) by metis
    then show ?thesis using 1(1) [OF Some _ 1(2)] Some by (subst trim_left.simps) simp
  qed
qed

lemma set_trim_left: "set (trim_left ps s) \<subseteq> set s"
  by (metis trim_left_drop set_drop_subset)

lemma set_trim_right: "set (trim_right ps s) \<subseteq> set s"
  using set_trim_left by (fastforce simp: trim_right_def)

lemma length_trim_left: "length (trim_left ps s) \<le> length s"
  by (metis trim_left_drop diff_le_self length_drop)

lemma length_trim_space: "length (trim_space s) \<le> length s"
  unfolding trim_space_def trim_right_def
  by (metis (no_types) length_rev length_trim_left order_trans)

section \<open>strings.ToLower\<close>

text \<open>
  The lower case of a string as far as its ASCII characters go: the ASCII capitals, and the
  two other characters whose lower case is ASCII (U+0130, bytes C4 B0, and U+212A, bytes
  E2 84 AA). Other characters stay outside ASCII under \<open>strings.ToLower\<close> and are left as they
  are here; the collector compares the result with ASCII words or replaces what is not
  ASCII.
\<close>

definition lower_char :: "char \<Rightarrow> char" where
  "lower_char c = (let n = of_char c :: nat in if 65 \<le> n \<and> n \<le> 90 then char_of (n + 32) else c)"

fun to_lower :: "string \<Rightarrow> string" where
  "to_lower [] = []"
| "to_lower (c # s) =
     (if take 2 (c # s) = bytes_of [0xC4, 0xB0] then CHR ''i'' # to_lower (drop 1 s)
      else if take 3 (c # s) = bytes_of [0xE2, 0x84, 0xAA] then CHR ''k'' # to_lower (drop 2 s)
      else lower_char c # to_lower s)"

lemma lower_char_ascii:
  "lower_char c \<in> {CHR ''A''..CHR ''Z''} \<Longrightarrow> False"
  by (auto simp: lower_char_def Let_def less_eq_char_def split: if_splits)

lemma lower_char_id [simp]:
  "\<not> (65 \<le> (of_char c :: nat) \<and> (of_char c :: nat) \<le> 90) \<Longrightarrow> lower_char c = c"
  by (auto simp: lower_char_def)

lemma to_lower_ascii: "list_all (\<lambda>c. (of_char c :: nat) < 128) s \<Longrightarrow> to_lower s = List.map lower_char s"
proof (induction s)
  case (Cons c s)
  have "take 2 (c # s) \<noteq> bytes_of [0xC4, 0xB0]" "take 3 (c # s) \<noteq> bytes_of [0xE2, 0x84, 0xAA]"
    using Cons.prems by (auto simp: bytes_of_def)
  then show ?case using Cons by simp
qed simp

section \<open>Searching, replacing, joining\<close>

fun contains :: "string \<Rightarrow> string \<Rightarrow> bool" where
  "contains [] p \<longleftrightarrow> p = []"
| "contains (c # s) p \<longleftrightarrow> has_prefix (c # s) p \<or> contains s p"

fun join :: "string \<Rightarrow> string list \<Rightarrow> string" where
  "join sep [] = []"
| "join sep [s] = s"
| "join sep (s # t # ss) = s @ sep @ join sep (t # ss)"

lemma set_join: "set (join sep ss) \<subseteq> \<Union> (set ` set ss) \<union> set sep"
  by (induction sep ss rule: join.induct) auto

lemma split_on_join:
  assumes "ss \<noteq> []" "\<forall>s\<in>set ss. c \<notin> set s"
  shows "split_on c (join [c] ss) = ss"
  using assms
  by (induction "[c]" ss rule: join.induct) (simp_all add: split_on_no_sep split_on_append_sep)

section \<open>UTF-8 and UTF-16\<close>

text \<open>\<open>utf8.DecodeRune\<close>: the character and its width; a malformed byte is one U+FFFD.\<close>

definition cont_byte :: "nat \<Rightarrow> bool" where
  "cont_byte n \<longleftrightarrow> 0x80 \<le> n \<and> n \<le> 0xBF"

definition decode_rune :: "nat list \<Rightarrow> nat \<times> nat" where
  "decode_rune bs =
     (case bs of
        [] \<Rightarrow> (0xFFFD, 0)
      | a # rest \<Rightarrow>
          if a < 0x80 then (a, 1)
          else let
            ok1 = (rest \<noteq> [] \<and> cont_byte (hd rest));
            ok2 = (length rest \<ge> 2 \<and> cont_byte (rest ! 1));
            ok3 = (length rest \<ge> 3 \<and> cont_byte (rest ! 2));
            b = hd rest mod 64; c = rest ! 1 mod 64; d = rest ! 2 mod 64
          in if 0xC2 \<le> a \<and> a \<le> 0xDF \<and> ok1 then (a mod 32 * 64 + b, 2)
             else if 0xE0 \<le> a \<and> a \<le> 0xEF \<and> ok1 \<and> ok2
                 \<and> (a = 0xE0 \<longrightarrow> hd rest \<ge> 0xA0) \<and> (a = 0xED \<longrightarrow> hd rest \<le> 0x9F)
             then (a mod 16 * 4096 + b * 64 + c, 3)
             else if 0xF0 \<le> a \<and> a \<le> 0xF4 \<and> ok1 \<and> ok2 \<and> ok3
                 \<and> (a = 0xF0 \<longrightarrow> hd rest \<ge> 0x90) \<and> (a = 0xF4 \<longrightarrow> hd rest \<le> 0x8F)
             then (a mod 8 * 262144 + b * 4096 + c * 64 + d, 4)
             else (0xFFFD, 1))"

function runes :: "nat list \<Rightarrow> nat list" where
  "runes [] = []"
| "runes (b # bs) =
     (case decode_rune (b # bs) of (r, n) \<Rightarrow> r # runes (drop (max 1 n) (b # bs)))"
  by pat_completeness auto
termination
  by (relation "measure length") (auto simp: max_def)

text \<open>\<open>utf16.Encode\<close>: surrogate pairs for what does not fit sixteen bits.\<close>

definition utf16_units :: "nat \<Rightarrow> nat list" where
  "utf16_units r =
     (if r < 0x10000 then [r]
      else [0xD800 + (r - 0x10000) div 1024, 0xDC00 + (r - 0x10000) mod 1024])"

definition utf16_encode :: "string \<Rightarrow> nat list" where
  "utf16_encode s = concat (List.map utf16_units (runes (List.map of_char s)))"

lemma runes_ascii: "\<forall>b\<in>set bs. b < 128 \<Longrightarrow> runes bs = bs"
  by (induction bs) (simp_all add: decode_rune_def)

lemma utf16_encode_ascii:
  assumes "list_all (\<lambda>c. (of_char c :: nat) < 128) s"
  shows "utf16_encode s = List.map of_char s"
proof -
  have "runes (List.map of_char s) = List.map of_char s"
    using assms by (intro runes_ascii) (simp add: list_all_iff)
  moreover have "concat (List.map (utf16_units \<circ> of_char) s) = List.map of_char s"
    using assms by (induction s) (auto simp: utf16_units_def)
  ultimately show ?thesis by (simp add: utf16_encode_def)
qed

section \<open>strconv.FormatUint\<close>

text \<open>Digits and then the small letters.\<close>

definition base_char :: "nat \<Rightarrow> char" where
  "base_char d = (if d < 10 then digit_char d else char_of (87 + d))"

function format_base :: "nat \<Rightarrow> nat \<Rightarrow> string" where
  "format_base b n =
     (if b < 2 \<or> n < b then [base_char n] else format_base b (n div b) @ [base_char (n mod b)])"
  by pat_completeness auto
termination
  by (relation "measure (\<lambda>(b, n). n)") auto

declare format_base.simps [simp del]

end
