(* ===== verification/Topo_Identity.thy ===== *)
theory Topo_Identity
  imports Go_Strings
begin

unbundle bit_operations_syntax

text \<open>
  The identities of the topology (\<open>runtime/go/internal/topology/identity.go\<close>): normalised
  names, node, edge and path identifiers, rounding and percentiles.
\<close>

section \<open>Normalised identities\<close>

text \<open>The characters that \<open>invalidIdentityCharacters\<close> leaves alone.\<close>

definition identity_char :: "char \<Rightarrow> bool" where
  "identity_char c \<longleftrightarrow> (let n = of_char c :: nat in (97 \<le> n \<and> n \<le> 122) \<or> (48 \<le> n \<and> n \<le> 57))
     \<or> c \<in> set ''._/-''"

text \<open>\<open>ReplaceAllString(part, "-")\<close>: each run of other characters becomes one dash; the flag
  says whether the character before belongs to the run.\<close>

fun replace_invalid :: "bool \<Rightarrow> string \<Rightarrow> string" where
  "replace_invalid run [] = []"
| "replace_invalid run (c # s) =
     (if identity_char c then c # replace_invalid False s
      else if run then replace_invalid True s
      else CHR ''-'' # replace_invalid True s)"

definition trim_dashes :: "string \<Rightarrow> string" where
  "trim_dashes s = rev (dropWhile (\<lambda>c. c = CHR ''-'') (rev (dropWhile (\<lambda>c. c = CHR ''-'') s)))"

definition normalize_part :: "string \<Rightarrow> string" where
  "normalize_part part = trim_dashes (replace_invalid False (trim_space part))"

definition NormalizeSemanticIdentity :: "string \<Rightarrow> string" where
  "NormalizeSemanticIdentity v =
     join '':'' (List.filter (\<lambda>p. p \<noteq> [])
       (List.map normalize_part (split_on (CHR '':'') (to_lower (trim_space v)))))"

definition StableNodeID :: "string \<Rightarrow> string \<Rightarrow> string \<Rightarrow> string" where
  "StableNodeID kind identity framework =
     (let nk = NormalizeSemanticIdentity kind;
          ni = NormalizeSemanticIdentity identity;
          ni = (if ni = [] then ''unknown'' else ni);
          ni = (if ni \<noteq> nk \<and> \<not> has_prefix ni (nk @ '':'') then nk @ '':'' @ ni else ni);
          nf = NormalizeSemanticIdentity framework
      in if nf \<noteq> [] \<and> \<not> has_prefix ni (nf @ '':'') then nf @ '':'' @ ni else ni)"

definition StableEdgeID :: "string \<Rightarrow> string \<Rightarrow> string" where
  "StableEdgeID source target = ''dependency:'' @ source @ ''->'' @ target"

section \<open>Hashes\<close>

text \<open>The FNV-1a hash over sixteen-bit units, in 32-bit arithmetic.\<close>

definition fnv_step :: "u32 \<Rightarrow> nat \<Rightarrow> u32" where
  "fnv_step h c = (h XOR of_nat c) * 16777619"

definition stableHash :: "string \<Rightarrow> string \<Rightarrow> string" where
  "stableHash prefix value =
     prefix @ '':'' @ format_base 36 (unat (foldl fnv_step 2166136261 (utf16_encode value)))"

definition stablePathID :: "string \<Rightarrow> string list \<Rightarrow> string" where
  "stablePathID entrypoint nodes =
     stableHash ''path'' (NormalizeSemanticIdentity entrypoint @ '':'' @ join ''>'' nodes)"

section \<open>Rounding and percentiles\<close>

definition round_hundredths :: "f64 \<Rightarrow> f64" where
  "round_hundredths v =
     f64_div (f64_floor (f64_add (f64_mul v (Fin 100)) (Fin (1 / 2)))) (Fin 100)"

text \<open>The index of \<open>percentile\<close>, after the cut at zero.\<close>

fun int_of_f64 :: "f64 \<Rightarrow> int" where
  "int_of_f64 (Fin a) = (if a < 0 then \<lceil>a\<rceil> else \<lfloor>a\<rfloor>)"
| "int_of_f64 _ = 0"

definition percentile_index :: "f64 \<Rightarrow> nat \<Rightarrow> nat" where
  "percentile_index p n =
     nat (int_of_f64 (f64_ceil (f64_mul p (f64_of_int (int n)))) - 1)"

definition percentile :: "f64 list \<Rightarrow> f64 \<Rightarrow> f64" where
  "percentile values p =
     (if values = [] then Fin 0
      else round_hundredths (sort values ! percentile_index p (length values)))"

text \<open>The constants \<open>.5\<close>, \<open>.95\<close> and \<open>.99\<close> of the callers.\<close>

definition p50 :: f64 where "p50 = round_f64 (1 / 2)"
definition p95 :: f64 where "p95 = round_f64 (95 / 100)"
definition p99 :: f64 where "p99 = round_f64 (99 / 100)"

section \<open>Normal forms\<close>

definition normal_part :: "string \<Rightarrow> bool" where
  "normal_part s \<longleftrightarrow> s \<noteq> [] \<and> list_all identity_char s \<and> hd s \<noteq> CHR ''-'' \<and> last s \<noteq> CHR ''-''"

definition normal_identity :: "string \<Rightarrow> bool" where
  "normal_identity s \<longleftrightarrow> (\<exists>ps. list_all normal_part ps \<and> s = join '':'' ps)"

lemma identity_char_ascii: "identity_char c \<Longrightarrow> (of_char c :: nat) < 128"
  by (auto simp: identity_char_def Let_def)

lemma identity_char_no_colon: "identity_char c \<Longrightarrow> c \<noteq> CHR '':''"
  by (auto simp: identity_char_def Let_def)

lemma lower_identity_char: "identity_char c \<Longrightarrow> lower_char c = c"
  by (rule lower_char_id) (auto simp: identity_char_def Let_def)

text \<open>No encoding of a space begins or ends with a character of an identity.\<close>

lemma spaces_ends:
  "\<forall>p\<in>set spaces. \<not> identity_char (hd p) \<and> \<not> identity_char (last p) \<and> hd p \<noteq> CHR '':'' \<and> last p \<noteq> CHR '':''"
  by (simp add: spaces_def bytes_of_def identity_char_def Let_def char_of_def bit_0)

definition plain_char :: "char \<Rightarrow> bool" where
  "plain_char c \<longleftrightarrow> identity_char c \<or> c = CHR '':''"

lemma leading_plain:
  assumes "s = [] \<or> plain_char (hd s)" "\<forall>p\<in>set ps. p \<noteq> [] \<and> \<not> plain_char (hd p)"
  shows "leading ps s = None"
proof -
  have "\<not> has_prefix s p" if "p \<in> set ps" for p
  proof
    assume "has_prefix s p"
    then have "s = p @ trim_prefix s p" by (rule has_prefix_split)
    moreover have "p \<noteq> []" "\<not> plain_char (hd p)" using assms(2) that by auto
    ultimately show False using assms(1) by (metis append_is_Nil_conv hd_append2)
  qed
  then show ?thesis by (simp add: leading_def find_None_iff)
qed

lemma trim_space_plain:
  assumes "list_all plain_char s"
  shows "trim_space s = s"
proof -
  have ends: "p \<noteq> [] \<and> \<not> plain_char (hd p) \<and> \<not> plain_char (last p)" if "p \<in> set spaces" for p
    using spaces_ends spaces_nonempty that by (auto simp: plain_char_def)
  have "s = [] \<or> plain_char (hd s)" using assms by (cases s) auto
  then have "leading spaces s = None" using ends by (intro leading_plain) auto
  then have l: "trim_left spaces s = s" by (rule trim_left_stop)
  have "rev s = [] \<or> plain_char (hd (rev s))" using assms by (cases s rule: rev_cases) auto
  then have "leading (List.map rev spaces) (rev s) = None"
    using ends by (intro leading_plain) (auto simp: hd_rev)
  then have "trim_left (List.map rev spaces) (rev s) = rev s" by (rule trim_left_stop)
  then show ?thesis by (simp add: trim_space_def trim_right_def l)
qed

lemma to_lower_plain:
  assumes "list_all plain_char s"
  shows "to_lower s = s"
proof -
  have "list_all (\<lambda>c. (of_char c :: nat) < 128) s"
    using assms identity_char_ascii by (auto simp: list_all_iff plain_char_def)
  moreover have "List.map lower_char s = s"
    using assms by (intro map_idI) (auto simp: list_all_iff plain_char_def lower_identity_char)
  ultimately show ?thesis by (simp add: to_lower_ascii)
qed

lemma replace_invalid_id: "list_all identity_char s \<Longrightarrow> replace_invalid run s = s"
  by (induction s arbitrary: run) auto

lemma normalize_normal_part:
  assumes "normal_part s"
  shows "normalize_part s = s"
proof -
  have "list_all plain_char s" using assms by (auto simp: normal_part_def list_all_iff plain_char_def)
  then have "trim_space s = s" by (rule trim_space_plain)
  moreover have "trim_dashes s = s"
  proof -
    have "dropWhile (\<lambda>c. c = CHR ''-'') s = s" "dropWhile (\<lambda>c. c = CHR ''-'') (rev s) = rev s"
      using assms by (simp_all add: dropWhile_eq_self_iff normal_part_def hd_rev)
    then show ?thesis by (simp add: trim_dashes_def)
  qed
  ultimately show ?thesis
    using assms by (simp add: normalize_part_def replace_invalid_id normal_part_def)
qed

lemma plain_join: "list_all normal_part ps \<Longrightarrow> list_all plain_char (join '':'' ps)"
  using set_join [of "'':''" ps]
  by (auto simp: list_all_iff normal_part_def plain_char_def)

text \<open>A normal identity is its own normal form.\<close>

lemma normalize_normal:
  assumes "normal_identity s"
  shows "NormalizeSemanticIdentity s = s"
proof -
  obtain ps where ps: "list_all normal_part ps" "s = join '':'' ps"
    using assms by (auto simp: normal_identity_def)
  have plain: "list_all plain_char s" using plain_join ps by simp
  show ?thesis
  proof (cases ps)
    case Nil
    then show ?thesis
      using ps(2) plain
      by (simp add: NormalizeSemanticIdentity_def trim_space_plain normalize_part_def trim_dashes_def)
  next
    case (Cons a list)
    have split: "split_on CHR '':'' s = ps"
      unfolding ps(2) using ps(1) Cons identity_char_no_colon
      by (intro split_on_join) (auto simp: list_all_iff normal_part_def)
    have map: "List.map normalize_part ps = ps"
      using ps(1) by (intro map_idI) (simp add: list_all_iff normalize_normal_part)
    have "List.filter (\<lambda>p. p \<noteq> []) ps = ps"
      using ps(1) by (intro filter_True) (auto simp: list_all_iff normal_part_def)
    then show ?thesis
      unfolding NormalizeSemanticIdentity_def trim_space_plain [OF plain] to_lower_plain [OF plain] split map
      using ps(2) by simp
  qed
qed

lemma replace_invalid_chars: "list_all identity_char (replace_invalid run s)"
  by (induction s arbitrary: run) (auto simp: identity_char_def)

lemma trim_dashes_normal:
  assumes "list_all identity_char s" "trim_dashes s \<noteq> []"
  shows "normal_part (trim_dashes s)"
proof -
  let ?d = "\<lambda>c. c = CHR ''-''"
  let ?t = "dropWhile ?d s"
  have h: "hd ?t \<noteq> CHR ''-''" if "?t \<noteq> []" using hd_dropWhile [OF that] by simp
  have sub: "set (trim_dashes s) \<subseteq> set s"
    by (auto simp: trim_dashes_def dest!: set_dropWhileD)
  have ne: "dropWhile ?d (rev ?t) \<noteq> []" using assms(2) by (simp add: trim_dashes_def)
  have l: "last (trim_dashes s) \<noteq> CHR ''-''"
    using hd_dropWhile [OF ne] ne by (simp add: trim_dashes_def last_rev)
  obtain n where n: "dropWhile ?d (rev ?t) = drop n (rev ?t)"
    using dropWhile_eq_drop by metis
  then have t: "trim_dashes s = take (length ?t - n) ?t"
    by (simp add: trim_dashes_def rev_drop)
  then have "?t \<noteq> []" "length ?t - n \<noteq> 0" using assms(2) by auto
  then have "hd (trim_dashes s) \<noteq> CHR ''-''" using t h by (simp add: hd_take)
  then show ?thesis using assms l sub by (auto simp: normal_part_def list_all_iff)
qed

lemma normalize_is_normal: "normal_identity (NormalizeSemanticIdentity v)"
proof -
  let ?ps = "List.filter (\<lambda>p. p \<noteq> []) (List.map normalize_part (split_on (CHR '':'') (to_lower (trim_space v))))"
  have "list_all normal_part ?ps"
    using trim_dashes_normal [OF replace_invalid_chars]
    by (auto simp: list_all_iff normalize_part_def)
  then show ?thesis by (auto simp: normal_identity_def NormalizeSemanticIdentity_def)
qed

lemma join_append:
  "ps \<noteq> [] \<Longrightarrow> qs \<noteq> [] \<Longrightarrow> join sep (ps @ qs) = join sep ps @ sep @ join sep qs"
proof (induction sep ps rule: join.induct)
  case (2 sep s)
  then show ?case by (cases qs) simp_all
qed auto

lemma normal_identity_append:
  assumes "normal_identity a" "normal_identity b" "a \<noteq> []" "b \<noteq> []"
  shows "normal_identity (a @ '':'' @ b)"
proof -
  obtain ps qs where ps: "list_all normal_part ps" "a = join '':'' ps"
    and qs: "list_all normal_part qs" "b = join '':'' qs"
    using assms(1,2) by (auto simp: normal_identity_def)
  have "ps \<noteq> []" "qs \<noteq> []" using assms(3,4) ps(2) qs(2) by auto
  then have "a @ '':'' @ b = join '':'' (ps @ qs)" using ps(2) qs(2) by (simp add: join_append)
  moreover have "list_all normal_part (ps @ qs)" using ps(1) qs(1) by simp
  ultimately show ?thesis unfolding normal_identity_def by blast
qed

lemma normal_unknown: "normal_identity ''unknown''"
  unfolding normal_identity_def
  by (rule exI [of _ "[''unknown'']"]) (simp add: normal_part_def identity_char_def Let_def)

lemma StableNodeID_normal:
  assumes "NormalizeSemanticIdentity kind \<noteq> []"
  shows "normal_identity (StableNodeID kind identity framework)
    \<and> StableNodeID kind identity framework \<noteq> []"
proof -
  let ?nk = "NormalizeSemanticIdentity kind" and ?nf = "NormalizeSemanticIdentity framework"
  define n1 where "n1 = (let ni = NormalizeSemanticIdentity identity in if ni = [] then ''unknown'' else ni)"
  define n2 where "n2 = (if n1 \<noteq> ?nk \<and> \<not> has_prefix n1 (?nk @ '':'') then ?nk @ '':'' @ n1 else n1)"
  have 1: "normal_identity n1" "n1 \<noteq> []"
    using normalize_is_normal normal_unknown by (auto simp: n1_def Let_def)
  have 2: "normal_identity n2" "n2 \<noteq> []"
    using 1 normal_identity_append [OF normalize_is_normal 1(1) assms 1(2)] by (auto simp: n2_def)
  have "StableNodeID kind identity framework
      = (if ?nf \<noteq> [] \<and> \<not> has_prefix n2 (?nf @ '':'') then ?nf @ '':'' @ n2 else n2)"
    by (simp add: StableNodeID_def Let_def n1_def n2_def)
  then show ?thesis
    using 2 normal_identity_append [OF normalize_is_normal 2(1) _ 2(2)] by auto
qed

lemma normal_identity_chars: "normal_identity s \<Longrightarrow> list_all plain_char s"
  using plain_join by (auto simp: normal_identity_def)

lemma no_arrow: "normal_identity s \<Longrightarrow> CHR ''>'' \<notin> set s"
  using normal_identity_chars [of s]
  by (auto simp: list_all_iff plain_char_def identity_char_def Let_def)

text \<open>Edges and node lists are recovered from their identifiers.\<close>

lemma StableEdgeID_inject:
  assumes "StableEdgeID a b = StableEdgeID c d" "normal_identity a" "normal_identity c"
    "normal_identity b" "normal_identity d"
  shows "a = c \<and> b = d"
proof -
  have eq: "(a @ ''-'') @ CHR ''>'' # b = (c @ ''-'') @ CHR ''>'' # d"
    using assms(1) by (simp add: StableEdgeID_def)
  have "split_on CHR ''>'' ((a @ ''-'') @ CHR ''>'' # b) = [a @ ''-'', b]" if "normal_identity a" "normal_identity b" for a b
    using that no_arrow by (subst split_on_append_sep) (auto simp: split_on_no_sep)
  then have "[a @ ''-'', b] = [c @ ''-'', d]" using eq assms(2-5) by metis
  then show ?thesis by simp
qed

lemma join_arrow_inject:
  assumes "join ''>'' ps = join ''>'' qs" "ps \<noteq> []" "qs \<noteq> []"
    "list_all normal_identity ps" "list_all normal_identity qs"
  shows "ps = qs"
proof -
  have "\<forall>s\<in>set ps. CHR ''>'' \<notin> set s" "\<forall>s\<in>set qs. CHR ''>'' \<notin> set s"
    using assms(4,5) no_arrow by (simp_all add: list_all_iff)
  note s = this
  have "ps = split_on CHR ''>'' (join ''>'' ps)" by (rule split_on_join [OF assms(2) s(1), symmetric])
  also have "\<dots> = split_on CHR ''>'' (join ''>'' qs)" by (simp only: assms(1))
  also have "\<dots> = qs" by (rule split_on_join [OF assms(3) s(2)])
  finally show ?thesis .
qed

end
