(* ===== verification/Topo_State.thy ===== *)
theory Topo_State
  imports Telemetry_Model Float_Format Topo_Identity "HOL-Library.Product_Lexorder"
begin

text \<open>
  The state of the topology engine (\<open>runtime/go/internal/topology/engine.go\<close>) and its
  elementary operations: metric accumulators, the resolution of a span to a node, the search
  for the nearest ancestor that is a node. Maps are association lists (\<open>gomap\<close>); a
  \<open>map[string]bool\<close> in which only \<open>true\<close> is stored is a list of its keys with \<open>True\<close>. The
  limits are natural numbers: the code panics on a negative limit, which no caller passes.
\<close>

definition topologyKinds :: "string list" where
  "topologyKinds = [''http-route'', ''controller'', ''service'', ''database'', ''redis'',
     ''queue'', ''worker'', ''external-http'']"

definition traceKinds :: "string list" where
  "traceKinds = topologyKinds @ [''custom'']"

record topo_options =
  opt_MaxRecentTraces :: nat
  opt_MaxLatencySamples :: nat
  opt_MaxRuntimePaths :: nat
  opt_ApplicationName :: string
  opt_NodeVersion :: string

record metricAccumulator =
  m_count :: int
  m_errors :: int
  m_totalLatencyMS :: f64
  m_latencies :: "f64 list"

record nodeState =
  n_id :: string
  n_name :: string
  n_kind :: string
  n_framework :: string
  n_operation :: string
  n_metrics :: metricAccumulator

record edgeState =
  e_id :: string
  e_source :: string
  e_target :: string
  e_metrics :: metricAccumulator

record pathState =
  p_id :: string
  p_entrypoint :: string
  p_nodes :: "string list"
  p_metrics :: metricAccumulator
  p_lastUpdatedAt :: u64

record pathContribution =
  c_durationMS :: f64
  c_failed :: bool

record traceState =
  t_traceID :: string
  t_spans :: "span gomap"
  t_spanOrder :: "string list"
  t_lastUpdatedAt :: u64
  t_pathContributions :: "pathContribution gomap"

record activity =
  a_NodeIDs :: "string list"
  a_EdgeIDs :: "string list"

record engine =
  g_nodes :: "nodeState gomap"
  g_edges :: "edgeState gomap"
  g_paths :: "pathState gomap"
  g_traces :: "traceState gomap"
  g_seenSpanIDs :: "bool gomap"
  g_seenEdgeSpanIDs :: "bool gomap"
  g_maxRecentTraces :: nat
  g_maxLatencySamples :: nat
  g_maxRuntimePaths :: nat
  g_applicationNames :: "bool gomap"
  g_nodeVersion :: string
  g_clock :: u64
  g_revision :: u64
  g_runtime :: "runtime_metrics option"
  g_activity :: activity

definition no_metrics :: metricAccumulator where
  "no_metrics = \<lparr>m_count = 0, m_errors = 0, m_totalLatencyMS = Fin 0, m_latencies = []\<rparr>"

definition new_engine :: "topo_options \<Rightarrow> engine" where
  "new_engine options =
     (let name = trim_space (opt_ApplicationName options)
      in \<lparr>g_nodes = [], g_edges = [], g_paths = [], g_traces = [], g_seenSpanIDs = [],
          g_seenEdgeSpanIDs = [],
          g_maxRecentTraces = (if opt_MaxRecentTraces options = 0 then 50 else opt_MaxRecentTraces options),
          g_maxLatencySamples =
            (if opt_MaxLatencySamples options = 0 then 1000 else opt_MaxLatencySamples options),
          g_maxRuntimePaths = (if opt_MaxRuntimePaths options = 0 then 1000 else opt_MaxRuntimePaths options),
          g_applicationNames = (if name \<noteq> [] then [(name, True)] else []),
          g_nodeVersion = (if opt_NodeVersion options = [] then ''unknown'' else opt_NodeVersion options),
          g_clock = 0, g_revision = 0, g_runtime = None,
          g_activity = \<lparr>a_NodeIDs = [], a_EdgeIDs = []\<rparr>\<rparr>)"

definition RegisterApplication :: "string \<Rightarrow> string \<Rightarrow> engine \<Rightarrow> engine" where
  "RegisterApplication name nodeVersion e =
     (let name = trim_space name; nodeVersion = trim_space nodeVersion;
          e1 = (if name \<noteq> [] then e\<lparr>g_applicationNames := AList.update name True (g_applicationNames e)\<rparr> else e)
      in if nodeVersion \<noteq> [] then e1\<lparr>g_nodeVersion := nodeVersion\<rparr> else e1)"

section \<open>Metrics\<close>

text \<open>\<open>record\<close>: beyond the limit the oldest sample is dropped.\<close>

definition record_metric :: "nat \<Rightarrow> f64 \<Rightarrow> bool \<Rightarrow> metricAccumulator \<Rightarrow> metricAccumulator" where
  "record_metric limit durationMS failed m =
     (let latencies = m_latencies m @ [durationMS]
      in \<lparr>m_count = m_count m + 1,
          m_errors = (if failed then m_errors m + 1 else m_errors m),
          m_totalLatencyMS = f64_add (m_totalLatencyMS m) durationMS,
          m_latencies =
            (if length latencies > limit then take limit (tl latencies) else latencies)\<rparr>)"

text \<open>The first sample equal to the duration is taken out.\<close>

fun remove_sample :: "f64 \<Rightarrow> f64 list \<Rightarrow> f64 list" where
  "remove_sample d [] = []"
| "remove_sample d (x # xs) = (if f64_eq x d then xs else x # remove_sample d xs)"

definition removeRecord :: "f64 \<Rightarrow> bool \<Rightarrow> metricAccumulator \<Rightarrow> metricAccumulator" where
  "removeRecord durationMS failed m =
     (let total = f64_sub (m_totalLatencyMS m) durationMS
      in \<lparr>m_count = (if m_count m > 0 then m_count m - 1 else m_count m),
          m_errors = (if failed \<and> m_errors m > 0 then m_errors m - 1 else m_errors m),
          m_totalLatencyMS = (if f64_lt total (Fin 0) then Fin 0 else total),
          m_latencies = remove_sample durationMS (m_latencies m)\<rparr>)"

section \<open>Attributes\<close>

text \<open>\<open>fmt.Sprint\<close> of a decoded JSON value.\<close>

fun sprint :: "attr \<Rightarrow> string" where
  "sprint (AString s) = s"
| "sprint (ANumber x) = format_float True x"
| "sprint (ABool b) = (if b then ''true'' else ''false'')"
| "sprint ANull = ''<nil>''"
| "sprint (AArray xs) = ''['' @ join '' '' (List.map sprint xs) @ '']''"
| "sprint (AObject kvs) =
     ''map['' @ join '' '' (List.map snd (sort_key fst
        (List.map (\<lambda>(k, v). (k, k @ '':'' @ sprint v)) kvs))) @ '']''"

definition attributeStringValue :: "attr option \<Rightarrow> string \<Rightarrow> string" where
  "attributeStringValue value fallback =
     (case value of
        None \<Rightarrow> fallback
      | Some ANull \<Rightarrow> fallback
      | Some (AString s) \<Rightarrow> s
      | Some (ANumber x) \<Rightarrow> format_float False x
      | Some (ABool b) \<Rightarrow> (if b then ''true'' else ''false'')
      | Some v \<Rightarrow> sprint v)"

definition stringAttribute :: "span \<Rightarrow> string \<Rightarrow> string" where
  "stringAttribute s key = (case map_of (Attributes s) key of Some (AString v) \<Rightarrow> v | _ \<Rightarrow> [])"

fun firstNonEmpty :: "string list \<Rightarrow> string" where
  "firstNonEmpty [] = []"
| "firstNonEmpty (v # vs) = (if v \<noteq> [] then v else firstNonEmpty vs)"

section \<open>Nodes\<close>

text \<open>The identifier and the state of the node that \<open>resolveNode\<close> gives a span.\<close>

definition span_node_id :: "span \<Rightarrow> string" where
  "span_node_id s = StableNodeID (Kind s)
     (attributeStringValue (map_of (Attributes s) ''nodeflow.identity'') (Name s))
     (stringAttribute s ''nodeflow.framework'')"

definition fresh_node :: "span \<Rightarrow> nodeState" where
  "fresh_node s =
     (let className = stringAttribute s ''nodeflow.class'';
          name = stringAttribute s ''nodeflow.topology_name'';
          name = (if (Kind s = ''controller'' \<or> Kind s = ''service'') \<and> className \<noteq> [] then className
                  else if name = [] then Name s else name)
      in \<lparr>n_id = span_node_id s, n_name = name, n_kind = Kind s,
          n_framework = stringAttribute s ''nodeflow.framework'',
          n_operation = firstNonEmpty [stringAttribute s ''nodeflow.method'', stringAttribute s ''nodeflow.operation''],
          n_metrics = no_metrics\<rparr>)"

text \<open>\<open>resolveNode\<close>: the node (a pointer into the map, here its identifier), and the engine,
  with the node added if it is to be created.\<close>

definition resolveNode :: "span \<Rightarrow> bool \<Rightarrow> engine \<Rightarrow> string option \<times> engine" where
  "resolveNode s create e =
     (if Kind s \<notin> set topologyKinds then (None, e)
      else let i = span_node_id s
      in case map_of (g_nodes e) i of
           Some _ \<Rightarrow> (Some i, e)
         | None \<Rightarrow>
             if create then (Some i, e\<lparr>g_nodes := AList.update i (fresh_node s) (g_nodes e)\<rparr>)
             else (None, e))"

abbreviation known_node :: "engine \<Rightarrow> span \<Rightarrow> string option" where
  "known_node e s \<equiv> fst (resolveNode s False e)"

text \<open>\<open>findNearestParentNode\<close>: up the parents until one is a node; a parent met before ends the
  search, so it terminates on cyclic parents.\<close>

function nearest_parent :: "engine \<Rightarrow> span gomap \<Rightarrow> string list \<Rightarrow> string \<Rightarrow> string option" where
  "nearest_parent e spans visited parentID =
     (case map_of spans parentID of
        None \<Rightarrow> None
      | Some current \<Rightarrow>
          if SpanID current \<in> set visited then None
          else (case known_node e current of
                  Some n \<Rightarrow> Some n
                | None \<Rightarrow>
                    if ParentSpanID current = [] then None
                    else nearest_parent e spans (SpanID current # visited) (ParentSpanID current)))"
  by pat_completeness auto

termination
proof (relation "measure (\<lambda>(e, spans, visited, i).
    length (List.filter (\<lambda>z. z \<notin> set visited) (List.map (SpanID \<circ> snd) spans)))", goal_cases)
  case (2 e spans visited parentID current)
  have "(parentID, current) \<in> set spans" using 2(1) by (rule map_of_SomeD)
  then have "SpanID current \<in> set (List.map (SpanID \<circ> snd) spans)" by force
  from filter_smaller [OF this 2(2)]
  show ?case by (simp only: in_measure case_prod_conv)
qed simp

declare nearest_parent.simps [simp del]

definition findNearestParentNode :: "traceState \<Rightarrow> string \<Rightarrow> engine \<Rightarrow> string option" where
  "findNearestParentNode t parentSpanID e = nearest_parent e (t_spans t) [] parentSpanID"

end
