(* ===== verification/Topo_Trace.thy ===== *)
theory Topo_Trace
  imports Topo_State
begin

text \<open>
  The trees of a trace (\<open>buildTrace\<close> in \<open>runtime/go/internal/topology/engine.go\<close>) and the node
  paths through them. The Go code links heap nodes and then walks them from the roots; here
  the tree below a span is built from the parent relation directly.
\<close>

datatype traceSpan = TraceSpan (ts_span: span) (ts_nodeID: string) (ts_children: "traceSpan list")

record builtTrace =
  b_roots :: "traceSpan list"
  b_startedAt :: f64
  b_durationMS :: f64
  b_failed :: bool

text \<open>Reading a map of spans, with Go's zero value for a missing key.\<close>

definition zero_span :: span where
  "zero_span = \<lparr>TraceID = [], SpanID = [], ParentSpanID = [], Name = [], Kind = [],
     StartTimeUnixMS = Fin 0, DurationMS = Fin 0, Status = [], Attributes = []\<rparr>"

definition span_at :: "traceState \<Rightarrow> string \<Rightarrow> span" where
  "span_at t i = (case map_of (t_spans t) i of Some s \<Rightarrow> s | None \<Rightarrow> zero_span)"

text \<open>The entries of \<open>traceSpans\<close>, in span order.\<close>

definition trace_items :: "traceState \<Rightarrow> (span \<times> string) gomap" where
  "trace_items t = List.map (\<lambda>i. let s = span_at t i
       in (i, (s, if Kind s \<in> set topologyKinds then span_node_id s else [])))
     (List.filter (\<lambda>i. Kind (span_at t i) \<in> set traceKinds) (t_spanOrder t))"

function trace_parent :: "span gomap \<Rightarrow> string list \<Rightarrow> string list \<Rightarrow> string \<Rightarrow> string option" where
  "trace_parent allSpans items visited parentID =
     (if parentID = [] \<or> parentID \<in> set visited then None
      else if parentID \<in> set items then Some parentID
      else case map_of allSpans parentID of
             None \<Rightarrow> None
           | Some p \<Rightarrow> trace_parent allSpans items (parentID # visited) (ParentSpanID p))"
  by pat_completeness auto
termination
proof (relation "measure (\<lambda>(allSpans, items, visited, i).
    length (List.filter (\<lambda>z. z \<notin> set visited) (keys allSpans)))", goal_cases)
  case (2 allSpans items visited parentID p)
  have "parentID \<in> set (keys allSpans)" using map_of_SomeD [OF 2(3)] by force
  moreover have "parentID \<notin> set visited" using 2(1) by simp
  ultimately show ?case using filter_smaller by (simp only: in_measure case_prod_conv)
qed simp

declare trace_parent.simps [simp del]

definition findNearestTraceParent :: "traceState \<Rightarrow> string \<Rightarrow> string option" where
  "findNearestTraceParent t i =
     trace_parent (t_spans t) (keys (trace_items t)) [] (ParentSpanID (span_at t i))"

text \<open>The tree below an item, its children ordered by their start (\<open>sortTraceSpans\<close>). The list
  of ancestors makes the recursion total; below a root no identifier meets itself (lemma
  \<open>no_cut\<close>).\<close>

definition children_ids :: "traceState \<Rightarrow> string \<Rightarrow> string list" where
  "children_ids t i = List.filter (\<lambda>c. findNearestTraceParent t c = Some i) (keys (trace_items t))"

definition sort_spans :: "traceSpan list \<Rightarrow> traceSpan list" where
  "sort_spans ts = sort_key (\<lambda>x. StartTimeUnixMS (ts_span x)) ts"

function tree_below :: "traceState \<Rightarrow> string list \<Rightarrow> string \<Rightarrow> traceSpan list" where
  "tree_below t ancestors i =
     (case map_of (trace_items t) i of
        None \<Rightarrow> []
      | Some (s, n) \<Rightarrow>
          if i \<in> set ancestors then []
          else [TraceSpan s n (sort_spans (concat (List.map (tree_below t (i # ancestors)) (children_ids t i))))])"
  by pat_completeness auto
termination
proof (relation "measure (\<lambda>(t, ancestors, i).
    length (List.filter (\<lambda>z. z \<notin> set ancestors) (keys (trace_items t))))", goal_cases)
  case (2 t ancestors i x s n c)
  have "i \<in> set (keys (trace_items t))" using map_of_SomeD [OF 2(1)] by force
  then show ?case using filter_smaller 2(3) by (simp only: in_measure case_prod_conv)
qed simp

declare tree_below.simps [simp del]

definition root_ids :: "traceState \<Rightarrow> string list" where
  "root_ids t = List.filter (\<lambda>i. findNearestTraceParent t i = None) (keys (trace_items t))"

text \<open>The loop over all spans for the start, the end and the status.\<close>

fun trace_times :: "span list \<Rightarrow> bool \<Rightarrow> f64 \<Rightarrow> f64 \<Rightarrow> bool \<Rightarrow> f64 \<times> f64 \<times> bool" where
  "trace_times [] isFirst earliest latest failed = (earliest, latest, failed)"
| "trace_times (s # ss) isFirst earliest latest failed =
     (let earliest' = (if isFirst \<or> f64_lt (StartTimeUnixMS s) earliest then StartTimeUnixMS s else earliest);
          finish = f64_add (StartTimeUnixMS s) (DurationMS s);
          latest' = (if isFirst \<or> f64_lt latest finish then finish else latest)
      in trace_times ss False earliest' latest' (failed \<or> Status s = ''error''))"

definition buildTrace :: "traceState \<Rightarrow> builtTrace" where
  "buildTrace t =
     (let (earliest, latest, failed) =
            trace_times (List.map (span_at t) (t_spanOrder t)) True (Fin 0) (Fin 0) False
      in \<lparr>b_roots = sort_spans (concat (List.map (tree_below t []) (root_ids t))),
          b_startedAt = earliest,
          b_durationMS = round_hundredths (f64_sub latest earliest),
          b_failed = failed\<rparr>)"

section \<open>Node paths\<close>

fun collectNodePaths :: "traceSpan \<Rightarrow> string list \<Rightarrow> string list list" where
  "collectNodePaths (TraceSpan s n children) parentNodes =
     (let nodes = (if n \<noteq> [] \<and> (parentNodes = [] \<or> last parentNodes \<noteq> n)
                   then parentNodes @ [n] else parentNodes)
      in if children = [] then [nodes]
         else concat (List.map (\<lambda>c. collectNodePaths c nodes) children))"

text \<open>The distinct paths of a trace, by their joined nodes, in the order of their first
  occurrence; a later root with the same nodes sets the entry point.\<close>

definition path_root :: "traceSpan \<Rightarrow> bool" where
  "path_root r \<longleftrightarrow> ts_nodeID r \<noteq> []
     \<and> Kind (ts_span r) \<in> {''http-route'', ''worker'', ''controller'', ''service''}"

definition unique_paths :: "traceSpan list \<Rightarrow> (string \<times> string list) gomap" where
  "unique_paths roots =
     foldl (\<lambda>u r. foldl (\<lambda>u nodes. AList.update (join ''>'' nodes) (Name (ts_span r), nodes) u) u
              (List.filter (\<lambda>nodes. nodes \<noteq> []) (collectNodePaths r [])))
       [] (List.filter path_root roots)"

text \<open>The paths a trace contributes to, by path identifier.\<close>

definition desired_paths :: "traceSpan list \<Rightarrow> (string \<times> string list) gomap" where
  "desired_paths roots =
     foldl (\<lambda>d (_, (entrypoint, nodes)). AList.update (stablePathID entrypoint nodes) (entrypoint, nodes) d)
       [] (unique_paths roots)"

lemma distinct_desired_paths: "distinct (keys (desired_paths roots))"
  unfolding desired_paths_def
  by (rule foldl_inv [where P = "\<lambda>d. distinct (keys d)"]) (auto split: prod.split)

section \<open>The trees are not cut\<close>

text \<open>A path of parents up to a root.\<close>

fun parent_path :: "traceState \<Rightarrow> string list \<Rightarrow> bool" where
  "parent_path t [] \<longleftrightarrow> True"
| "parent_path t [i] \<longleftrightarrow> findNearestTraceParent t i = None"
| "parent_path t (i # j # is) \<longleftrightarrow> findNearestTraceParent t i = Some j \<and> parent_path t (j # is)"

lemma parent_path_suffix: "parent_path t (xs @ ys) \<Longrightarrow> parent_path t ys"
proof (induction xs)
  case (Cons x xs)
  then show ?case by (cases "xs @ ys") auto
qed simp

lemma no_cut:
  assumes "parent_path t (i # is)" "distinct (i # is)" "findNearestTraceParent t c = Some i"
  shows "c \<notin> set (i # is) \<and> parent_path t (c # i # is) \<and> distinct (c # i # is)"
proof -
  have "c \<notin> set (i # is)"
  proof
    assume "c \<in> set (i # is)"
    then obtain xs ys where xs: "i # is = xs @ c # ys" by (meson split_list)
    then have p: "parent_path t (c # ys)" using assms(1) parent_path_suffix by metis
    show False
    proof (cases ys)
      case Nil
      then show False using p assms(3) by simp
    next
      case (Cons y zs)
      then have "y = i" using p assms(3) by simp
      then have "i # is = (xs @ [c]) @ i # zs" using xs Cons by simp
      then show False using assms(2) by (cases xs) auto
    qed
  qed
  then show ?thesis using assms by simp
qed

end
