(* ===== verification/Topo_Engine.thy ===== *)
theory Topo_Engine
  imports Topo_Trace
begin

text \<open>
  The operations of the topology engine (\<open>runtime/go/internal/topology/engine.go\<close>): admission
  of spans, reconciliation of edges, replacement of a trace's paths, trimming. Each runs
  under the engine's lock, so the definitions pass the engine through.
\<close>

section \<open>Admission\<close>

definition seen :: "bool gomap \<Rightarrow> string \<Rightarrow> bool" where
  "seen m k \<longleftrightarrow> map_of m k = Some True"

definition new_trace :: "string \<Rightarrow> traceState" where
  "new_trace i = \<lparr>t_traceID = i, t_spans = [], t_spanOrder = [], t_lastUpdatedAt = 0,
     t_pathContributions = []\<rparr>"

text \<open>The part of the first loop that stores a new span in its trace.\<close>

definition store_span :: "span \<Rightarrow> engine \<Rightarrow> engine" where
  "store_span s e =
     (let t = (case map_of (g_traces e) (TraceID s) of Some t \<Rightarrow> t | None \<Rightarrow> new_trace (TraceID s));
          order = (if map_of (t_spans t) (SpanID s) = None then t_spanOrder t @ [SpanID s] else t_spanOrder t);
          clock = g_clock e + 1;
          t' = t\<lparr>t_spanOrder := order, t_spans := AList.update (SpanID s) s (t_spans t),
                 t_lastUpdatedAt := clock\<rparr>
      in e\<lparr>g_seenSpanIDs := AList.update (SpanID s) True (g_seenSpanIDs e),
           g_clock := clock,
           g_traces := AList.update (TraceID s) t' (g_traces e)\<rparr>)"

definition record_node :: "string \<Rightarrow> span \<Rightarrow> engine \<Rightarrow> engine" where
  "record_node i s e =
     (case map_of (g_nodes e) i of
        None \<Rightarrow> e
      | Some n \<Rightarrow> e\<lparr>g_nodes := AList.update i
          (n\<lparr>n_metrics := record_metric (g_maxLatencySamples e) (DurationMS s) (Status s = ''error'') (n_metrics n)\<rparr>)
          (g_nodes e)\<rparr>)"

definition add_once :: "string \<Rightarrow> string list \<Rightarrow> string list" where
  "add_once x xs = (if x \<in> set xs then xs else xs @ [x])"

text \<open>The accumulators of \<open>Ingest\<close>: the engine, the traces touched and the active nodes.\<close>

definition admit_span :: "span \<Rightarrow> engine \<times> string list \<times> string list
    \<Rightarrow> engine \<times> string list \<times> string list" where
  "admit_span s a =
     (case a of (e, touched, active) \<Rightarrow>
        let touched = add_once (TraceID s) touched
        in if seen (g_seenSpanIDs e) (SpanID s) then (e, touched, active)
           else (case resolveNode s True (store_span s e) of
                   (None, e') \<Rightarrow> (e', touched, active)
                 | (Some i, e') \<Rightarrow> (record_node i s e', touched, add_once i active)))"

section \<open>Edges\<close>

definition edge_key :: "span \<Rightarrow> string" where
  "edge_key s = TraceID s @ '':'' @ SpanID s"

definition record_edge :: "string \<Rightarrow> string \<Rightarrow> span \<Rightarrow> engine \<Rightarrow> engine" where
  "record_edge p c child e =
     (let i = StableEdgeID p c;
          edge = (case map_of (g_edges e) i of
                    Some x \<Rightarrow> x
                  | None \<Rightarrow> \<lparr>e_id = i, e_source = p, e_target = c, e_metrics = no_metrics\<rparr>);
          edge' = edge\<lparr>e_metrics := record_metric (g_maxLatencySamples e)
            (DurationMS child) (Status child = ''error'') (e_metrics edge)\<rparr>
      in e\<lparr>g_edges := AList.update i edge' (g_edges e),
           g_seenEdgeSpanIDs := AList.update (edge_key child) True (g_seenEdgeSpanIDs e)\<rparr>)"

text \<open>The ends of the edge that a span of the trace stands for, if it stands for one that has not
  been recorded yet.\<close>

definition edge_ends :: "traceState \<Rightarrow> span \<Rightarrow> engine \<Rightarrow> (string \<times> string) option" where
  "edge_ends t child e =
     (if ParentSpanID child = [] \<or> seen (g_seenEdgeSpanIDs e) (edge_key child) then None
      else case findNearestParentNode t (ParentSpanID child) e of
             None \<Rightarrow> None
           | Some p \<Rightarrow> (case known_node e child of
                          None \<Rightarrow> None
                        | Some c \<Rightarrow> if p = c then None else Some (p, c)))"

text \<open>The body of the second loop for a span of the trace.\<close>

definition reconcile_edge :: "traceState \<Rightarrow> string \<Rightarrow> engine \<times> string list \<Rightarrow> engine \<times> string list" where
  "reconcile_edge t spanID a =
     (case edge_ends t (span_at t spanID) (fst a) of
        None \<Rightarrow> a
      | Some (p, c) \<Rightarrow>
          (record_edge p c (span_at t spanID) (fst a), add_once (StableEdgeID p c) (snd a)))"

definition reconcile_trace :: "string \<Rightarrow> engine \<times> string list \<Rightarrow> engine \<times> string list" where
  "reconcile_trace i a =
     (case map_of (g_traces (fst a)) i of
        None \<Rightarrow> a
      | Some t \<Rightarrow> foldl (\<lambda>a spanID. reconcile_edge t spanID a) a (t_spanOrder t))"

section \<open>Paths\<close>

text \<open>The path with the fewest calls, the least recently updated of those.\<close>

fun least_useful :: "pathState gomap \<Rightarrow> pathState option \<Rightarrow> pathState option" where
  "least_useful [] candidate = candidate"
| "least_useful ((_, p) # ps) candidate =
     (case candidate of
        None \<Rightarrow> least_useful ps (Some p)
      | Some c \<Rightarrow>
          if m_count (p_metrics p) < m_count (p_metrics c)
            \<or> m_count (p_metrics p) = m_count (p_metrics c) \<and> p_lastUpdatedAt p < p_lastUpdatedAt c
          then least_useful ps (Some p) else least_useful ps (Some c))"

definition removeLeastUsefulPath :: "engine \<Rightarrow> engine" where
  "removeLeastUsefulPath e =
     (case least_useful (g_paths e) None of
        None \<Rightarrow> e
      | Some p \<Rightarrow> e\<lparr>g_paths := AList.delete (p_id p) (g_paths e)\<rparr>)"

definition same_contribution :: "f64 \<Rightarrow> bool \<Rightarrow> pathContribution \<Rightarrow> bool" where
  "same_contribution d failed c \<longleftrightarrow> f64_eq d (c_durationMS c) \<and> failed = c_failed c"

text \<open>A contribution the trace made before and does not make now, or makes with other values, is
  taken out of its path.\<close>

definition drop_contribution :: "(string \<times> string list) gomap \<Rightarrow> f64 \<Rightarrow> bool
    \<Rightarrow> engine \<Rightarrow> string \<times> pathContribution \<Rightarrow> engine" where
  "drop_contribution desired d failed e entry =
     (case entry of (i, c) \<Rightarrow>
        if map_of desired i \<noteq> None \<and> same_contribution d failed c then e
        else (case map_of (g_paths e) i of
                None \<Rightarrow> e
              | Some p \<Rightarrow>
                  let m = removeRecord (c_durationMS c) (c_failed c) (p_metrics p)
                  in if m_count m = 0 then e\<lparr>g_paths := AList.delete i (g_paths e)\<rparr>
                     else e\<lparr>g_paths := AList.update i (p\<lparr>p_metrics := m\<rparr>) (g_paths e)\<rparr>))"

definition add_contribution :: "pathContribution gomap \<Rightarrow> f64 \<Rightarrow> bool
    \<Rightarrow> engine \<Rightarrow> string \<times> string \<times> string list \<Rightarrow> engine" where
  "add_contribution previous d failed e entry =
     (case entry of (i, entrypoint, nodes) \<Rightarrow>
        if (case map_of previous i of Some c \<Rightarrow> same_contribution d failed c | None \<Rightarrow> False)
          \<and> map_of (g_paths e) i \<noteq> None
        then e
        else let e1 = (if map_of (g_paths e) i = None \<and> length (g_paths e) \<ge> g_maxRuntimePaths e
                       then removeLeastUsefulPath e else e);
                 p = (case map_of (g_paths e) i of
                        Some p \<Rightarrow> p
                      | None \<Rightarrow> \<lparr>p_id = i, p_entrypoint = entrypoint, p_nodes = nodes,
                                 p_metrics = no_metrics, p_lastUpdatedAt = 0\<rparr>);
                 clock = g_clock e1 + 1;
                 p' = p\<lparr>p_metrics := record_metric (g_maxLatencySamples e1) d failed (p_metrics p),
                        p_lastUpdatedAt := clock\<rparr>
             in e1\<lparr>g_paths := AList.update i p' (g_paths e1), g_clock := clock\<rparr>)"

definition aggregateRuntimePaths :: "traceState \<Rightarrow> engine \<Rightarrow> engine" where
  "aggregateRuntimePaths t e =
     (let recent = buildTrace t
      in if b_roots recent = [] then e
         else let d = b_durationMS recent; failed = b_failed recent;
                  desired = desired_paths (b_roots recent);
                  e1 = foldl (drop_contribution desired d failed) e (t_pathContributions t);
                  e2 = foldl (add_contribution (t_pathContributions t) d failed) e1 desired;
                  contributions = List.map (\<lambda>(i, _). (i, \<lparr>c_durationMS = d, c_failed = failed\<rparr>)) desired
              in e2\<lparr>g_traces := AList.update (t_traceID t) (t\<lparr>t_pathContributions := contributions\<rparr>)
                     (g_traces e2)\<rparr>)"

definition aggregate_trace :: "engine \<Rightarrow> string \<Rightarrow> engine" where
  "aggregate_trace e i =
     (case map_of (g_traces e) i of None \<Rightarrow> e | Some t \<Rightarrow> aggregateRuntimePaths t e)"

section \<open>Trimming\<close>

definition forget_trace :: "engine \<Rightarrow> traceState \<Rightarrow> engine" where
  "forget_trace e t =
     e\<lparr>g_traces := AList.delete (t_traceID t) (g_traces e),
       g_seenSpanIDs := foldl (\<lambda>m i. AList.delete i m) (g_seenSpanIDs e) (t_spanOrder t),
       g_seenEdgeSpanIDs :=
         foldl (\<lambda>m i. AList.delete (t_traceID t @ '':'' @ i) m) (g_seenEdgeSpanIDs e) (t_spanOrder t)\<rparr>"

definition trimTraces :: "engine \<Rightarrow> engine" where
  "trimTraces e =
     (if length (g_traces e) \<le> g_maxRecentTraces e then e
      else let ordered = sort_key t_lastUpdatedAt (List.map snd (g_traces e))
           in foldl forget_trace e (take (length (g_traces e) - g_maxRecentTraces e) ordered))"

section \<open>Ingest\<close>

text \<open>\<open>Ingest\<close>, up to the snapshot it returns (\<open>liveSnapshotLocked\<close> of the resulting engine).\<close>

definition Ingest :: "span list \<Rightarrow> engine \<Rightarrow> engine" where
  "Ingest spans e =
     (let (e1, touched, activeNodes) = foldl (\<lambda>a s. admit_span s a) (e, [], []) spans;
          (e2, activeEdges) = foldl (\<lambda>a i. reconcile_trace i a) (e1, []) touched;
          e3 = foldl aggregate_trace e2 touched;
          e4 = trimTraces e3
      in e4\<lparr>g_revision := g_revision e4 + 1,
            g_activity := \<lparr>a_NodeIDs = activeNodes, a_EdgeIDs = activeEdges\<rparr>\<rparr>)"

definition UpdateRuntime :: "runtime_metrics \<Rightarrow> engine \<Rightarrow> engine" where
  "UpdateRuntime metrics e =
     e\<lparr>g_runtime := Some metrics, g_revision := g_revision e + 1,
       g_activity := \<lparr>a_NodeIDs = [], a_EdgeIDs = []\<rparr>\<rparr>"

end
