(* ===== verification/Topo_Invariant.thy ===== *)
theory Topo_Invariant
  imports Topo_Engine
begin

text \<open>
  The invariant of the topology engine, one predicate per part of the state, and its
  preservation by every operation: each step lemma speaks of the parts the step touches.
\<close>

section \<open>The invariant\<close>

definition metric_ok :: "nat \<Rightarrow> metricAccumulator \<Rightarrow> bool" where
  "metric_ok limit m \<longleftrightarrow> 0 \<le> m_errors m \<and> m_errors m \<le> m_count m \<and> length (m_latencies m) \<le> limit"

definition nodes_ok :: "nat \<Rightarrow> nodeState gomap \<Rightarrow> bool" where
  "nodes_ok limit = all_entries (\<lambda>i n. n_id n = i \<and> metric_ok limit (n_metrics n))"

definition edges_ok :: "nat \<Rightarrow> nodeState gomap \<Rightarrow> edgeState gomap \<Rightarrow> bool" where
  "edges_ok limit ns = all_entries (\<lambda>i x. e_id x = i \<and> i = StableEdgeID (e_source x) (e_target x)
      \<and> e_source x \<noteq> e_target x \<and> map_of ns (e_source x) \<noteq> None \<and> map_of ns (e_target x) \<noteq> None
      \<and> metric_ok limit (e_metrics x))"

definition paths_ok :: "nat \<Rightarrow> nat \<Rightarrow> pathState gomap \<Rightarrow> bool" where
  "paths_ok bound limit ps \<longleftrightarrow> length ps \<le> bound
     \<and> all_entries (\<lambda>i p. p_id p = i \<and> length (m_latencies (p_metrics p)) \<le> limit) ps"

definition finite_span :: "span \<Rightarrow> bool" where
  "finite_span s \<longleftrightarrow> finite_f64 (StartTimeUnixMS s) \<and> finite_f64 (DurationMS s)"

definition trace_ok :: "string \<Rightarrow> traceState \<Rightarrow> bool" where
  "trace_ok i t \<longleftrightarrow> t_traceID t = i \<and> distinct (t_spanOrder t) \<and> set (t_spanOrder t) = set (keys (t_spans t))
     \<and> distinct (keys (t_pathContributions t))
     \<and> (\<forall>k s. map_of (t_spans t) k = Some s \<longrightarrow> SpanID s = k \<and> TraceID s = i \<and> finite_span s)"

text \<open>The trace that holds a span: at most one, and a span is marked as seen exactly when some
  trace holds it.\<close>

definition holds :: "traceState gomap \<Rightarrow> string \<Rightarrow> string \<Rightarrow> bool" where
  "holds ts i k \<longleftrightarrow> (\<exists>t. map_of ts i = Some t \<and> k \<in> set (t_spanOrder t))"

definition traces_ok :: "bool gomap \<Rightarrow> traceState gomap \<Rightarrow> bool" where
  "traces_ok sn ts \<longleftrightarrow> all_entries trace_ok ts
     \<and> (\<forall>i j k. holds ts i k \<longrightarrow> holds ts j k \<longrightarrow> i = j)
     \<and> (\<forall>k. seen sn k \<longleftrightarrow> (\<exists>i. holds ts i k))"

definition engine_ok :: "engine \<Rightarrow> bool" where
  "engine_ok e \<longleftrightarrow> 0 < g_maxLatencySamples e \<and> 0 < g_maxRuntimePaths e
     \<and> nodes_ok (g_maxLatencySamples e) (g_nodes e)
     \<and> edges_ok (g_maxLatencySamples e) (g_nodes e) (g_edges e)
     \<and> paths_ok (g_maxRuntimePaths e) (g_maxLatencySamples e) (g_paths e)
     \<and> traces_ok (g_seenSpanIDs e) (g_traces e)"

definition same_limits :: "engine \<Rightarrow> engine \<Rightarrow> bool" where
  "same_limits e e' \<longleftrightarrow> g_maxRecentTraces e' = g_maxRecentTraces e
     \<and> g_maxLatencySamples e' = g_maxLatencySamples e \<and> g_maxRuntimePaths e' = g_maxRuntimePaths e"

section \<open>Metrics\<close>

lemma metric_ok_empty [simp]: "metric_ok limit no_metrics"
  by (simp add: metric_ok_def no_metrics_def)

lemma metric_ok_record: "metric_ok limit m \<Longrightarrow> metric_ok limit (record_metric limit d f m)"
  by (auto simp: metric_ok_def record_metric_def Let_def)

lemma record_metric_latencies: "length (m_latencies (record_metric limit d f m)) \<le> limit"
  by (simp add: record_metric_def Let_def)

lemma record_metric_count [simp]: "m_count (record_metric limit d f m) = m_count m + 1"
  by (simp add: record_metric_def Let_def)

lemma record_metric_errors [simp]:
  "m_errors (record_metric limit d f m) = m_errors m + (if f then 1 else 0)"
  by (simp add: record_metric_def Let_def)

lemma length_remove_sample: "length (remove_sample d xs) \<le> length xs"
  by (induction xs) auto

lemma removeRecord_latencies:
  "length (m_latencies (removeRecord d f m)) \<le> length (m_latencies m)"
  by (simp add: removeRecord_def Let_def length_remove_sample)

section \<open>Nodes\<close>

lemma resolveNode_nodes:
  assumes "resolveNode s create e = (r, e')" "nodes_ok (g_maxLatencySamples e) (g_nodes e)"
  shows "nodes_ok (g_maxLatencySamples e) (g_nodes e')"
    "\<forall>i. map_of (g_nodes e) i \<noteq> None \<longrightarrow> map_of (g_nodes e') i \<noteq> None"
    "e' = e\<lparr>g_nodes := g_nodes e'\<rparr>"
    "r = Some i \<Longrightarrow> map_of (g_nodes e') i \<noteq> None"
proof -
  have "n_id (fresh_node s) = span_node_id s \<and> metric_ok (g_maxLatencySamples e) (n_metrics (fresh_node s))"
    by (simp add: fresh_node_def Let_def)
  then have "nodes_ok (g_maxLatencySamples e) (AList.update (span_node_id s) (fresh_node s) (g_nodes e))"
    using assms(2) unfolding nodes_ok_def by (rule entries_update [rotated])
  then show "nodes_ok (g_maxLatencySamples e) (g_nodes e')"
    using assms by (auto simp: resolveNode_def Let_def split: if_splits option.splits)
qed (use assms in \<open>auto simp: resolveNode_def Let_def split: if_splits option.splits\<close>)

lemma record_node_nodes:
  assumes "nodes_ok (g_maxLatencySamples e) (g_nodes e)"
  shows "nodes_ok (g_maxLatencySamples e) (g_nodes (record_node i s e))"
    "\<forall>j. map_of (g_nodes e) j \<noteq> None \<longleftrightarrow> map_of (g_nodes (record_node i s e)) j \<noteq> None"
    "record_node i s e = e\<lparr>g_nodes := g_nodes (record_node i s e)\<rparr>"
proof -
  show "nodes_ok (g_maxLatencySamples e) (g_nodes (record_node i s e))"
  proof (cases "map_of (g_nodes e) i")
    case (Some n)
    then have "n_id n = i \<and> metric_ok (g_maxLatencySamples e) (n_metrics n)"
      using assms unfolding nodes_ok_def by (rule entriesD [rotated])
    then show ?thesis
      using assms Some unfolding nodes_ok_def
      by (simp add: record_node_def metric_ok_record entries_update)
  qed (use assms in \<open>simp add: record_node_def\<close>)
qed (simp_all add: record_node_def split: option.split)

lemma edges_ok_more_nodes:
  "edges_ok limit ns es \<Longrightarrow> \<forall>i. map_of ns i \<noteq> None \<longrightarrow> map_of ns' i \<noteq> None \<Longrightarrow> edges_ok limit ns' es"
  unfolding edges_ok_def by (erule entries_mono) blast

section \<open>Traces\<close>

lemma keys_iff: "k \<in> set (keys m) \<longleftrightarrow> map_of m k \<noteq> None"
  by (simp add: map_of_eq_None_iff)

lemma seen_update [simp]: "seen (AList.update k True m) j \<longleftrightarrow> j = k \<or> seen m j"
  by (simp add: seen_def)

lemma seen_delete [simp]: "seen (AList.delete k m) j \<longleftrightarrow> j \<noteq> k \<and> seen m j"
  by (simp add: seen_def)

lemma seen_deletes [simp]: "seen (foldl (\<lambda>m i. AList.delete (f i) m) m is) j \<longleftrightarrow> j \<notin> f ` set is \<and> seen m j"
  by (induction "is" arbitrary: m) auto

lemma trace_ok_new: "trace_ok i (new_trace i)"
  by (simp add: trace_ok_def new_trace_def)

lemma trace_ok_store:
  assumes "trace_ok i t" "SpanID s \<notin> set (t_spanOrder t)" "TraceID s = i" "finite_span s"
  shows "trace_ok i (t\<lparr>t_spanOrder := t_spanOrder t @ [SpanID s],
    t_spans := AList.update (SpanID s) s (t_spans t), t_lastUpdatedAt := c\<rparr>)"
  using assms by (auto simp: trace_ok_def dom_update simp del: map_of_eq_Some_iff)

lemma holds_update:
  "holds (AList.update i t ts) j k \<longleftrightarrow> (if j = i then k \<in> set (t_spanOrder t) else holds ts j k)"
  by (simp add: holds_def)

lemma holds_delete: "holds (AList.delete i ts) j k \<longleftrightarrow> j \<noteq> i \<and> holds ts j k"
  by (simp add: holds_def)

lemma traces_okD:
  "traces_ok sn ts \<Longrightarrow> map_of ts i = Some t \<Longrightarrow> trace_ok i t"
  "traces_ok sn ts \<Longrightarrow> holds ts i k \<Longrightarrow> holds ts j k \<Longrightarrow> i = j"
  "traces_ok sn ts \<Longrightarrow> seen sn k \<longleftrightarrow> (\<exists>i. holds ts i k)"
  "traces_ok sn ts \<Longrightarrow> all_entries trace_ok ts"
  unfolding traces_ok_def using entriesD by fast+

definition trace_of :: "span \<Rightarrow> engine \<Rightarrow> traceState" where
  "trace_of s e = (case map_of (g_traces e) (TraceID s) of Some t \<Rightarrow> t | None \<Rightarrow> new_trace (TraceID s))"

definition grown_trace :: "span \<Rightarrow> engine \<Rightarrow> traceState" where
  "grown_trace s e = (trace_of s e)\<lparr>t_spanOrder := t_spanOrder (trace_of s e) @ [SpanID s],
     t_spans := AList.update (SpanID s) s (t_spans (trace_of s e)), t_lastUpdatedAt := g_clock e + 1\<rparr>"

lemma trace_of_ok:
  assumes "traces_ok (g_seenSpanIDs e) (g_traces e)"
  shows "trace_ok (TraceID s) (trace_of s e)"
    "k \<in> set (t_spanOrder (trace_of s e)) \<longleftrightarrow> holds (g_traces e) (TraceID s) k"
  using traces_okD(1) [OF assms] trace_ok_new
  by (auto simp: trace_of_def holds_def new_trace_def split: option.split simp del: map_of_eq_Some_iff)

lemma store_span_unseen:
  assumes "traces_ok (g_seenSpanIDs e) (g_traces e)" "\<not> seen (g_seenSpanIDs e) (SpanID s)"
  shows "store_span s e = e\<lparr>g_seenSpanIDs := AList.update (SpanID s) True (g_seenSpanIDs e),
       g_clock := g_clock e + 1, g_traces := AList.update (TraceID s) (grown_trace s e) (g_traces e)\<rparr>"
    "trace_ok (TraceID s) (trace_of s e)" "SpanID s \<notin> set (t_spanOrder (trace_of s e))"
proof -
  note ok = trace_of_ok [OF assms(1), where s = s]
  have none: "\<not> holds (g_traces e) (TraceID s) (SpanID s)" using assms traces_okD(3) by blast
  then show no: "SpanID s \<notin> set (t_spanOrder (trace_of s e))" using ok(2) by simp
  show "trace_ok (TraceID s) (trace_of s e)" by (rule ok(1))
  have "map_of (t_spans (trace_of s e)) (SpanID s) = None"
    using no ok(1) keys_iff [of "SpanID s" "t_spans (trace_of s e)"] unfolding trace_ok_def by blast
  then show "store_span s e = e\<lparr>g_seenSpanIDs := AList.update (SpanID s) True (g_seenSpanIDs e),
       g_clock := g_clock e + 1, g_traces := AList.update (TraceID s) (grown_trace s e) (g_traces e)\<rparr>"
    by (simp add: store_span_def Let_def grown_trace_def trace_of_def)
qed

lemma store_span_traces:
  assumes "traces_ok (g_seenSpanIDs e) (g_traces e)" "\<not> seen (g_seenSpanIDs e) (SpanID s)" "finite_span s"
  shows "traces_ok (g_seenSpanIDs (store_span s e)) (g_traces (store_span s e))"
proof -
  note st = store_span_unseen [OF assms(1,2)]
  let ?ts = "AList.update (TraceID s) (grown_trace s e) (g_traces e)"
  have h: "holds ?ts j k \<longleftrightarrow> holds (g_traces e) j k \<or> (j = TraceID s \<and> k = SpanID s)" for j k
    using trace_of_ok(2) [OF assms(1), of k s] by (auto simp: holds_update grown_trace_def)
  have none: "\<not> holds (g_traces e) j (SpanID s)" for j using assms(2) traces_okD(3) [OF assms(1)] by blast
  have "trace_ok (TraceID s) (grown_trace s e)"
    unfolding grown_trace_def by (rule trace_ok_store [OF st(2,3) refl assms(3)])
  then have "all_entries trace_ok ?ts" by (rule entries_update [OF traces_okD(4) [OF assms(1)]])
  then show ?thesis
    unfolding traces_ok_def
  proof (intro conjI allI impI)
    fix i j k
    assume "holds (g_traces (store_span s e)) i k" "holds (g_traces (store_span s e)) j k"
    then have "holds (g_traces e) i k \<or> i = TraceID s \<and> k = SpanID s"
      "holds (g_traces e) j k \<or> j = TraceID s \<and> k = SpanID s" by (simp_all add: st(1) h)
    then show "i = j" using traces_okD(2) [OF assms(1)] none by auto
  next
    fix k
    have "seen (g_seenSpanIDs (store_span s e)) k \<longleftrightarrow> k = SpanID s \<or> (\<exists>i. holds (g_traces e) i k)"
      using traces_okD(3) [OF assms(1)] by (simp add: st(1))
    then show "seen (g_seenSpanIDs (store_span s e)) k \<longleftrightarrow> (\<exists>i. holds (g_traces (store_span s e)) i k)"
      by (auto simp: st(1) h)
  qed (simp add: st(1))
qed

text \<open>Other changes of a trace leave its spans alone.\<close>

lemma traces_ok_contributions:
  assumes "traces_ok sn ts" "map_of ts i = Some t" "distinct (keys cs)"
  shows "traces_ok sn (AList.update i (t\<lparr>t_pathContributions := cs\<rparr>) ts)"
proof -
  let ?t = "t\<lparr>t_pathContributions := cs\<rparr>"
  have "holds (AList.update i ?t ts) j k \<longleftrightarrow> holds ts j k" for j k
    using assms(2) by (simp add: holds_update) (simp add: holds_def)
  moreover have "trace_ok i ?t" using traces_okD(1) [OF assms(1,2)] assms(3) by (simp add: trace_ok_def)
  then have "all_entries trace_ok (AList.update i ?t ts)"
    by (rule entries_update [OF traces_okD(4) [OF assms(1)]])
  ultimately show ?thesis using assms(1) unfolding traces_ok_def by simp
qed

lemma forget_trace_traces:
  assumes "traces_ok (g_seenSpanIDs e) (g_traces e)" "map_of (g_traces e) (t_traceID t) = Some t"
  shows "traces_ok (g_seenSpanIDs (forget_trace e t)) (g_traces (forget_trace e t))"
proof -
  let ?i = "t_traceID t"
  have "k \<in> set (t_spanOrder t) \<longleftrightarrow> holds (g_traces e) ?i k" for k using assms(2) by (simp add: holds_def)
  then have sn: "seen (g_seenSpanIDs (forget_trace e t)) k \<longleftrightarrow> seen (g_seenSpanIDs e) k \<and> \<not> holds (g_traces e) ?i k" for k
    using seen_deletes [of "\<lambda>i. i" "g_seenSpanIDs e" "t_spanOrder t" k] by (auto simp: forget_trace_def)
  have ts: "g_traces (forget_trace e t) = AList.delete ?i (g_traces e)" by (simp add: forget_trace_def)
  show ?thesis
    unfolding traces_ok_def
  proof (intro conjI allI impI)
    show "all_entries trace_ok (g_traces (forget_trace e t))"
      using entries_delete [OF traces_okD(4) [OF assms(1)]] by (simp add: ts)
  next
    fix i j k
    assume "holds (g_traces (forget_trace e t)) i k" "holds (g_traces (forget_trace e t)) j k"
    then have "holds (g_traces e) i k" "holds (g_traces e) j k" by (simp_all add: ts holds_delete)
    then show "i = j" by (rule traces_okD(2) [OF assms(1)])
  next
    fix k
    have "holds (g_traces e) i k \<Longrightarrow> holds (g_traces e) ?i k \<Longrightarrow> i = ?i" for i
      by (rule traces_okD(2) [OF assms(1)])
    then show "seen (g_seenSpanIDs (forget_trace e t)) k \<longleftrightarrow> (\<exists>i. holds (g_traces (forget_trace e t)) i k)"
      unfolding sn ts holds_delete traces_okD(3) [OF assms(1)] by metis
  qed
qed

section \<open>Edges and paths\<close>

lemma known_node_known: "known_node e s = Some n \<Longrightarrow> map_of (g_nodes e) n \<noteq> None"
  by (auto simp: resolveNode_def Let_def split: option.splits if_splits)

lemma nearest_parent_known:
  "nearest_parent e spans visited i = Some n \<Longrightarrow> map_of (g_nodes e) n \<noteq> None"
proof (induction e spans visited i rule: nearest_parent.induct)
  case (1 e spans visited i)
  have "nearest_parent e spans visited i = Some n" by (rule 1(2))
  then show ?case
    using 1(1) known_node_known
    by (subst (asm) nearest_parent.simps) (auto split: option.splits if_splits)
qed

lemma edge_ends_known:
  "edge_ends t s e = Some (p, c) \<Longrightarrow> p \<noteq> c \<and> map_of (g_nodes e) p \<noteq> None \<and> map_of (g_nodes e) c \<noteq> None"
  using nearest_parent_known known_node_known
  unfolding edge_ends_def findNearestParentNode_def
  by (auto split: option.splits if_splits simp del: map_of_eq_Some_iff)

lemma record_edge_edges:
  assumes "edges_ok (g_maxLatencySamples e) (g_nodes e) (g_edges e)"
    "p \<noteq> c" "map_of (g_nodes e) p \<noteq> None" "map_of (g_nodes e) c \<noteq> None"
  shows "edges_ok (g_maxLatencySamples e) (g_nodes e) (g_edges (record_edge p c s e))"
proof (cases "map_of (g_edges e) (StableEdgeID p c)")
  case None
  then show ?thesis
    using assms unfolding edges_ok_def record_edge_def Let_def
    by (simp add: entries_update metric_ok_record)
next
  case (Some x)
  note ok = entriesD [OF assms(1) [unfolded edges_ok_def] Some]
  show ?thesis
    using assms(1) ok Some unfolding edges_ok_def record_edge_def Let_def
    by (simp add: entries_update metric_ok_record)
qed

lemma record_edge_only:
  "record_edge p c s e = e\<lparr>g_edges := g_edges (record_edge p c s e),
     g_seenEdgeSpanIDs := g_seenEdgeSpanIDs (record_edge p c s e)\<rparr>"
  by (simp add: record_edge_def Let_def)

lemma least_useful_known:
  "least_useful ps candidate = Some p \<Longrightarrow> candidate = Some p \<or> p \<in> snd ` set ps"
proof (induction ps candidate rule: least_useful.induct)
  case (2 i q ps candidate)
  then show ?case by (cases candidate) (auto split: if_splits)
qed simp

lemma least_useful_some: "ps \<noteq> [] \<or> candidate \<noteq> None \<Longrightarrow> least_useful ps candidate \<noteq> None"
  by (induction ps candidate rule: least_useful.induct) (auto split: option.splits)

lemma removeLeastUsefulPath_paths:
  assumes "paths_ok bound limit (g_paths e)"
  shows "paths_ok bound limit (g_paths (removeLeastUsefulPath e))"
    "g_paths e \<noteq> [] \<Longrightarrow> Suc (length (g_paths (removeLeastUsefulPath e))) = length (g_paths e)"
    "removeLeastUsefulPath e = e\<lparr>g_paths := g_paths (removeLeastUsefulPath e)\<rparr>"
    "\<forall>i. map_of (g_paths e) i = None \<longrightarrow> map_of (g_paths (removeLeastUsefulPath e)) i = None"
proof -
  have ent: "all_entries (\<lambda>i p. p_id p = i \<and> length (m_latencies (p_metrics p)) \<le> limit) (g_paths e)"
    and len: "length (g_paths e) \<le> bound"
    using assms by (simp_all add: paths_ok_def)
  show "paths_ok bound limit (g_paths (removeLeastUsefulPath e))"
    using ent len entries_delete [OF ent] length_delete_le [of _ "g_paths e"]
    unfolding removeLeastUsefulPath_def paths_ok_def
    by (auto split: option.split intro: order_trans simp del: map_of_eq_Some_iff)
  show "Suc (length (g_paths (removeLeastUsefulPath e))) = length (g_paths e)" if ne: "g_paths e \<noteq> []"
  proof -
    obtain p where p: "least_useful (g_paths e) None = Some p"
      using least_useful_some ne by blast
    then obtain i where "(i, p) \<in> set (g_paths e)" using least_useful_known by fastforce
    then have m: "map_of (g_paths e) i = Some p" using entries_distinct [OF ent] by simp
    then have "p_id p = i" using entriesD [OF ent] by blast
    then have "map_of (g_paths e) (p_id p) \<noteq> None" using m by (simp del: map_of_eq_Some_iff)
    then have "Suc (length (AList.delete (p_id p) (g_paths e))) = length (g_paths e)"
      by (rule length_delete_known [OF entries_distinct [OF ent]])
    then show ?thesis using p by (simp add: removeLeastUsefulPath_def)
  qed
qed (auto simp: removeLeastUsefulPath_def split: option.split)

end
