(* ===== verification/Topo_Ingest.thy ===== *)
theory Topo_Ingest
  imports Topo_Invariant "HOL-Library.Multiset"
begin

text \<open>
  The engine's invariant is kept by every operation, and trimming bounds the traces.
\<close>

section \<open>What the steps leave alone\<close>

text \<open>Only the paths and the clock change, or only traces and their marks.\<close>

definition only_paths :: "engine \<Rightarrow> engine \<Rightarrow> bool" where
  "only_paths e e' \<longleftrightarrow> g_nodes e' = g_nodes e \<and> g_edges e' = g_edges e \<and> g_traces e' = g_traces e
     \<and> g_seenSpanIDs e' = g_seenSpanIDs e \<and> g_seenEdgeSpanIDs e' = g_seenEdgeSpanIDs e
     \<and> same_limits e e' \<and> g_applicationNames e' = g_applicationNames e
     \<and> g_nodeVersion e' = g_nodeVersion e \<and> g_revision e' = g_revision e
     \<and> g_runtime e' = g_runtime e \<and> g_activity e' = g_activity e"

lemma only_paths_refl [simp]: "only_paths e e"
  by (simp add: only_paths_def same_limits_def)

lemma only_paths_trans: "only_paths e e1 \<Longrightarrow> only_paths e1 e2 \<Longrightarrow> only_paths e e2"
  by (simp add: only_paths_def same_limits_def)

lemma only_paths_fields:
  assumes "only_paths e e'"
  shows "g_nodes e' = g_nodes e" "g_edges e' = g_edges e" "g_traces e' = g_traces e"
    "g_seenSpanIDs e' = g_seenSpanIDs e" "g_seenEdgeSpanIDs e' = g_seenEdgeSpanIDs e"
    "same_limits e e'"
  using assms by (simp_all add: only_paths_def)

lemma only_paths_remove: "only_paths e (removeLeastUsefulPath e)"
  by (simp add: removeLeastUsefulPath_def only_paths_def same_limits_def split: option.split)

lemma drop_contribution_paths:
  assumes "paths_ok bound limit (g_paths e)"
  shows "paths_ok bound limit (g_paths (drop_contribution desired d f e x))"
    "only_paths e (drop_contribution desired d f e x)"
proof -
  obtain i c where x: "x = (i, c)" by fastforce
  have ent: "all_entries (\<lambda>i p. p_id p = i \<and> length (m_latencies (p_metrics p)) \<le> limit) (g_paths e)"
    and len: "length (g_paths e) \<le> bound"
    using assms by (simp_all add: paths_ok_def)
  show "only_paths e (drop_contribution desired d f e x)"
    by (simp add: x drop_contribution_def only_paths_def same_limits_def Let_def split: option.split)
  show "paths_ok bound limit (g_paths (drop_contribution desired d f e x))"
  proof (cases "map_of (g_paths e) i")
    case None
    then show ?thesis using assms by (simp add: x drop_contribution_def)
  next
    case (Some p)
    let ?m = "removeRecord (c_durationMS c) (c_failed c) (p_metrics p)"
    have "p_id p = i \<and> length (m_latencies (p_metrics p)) \<le> limit" using entriesD [OF ent Some] .
    then have p': "p_id (p\<lparr>p_metrics := ?m\<rparr>) = i
        \<and> length (m_latencies (p_metrics (p\<lparr>p_metrics := ?m\<rparr>))) \<le> limit"
      using removeRecord_latencies [of "c_durationMS c" "c_failed c" "p_metrics p"] by simp
    have "length (AList.update i (p\<lparr>p_metrics := ?m\<rparr>) (g_paths e)) = length (g_paths e)"
      by (rule length_update_known) (simp add: Some del: map_of_eq_Some_iff)
    then have "paths_ok bound limit (AList.update i (p\<lparr>p_metrics := ?m\<rparr>) (g_paths e))"
      using entries_update [OF ent p'] len by (simp add: paths_ok_def)
    moreover have "paths_ok bound limit (AList.delete i (g_paths e))"
      using entries_delete [OF ent] length_delete_le [of i "g_paths e"] len by (simp add: paths_ok_def)
    ultimately show ?thesis
      using assms Some by (simp add: x drop_contribution_def Let_def del: map_of_eq_Some_iff)
  qed
qed

lemma add_contribution_paths:
  assumes "paths_ok (g_maxRuntimePaths e) (g_maxLatencySamples e) (g_paths e)" "0 < g_maxRuntimePaths e"
  shows "paths_ok (g_maxRuntimePaths e) (g_maxLatencySamples e) (g_paths (add_contribution prev d f e x))"
    "only_paths e (add_contribution prev d f e x)"
proof -
  obtain i entry nodes where x: "x = (i, entry, nodes)" by (metis prod.exhaust)
  define e1 where "e1 = (if map_of (g_paths e) i = None \<and> length (g_paths e) \<ge> g_maxRuntimePaths e
      then removeLeastUsefulPath e else e)"
  define p where "p = (case map_of (g_paths e) i of Some p \<Rightarrow> p
      | None \<Rightarrow> \<lparr>p_id = i, p_entrypoint = entry, p_nodes = nodes, p_metrics = no_metrics, p_lastUpdatedAt = 0\<rparr>)"
  define p' where "p' = p\<lparr>p_metrics := record_metric (g_maxLatencySamples e1) d f (p_metrics p),
      p_lastUpdatedAt := g_clock e1 + 1\<rparr>"
  note rem = removeLeastUsefulPath_paths [OF assms(1)]
  have e1: "only_paths e e1" "paths_ok (g_maxRuntimePaths e) (g_maxLatencySamples e) (g_paths e1)"
    using rem(1) assms(1) only_paths_remove by (simp_all add: e1_def)
  have lim: "g_maxLatencySamples e1 = g_maxLatencySamples e"
    using only_paths_fields(6) [OF e1(1)] by (simp add: same_limits_def)
  have ent: "all_entries (\<lambda>i p. p_id p = i \<and> length (m_latencies (p_metrics p)) \<le> g_maxLatencySamples e) (g_paths e1)"
    and len: "length (g_paths e1) \<le> g_maxRuntimePaths e"
    using e1(2) by (simp_all add: paths_ok_def)
  have "p_id p = i"
  proof (cases "map_of (g_paths e) i")
    case (Some q)
    then show ?thesis
      using assms(1) entriesD unfolding paths_ok_def p_def by fastforce
  qed (simp add: p_def)
  then have "all_entries (\<lambda>i p. p_id p = i \<and> length (m_latencies (p_metrics p)) \<le> g_maxLatencySamples e)
      (AList.update i p' (g_paths e1))"
    by (intro entries_update [OF ent]) (simp add: p'_def lim record_metric_latencies)
  moreover have "length (AList.update i p' (g_paths e1)) \<le> g_maxRuntimePaths e"
  proof (cases "map_of (g_paths e) i = None")
    case True
    then have "map_of (g_paths e1) i = None" using rem(4) by (simp add: e1_def)
    then have l: "length (AList.update i p' (g_paths e1)) = Suc (length (g_paths e1))"
      by (rule length_update_new)
    have "length (g_paths e1) < g_maxRuntimePaths e"
    proof (cases "length (g_paths e) \<ge> g_maxRuntimePaths e")
      case full: True
      then have "g_paths e \<noteq> []" using assms(2) by auto
      then have "Suc (length (g_paths e1)) = length (g_paths e)" using rem(2) True full by (simp add: e1_def)
      then show ?thesis using assms(1) by (simp add: paths_ok_def)
    qed (simp add: e1_def)
    then show ?thesis using l by simp
  next
    case False
    then have "e1 = e" by (auto simp: e1_def)
    then show ?thesis using length_update_known False len by metis
  qed
  ultimately have new: "paths_ok (g_maxRuntimePaths e) (g_maxLatencySamples e) (AList.update i p' (g_paths e1))"
    by (simp add: paths_ok_def)
  have run: "add_contribution prev d f e x = e \<or> add_contribution prev d f e x
      = e1\<lparr>g_paths := AList.update i p' (g_paths e1), g_clock := g_clock e1 + 1\<rparr>"
    by (simp add: x add_contribution_def Let_def e1_def p_def p'_def)
  then show "paths_ok (g_maxRuntimePaths e) (g_maxLatencySamples e) (g_paths (add_contribution prev d f e x))"
    using new assms(1) by auto
  show "only_paths e (add_contribution prev d f e x)"
    using run e1(1) by (auto simp: only_paths_def same_limits_def)
qed

section \<open>Aggregation and trimming\<close>

lemma aggregate_paths:
  assumes "paths_ok (g_maxRuntimePaths e) (g_maxLatencySamples e) (g_paths e)" "0 < g_maxRuntimePaths e"
    and "e' = foldl (add_contribution prev d f) (foldl (drop_contribution desired d f) e olds) news"
  shows "paths_ok (g_maxRuntimePaths e) (g_maxLatencySamples e) (g_paths e') \<and> only_paths e e'"
proof -
  let ?P = "\<lambda>x. paths_ok (g_maxRuntimePaths e) (g_maxLatencySamples e) (g_paths x) \<and> only_paths e x"
  have "?P (foldl (drop_contribution desired d f) e olds)"
    using assms(1) drop_contribution_paths only_paths_trans
    by (intro foldl_inv [where P = ?P]) fastforce+
  then show ?thesis
    unfolding assms(3)
  proof (rule foldl_inv [where P = ?P])
    fix a x
    assume a: "?P a"
    then have lim: "g_maxRuntimePaths a = g_maxRuntimePaths e" "g_maxLatencySamples a = g_maxLatencySamples e"
      using only_paths_fields(6) by (auto simp: same_limits_def)
    show "?P (add_contribution prev d f a x)"
      using add_contribution_paths [of a prev d f x] a assms(2) only_paths_trans [of e a]
      unfolding lim by blast
  qed
qed

text \<open>What a trace contributes to its paths.\<close>

definition contribution_list :: "traceState \<Rightarrow> pathContribution gomap" where
  "contribution_list t = List.map (\<lambda>(i, _). (i, \<lparr>c_durationMS = b_durationMS (buildTrace t),
     c_failed = b_failed (buildTrace t)\<rparr>)) (desired_paths (b_roots (buildTrace t)))"

lemma distinct_contribution_list: "distinct (keys (contribution_list t))"
proof -
  have "keys (List.map (\<lambda>(i, _). (i, c)) ds) = keys ds"
    for c :: pathContribution and ds :: "(string \<times> string list) gomap"
    by (induction ds) auto
  then show ?thesis unfolding contribution_list_def by (simp only: distinct_desired_paths)
qed

lemma aggregateRuntimePaths_run:
  assumes "paths_ok (g_maxRuntimePaths e) (g_maxLatencySamples e) (g_paths e)" "0 < g_maxRuntimePaths e"
  obtains "aggregateRuntimePaths t e = e" "b_roots (buildTrace t) = []"
  | e2 where "only_paths e e2" "b_roots (buildTrace t) \<noteq> []"
      "paths_ok (g_maxRuntimePaths e) (g_maxLatencySamples e) (g_paths e2)"
      "aggregateRuntimePaths t e = e2\<lparr>g_traces := AList.update (t_traceID t)
        (t\<lparr>t_pathContributions := contribution_list t\<rparr>) (g_traces e2)\<rparr>"
proof (cases "b_roots (buildTrace t) = []")
  case True
  then show ?thesis using that(1) by (simp add: aggregateRuntimePaths_def Let_def)
next
  case False
  define desired where "desired = desired_paths (b_roots (buildTrace t))"
  define e2 where "e2 = foldl (add_contribution (t_pathContributions t) (b_durationMS (buildTrace t)) (b_failed (buildTrace t)))
    (foldl (drop_contribution desired (b_durationMS (buildTrace t)) (b_failed (buildTrace t))) e (t_pathContributions t)) desired"
  note ok = aggregate_paths [OF assms e2_def]
  show ?thesis
    by (rule that(2) [of e2])
      (use ok False in \<open>simp_all add: aggregateRuntimePaths_def Let_def e2_def desired_def contribution_list_def\<close>)
qed

lemma aggregateRuntimePaths_ok:
  assumes "engine_ok e" "map_of (g_traces e) i = Some t"
  shows "engine_ok (aggregateRuntimePaths t e) \<and> same_limits e (aggregateRuntimePaths t e)"
proof -
  have "paths_ok (g_maxRuntimePaths e) (g_maxLatencySamples e) (g_paths e)" "0 < g_maxRuntimePaths e"
    using assms(1) by (simp_all add: engine_ok_def)
  then show ?thesis
  proof (cases rule: aggregateRuntimePaths_run [where t = t])
    case 1
    then show ?thesis using assms(1) by (simp add: same_limits_def)
  next
    case (2 e2)
    note same = only_paths_fields [OF 2(1)]
    have tr: "traces_ok (g_seenSpanIDs e) (g_traces e)" using assms(1) by (simp add: engine_ok_def)
    have "t_traceID t = i" using traces_okD(1) [OF tr assms(2)] by (simp add: trace_ok_def)
    then have "traces_ok (g_seenSpanIDs e)
        (AList.update (t_traceID t) (t\<lparr>t_pathContributions := contribution_list t\<rparr>) (g_traces e))"
      using traces_ok_contributions [OF tr assms(2) distinct_contribution_list] by simp
    then show ?thesis
      using 2(3,4) same assms(1) by (simp add: engine_ok_def same_limits_def)
  qed
qed

lemma aggregate_trace_ok: "engine_ok e \<Longrightarrow> engine_ok (aggregate_trace e i) \<and> same_limits e (aggregate_trace e i)"
  using aggregateRuntimePaths_ok
  by (auto simp: aggregate_trace_def same_limits_def split: option.split simp del: map_of_eq_Some_iff)

lemma forget_trace_ok:
  assumes "engine_ok e" "map_of (g_traces e) (t_traceID t) = Some t"
  shows "engine_ok (forget_trace e t)"
  using assms forget_trace_traces [of e t] by (simp add: engine_ok_def) (simp add: forget_trace_def)

lemma forget_traces_ok:
  assumes "engine_ok e" "distinct (List.map t_traceID ts)" "\<forall>t\<in>set ts. map_of (g_traces e) (t_traceID t) = Some t"
  shows "engine_ok (foldl forget_trace e ts) \<and> same_limits e (foldl forget_trace e ts)
    \<and> length (g_traces (foldl forget_trace e ts)) + length ts = length (g_traces e)"
  using assms
proof (induction ts arbitrary: e)
  case (Cons t ts)
  let ?e = "forget_trace e t"
  have known: "map_of (g_traces e) (t_traceID t) = Some t" using Cons.prems(3) by simp
  have ok: "engine_ok ?e" using forget_trace_ok Cons.prems(1) known by blast
  have "\<forall>u\<in>set ts. map_of (g_traces ?e) (t_traceID u) = Some u"
  proof
    fix u
    assume u: "u \<in> set ts"
    then have "t_traceID u \<in> set (List.map t_traceID ts)" by simp
    then have "t_traceID u \<noteq> t_traceID t" using Cons.prems(2) by auto
    then show "map_of (g_traces ?e) (t_traceID u) = Some u"
      using Cons.prems(3) u by (simp add: forget_trace_def del: map_of_eq_Some_iff)
  qed
  then have ih: "engine_ok (foldl forget_trace ?e ts) \<and> same_limits ?e (foldl forget_trace ?e ts)
      \<and> length (g_traces (foldl forget_trace ?e ts)) + length ts = length (g_traces ?e)"
    using Cons.IH [OF ok] Cons.prems(2) by simp
  have "distinct (keys (g_traces e))"
    using Cons.prems(1) entries_distinct by (auto simp: engine_ok_def traces_ok_def)
  then have "Suc (length (g_traces ?e)) = length (g_traces e)"
    using length_delete_known [of "g_traces e" "t_traceID t"] known by (simp add: forget_trace_def)
  then show ?case using ih by (simp add: same_limits_def) (simp add: forget_trace_def)
qed (simp add: same_limits_def)

lemma trimTraces_ok:
  assumes "engine_ok e"
  shows "engine_ok (trimTraces e) \<and> same_limits e (trimTraces e)
    \<and> length (g_traces (trimTraces e)) \<le> g_maxRecentTraces e"
proof (cases "length (g_traces e) \<le> g_maxRecentTraces e")
  case True
  then show ?thesis using assms by (simp add: trimTraces_def same_limits_def)
next
  case False
  let ?n = "length (g_traces e) - g_maxRecentTraces e"
  let ?ordered = "sort_key t_lastUpdatedAt (List.map snd (g_traces e))"
  have ent: "all_entries trace_ok (g_traces e)" using assms by (simp add: engine_ok_def traces_ok_def)
  have known: "map_of (g_traces e) (t_traceID t) = Some t" if t: "t \<in> set ?ordered" for t
  proof -
    obtain i where i: "(i, t) \<in> set (g_traces e)" using t by auto
    then have "map_of (g_traces e) i = Some t" using entries_distinct [OF ent] by simp
    moreover from this have "t_traceID t = i" using entriesD [OF ent] by (fastforce simp: trace_ok_def)
    ultimately show ?thesis by simp
  qed
  have "t_traceID t = i" if "(i, t) \<in> set (g_traces e)" for i t
    using entriesD [OF ent, of i t] entries_distinct [OF ent] that by (simp add: trace_ok_def)
  then have ids: "List.map t_traceID (List.map snd (g_traces e)) = keys (g_traces e)" by auto
  have "mset (List.map t_traceID ?ordered) = mset (List.map t_traceID (List.map snd (g_traces e)))"
    by (simp only: mset_map mset_sort)
  then have "distinct (List.map t_traceID ?ordered)"
    using ids entries_distinct [OF ent] mset_eq_imp_distinct_iff by metis
  then have d: "distinct (List.map t_traceID (take ?n ?ordered))"
    by (simp add: take_map [symmetric] distinct_take)
  have "\<forall>t\<in>set (take ?n ?ordered). map_of (g_traces e) (t_traceID t) = Some t"
    using known in_set_takeD by fast
  note forgotten = forget_traces_ok [OF assms d this]
  have "length (take ?n ?ordered) = ?n" by simp
  then have "length (g_traces (foldl forget_trace e (take ?n ?ordered))) \<le> g_maxRecentTraces e"
    using forgotten False by linarith
  moreover have "trimTraces e = foldl forget_trace e (take ?n ?ordered)"
    using False by (simp add: trimTraces_def Let_def)
  ultimately show ?thesis using forgotten by simp
qed

section \<open>Admission\<close>

lemma store_span_fields [simp]:
  "g_nodes (store_span s e) = g_nodes e" "g_edges (store_span s e) = g_edges e"
  "g_paths (store_span s e) = g_paths e" "g_seenEdgeSpanIDs (store_span s e) = g_seenEdgeSpanIDs e"
  "g_maxRecentTraces (store_span s e) = g_maxRecentTraces e"
  "g_maxLatencySamples (store_span s e) = g_maxLatencySamples e"
  "g_maxRuntimePaths (store_span s e) = g_maxRuntimePaths e"
  "g_seenSpanIDs (store_span s e) = AList.update (SpanID s) True (g_seenSpanIDs e)"
  by (simp_all add: store_span_def Let_def)

text \<open>The node of a span: as it is, or fresh.\<close>

definition node_for :: "span \<Rightarrow> engine \<Rightarrow> nodeState" where
  "node_for s e = (case map_of (g_nodes e) (span_node_id s) of Some n \<Rightarrow> n | None \<Rightarrow> fresh_node s)"

definition counted_node :: "span \<Rightarrow> engine \<Rightarrow> nodeState" where
  "counted_node s e = (node_for s e)\<lparr>n_metrics := record_metric (g_maxLatencySamples e) (DurationMS s)
     (Status s = ''error'') (n_metrics (node_for s e))\<rparr>"

lemma update_update_same [simp]: "AList.update k v (AList.update k w m) = AList.update k v m"
  by (induction m) auto

lemma admit_span_run:
  "admit_span s (e, touched, active) =
     (if seen (g_seenSpanIDs e) (SpanID s) then (e, add_once (TraceID s) touched, active)
      else if Kind s \<in> set topologyKinds
      then ((store_span s e)\<lparr>g_nodes := AList.update (span_node_id s) (counted_node s e) (g_nodes e)\<rparr>,
            add_once (TraceID s) touched, add_once (span_node_id s) active)
      else (store_span s e, add_once (TraceID s) touched, active))"
proof (cases "map_of (g_nodes e) (span_node_id s)")
  case None
  then show ?thesis
    by (simp add: admit_span_def Let_def resolveNode_def record_node_def counted_node_def node_for_def)
next
  case (Some n)
  then show ?thesis
    by (simp add: admit_span_def Let_def resolveNode_def record_node_def counted_node_def node_for_def
        del: map_of_eq_Some_iff)
qed

lemma counted_node_ok:
  assumes "nodes_ok (g_maxLatencySamples e) (g_nodes e)"
  shows "n_id (counted_node s e) = span_node_id s
    \<and> metric_ok (g_maxLatencySamples e) (n_metrics (counted_node s e))"
proof (cases "map_of (g_nodes e) (span_node_id s)")
  case None
  then show ?thesis
    by (simp add: counted_node_def node_for_def fresh_node_def Let_def metric_ok_record)
next
  case (Some n)
  then show ?thesis
    using entriesD [OF assms [unfolded nodes_ok_def] Some]
    by (simp add: counted_node_def node_for_def metric_ok_record del: map_of_eq_Some_iff)
qed

lemma admit_span_ok:
  assumes "engine_ok e" "finite_span s"
  shows "engine_ok (fst (admit_span s (e, touched, active)))
    \<and> same_limits e (fst (admit_span s (e, touched, active)))"
proof (cases "seen (g_seenSpanIDs e) (SpanID s)")
  case True
  then show ?thesis using assms(1) by (simp add: admit_span_run same_limits_def)
next
  case False
  have tr: "traces_ok (g_seenSpanIDs (store_span s e)) (g_traces (store_span s e))"
    using store_span_traces assms False by (simp add: engine_ok_def)
  have nodes: "nodes_ok (g_maxLatencySamples e) (g_nodes e)" using assms(1) by (simp add: engine_ok_def)
  let ?ns = "AList.update (span_node_id s) (counted_node s e) (g_nodes e)"
  have "nodes_ok (g_maxLatencySamples e) ?ns"
    using entries_update [OF nodes [unfolded nodes_ok_def] counted_node_ok [OF nodes]]
    by (simp add: nodes_ok_def)
  moreover have "edges_ok (g_maxLatencySamples e) (g_nodes e) (g_edges e)"
    using assms(1) by (simp add: engine_ok_def)
  then have "edges_ok (g_maxLatencySamples e) ?ns (g_edges e)"
    by (rule edges_ok_more_nodes) simp
  ultimately show ?thesis
    using False tr assms(1) by (simp add: admit_span_run engine_ok_def same_limits_def)
qed

text \<open>The spans of a batch that are new, each the first time it occurs.\<close>

fun new_spans :: "(string \<Rightarrow> bool) \<Rightarrow> span list \<Rightarrow> span list" where
  "new_spans known [] = []"
| "new_spans known (s # ss) =
     (if known (SpanID s) then new_spans known ss
      else s # new_spans (known(SpanID s := True)) ss)"

definition node_calls :: "engine \<Rightarrow> string \<Rightarrow> int" where
  "node_calls e i = (case map_of (g_nodes e) i of None \<Rightarrow> 0 | Some n \<Rightarrow> m_count (n_metrics n))"

definition node_errors :: "engine \<Rightarrow> string \<Rightarrow> int" where
  "node_errors e i = (case map_of (g_nodes e) i of None \<Rightarrow> 0 | Some n \<Rightarrow> m_errors (n_metrics n))"

definition on_node :: "string \<Rightarrow> span \<Rightarrow> bool" where
  "on_node i s \<longleftrightarrow> Kind s \<in> set topologyKinds \<and> span_node_id s = i"

lemma counted_node_counts:
  "m_count (n_metrics (counted_node s e)) = node_calls e (span_node_id s) + 1"
  "m_errors (n_metrics (counted_node s e))
    = node_errors e (span_node_id s) + (if Status s = ''error'' then 1 else 0)"
  by (simp_all add: counted_node_def node_for_def node_calls_def node_errors_def fresh_node_def
      no_metrics_def Let_def split: option.split)

lemma admit_span_counts:
  assumes "\<not> seen (g_seenSpanIDs e) (SpanID s)"
  shows "node_calls (fst (admit_span s (e, touched, active))) i = node_calls e i + (if on_node i s then 1 else 0)"
    "node_errors (fst (admit_span s (e, touched, active))) i
      = node_errors e i + (if on_node i s \<and> Status s = ''error'' then 1 else 0)"
proof -
  let ?e = "fst (admit_span s (e, touched, active))"
  have "node_calls ?e i = node_calls e i + (if on_node i s then 1 else 0)
      \<and> node_errors ?e i = node_errors e i + (if on_node i s \<and> Status s = ''error'' then 1 else 0)"
  proof (cases "Kind s \<in> set topologyKinds")
    case True
    then have ns: "g_nodes ?e = AList.update (span_node_id s) (counted_node s e) (g_nodes e)"
      using assms by (simp add: admit_span_run)
    show ?thesis
    proof (cases "span_node_id s = i")
      case same: True
      have l: "map_of (g_nodes ?e) i = Some (counted_node s e)" unfolding ns same by simp
      have "node_calls ?e i = m_count (n_metrics (counted_node s e))"
        "node_errors ?e i = m_errors (n_metrics (counted_node s e))"
        unfolding node_calls_def node_errors_def l by simp_all
      moreover have "on_node i s" using True same by (simp add: on_node_def)
      ultimately show ?thesis using counted_node_counts [of s e] unfolding same by simp
    next
      case False
      then have l: "map_of (g_nodes ?e) i = map_of (g_nodes e) i" unfolding ns by simp
      have "\<not> on_node i s" using False by (simp add: on_node_def)
      then show ?thesis unfolding node_calls_def node_errors_def l by simp
    qed
  next
    case False
    then have l: "g_nodes ?e = g_nodes e" using assms by (simp add: admit_span_run)
    have "\<not> on_node i s" using False by (simp add: on_node_def)
    then show ?thesis unfolding node_calls_def node_errors_def l by simp
  qed
  then show "node_calls ?e i = node_calls e i + (if on_node i s then 1 else 0)"
    "node_errors ?e i = node_errors e i + (if on_node i s \<and> Status s = ''error'' then 1 else 0)" by blast+
qed

lemma admit_all:
  assumes "engine_ok e" "\<forall>s\<in>set spans. finite_span s"
    and "foldl (\<lambda>a s. admit_span s a) (e, touched, active) spans = (e', touched', active')"
  shows "engine_ok e' \<and> same_limits e e'
    \<and> touched' = foldl (\<lambda>l s. add_once (TraceID s) l) touched spans
    \<and> (\<forall>k. seen (g_seenSpanIDs e') k \<longleftrightarrow> seen (g_seenSpanIDs e) k \<or> k \<in> SpanID ` set spans)
    \<and> node_calls e' i = node_calls e i + int (length (filter (on_node i) (new_spans (seen (g_seenSpanIDs e)) spans)))
    \<and> node_errors e' i = node_errors e i
        + int (length (filter (\<lambda>s. on_node i s \<and> Status s = ''error'') (new_spans (seen (g_seenSpanIDs e)) spans)))"
  using assms
proof (induction spans arbitrary: e touched active)
  case (Cons s ss)
  obtain e1 t1 a1 where r: "admit_span s (e, touched, active) = (e1, t1, a1)" by (metis prod.exhaust)
  have ok: "engine_ok e1" "same_limits e e1"
    using admit_span_ok [OF Cons.prems(1), of s touched active] Cons.prems(2) r by simp_all
  have t1: "t1 = add_once (TraceID s) touched" using r by (auto simp: admit_span_run split: if_splits)
  have sn: "seen (g_seenSpanIDs e1) k \<longleftrightarrow> seen (g_seenSpanIDs e) k \<or> k = SpanID s" for k
    using r by (auto simp: admit_span_run split: if_splits)
  have "foldl (\<lambda>a s. admit_span s a) (e1, t1, a1) ss = (e', touched', active')"
    using Cons.prems(3) r by simp
  note ih = Cons.IH [OF ok(1) _ this]
  show ?case
  proof (cases "seen (g_seenSpanIDs e) (SpanID s)")
    case True
    then have "e1 = e" using r by (simp add: admit_span_run)
    then show ?thesis using ih Cons.prems(2) t1 True by auto
  next
    case False
    have fn: "seen (g_seenSpanIDs e1) = (seen (g_seenSpanIDs e))(SpanID s := True)"
      using sn by (auto simp: fun_eq_iff)
    note c = admit_span_counts [OF False, of touched active i, unfolded r]
    define rest where "rest = new_spans (seen (g_seenSpanIDs e1)) ss"
    have ns: "new_spans (seen (g_seenSpanIDs e)) (s # ss) = s # rest"
      using False by (simp only: new_spans.simps if_False fn rest_def)
    have lim: "same_limits e e'" using ih Cons.prems(2) ok(2) by (simp add: same_limits_def)
    show ?thesis
      unfolding ns using ih [folded rest_def] Cons.prems(2) t1 c lim by (auto simp: sn)
  qed
qed (simp add: same_limits_def)

section \<open>Edge reconciliation and the whole operation\<close>

lemma reconcile_edge_ok:
  assumes "engine_ok (fst a)"
  shows "engine_ok (fst (reconcile_edge t k a)) \<and> same_limits (fst a) (fst (reconcile_edge t k a))
    \<and> g_nodes (fst (reconcile_edge t k a)) = g_nodes (fst a)
    \<and> g_traces (fst (reconcile_edge t k a)) = g_traces (fst a)
    \<and> g_seenSpanIDs (fst (reconcile_edge t k a)) = g_seenSpanIDs (fst a)"
proof (cases "edge_ends t (span_at t k) (fst a)")
  case None
  then show ?thesis using assms by (simp add: reconcile_edge_def same_limits_def)
next
  case (Some pc)
  obtain p c where pc: "pc = (p, c)" by fastforce
  have "edges_ok (g_maxLatencySamples (fst a)) (g_nodes (fst a)) (g_edges (record_edge p c (span_at t k) (fst a)))"
    using record_edge_edges edge_ends_known Some pc assms by (simp add: engine_ok_def)
  moreover note record_edge_only [of p c "span_at t k" "fst a"]
  ultimately show ?thesis
    using assms Some pc
    by (simp add: reconcile_edge_def engine_ok_def same_limits_def) (simp add: record_edge_def Let_def)
qed

lemma reconcile_trace_ok:
  assumes "engine_ok (fst a)"
  shows "engine_ok (fst (reconcile_trace i a)) \<and> same_limits (fst a) (fst (reconcile_trace i a))
    \<and> g_nodes (fst (reconcile_trace i a)) = g_nodes (fst a)
    \<and> g_traces (fst (reconcile_trace i a)) = g_traces (fst a)
    \<and> g_seenSpanIDs (fst (reconcile_trace i a)) = g_seenSpanIDs (fst a)"
proof (cases "map_of (g_traces (fst a)) i")
  case None
  then show ?thesis using assms by (simp add: reconcile_trace_def same_limits_def)
next
  case (Some t)
  let ?P = "\<lambda>b :: engine \<times> string list. engine_ok (fst b) \<and> same_limits (fst a) (fst b) \<and> g_nodes (fst b) = g_nodes (fst a)
      \<and> g_traces (fst b) = g_traces (fst a) \<and> g_seenSpanIDs (fst b) = g_seenSpanIDs (fst a)"
  have "?P (foldl (\<lambda>a k. reconcile_edge t k a) a (t_spanOrder t))"
  proof (rule foldl_inv [where P = ?P])
    fix b x
    assume "?P b"
    then show "?P (reconcile_edge t x b)" using reconcile_edge_ok [of b t x] by (simp add: same_limits_def)
  qed (use assms in \<open>simp add: same_limits_def\<close>)
  then show ?thesis using Some by (simp add: reconcile_trace_def)
qed

text \<open>The later steps leave the nodes and the edges alone.\<close>

definition same_graph :: "engine \<Rightarrow> engine \<Rightarrow> bool" where
  "same_graph e e' \<longleftrightarrow> g_nodes e' = g_nodes e \<and> g_edges e' = g_edges e"

lemma aggregate_trace_graph:
  assumes "engine_ok e"
  shows "same_graph e (aggregate_trace e i) \<and> g_seenSpanIDs (aggregate_trace e i) = g_seenSpanIDs e
    \<and> g_seenEdgeSpanIDs (aggregate_trace e i) = g_seenEdgeSpanIDs e"
proof (cases "map_of (g_traces e) i")
  case None
  then show ?thesis by (simp add: aggregate_trace_def same_graph_def)
next
  case (Some t)
  have "paths_ok (g_maxRuntimePaths e) (g_maxLatencySamples e) (g_paths e)" "0 < g_maxRuntimePaths e"
    using assms by (simp_all add: engine_ok_def)
  then show ?thesis
  proof (cases rule: aggregateRuntimePaths_run [where t = t])
    case 1
    then show ?thesis using Some by (simp add: aggregate_trace_def same_graph_def)
  next
    case (2 e2)
    then show ?thesis using Some only_paths_fields [OF 2(1)] by (simp add: aggregate_trace_def same_graph_def)
  qed
qed

lemma trimTraces_graph: "same_graph e (trimTraces e)"
proof -
  have "same_graph e (foldl forget_trace e ts)" for ts
    by (rule foldl_inv [where P = "same_graph e"]) (simp_all add: same_graph_def forget_trace_def)
  then show ?thesis by (simp add: trimTraces_def Let_def) (simp add: same_graph_def)
qed

text \<open>The four phases of \<open>Ingest\<close>.\<close>

lemma Ingest_phases:
  assumes "engine_ok e" "\<forall>s\<in>set spans. finite_span s"
  obtains e1 touched act e2 act' e3 where
    "foldl (\<lambda>a s. admit_span s a) (e, [], []) spans = (e1, touched, act)"
    "foldl (\<lambda>a i. reconcile_trace i a) (e1, []) touched = (e2, act')"
    "e3 = foldl aggregate_trace e2 touched"
    "Ingest spans e = (trimTraces e3)\<lparr>g_revision := g_revision (trimTraces e3) + 1,
       g_activity := \<lparr>a_NodeIDs = act, a_EdgeIDs = act'\<rparr>\<rparr>"
    "engine_ok e1" "same_limits e e1"
    "engine_ok e2" "same_limits e e2" "g_nodes e2 = g_nodes e1" "g_traces e2 = g_traces e1"
    "g_seenSpanIDs e2 = g_seenSpanIDs e1"
    "engine_ok e3" "same_limits e e3" "same_graph e2 e3" "g_seenSpanIDs e3 = g_seenSpanIDs e1"
    "g_seenEdgeSpanIDs e3 = g_seenEdgeSpanIDs e2"
proof -
  obtain e1 touched act where 1: "foldl (\<lambda>a s. admit_span s a) (e, [], []) spans = (e1, touched, act)"
    by (metis prod.exhaust)
  obtain e2 act' where 2: "foldl (\<lambda>a i. reconcile_trace i a) (e1, []) touched = (e2, act')" by fastforce
  define e3 where "e3 = foldl aggregate_trace e2 touched"
  have ok1: "engine_ok e1" "same_limits e e1" using admit_all [OF assms 1] by simp_all
  let ?P = "\<lambda>b :: engine \<times> string list. engine_ok (fst b) \<and> same_limits e (fst b)
      \<and> g_nodes (fst b) = g_nodes e1 \<and> g_traces (fst b) = g_traces e1 \<and> g_seenSpanIDs (fst b) = g_seenSpanIDs e1"
  have "?P (foldl (\<lambda>a i. reconcile_trace i a) (e1, []) touched)"
  proof (rule foldl_inv [where P = ?P])
    fix b x
    assume "?P b"
    then show "?P (reconcile_trace x b)" using reconcile_trace_ok [of b x] by (simp add: same_limits_def)
  qed (use ok1 in simp)
  then have ok2: "?P (e2, act')" by (simp only: 2)
  let ?Q = "\<lambda>b. engine_ok b \<and> same_limits e b \<and> same_graph e2 b \<and> g_seenSpanIDs b = g_seenSpanIDs e1
      \<and> g_seenEdgeSpanIDs b = g_seenEdgeSpanIDs e2"
  have ok3: "?Q e3"
    unfolding e3_def
  proof (rule foldl_inv [where P = ?Q])
    fix b x
    assume b: "?Q b"
    then show "?Q (aggregate_trace b x)"
      using aggregate_trace_ok [of b x] aggregate_trace_graph [of b x] by (simp add: same_limits_def same_graph_def)
  qed (use ok2 in \<open>simp add: same_graph_def\<close>)
  show ?thesis
    by (rule that [OF 1 2 e3_def]) (use ok1 ok2 ok3 in \<open>simp_all add: Ingest_def 1 2 e3_def Let_def\<close>)
qed

lemma engine_ok_view: "engine_ok (e\<lparr>g_revision := r, g_activity := a\<rparr>) \<longleftrightarrow> engine_ok e"
  by (simp add: engine_ok_def)

lemma Ingest_ok:
  assumes "engine_ok e" "\<forall>s\<in>set spans. finite_span s"
  shows "engine_ok (Ingest spans e) \<and> same_limits e (Ingest spans e)
    \<and> length (g_traces (Ingest spans e)) \<le> g_maxRecentTraces (Ingest spans e)"
  using assms
proof (rule Ingest_phases)
  fix e1 touched act e2 act' e3
  assume run: "Ingest spans e = (trimTraces e3)\<lparr>g_revision := g_revision (trimTraces e3) + 1,
       g_activity := \<lparr>a_NodeIDs = act, a_EdgeIDs = act'\<rparr>\<rparr>"
    and e3: "engine_ok e3" "same_limits e e3"
  show ?thesis
    using trimTraces_ok [OF e3(1)] e3(2) unfolding run engine_ok_view by (simp add: same_limits_def)
qed

text \<open>Every new span of a known kind counts once on its node, and as an error if it is one.\<close>

lemma Ingest_counts:
  assumes "engine_ok e" "\<forall>s\<in>set spans. finite_span s"
  shows "node_calls (Ingest spans e) i = node_calls e i
      + int (length (filter (on_node i) (new_spans (seen (g_seenSpanIDs e)) spans)))
    \<and> node_errors (Ingest spans e) i = node_errors e i
      + int (length (filter (\<lambda>s. on_node i s \<and> Status s = ''error'') (new_spans (seen (g_seenSpanIDs e)) spans)))"
  using assms
proof (rule Ingest_phases)
  fix e1 touched act e2 act' e3
  assume run: "Ingest spans e = (trimTraces e3)\<lparr>g_revision := g_revision (trimTraces e3) + 1,
       g_activity := \<lparr>a_NodeIDs = act, a_EdgeIDs = act'\<rparr>\<rparr>"
    and admit: "foldl (\<lambda>a s. admit_span s a) (e, [], []) spans = (e1, touched, act)"
    and e2: "g_nodes e2 = g_nodes e1" and e3: "same_graph e2 e3"
  have "g_nodes (Ingest spans e) = g_nodes e1"
    using trimTraces_graph [of e3] e2 e3 by (simp add: run same_graph_def)
  then have "node_calls (Ingest spans e) i = node_calls e1 i" "node_errors (Ingest spans e) i = node_errors e1 i"
    by (simp_all add: node_calls_def node_errors_def)
  then show ?thesis using admit_all [OF assms admit, of i] by simp
qed

end
