(* ===== verification/Topo_Replay.thy ===== *)
theory Topo_Replay
  imports Topo_Ingest
begin

text \<open>
  Ingesting a batch again changes nothing while its spans are retained: every edge it stands
  for has been recorded, every path it contributes to holds its contribution.
\<close>

section \<open>What the searches depend on\<close>

lemma known_node_cong: "g_nodes e' = g_nodes e \<Longrightarrow> known_node e' s = known_node e s"
  by (simp add: resolveNode_def Let_def split: option.split)

lemma nearest_parent_cong:
  "g_nodes e' = g_nodes e \<Longrightarrow> nearest_parent e' spans visited i = nearest_parent e spans visited i"
proof (induction e spans visited i rule: nearest_parent.induct)
  case (1 e spans visited i)
  show ?case
  proof (cases "map_of spans i")
    case None
    then show ?thesis by (simp add: nearest_parent.simps)
  next
    case (Some s)
    show ?thesis
      using 1(1) [OF Some _ _ _ 1(2)] known_node_cong [OF 1(2), of s] Some
      by (subst (1 2) nearest_parent.simps) (simp split: option.split del: map_of_eq_Some_iff)
  qed
qed

text \<open>An edge that needs no recording needs none later, while the nodes stay and marks are only
  added.\<close>

lemma edge_ends_mono:
  assumes "edge_ends t s e = None" "g_nodes e' = g_nodes e" "t_spans t' = t_spans t"
    "seen (g_seenEdgeSpanIDs e) (edge_key s) \<Longrightarrow> seen (g_seenEdgeSpanIDs e') (edge_key s)"
  shows "edge_ends t' s e' = None"
  using assms known_node_cong [OF assms(2), of s] nearest_parent_cong [OF assms(2), of "t_spans t" "[]" "ParentSpanID s"]
  unfolding edge_ends_def findNearestParentNode_def by (auto split: option.splits if_splits)

definition settled :: "engine \<Rightarrow> traceState \<Rightarrow> bool" where
  "settled e t \<longleftrightarrow> (\<forall>k\<in>set (t_spanOrder t). edge_ends t (span_at t k) e = None)"

lemma reconcile_edge_marks:
  "edge_ends t (span_at t k) (fst (reconcile_edge t k a)) = None"
  "seen (g_seenEdgeSpanIDs (fst a)) x \<Longrightarrow> seen (g_seenEdgeSpanIDs (fst (reconcile_edge t k a))) x"
  "g_nodes (fst (reconcile_edge t k a)) = g_nodes (fst a)"
proof -
  show "edge_ends t (span_at t k) (fst (reconcile_edge t k a)) = None"
  proof (cases "edge_ends t (span_at t k) (fst a)")
    case (Some pc)
    then show ?thesis
      by (cases pc) (simp add: reconcile_edge_def record_edge_def Let_def, simp add: edge_ends_def)
  qed (simp add: reconcile_edge_def)
qed (simp_all add: reconcile_edge_def record_edge_def Let_def split: option.split prod.split)

lemma reconcile_edges_settle:
  assumes "(a' :: engine \<times> string list) = foldl (\<lambda>a k. reconcile_edge t k a) a ks"
  shows "(\<forall>k\<in>set ks. edge_ends t (span_at t k) (fst a') = None)
    \<and> (\<forall>x. seen (g_seenEdgeSpanIDs (fst a)) x \<longrightarrow> seen (g_seenEdgeSpanIDs (fst a')) x)
    \<and> g_nodes (fst a') = g_nodes (fst a)"
  using assms
proof (induction ks arbitrary: a)
  case (Cons k ks)
  let ?b = "reconcile_edge t k a"
  have ih: "(\<forall>k\<in>set ks. edge_ends t (span_at t k) (fst a') = None)
    \<and> (\<forall>x. seen (g_seenEdgeSpanIDs (fst ?b)) x \<longrightarrow> seen (g_seenEdgeSpanIDs (fst a')) x)
    \<and> g_nodes (fst a') = g_nodes (fst ?b)" using Cons by simp
  have "edge_ends t (span_at t k) (fst a') = None"
    by (rule edge_ends_mono [OF reconcile_edge_marks(1) [of t k a]]) (use ih in auto)
  then show ?case using ih reconcile_edge_marks(2,3) [where t = t and k = k and a = a] by simp
qed simp

text \<open>After the second loop all touched traces are settled.\<close>

lemma settled_mono:
  assumes "settled e t" "g_nodes e' = g_nodes e"
    "\<And>x. seen (g_seenEdgeSpanIDs e) x \<Longrightarrow> seen (g_seenEdgeSpanIDs e') x"
  shows "settled e' t"
  using assms edge_ends_mono [of t _ e e' t] unfolding settled_def by blast

lemma reconcile_traces_settle:
  assumes "foldl (\<lambda>a i. reconcile_trace i a) a is = a'" "engine_ok (fst a)"
  shows "(\<forall>i\<in>set is. \<forall>t. map_of (g_traces (fst a)) i = Some t \<longrightarrow> settled (fst a') t)
    \<and> (\<forall>x. seen (g_seenEdgeSpanIDs (fst a)) x \<longrightarrow> seen (g_seenEdgeSpanIDs (fst a')) x)
    \<and> g_nodes (fst a') = g_nodes (fst a)"
  using assms
proof (induction "is" arbitrary: a)
  case (Cons i "is")
  let ?b = "reconcile_trace i a"
  note ok = reconcile_trace_ok [OF Cons.prems(2), of i]
  have ih: "(\<forall>i\<in>set is. \<forall>t. map_of (g_traces (fst ?b)) i = Some t \<longrightarrow> settled (fst a') t)
    \<and> (\<forall>x. seen (g_seenEdgeSpanIDs (fst ?b)) x \<longrightarrow> seen (g_seenEdgeSpanIDs (fst a')) x)
    \<and> g_nodes (fst a') = g_nodes (fst ?b)"
    using Cons.IH [of ?b] Cons.prems(1) ok by simp
  have step: "(\<forall>t. map_of (g_traces (fst a)) i = Some t \<longrightarrow> settled (fst ?b) t)
    \<and> (\<forall>x. seen (g_seenEdgeSpanIDs (fst a)) x \<longrightarrow> seen (g_seenEdgeSpanIDs (fst ?b)) x)"
  proof (cases "map_of (g_traces (fst a)) i")
    case None
    then show ?thesis by (simp add: reconcile_trace_def)
  next
    case (Some t)
    then have b: "?b = foldl (\<lambda>a k. reconcile_edge t k a) a (t_spanOrder t)"
      by (simp add: reconcile_trace_def)
    show ?thesis using reconcile_edges_settle [OF b] Some by (simp add: settled_def)
  qed
  then have "settled (fst a') t" if "map_of (g_traces (fst a)) i = Some t" for t
    using settled_mono [of "fst ?b" t "fst a'"] ih that by blast
  then show ?case using ih ok step by auto
qed simp

section \<open>Contributions\<close>

lemma span_at_contributions [simp]: "span_at (t\<lparr>t_pathContributions := cs\<rparr>) k = span_at t k"
  by (simp add: span_at_def)

lemma trace_items_contributions [simp]: "trace_items (t\<lparr>t_pathContributions := cs\<rparr>) = trace_items t"
  by (simp add: trace_items_def)

lemma tree_below_contributions [simp]:
  "tree_below (t\<lparr>t_pathContributions := cs\<rparr>) ancestors i = tree_below t ancestors i"
proof (induction t ancestors i rule: tree_below.induct)
  case (1 t ancestors i)
  have ids: "children_ids (t\<lparr>t_pathContributions := cs\<rparr>) j = children_ids t j" for j
    by (simp add: children_ids_def findNearestTraceParent_def)
  show ?case
  proof (cases "\<exists>s n. map_of (trace_items t) i = Some (s, n) \<and> i \<notin> set ancestors")
    case True
    then obtain s n where it: "map_of (trace_items t) i = Some (s, n)" "i \<notin> set ancestors" by blast
    have m: "List.map (tree_below (t\<lparr>t_pathContributions := cs\<rparr>) (i # ancestors)) (children_ids t i)
        = List.map (tree_below t (i # ancestors)) (children_ids t i)"
      using 1 [OF it(1) refl it(2)] by (intro map_cong) simp_all
    show ?thesis
      by (subst (1 2) tree_below.simps)
        (simp only: trace_items_contributions it option.case prod.case if_False ids m)
  next
    case False
    then show ?thesis
      by (subst (1 2) tree_below.simps) (auto split: option.split simp del: map_of_eq_Some_iff)
  qed
qed

lemma buildTrace_contributions [simp]: "buildTrace (t\<lparr>t_pathContributions := cs\<rparr>) = buildTrace t"
proof -
  have "span_at (t\<lparr>t_pathContributions := cs\<rparr>) = span_at t"
    "tree_below (t\<lparr>t_pathContributions := cs\<rparr>) [] = tree_below t []" by (simp_all add: fun_eq_iff)
  moreover have "root_ids (t\<lparr>t_pathContributions := cs\<rparr>) = root_ids t"
    by (simp add: root_ids_def findNearestTraceParent_def)
  ultimately show ?thesis by (simp add: buildTrace_def)
qed

text \<open>The trace's contributions are those of its spans.\<close>

definition contributed :: "traceState \<Rightarrow> bool" where
  "contributed t \<longleftrightarrow> b_roots (buildTrace t) = [] \<or> t_pathContributions t = contribution_list t"

definition same_spans :: "traceState \<Rightarrow> traceState \<Rightarrow> bool" where
  "same_spans t u \<longleftrightarrow> (\<exists>cs. u = t\<lparr>t_pathContributions := cs\<rparr>)"

lemma same_spans_refl [simp]: "same_spans t t"
  unfolding same_spans_def by (rule exI [of _ "t_pathContributions t"]) simp

lemma same_spans_trans: "same_spans t u \<Longrightarrow> same_spans u v \<Longrightarrow> same_spans t v"
  unfolding same_spans_def by auto

lemma aggregate_trace_traces:
  assumes "engine_ok e" "map_of (g_traces (aggregate_trace e i)) j = Some u"
  shows "\<exists>t. map_of (g_traces e) j = Some t \<and> same_spans t u \<and> (i = j \<or> contributed t \<longrightarrow> contributed u)"
proof (cases "map_of (g_traces e) i")
  case None
  then show ?thesis using assms(2) by (auto simp: aggregate_trace_def simp del: map_of_eq_Some_iff)
next
  case (Some t)
  have tr: "traces_ok (g_seenSpanIDs e) (g_traces e)" using assms(1) by (simp add: engine_ok_def)
  have id: "t_traceID t = i" using traces_okD(1) [OF tr Some] by (simp add: trace_ok_def)
  have "paths_ok (g_maxRuntimePaths e) (g_maxLatencySamples e) (g_paths e)" "0 < g_maxRuntimePaths e"
    using assms(1) by (simp_all add: engine_ok_def)
  then show ?thesis
  proof (cases rule: aggregateRuntimePaths_run [where t = t])
    case 1
    then have e: "aggregate_trace e i = e" using Some by (simp add: aggregate_trace_def)
    have "contributed t" using 1(2) by (simp add: contributed_def)
    then show ?thesis using assms(2) Some unfolding e by fastforce
  next
    case (2 e2)
    let ?t = "t\<lparr>t_pathContributions := contribution_list t\<rparr>"
    have "g_traces (aggregate_trace e i) = AList.update i ?t (g_traces e)"
      using 2(4) Some only_paths_fields(3) [OF 2(1)] id by (simp add: aggregate_trace_def)
    then have u: "if j = i then u = ?t else map_of (g_traces e) j = Some u"
      using assms(2) by (simp split: if_splits)
    have "contributed ?t" by (simp add: contributed_def contribution_list_def)
    moreover have "same_spans t ?t" by (auto simp: same_spans_def)
    ultimately show ?thesis using u Some by (auto split: if_splits simp del: map_of_eq_Some_iff)
  qed
qed

lemma aggregate_traces_contribute:
  assumes "engine_ok e" "map_of (g_traces (foldl aggregate_trace e is)) j = Some u"
  shows "\<exists>t. map_of (g_traces e) j = Some t \<and> same_spans t u \<and> (j \<in> set is \<or> contributed t \<longrightarrow> contributed u)"
  using assms
proof (induction "is" arbitrary: e)
  case Nil
  then show ?case by (auto simp del: map_of_eq_Some_iff)
next
  case (Cons i "is")
  have ok: "engine_ok (aggregate_trace e i)" using aggregate_trace_ok Cons.prems(1) by blast
  obtain t1 where t1: "map_of (g_traces (aggregate_trace e i)) j = Some t1" "same_spans t1 u"
    "j \<in> set is \<or> contributed t1 \<longrightarrow> contributed u"
    using Cons.IH [OF ok] Cons.prems(2) by auto
  obtain t where "map_of (g_traces e) j = Some t" "same_spans t t1" "i = j \<or> contributed t \<longrightarrow> contributed t1"
    using aggregate_trace_traces [OF Cons.prems(1) t1(1)] by blast
  then show ?case using t1 same_spans_trans by fastforce
qed

section \<open>Durations are numbers\<close>

lemma round_f64_not_nan [simp]: "round_f64 q \<noteq> NaN"
  by (simp add: round_f64_def Let_def)

lemma f64_add_not_nan: "a \<noteq> NaN \<Longrightarrow> f64_add a (Fin b) \<noteq> NaN"
  by (cases a) simp_all

lemma round_hundredths_not_nan: "v \<noteq> NaN \<Longrightarrow> round_hundredths v \<noteq> NaN"
proof -
  have div: "f64_div x (Fin 100) \<noteq> NaN" if "x \<noteq> NaN" for x
    using that by (cases x) simp_all
  have floor: "f64_floor x \<noteq> NaN" if "x \<noteq> NaN" for x
    using that by (cases x) simp_all
  assume "v \<noteq> NaN"
  then have "f64_mul v (Fin 100) \<noteq> NaN" by (cases v) simp_all
  then show ?thesis
    unfolding round_hundredths_def using div floor f64_add_not_nan by blast
qed

lemma trace_times_numbers:
  assumes "\<forall>s\<in>set ss. finite_span s" "finite_f64 earliest" "latest \<noteq> NaN"
    and "trace_times ss first earliest latest failed = (earliest', latest', failed')"
  shows "finite_f64 earliest' \<and> latest' \<noteq> NaN"
  using assms
proof (induction ss arbitrary: first earliest latest failed)
  case (Cons s ss)
  obtain a b where ab: "StartTimeUnixMS s = Fin a" "DurationMS s = Fin b"
    using Cons.prems(1) by (auto simp: finite_span_def finite_f64_Fin)
  have fin: "finite_f64 (if first \<or> f64_lt (StartTimeUnixMS s) earliest then StartTimeUnixMS s else earliest)"
    using Cons.prems(2) ab by (simp add: finite_f64_Fin)
  have "(if first \<or> f64_lt latest (f64_add (StartTimeUnixMS s) (DurationMS s))
      then f64_add (StartTimeUnixMS s) (DurationMS s) else latest) \<noteq> NaN"
    using Cons.prems(3) ab by simp
  from Cons.IH [OF _ fin this] show ?case using Cons.prems(1,4) by (simp add: Let_def)
qed simp

lemma trace_duration_number:
  assumes "trace_ok i t"
  shows "b_durationMS (buildTrace t) \<noteq> NaN"
proof -
  let ?ss = "List.map (span_at t) (t_spanOrder t)"
  obtain earliest latest failed where r: "trace_times ?ss True (Fin 0) (Fin 0) False = (earliest, latest, failed)"
    by (metis prod.exhaust)
  have "finite_span (span_at t k)" if "k \<in> set (t_spanOrder t)" for k
  proof -
    have "map_of (t_spans t) k \<noteq> None"
      using assms that keys_iff [of k "t_spans t"] by (simp add: trace_ok_def del: map_of_eq_Some_iff)
    then show ?thesis using assms by (auto simp: trace_ok_def span_at_def simp del: map_of_eq_Some_iff)
  qed
  then have "finite_f64 earliest \<and> latest \<noteq> NaN"
    by (intro trace_times_numbers [OF _ _ _ r]) (auto simp: finite_f64_Fin)
  then have "f64_sub latest earliest \<noteq> NaN"
    by (cases latest) (auto simp: finite_f64_Fin f64_sub_def)
  then show ?thesis using r round_hundredths_not_nan by (simp add: buildTrace_def)
qed

section \<open>Aggregating again\<close>

lemma foldl_fixed: "(\<And>x. x \<in> set xs \<Longrightarrow> f a x = a) \<Longrightarrow> foldl f a xs = a"
  by (induction xs) auto

lemma aggregate_again:
  assumes "map_of (g_traces e) i = Some t" "trace_ok i t" "contributed t"
    and "\<forall>k\<in>set (keys (t_pathContributions t)). map_of (g_paths e) k \<noteq> None"
  shows "aggregate_trace e i = e"
proof (cases "b_roots (buildTrace t) = []")
  case True
  then show ?thesis using assms(1) by (simp add: aggregate_trace_def aggregateRuntimePaths_def Let_def)
next
  case False
  let ?d = "b_durationMS (buildTrace t)" and ?f = "b_failed (buildTrace t)"
  let ?c = "\<lparr>c_durationMS = ?d, c_failed = ?f\<rparr>"
  define desired where "desired = desired_paths (b_roots (buildTrace t))"
  have cs: "t_pathContributions t = List.map (\<lambda>(i, _). (i, ?c)) desired"
    using assms(3) False by (simp add: contributed_def contribution_list_def desired_def)
  have same: "same_contribution ?d ?f ?c"
    using trace_duration_number [OF assms(2)] by (simp add: same_contribution_def f64_eq_iff)
  have lookup: "map_of (t_pathContributions t) k = map_option (\<lambda>_. ?c) (map_of desired k)" for k
    unfolding cs by (induction desired) auto
  have ks: "keys (t_pathContributions t) = keys desired" unfolding cs by (induction desired) auto
  have dropped: "foldl (drop_contribution desired ?d ?f) e (t_pathContributions t) = e"
  proof (rule foldl_fixed)
    fix x
    assume x: "x \<in> set (t_pathContributions t)"
    then obtain k where k: "x = (k, ?c)" by (auto simp: cs)
    have "fst x \<in> set (keys (t_pathContributions t))" using x by simp
    then have "k \<in> set (keys desired)" using k ks by simp
    then have "map_of desired k \<noteq> None" by (simp only: keys_iff not_False_eq_True)
    then show "drop_contribution desired ?d ?f e x = e" using same by (simp add: k drop_contribution_def)
  qed
  have added: "foldl (add_contribution (t_pathContributions t) ?d ?f) e desired = e"
  proof (rule foldl_fixed)
    fix x
    assume x: "x \<in> set desired"
    obtain k en ns where k: "x = (k, en, ns)" by (metis prod.exhaust)
    then have kd: "k \<in> set (keys desired)" using x by force
    then have "map_of desired k \<noteq> None" by (simp only: keys_iff not_False_eq_True)
    then have "map_of (t_pathContributions t) k = Some ?c" using lookup by auto
    moreover have "map_of (g_paths e) k \<noteq> None" using assms(4) kd unfolding ks by blast
    ultimately show "add_contribution (t_pathContributions t) ?d ?f e x = e"
      using same by (simp add: k add_contribution_def del: map_of_eq_Some_iff)
  qed
  have id: "t_traceID t = i" using assms(2) by (simp add: trace_ok_def)
  have "t\<lparr>t_pathContributions := List.map (\<lambda>(i, _). (i, ?c)) desired\<rparr> = t" using cs by simp
  then have "aggregateRuntimePaths t e = e\<lparr>g_traces := AList.update i t (g_traces e)\<rparr>"
    using False dropped added id by (simp add: aggregateRuntimePaths_def Let_def desired_def)
  then show ?thesis using assms(1) update_same [OF assms(1)] by (simp add: aggregate_trace_def)
qed

section \<open>Trimming keeps what it retains\<close>

lemma forget_traces_lookup:
  "map_of (g_traces (foldl forget_trace e ts)) i = Some t \<Longrightarrow>
    map_of (g_traces e) i = Some t \<and> i \<notin> t_traceID ` set ts"
proof (induction ts arbitrary: e)
  case (Cons u ts)
  then have "map_of (g_traces (forget_trace e u)) i = Some t \<and> i \<notin> t_traceID ` set ts" by simp
  then show ?case by (simp add: forget_trace_def split: if_splits)
qed simp

lemma forget_traces_marks:
  assumes "seen (g_seenEdgeSpanIDs e) x" "\<forall>t\<in>set ts. \<forall>k. x \<noteq> t_traceID t @ '':'' @ k"
  shows "seen (g_seenEdgeSpanIDs (foldl forget_trace e ts)) x"
  using assms
proof (induction ts arbitrary: e)
  case (Cons t ts)
  have "seen (g_seenEdgeSpanIDs (forget_trace e t)) x"
    using Cons.prems seen_deletes [of "\<lambda>i. t_traceID t @ '':'' @ i" "g_seenEdgeSpanIDs e" "t_spanOrder t" x]
    by (auto simp: forget_trace_def)
  then show ?case using Cons by simp
qed simp

lemma colon_prefix:
  assumes "CHR '':'' \<notin> set i" "CHR '':'' \<notin> set j" "i @ CHR '':'' # x = j @ CHR '':'' # y"
  shows "i = j"
  using assms
proof (induction i arbitrary: j)
  case Nil
  then show ?case by (cases j) auto
next
  case (Cons c i)
  then show ?case by (cases j) auto
qed

lemma trimTraces_retained:
  assumes "engine_ok e" "\<forall>i\<in>set (keys (g_traces e)). CHR '':'' \<notin> set i"
    and "map_of (g_traces (trimTraces e)) i = Some t"
  shows "map_of (g_traces e) i = Some t \<and> (settled e t \<longrightarrow> settled (trimTraces e) t)"
proof -
  define ts where "ts = (if length (g_traces e) \<le> g_maxRecentTraces e then []
    else take (length (g_traces e) - g_maxRecentTraces e) (sort_key t_lastUpdatedAt (List.map snd (g_traces e))))"
  have run: "trimTraces e = foldl forget_trace e ts" by (simp add: trimTraces_def ts_def Let_def)
  have l: "map_of (g_traces e) i = Some t" "i \<notin> t_traceID ` set ts"
    using forget_traces_lookup assms(3) unfolding run by blast+
  have tr: "traces_ok (g_seenSpanIDs e) (g_traces e)" using assms(1) by (simp add: engine_ok_def)
  have ids: "t_traceID u \<in> set (keys (g_traces e))" if u: "u \<in> set ts" for u
  proof -
    have "u \<in> snd ` set (g_traces e)" using u in_set_takeD by (fastforce simp: ts_def split: if_splits)
    then obtain j where "(j, u) \<in> set (g_traces e)" by auto
    then have j: "map_of (g_traces e) j = Some u" using entries_distinct [OF traces_okD(4) [OF tr]] by simp
    then have "t_traceID u = j" using traces_okD(1) [OF tr] by (simp add: trace_ok_def)
    then show ?thesis unfolding keys_iff using j by simp
  qed
  have "settled (trimTraces e) t" if s: "settled e t"
    unfolding settled_def
  proof
    fix k
    assume k: "k \<in> set (t_spanOrder t)"
    have ok: "trace_ok i t" using traces_okD(1) [OF tr l(1)] .
    have "TraceID (span_at t k) = i"
    proof -
      have "map_of (t_spans t) k \<noteq> None"
        using ok k keys_iff [of k "t_spans t"] by (simp add: trace_ok_def del: map_of_eq_Some_iff)
      then show ?thesis using ok by (auto simp: trace_ok_def span_at_def simp del: map_of_eq_Some_iff)
    qed
    then have key: "edge_key (span_at t k) = i @ CHR '':'' # SpanID (span_at t k)" by (simp add: edge_key_def)
    have "i \<in> set (keys (g_traces e))" unfolding keys_iff using l(1) by simp
    then have ic: "CHR '':'' \<notin> set i" using assms(2) by blast
    have "edge_key (span_at t k) \<noteq> t_traceID u @ '':'' @ x" if u: "u \<in> set ts" for u x
    proof
      assume "edge_key (span_at t k) = t_traceID u @ '':'' @ x"
      then have "i @ CHR '':'' # SpanID (span_at t k) = t_traceID u @ CHR '':'' # x" using key by simp
      moreover have "CHR '':'' \<notin> set (t_traceID u)" using assms(2) ids [OF u] by blast
      ultimately have "i = t_traceID u" using colon_prefix [OF ic] by blast
      then show False using l(2) u by blast
    qed
    then show "edge_ends t (span_at t k) (trimTraces e) = None"
      using edge_ends_mono [of t "span_at t k" e "trimTraces e" t] s k trimTraces_graph [of e]
        forget_traces_marks [of e "edge_key (span_at t k)" ts]
      by (auto simp: settled_def same_graph_def run)
  qed
  then show ?thesis using l(1) by blast
qed

section \<open>Replay\<close>

lemma admit_seen:
  assumes "\<forall>s\<in>set spans. seen (g_seenSpanIDs e) (SpanID s)"
  shows "foldl (\<lambda>a s. admit_span s a) (e, touched, active) spans
    = (e, foldl (\<lambda>l s. add_once (TraceID s) l) touched spans, active)"
  using assms by (induction spans arbitrary: touched) (simp_all add: admit_span_run)

lemma reconcile_settled:
  assumes "\<And>t. map_of (g_traces (fst a)) i = Some t \<Longrightarrow> settled (fst a) t"
  shows "reconcile_trace i a = a"
proof (cases "map_of (g_traces (fst a)) i")
  case (Some t)
  have "foldl (\<lambda>a k. reconcile_edge t k a) a (t_spanOrder t) = a"
    using assms [OF Some] by (intro foldl_fixed) (simp add: settled_def reconcile_edge_def)
  then show ?thesis using Some by (simp add: reconcile_trace_def)
qed (simp add: reconcile_trace_def)

lemma settled_view [simp]: "settled (e\<lparr>g_revision := r, g_activity := x\<rparr>) t \<longleftrightarrow> settled e t"
  using settled_mono [of e t "e\<lparr>g_revision := r, g_activity := x\<rparr>"]
    settled_mono [of "e\<lparr>g_revision := r, g_activity := x\<rparr>" t e] by auto

lemma add_once_set [simp]: "set (add_once x l) = insert x (set l)"
  by (auto simp: add_once_def)

lemma touched_set: "set (foldl (\<lambda>l s. add_once (f s) l) l ss) = set l \<union> f ` set ss"
  by (induction ss arbitrary: l) auto

text \<open>The traces of an engine after admission are the old ones and those of the spans.\<close>

lemma admit_keys:
  "set (keys (g_traces (fst (foldl (\<lambda>a s. admit_span s a) (e, touched, active) spans))))
    \<subseteq> set (keys (g_traces e)) \<union> TraceID ` set spans"
proof (induction spans arbitrary: e touched active)
  case (Cons s ss)
  obtain e1 t1 a1 where r: "admit_span s (e, touched, active) = (e1, t1, a1)" by (metis prod.exhaust)
  have "set (keys (g_traces e1)) \<subseteq> insert (TraceID s) (set (keys (g_traces e)))"
  proof -
    have "\<exists>x. g_traces (store_span s e) = AList.update (TraceID s) x (g_traces e)"
      by (auto simp: store_span_def Let_def)
    then obtain x where x: "g_traces (store_span s e) = AList.update (TraceID s) x (g_traces e)" by blast
    have "set (keys (g_traces (store_span s e))) \<subseteq> insert (TraceID s) (set (keys (g_traces e)))"
      unfolding x list.set_map dom_update by blast
    moreover have "g_traces e1 = g_traces e \<or> g_traces e1 = g_traces (store_span s e)"
      using r by (auto simp: admit_span_run split: if_splits)
    ultimately show ?thesis by (metis subset_insertI)
  qed
  then have "set (keys (g_traces e1)) \<union> TraceID ` set ss
      \<subseteq> set (keys (g_traces e)) \<union> TraceID ` set (s # ss)"
    unfolding list.set image_insert by blast
  then show ?case using Cons.IH [of e1 t1 a1] r by (simp only: foldl_Cons)
qed simp

definition colon_free :: "engine \<Rightarrow> span list \<Rightarrow> bool" where
  "colon_free e spans \<longleftrightarrow> (\<forall>i\<in>set (keys (g_traces e)) \<union> TraceID ` set spans. CHR '':'' \<notin> set i)"

text \<open>After \<open>Ingest\<close> the retained traces of the batch are settled and have contributed.\<close>

lemma Ingest_settles:
  assumes "engine_ok e" "\<forall>s\<in>set spans. finite_span s" "colon_free e spans" "s \<in> set spans"
    and "map_of (g_traces (Ingest spans e)) (TraceID s) = Some t"
  shows "settled (Ingest spans e) t \<and> contributed t"
  using assms(1,2)
proof (rule Ingest_phases)
  fix e1 touched act e2 act' e3
  assume p1: "foldl (\<lambda>a s. admit_span s a) (e, [], []) spans = (e1, touched, act)"
    and p2: "foldl (\<lambda>a i. reconcile_trace i a) (e1, []) touched = (e2, act')"
    and p3: "e3 = foldl aggregate_trace e2 touched"
    and run: "Ingest spans e = (trimTraces e3)\<lparr>g_revision := g_revision (trimTraces e3) + 1,
       g_activity := \<lparr>a_NodeIDs = act, a_EdgeIDs = act'\<rparr>\<rparr>"
    and ok: "engine_ok e1" "engine_ok e2" "engine_ok e3" and tr: "g_traces e2 = g_traces e1"
    and g: "same_graph e2 e3" "g_seenEdgeSpanIDs e3 = g_seenEdgeSpanIDs e2"
  let ?i = "TraceID s"
  have i: "?i \<in> set touched"
    using admit_all [OF assms(1,2) p1] touched_set [of TraceID "[]" spans] assms(4) by auto
  have "set (keys (g_traces e1)) \<subseteq> set (keys (g_traces e)) \<union> TraceID ` set spans"
    using admit_keys [of e "[]" "[]" spans] p1 by simp
  moreover have "set (keys (g_traces e3)) \<subseteq> set (keys (g_traces e2))"
  proof
    fix j
    assume "j \<in> set (keys (g_traces e3))"
    then obtain u where "map_of (g_traces e3) j = Some u" unfolding keys_iff by blast
    then show "j \<in> set (keys (g_traces e2))"
      using aggregate_traces_contribute [OF ok(2)] unfolding keys_iff p3 by fastforce
  qed
  ultimately have nc: "\<forall>i\<in>set (keys (g_traces e3)). CHR '':'' \<notin> set i"
    using assms(3) unfolding tr colon_free_def by blast
  have "map_of (g_traces (trimTraces e3)) ?i = Some t" using assms(5) by (simp add: run)
  note kept = trimTraces_retained [OF ok(3) nc this]
  then obtain u where u: "map_of (g_traces e2) ?i = Some u" "same_spans u t" "contributed t"
    using aggregate_traces_contribute [OF ok(2), of touched ?i t] i unfolding p3 by blast
  have "settled e2 u"
    using reconcile_traces_settle [OF p2] ok(1) i u(1) tr by (simp del: map_of_eq_Some_iff)
  then have "settled e2 t"
    using u(2) edge_ends_mono [of u _ e2 e2 t] by (auto simp: same_spans_def settled_def)
  then have "settled e3 t" using settled_mono g by (simp add: same_graph_def)
  then show ?thesis using kept u(3) by (simp add: run)
qed

lemma Ingest_again:
  assumes "engine_ok e" "\<forall>s\<in>set spans. finite_span s" "colon_free e spans"
    and "\<forall>s\<in>set spans. seen (g_seenSpanIDs (Ingest spans e)) (SpanID s)"
    and "\<forall>s\<in>set spans. \<forall>t. map_of (g_traces (Ingest spans e)) (TraceID s) = Some t \<longrightarrow>
      (\<forall>k\<in>set (keys (t_pathContributions t)). map_of (g_paths (Ingest spans e)) k \<noteq> None)"
  shows "Ingest spans (Ingest spans e) = (Ingest spans e)\<lparr>g_revision := g_revision (Ingest spans e) + 1,
    g_activity := \<lparr>a_NodeIDs = [], a_EdgeIDs = []\<rparr>\<rparr>"
proof -
  let ?e = "Ingest spans e"
  let ?touched = "foldl (\<lambda>l s. add_once (TraceID s) l) [] spans"
  note ok = Ingest_ok [OF assms(1,2)]
  have touched: "\<exists>s\<in>set spans. i = TraceID s" if "i \<in> set ?touched" for i
    using that touched_set [of TraceID "[]" spans] by auto
  have 1: "foldl (\<lambda>a s. admit_span s a) (?e, [], []) spans = (?e, ?touched, [])"
    by (rule admit_seen [OF assms(4)])
  have 2: "foldl (\<lambda>a i. reconcile_trace i a) (?e, []) ?touched = (?e, [])"
  proof (rule foldl_fixed)
    fix i
    assume "i \<in> set ?touched"
    then show "reconcile_trace i (?e, []) = (?e, [])"
      using touched Ingest_settles [OF assms(1-3)] by (intro reconcile_settled) auto
  qed
  have 3: "foldl aggregate_trace ?e ?touched = ?e"
  proof (rule foldl_fixed)
    fix i
    assume "i \<in> set ?touched"
    then obtain s where s: "s \<in> set spans" "i = TraceID s" using touched by blast
    show "aggregate_trace ?e i = ?e"
    proof (cases "map_of (g_traces ?e) i")
      case (Some t)
      have "trace_ok i t" using traces_okD(1) Some ok by (auto simp: engine_ok_def)
      moreover have "contributed t" using Ingest_settles [OF assms(1-3) s(1)] Some s(2) by blast
      ultimately show ?thesis using aggregate_again Some assms(5) s by blast
    qed (simp add: aggregate_trace_def)
  qed
  have 4: "trimTraces ?e = ?e" using ok by (simp add: trimTraces_def)
  show ?thesis by (subst Ingest_def) (simp add: 1 2 3 4 Let_def)
qed

end
