(* ===== verification/Topo_Store.thy ===== *)
theory Topo_Store
  imports Topo_Ingest Disk
begin

text \<open>
  The checkpoint of the topology (\<open>runtime/go/internal/topology/state.go\<close>): the persisted form
  of the engine, its restoration, and the file that holds it. \<open>encoding/json\<close> is a parameter,
  a pair of functions between persisted states and bytes. The directory of the model's file
  system is the one the checkpoint lives in.
\<close>

section \<open>Persisted state\<close>

record persistedNode =
  pn_ID :: string
  pn_Name :: string
  pn_Kind :: string
  pn_Framework :: string
  pn_Operation :: string
  pn_Metrics :: metricAccumulator

record persistedEdge =
  pe_ID :: string
  pe_Source :: string
  pe_Target :: string
  pe_Metrics :: metricAccumulator

record persistedPath =
  pp_ID :: string
  pp_Entrypoint :: string
  pp_Nodes :: "string list"
  pp_Metrics :: metricAccumulator
  pp_LastUpdatedAt :: u64

record persistedTrace =
  pt_TraceID :: string
  pt_Spans :: "span list"
  pt_LastUpdatedAt :: u64
  pt_PathContributions :: "pathContribution gomap"

record persistedState =
  st_Version :: int
  st_Checksum :: u32
  st_Nodes :: "persistedNode list"
  st_Edges :: "persistedEdge list"
  st_Paths :: "persistedPath list"
  st_Traces :: "persistedTrace list"
  st_SeenSpanIDs :: "string list"
  st_SeenEdgeSpanIDs :: "string list"
  st_ApplicationNames :: "string list"
  st_NodeVersion :: string
  st_Clock :: u64
  st_Revision :: u64
  st_Runtime :: "runtime_metrics option"
  st_Activity :: activity
  st_MaxRecentTraces :: nat
  st_MaxLatencySamples :: nat
  st_MaxRuntimePaths :: nat

definition persistedStateVersion :: int where "persistedStateVersion = 1"

definition persist_node :: "nodeState \<Rightarrow> persistedNode" where
  "persist_node n = \<lparr>pn_ID = n_id n, pn_Name = n_name n, pn_Kind = n_kind n,
     pn_Framework = n_framework n, pn_Operation = n_operation n, pn_Metrics = n_metrics n\<rparr>"

definition persist_edge :: "edgeState \<Rightarrow> persistedEdge" where
  "persist_edge x = \<lparr>pe_ID = e_id x, pe_Source = e_source x, pe_Target = e_target x, pe_Metrics = e_metrics x\<rparr>"

definition persist_path :: "pathState \<Rightarrow> persistedPath" where
  "persist_path p = \<lparr>pp_ID = p_id p, pp_Entrypoint = p_entrypoint p, pp_Nodes = p_nodes p,
     pp_Metrics = p_metrics p, pp_LastUpdatedAt = p_lastUpdatedAt p\<rparr>"

definition persist_trace :: "traceState \<Rightarrow> persistedTrace" where
  "persist_trace t = \<lparr>pt_TraceID = t_traceID t, pt_Spans = List.map (span_at t) (t_spanOrder t),
     pt_LastUpdatedAt = t_lastUpdatedAt t, pt_PathContributions = t_pathContributions t\<rparr>"

text \<open>\<open>persistedState\<close>: the maps as lists sorted by identifier.\<close>

definition persisted_state :: "engine \<Rightarrow> persistedState" where
  "persisted_state e =
     \<lparr>st_Version = persistedStateVersion, st_Checksum = 0,
      st_Nodes = sort_key pn_ID (List.map (persist_node \<circ> snd) (g_nodes e)),
      st_Edges = sort_key pe_ID (List.map (persist_edge \<circ> snd) (g_edges e)),
      st_Paths = sort_key pp_ID (List.map (persist_path \<circ> snd) (g_paths e)),
      st_Traces = sort_key pt_TraceID (List.map (persist_trace \<circ> snd) (g_traces e)),
      st_SeenSpanIDs = sort (keys (g_seenSpanIDs e)),
      st_SeenEdgeSpanIDs = sort (keys (g_seenEdgeSpanIDs e)),
      st_ApplicationNames = sort (keys (g_applicationNames e)),
      st_NodeVersion = g_nodeVersion e, st_Clock = g_clock e, st_Revision = g_revision e,
      st_Runtime = g_runtime e, st_Activity = g_activity e,
      st_MaxRecentTraces = g_maxRecentTraces e, st_MaxLatencySamples = g_maxLatencySamples e,
      st_MaxRuntimePaths = g_maxRuntimePaths e\<rparr>"

section \<open>Restoration\<close>

datatype restore_error =
    InvalidNode string
  | InvalidEdge string
  | InvalidPath string
  | InvalidTrace string
  | InvalidSpan string

text \<open>The loop that fills a map: an empty or known identifier is an error.\<close>

fun restore_into :: "(string \<Rightarrow> restore_error) \<Rightarrow> ('p \<Rightarrow> string) \<Rightarrow> ('p \<Rightarrow> restore_error + 's)
    \<Rightarrow> 'p list \<Rightarrow> 's gomap \<Rightarrow> restore_error + 's gomap" where
  "restore_into err ident conv [] m = Inr m"
| "restore_into err ident conv (p # ps) m =
     (if ident p = [] \<or> map_of m (ident p) \<noteq> None then Inl (err (ident p))
      else case conv p of
             Inl e \<Rightarrow> Inl e
           | Inr s \<Rightarrow> restore_into err ident conv ps (AList.update (ident p) s m))"

definition restore_node :: "persistedNode \<Rightarrow> nodeState" where
  "restore_node n = \<lparr>n_id = pn_ID n, n_name = pn_Name n, n_kind = pn_Kind n,
     n_framework = pn_Framework n, n_operation = pn_Operation n, n_metrics = pn_Metrics n\<rparr>"

definition restore_edge :: "persistedEdge \<Rightarrow> edgeState" where
  "restore_edge x = \<lparr>e_id = pe_ID x, e_source = pe_Source x, e_target = pe_Target x, e_metrics = pe_Metrics x\<rparr>"

definition restore_path :: "persistedPath \<Rightarrow> pathState" where
  "restore_path p = \<lparr>p_id = pp_ID p, p_entrypoint = pp_Entrypoint p, p_nodes = pp_Nodes p,
     p_metrics = pp_Metrics p, p_lastUpdatedAt = pp_LastUpdatedAt p\<rparr>"

definition restore_trace :: "persistedTrace \<Rightarrow> restore_error + traceState" where
  "restore_trace t =
     (case restore_into InvalidSpan SpanID Inr (pt_Spans t) [] of
        Inl e \<Rightarrow> Inl e
      | Inr spans \<Rightarrow> Inr \<lparr>t_traceID = pt_TraceID t, t_spans = spans,
          t_spanOrder = List.map SpanID (pt_Spans t), t_lastUpdatedAt = pt_LastUpdatedAt t,
          t_pathContributions = foldl (\<lambda>m (i, c). AList.update i c m) [] (pt_PathContributions t)\<rparr>)"

definition restoreState :: "persistedState \<Rightarrow> topo_options \<Rightarrow> restore_error + engine" where
  "restoreState st options =
     (let o1 = options\<lparr>
            opt_MaxRecentTraces := (if st_MaxRecentTraces st > 0 then st_MaxRecentTraces st else opt_MaxRecentTraces options),
            opt_MaxLatencySamples := (if st_MaxLatencySamples st > 0 then st_MaxLatencySamples st else opt_MaxLatencySamples options),
            opt_MaxRuntimePaths := (if st_MaxRuntimePaths st > 0 then st_MaxRuntimePaths st else opt_MaxRuntimePaths options),
            opt_NodeVersion := (if st_NodeVersion st \<noteq> [] then st_NodeVersion st else opt_NodeVersion options)\<rparr>;
          e = new_engine o1;
          mark = (\<lambda>ids m. foldl (\<lambda>m i. AList.update i True m) m ids)
      in case restore_into InvalidNode pn_ID (Inr \<circ> restore_node) (st_Nodes st) [] of
           Inl err \<Rightarrow> Inl err
         | Inr nodes \<Rightarrow>
      (case restore_into InvalidEdge pe_ID (Inr \<circ> restore_edge) (st_Edges st) [] of
           Inl err \<Rightarrow> Inl err
         | Inr edges \<Rightarrow>
      (case restore_into InvalidPath pp_ID (Inr \<circ> restore_path) (st_Paths st) [] of
           Inl err \<Rightarrow> Inl err
         | Inr paths \<Rightarrow>
      (case restore_into InvalidTrace pt_TraceID restore_trace (st_Traces st) [] of
           Inl err \<Rightarrow> Inl err
         | Inr traces \<Rightarrow>
             Inr (e\<lparr>g_clock := st_Clock st, g_revision := st_Revision st,
                    g_activity := st_Activity st, g_runtime := st_Runtime st,
                    g_applicationNames := mark (st_ApplicationNames st) (g_applicationNames e),
                    g_seenSpanIDs := mark (st_SeenSpanIDs st) [],
                    g_seenEdgeSpanIDs := mark (st_SeenEdgeSpanIDs st) [],
                    g_nodes := nodes, g_edges := edges, g_paths := paths, g_traces := traces\<rparr>)))))"

section \<open>The file\<close>

record state_codec =
  marshal_state :: "persistedState \<Rightarrow> bytes option"
  unmarshal_state :: "bytes \<Rightarrow> persistedState option"

definition state_codec_ok :: "state_codec \<Rightarrow> bool" where
  "state_codec_ok js \<longleftrightarrow> (\<forall>st bs. marshal_state js st = Some bs \<longrightarrow> unmarshal_state js bs = Some st)"

datatype store_error =
    StoreIO string
  | EncodeState
  | DecodeState
  | UnsupportedVersion int
  | ChecksumMismatch
  | InvalidState restore_error

definition temporaryPrefix :: string where "temporaryPrefix = ''.topology-state-''"

text \<open>\<open>Save\<close>, with the random part of the temporary file's name given; the number of bytes
  written.\<close>

definition Save :: "state_codec \<Rightarrow> string \<Rightarrow> string \<Rightarrow> engine \<Rightarrow> world \<Rightarrow> (store_error + nat) \<times> world" where
  "Save js path suffix e w0 =
     (let st = persisted_state e; tmp = temporaryPrefix @ suffix;
          cleanup = (\<lambda>w. snd (os_remove tmp (snd (os_close w))))
      in case marshal_state js st of
           None \<Rightarrow> (Inl EncodeState, w0)
         | Some canonical \<Rightarrow>
      (case marshal_state js (st\<lparr>st_Checksum := crc32 canonical\<rparr>) of
           None \<Rightarrow> (Inl EncodeState, w0)
         | Some data \<Rightarrow>
         let (ok, w) = os_call w0
         in if \<not> ok then (Inl (StoreIO ''create topology state directory''), w)
         else let (ok, w) = os_create_excl tmp w
         in if \<not> ok then (Inl (StoreIO ''create topology state checkpoint''), w)
         else let (ok, w) = os_call w
         in if \<not> ok then (Inl (StoreIO ''secure topology state checkpoint''), cleanup w)
         else let ((_, ok), w) = os_write tmp data w
         in if \<not> ok then (Inl (StoreIO ''write topology state checkpoint''), cleanup w)
         else let (ok, w) = os_sync tmp w
         in if \<not> ok then (Inl (StoreIO ''sync topology state checkpoint''), cleanup w)
         else let (ok, w) = os_close w
         in if \<not> ok then (Inl (StoreIO ''close topology state checkpoint''), cleanup w)
         else let (ok, w) = os_rename tmp path w
         in if \<not> ok then (Inl (StoreIO ''install topology state checkpoint''), cleanup w)
         else let (ok, w) = os_call w
         in if \<not> ok then (Inl (StoreIO ''open topology state directory''), w)
         else let (ok, w) = os_call w
         in if \<not> ok then (Inl (StoreIO ''sync topology state directory''), snd (os_close w))
         else (Inr (length data), snd (os_close w))))"

text \<open>\<open>OpenStateStore\<close>: leftovers of interrupted checkpoints are removed first.\<close>

fun remove_stale :: "string list \<Rightarrow> world \<Rightarrow> bool \<times> world" where
  "remove_stale [] w = (True, w)"
| "remove_stale (name # names) w =
     (case os_remove name w of
        (RemoveError, w1) \<Rightarrow> (False, w1)
      | (_, w1) \<Rightarrow> remove_stale names w1)"

definition load_state :: "state_codec \<Rightarrow> bytes \<Rightarrow> topo_options \<Rightarrow> store_error + engine" where
  "load_state js data options =
     (case unmarshal_state js data of
        None \<Rightarrow> Inl DecodeState
      | Some st \<Rightarrow>
          if st_Version st \<noteq> persistedStateVersion then Inl (UnsupportedVersion (st_Version st))
          else (case marshal_state js (st\<lparr>st_Checksum := 0\<rparr>) of
                  None \<Rightarrow> Inl ChecksumMismatch
                | Some canonical \<Rightarrow>
                    if st_Checksum st = 0 \<or> crc32 canonical \<noteq> st_Checksum st then Inl ChecksumMismatch
                    else (case restoreState st options of
                            Inl err \<Rightarrow> Inl (InvalidState err)
                          | Inr e \<Rightarrow> Inr e)))"

definition OpenStateStore :: "state_codec \<Rightarrow> string \<Rightarrow> topo_options \<Rightarrow> world \<Rightarrow> (store_error + engine) \<times> world" where
  "OpenStateStore js path options w =
     (let stale = List.filter (\<lambda>name. has_prefix name temporaryPrefix) (keys (disk w))
      in case remove_stale stale w of
           (False, w1) \<Rightarrow> (Inl (StoreIO ''remove incomplete topology checkpoint''), w1)
         | (True, w1) \<Rightarrow>
             (case os_read_file path w1 of
                (ReadNotExist, w2) \<Rightarrow> (Inr (new_engine options), w2)
              | (ReadError, w2) \<Rightarrow> (Inl (StoreIO ''read topology state''), w2)
              | (ReadOk data, w2) \<Rightarrow> (load_state js data options, w2)))"

end
