(* ===== verification/Topo_Persist.thy ===== *)
theory Topo_Persist
  imports Topo_Store
begin

text \<open>
  What the checkpoint guarantees: a restored engine has the state of the one that was saved,
  and the file always holds a whole checkpoint, the old one or the new one.
\<close>

section \<open>Restoring what was persisted\<close>

lemma restore_into_map:
  assumes "distinct (List.map ident ps)" "\<forall>p\<in>set ps. ident p \<noteq> [] \<and> map_of m (ident p) = None"
    "\<forall>p\<in>set ps. conv p = Inr (f p)"
  shows "\<exists>m'. restore_into err ident conv ps m = Inr m'
    \<and> (\<forall>k. map_of m' k = (case map_of (List.map (\<lambda>p. (ident p, f p)) ps) k of
          Some v \<Rightarrow> Some v | None \<Rightarrow> map_of m k))"
  using assms
proof (induction ps arbitrary: m)
  case (Cons p ps)
  let ?m = "AList.update (ident p) (f p) m"
  have ne: "\<forall>q\<in>set ps. ident q \<noteq> ident p" using Cons.prems(1) by (simp add: image_iff) metis
  then have "\<forall>q\<in>set ps. ident q \<noteq> [] \<and> map_of ?m (ident q) = None"
    using Cons.prems(2) by simp
  then obtain m' where m': "restore_into err ident conv ps ?m = Inr m'"
    "\<forall>k. map_of m' k = (case map_of (List.map (\<lambda>p. (ident p, f p)) ps) k of
          Some v \<Rightarrow> Some v | None \<Rightarrow> map_of ?m k)"
    using Cons.IH [of ?m] Cons.prems(1,3) by auto
  have new: "map_of (List.map (\<lambda>p. (ident p, f p)) ps) (ident p) = None"
    using Cons.prems(1) by (auto simp: map_of_eq_None_iff)
  have "restore_into err ident conv (p # ps) m = Inr m'"
    using Cons.prems(2,3) m'(1) by simp
  then show ?case using m'(2) new by (auto split: option.split)
qed simp

lemma restore_persisted:
  fixes ident :: "'p \<Rightarrow> string" and pst :: "'v \<Rightarrow> 'p"
  assumes "all_entries (\<lambda>k v. k \<noteq> [] \<and> ident (pst v) = k \<and> conv (pst v) = Inr (g v)) ns"
  shows "\<exists>m'. restore_into err ident conv (sort_key ident (List.map (pst \<circ> snd) ns)) [] = Inr m'
    \<and> (\<forall>k. map_of m' k = map_option g (map_of ns k))"
proof -
  let ?ps = "sort_key ident (List.map (pst \<circ> snd) ns)"
  define f where "f p = (case conv p of Inr v \<Rightarrow> v)" for p
  have each: "k \<noteq> [] \<and> ident (pst v) = k \<and> conv (pst v) = Inr (g v)" if "(k, v) \<in> set ns" for k v
    using assms entriesD entries_distinct that by (fastforce simp: map_of_is_SomeI)
  have ids: "List.map ident (List.map (pst \<circ> snd) ns) = keys ns"
    using each by auto
  have "mset (List.map ident ?ps) = mset (keys ns)"
    by (metis ids mset_map mset_sort)
  then have d: "distinct (List.map ident ?ps)"
    using entries_distinct [OF assms] mset_eq_imp_distinct_iff by blast
  have ok: "\<forall>p\<in>set ?ps. ident p \<noteq> [] \<and> conv p = Inr (f p)"
    using each by (auto simp: f_def)
  have "set (List.map (\<lambda>p. (ident p, f p)) ?ps) = set (List.map (\<lambda>(k, v). (k, g v)) ns)"
    using each by (force simp: f_def)
  moreover have "distinct (keys (List.map (\<lambda>p. (ident p, f p)) ?ps))"
    using d by (simp add: comp_def)
  moreover have "keys (List.map (\<lambda>(k, v). (k, g v)) ns) = keys ns" by (induction ns) auto
  then have "distinct (keys (List.map (\<lambda>(k, v). (k, g v)) ns))" by (simp only: entries_distinct [OF assms])
  ultimately have "map_of (List.map (\<lambda>p. (ident p, f p)) ?ps) = map_of (List.map (\<lambda>(k, v). (k, g v)) ns)"
    using map_of_inject_set by blast
  then have m: "map_of (List.map (\<lambda>p. (ident p, f p)) ?ps) k = map_option g (map_of ns k)" for k
    by (simp add: map_of_map)
  obtain m' where m': "restore_into err ident conv ?ps [] = Inr m'"
    "\<forall>k. map_of m' k = (case map_of (List.map (\<lambda>p. (ident p, f p)) ?ps) k of
        Some v \<Rightarrow> Some v | None \<Rightarrow> map_of [] k)"
    using restore_into_map [OF d, of "[]" conv f err] ok by auto
  have "map_of m' k = map_option g (map_of ns k)" for k
    using m'(2) unfolding m by (cases "map_of ns k") simp_all
  then show ?thesis using m'(1) by blast
qed

lemma fold_update_distinct:
  "distinct (keys (m @ cs)) \<Longrightarrow> foldl (\<lambda>m (i, c). AList.update i c m) m cs = m @ cs"
proof (induction cs arbitrary: m)
  case (Cons x cs)
  obtain i c where x: "x = (i, c)" by fastforce
  have "i \<notin> fst ` set m" using Cons.prems x by auto
  then have "AList.update i c m = m @ [(i, c)]" by (induction m) auto
  then show ?case using Cons x by simp
qed simp

lemma marked:
  "map_of (foldl (\<lambda>m i. AList.update i True m) m ids) k = (if k \<in> set ids then Some True else map_of m k)"
  by (induction ids arbitrary: m) auto

text \<open>The trace as it is restored: its spans listed in span order.\<close>

definition listed :: "traceState \<Rightarrow> traceState" where
  "listed t = t\<lparr>t_spans := List.map (\<lambda>i. (i, span_at t i)) (t_spanOrder t)\<rparr>"

lemma restore_into_list:
  assumes "distinct (List.map ident ps)" "\<forall>p\<in>set ps. ident p \<noteq> [] \<and> ident p \<notin> set (keys m)"
  shows "restore_into err ident Inr ps m = Inr (m @ List.map (\<lambda>p. (ident p, p)) ps)"
  using assms
proof (induction ps arbitrary: m)
  case (Cons p ps)
  have new: "ident p \<notin> fst ` set m" using Cons.prems(2) by simp
  then have u: "AList.update (ident p) p m = m @ [(ident p, p)]" by (induction m) auto
  have none: "map_of m (ident p) = None" using new by (simp add: map_of_eq_None_iff)
  have "\<forall>q\<in>set ps. ident q \<noteq> ident p" using Cons.prems(1) by (simp add: image_iff) metis
  then have "restore_into err ident Inr ps (m @ [(ident p, p)])
      = Inr ((m @ [(ident p, p)]) @ List.map (\<lambda>p. (ident p, p)) ps)"
    using Cons.prems by (intro Cons.IH) auto
  then show ?case using Cons.prems(2) u none by simp
qed simp

lemma restore_persist_trace:
  assumes "trace_ok i t" "[] \<notin> set (t_spanOrder t)"
  shows "restore_trace (persist_trace t) = Inr (listed t)"
proof -
  have id: "SpanID (span_at t k) = k" if "k \<in> set (t_spanOrder t)" for k
  proof -
    have "map_of (t_spans t) k \<noteq> None"
      using assms(1) that keys_iff [of k "t_spans t"] by (simp add: trace_ok_def del: map_of_eq_Some_iff)
    then show ?thesis using assms(1) by (auto simp: trace_ok_def span_at_def simp del: map_of_eq_Some_iff)
  qed
  have ids: "List.map SpanID (List.map (span_at t) (t_spanOrder t)) = t_spanOrder t"
    using id by (auto intro: map_idI)
  have "restore_into InvalidSpan SpanID Inr (List.map (span_at t) (t_spanOrder t)) []
      = Inr ([] @ List.map (\<lambda>p. (SpanID p, p)) (List.map (span_at t) (t_spanOrder t)))"
  proof (rule restore_into_list)
    show "distinct (List.map SpanID (List.map (span_at t) (t_spanOrder t)))"
      unfolding ids using assms(1) by (simp add: trace_ok_def)
    show "\<forall>p\<in>set (List.map (span_at t) (t_spanOrder t)). SpanID p \<noteq> [] \<and> SpanID p \<notin> set (keys [])"
      using id assms(2) by auto
  qed
  moreover have "List.map (\<lambda>p. (SpanID p, p)) (List.map (span_at t) (t_spanOrder t))
      = List.map (\<lambda>i. (i, span_at t i)) (t_spanOrder t)"
    using id by auto
  moreover have "distinct (keys ([] @ t_pathContributions t))" using assms(1) by (simp add: trace_ok_def)
  then have "foldl (\<lambda>m (i, c). AList.update i c m) [] (t_pathContributions t) = t_pathContributions t"
    by (simp only: fold_update_distinct append_Nil)
  ultimately show ?thesis
    using ids by (simp add: restore_trace_def persist_trace_def listed_def)
qed

lemma listed_spans:
  assumes "trace_ok i t"
  shows "map_of (t_spans (listed t)) k = map_of (t_spans t) k"
proof (cases "k \<in> set (t_spanOrder t)")
  case True
  then have "map_of (t_spans t) k \<noteq> None"
    using assms keys_iff [of k "t_spans t"] by (simp add: trace_ok_def del: map_of_eq_Some_iff)
  then show ?thesis
    using True by (auto simp: listed_def map_of_map_restrict restrict_map_def span_at_def simp del: map_of_eq_Some_iff)
next
  case False
  then have "map_of (t_spans t) k = None"
    using assms keys_iff [of k "t_spans t"] by (auto simp: trace_ok_def)
  then show ?thesis using False by (simp add: listed_def map_of_map_restrict restrict_map_def)
qed

section \<open>The restored engine\<close>

text \<open>The same state, the maps compared by their lookups.\<close>

definition same_trace :: "traceState \<Rightarrow> traceState \<Rightarrow> bool" where
  "same_trace t u \<longleftrightarrow> t_traceID u = t_traceID t \<and> t_spanOrder u = t_spanOrder t
     \<and> t_lastUpdatedAt u = t_lastUpdatedAt t \<and> t_pathContributions u = t_pathContributions t
     \<and> map_of (t_spans u) = map_of (t_spans t)"

definition same_engine :: "engine \<Rightarrow> engine \<Rightarrow> bool" where
  "same_engine e e' \<longleftrightarrow> map_of (g_nodes e') = map_of (g_nodes e) \<and> map_of (g_edges e') = map_of (g_edges e)
     \<and> map_of (g_paths e') = map_of (g_paths e)
     \<and> (\<forall>i. rel_option same_trace (map_of (g_traces e) i) (map_of (g_traces e') i))
     \<and> map_of (g_seenSpanIDs e') = map_of (g_seenSpanIDs e)
     \<and> map_of (g_seenEdgeSpanIDs e') = map_of (g_seenEdgeSpanIDs e)
     \<and> same_limits e e' \<and> g_nodeVersion e' = g_nodeVersion e \<and> g_clock e' = g_clock e
     \<and> g_revision e' = g_revision e \<and> g_runtime e' = g_runtime e \<and> g_activity e' = g_activity e"

text \<open>No identifier is empty and marks are only ever set: what validation and the code give.\<close>

definition identified :: "engine \<Rightarrow> bool" where
  "identified e \<longleftrightarrow> [] \<notin> set (keys (g_nodes e)) \<and> [] \<notin> set (keys (g_paths e)) \<and> [] \<notin> set (keys (g_traces e))
     \<and> (\<forall>i t. map_of (g_traces e) i = Some t \<longrightarrow> [] \<notin> set (t_spanOrder t))
     \<and> all_entries (\<lambda>_ b. b) (g_seenSpanIDs e) \<and> all_entries (\<lambda>_ b. b) (g_seenEdgeSpanIDs e)
     \<and> all_entries (\<lambda>_ b. b) (g_applicationNames e)
     \<and> g_nodeVersion e \<noteq> [] \<and> 0 < g_maxRecentTraces e"

lemma marked_same: "all_entries (\<lambda>_ b. b) m \<Longrightarrow> map_of (foldl (\<lambda>m i. AList.update i True m) [] (sort (keys m))) = map_of m"
proof
  fix k
  assume m: "all_entries (\<lambda>_ b. b) m"
  show "map_of (foldl (\<lambda>m i. AList.update i True m) [] (sort (keys m))) k = map_of m k"
  proof (cases "map_of m k")
    case None
    then have "k \<notin> set (keys m)" unfolding keys_iff by simp
    then show ?thesis using None by (simp only: marked set_sort) simp
  next
    case (Some b)
    then have "k \<in> set (keys m)" "b" using entriesD [OF m] unfolding keys_iff by auto
    then show ?thesis using Some by (simp only: marked set_sort) simp
  qed
qed

lemma nonempty_key: "[] \<notin> set (keys m) \<Longrightarrow> map_of m k = Some v \<Longrightarrow> k \<noteq> []"
  unfolding keys_iff by auto

lemma restore_nodes:
  assumes "engine_ok e" "identified e"
  shows "\<exists>m. restore_into InvalidNode pn_ID (Inr \<circ> restore_node) (st_Nodes (persisted_state e)) [] = Inr m
    \<and> map_of m = map_of (g_nodes e)"
proof -
  have "all_entries (\<lambda>k v. k \<noteq> [] \<and> pn_ID (persist_node v) = k \<and> (Inr \<circ> restore_node) (persist_node v) = Inr v) (g_nodes e)"
  proof (rule entries_mono)
    show "all_entries (\<lambda>i n. n_id n = i \<and> metric_ok (g_maxLatencySamples e) (n_metrics n)) (g_nodes e)"
      using assms(1) by (simp add: engine_ok_def nodes_ok_def)
  next
    fix k v
    assume "map_of (g_nodes e) k = Some v" "n_id v = k \<and> metric_ok (g_maxLatencySamples e) (n_metrics v)"
    moreover from this have "k \<noteq> []" using assms(2) nonempty_key [of "g_nodes e"] by (simp only: identified_def) blast
    ultimately show "k \<noteq> [] \<and> pn_ID (persist_node v) = k \<and> (Inr \<circ> restore_node) (persist_node v) = Inr v"
      by (simp add: persist_node_def restore_node_def)
  qed
  from restore_persisted [where ident = pn_ID and pst = persist_node and conv = "Inr \<circ> restore_node" and g = "\<lambda>v. v",
      OF this, of InvalidNode] show ?thesis
    by (auto simp: persisted_state_def option.map_ident fun_eq_iff)
qed

lemma restore_edges:
  assumes "engine_ok e"
  shows "\<exists>m. restore_into InvalidEdge pe_ID (Inr \<circ> restore_edge) (st_Edges (persisted_state e)) [] = Inr m
    \<and> map_of m = map_of (g_edges e)"
proof -
  have "all_entries (\<lambda>k v. k \<noteq> [] \<and> pe_ID (persist_edge v) = k \<and> (Inr \<circ> restore_edge) (persist_edge v) = Inr v) (g_edges e)"
    using assms unfolding engine_ok_def edges_ok_def
    by (elim conjE entries_mono) (auto simp: persist_edge_def restore_edge_def StableEdgeID_def)
  from restore_persisted [where ident = pe_ID and pst = persist_edge and conv = "Inr \<circ> restore_edge" and g = "\<lambda>v. v",
      OF this, of InvalidEdge] show ?thesis
    by (auto simp: persisted_state_def option.map_ident fun_eq_iff)
qed

lemma restore_paths:
  assumes "engine_ok e" "identified e"
  shows "\<exists>m. restore_into InvalidPath pp_ID (Inr \<circ> restore_path) (st_Paths (persisted_state e)) [] = Inr m
    \<and> map_of m = map_of (g_paths e)"
proof -
  have "all_entries (\<lambda>k v. k \<noteq> [] \<and> pp_ID (persist_path v) = k \<and> (Inr \<circ> restore_path) (persist_path v) = Inr v) (g_paths e)"
  proof (rule entries_mono)
    show "all_entries (\<lambda>i p. p_id p = i \<and> length (m_latencies (p_metrics p)) \<le> g_maxLatencySamples e) (g_paths e)"
      using assms(1) by (simp add: engine_ok_def paths_ok_def)
  next
    fix k v
    assume "map_of (g_paths e) k = Some v" "p_id v = k \<and> length (m_latencies (p_metrics v)) \<le> g_maxLatencySamples e"
    moreover from this have "k \<noteq> []" using assms(2) nonempty_key [of "g_paths e"] by (simp only: identified_def) blast
    ultimately show "k \<noteq> [] \<and> pp_ID (persist_path v) = k \<and> (Inr \<circ> restore_path) (persist_path v) = Inr v"
      by (simp add: persist_path_def restore_path_def)
  qed
  from restore_persisted [where ident = pp_ID and pst = persist_path and conv = "Inr \<circ> restore_path" and g = "\<lambda>v. v",
      OF this, of InvalidPath] show ?thesis
    by (auto simp: persisted_state_def option.map_ident fun_eq_iff)
qed

lemma restore_traces:
  assumes "engine_ok e" "identified e"
  shows "\<exists>m. restore_into InvalidTrace pt_TraceID restore_trace (st_Traces (persisted_state e)) [] = Inr m
    \<and> (\<forall>i. rel_option same_trace (map_of (g_traces e) i) (map_of m i))"
proof -
  have tr: "traces_ok (g_seenSpanIDs e) (g_traces e)" using assms(1) by (simp add: engine_ok_def)
  have "all_entries (\<lambda>k v. k \<noteq> [] \<and> pt_TraceID (persist_trace v) = k \<and> restore_trace (persist_trace v) = Inr (listed v)) (g_traces e)"
  proof (rule entries_mono [OF traces_okD(4) [OF tr]])
    fix k t
    assume t: "map_of (g_traces e) k = Some t" "trace_ok k t"
    then have "k \<noteq> []" using assms(2) nonempty_key [of "g_traces e"] by (simp only: identified_def) blast
    moreover have "[] \<notin> set (t_spanOrder t)" using assms(2) t(1) by (auto simp: identified_def)
    ultimately show "k \<noteq> [] \<and> pt_TraceID (persist_trace t) = k \<and> restore_trace (persist_trace t) = Inr (listed t)"
      using restore_persist_trace [OF t(2)] t(2) by (simp add: persist_trace_def trace_ok_def)
  qed
  from restore_persisted [where ident = pt_TraceID and pst = persist_trace and conv = restore_trace and g = listed,
      OF this, of InvalidTrace] obtain m where
    m: "restore_into InvalidTrace pt_TraceID restore_trace (st_Traces (persisted_state e)) [] = Inr m"
    "\<forall>k. map_of m k = map_option listed (map_of (g_traces e) k)"
    by (auto simp: persisted_state_def)
  have "rel_option same_trace (map_of (g_traces e) i) (map_of m i)" for i
  proof (cases "map_of (g_traces e) i")
    case (Some t)
    then have "same_trace t (listed t)"
      using listed_spans traces_okD(1) [OF tr Some] by (auto simp: same_trace_def fun_eq_iff listed_def)
    then show ?thesis using Some m(2) by simp
  qed (use m(2) in simp)
  then show ?thesis using m(1) by blast
qed

text \<open>A restored checkpoint is the engine that was saved, whatever options the new process has.\<close>

lemma restore_persisted_state:
  assumes "engine_ok e" "identified e"
  shows "\<exists>e'. restoreState (persisted_state e) options = Inr e' \<and> same_engine e e'
    \<and> (\<forall>name. seen (g_applicationNames e') name \<longleftrightarrow> seen (g_applicationNames e) name
         \<or> (name \<noteq> [] \<and> name = trim_space (opt_ApplicationName options)))"
proof -
  obtain ns es ps ts where
    ns: "restore_into InvalidNode pn_ID (Inr \<circ> restore_node) (st_Nodes (persisted_state e)) [] = Inr ns"
      "map_of ns = map_of (g_nodes e)"
    and es: "restore_into InvalidEdge pe_ID (Inr \<circ> restore_edge) (st_Edges (persisted_state e)) [] = Inr es"
      "map_of es = map_of (g_edges e)"
    and ps: "restore_into InvalidPath pp_ID (Inr \<circ> restore_path) (st_Paths (persisted_state e)) [] = Inr ps"
      "map_of ps = map_of (g_paths e)"
    and ts: "restore_into InvalidTrace pt_TraceID restore_trace (st_Traces (persisted_state e)) [] = Inr ts"
      "\<forall>i. rel_option same_trace (map_of (g_traces e) i) (map_of ts i)"
    using restore_nodes [OF assms] restore_edges [OF assms(1)] restore_paths [OF assms] restore_traces [OF assms]
    by blast
  have marks: "all_entries (\<lambda>_ b. b) (g_seenSpanIDs e)" "all_entries (\<lambda>_ b. b) (g_seenEdgeSpanIDs e)"
    "all_entries (\<lambda>_ b. b) (g_applicationNames e)"
    using assms(2) by (simp_all add: identified_def)
  have names: "seen (foldl (\<lambda>m i. AList.update i True m) m (sort (keys (g_applicationNames e)))) name
      \<longleftrightarrow> seen (g_applicationNames e) name \<or> seen m name" for m name
    using marked_same [OF marks(3), THEN fun_cong, of name] by (auto simp: seen_def marked split: if_splits)
  have "0 < g_maxLatencySamples e" "0 < g_maxRuntimePaths e" "0 < g_maxRecentTraces e" "g_nodeVersion e \<noteq> []"
    using assms by (simp_all add: engine_ok_def identified_def)
  then show ?thesis
    using ns(2) es(2) ps(2) ts(2) marked_same [OF marks(1)] marked_same [OF marks(2)]
    unfolding restoreState_def Let_def ns(1) es(1) ps(1) ts(1)
    by (auto simp: same_engine_def same_limits_def persisted_state_def new_engine_def Let_def names)
      (auto simp: seen_def split: if_splits)
qed

end
