(* ===== verification/Topo_Checkpoint.thy ===== *)
theory Topo_Checkpoint
  imports Topo_Persist
begin

text \<open>
  What \<open>Save\<close> leaves on disk, whichever of its calls fail, and what \<open>OpenStateStore\<close> makes of it
  after a crash.
\<close>

section \<open>One call at a time\<close>

text \<open>Every file but the given one is as before.\<close>

definition others_kept :: "string \<Rightarrow> world \<Rightarrow> world \<Rightarrow> bool" where
  "others_kept tmp w w' \<longleftrightarrow> (\<forall>name. name \<noteq> tmp \<longrightarrow> lookup_file w' name = lookup_file w name)"

lemma others_kept_refl [simp]: "others_kept tmp w w"
  by (simp add: others_kept_def)

lemma others_kept_trans: "others_kept tmp u v \<Longrightarrow> others_kept tmp v w \<Longrightarrow> others_kept tmp u w"
  by (simp add: others_kept_def)


lemma os_call_kept: "disk (snd (os_call w)) = disk w"
  by (simp add: os_call_def split: prod.split) (metis next_io_disk snd_conv)

lemma os_close_kept: "disk (snd (os_close w)) = disk w"
  by (simp add: os_close_def split: prod.split) (metis next_io_disk snd_conv)

lemma next_io_lookup: "next_io w = (r, w') \<Longrightarrow> disk w' = disk w"
  by (metis next_io_disk snd_conv)

lemma os_create_excl_effect:
  assumes "os_create_excl tmp w = (ok, w')"
  shows "others_kept tmp w w'" "ok \<Longrightarrow> lookup_file w' tmp = Some \<lparr>contents = [], synced = 0\<rparr>"
  using assms by (auto simp: os_create_excl_def others_kept_def split: prod.splits io.splits option.splits
      dest!: next_io_lookup)

lemma os_write_effect:
  assumes "os_write tmp bs w = ((n, ok), w')"
  shows "others_kept tmp w w'"
    "ok \<Longrightarrow> lookup_file w tmp = Some \<lparr>contents = [], synced = 0\<rparr> \<Longrightarrow>
      lookup_file w' tmp = Some \<lparr>contents = bs, synced = 0\<rparr>"
  using assms by (auto simp: os_write_def append_file_def others_kept_def
      split: prod.splits io.splits option.splits dest!: next_io_lookup)

lemma os_sync_effect:
  assumes "os_sync tmp w = (ok, w')"
  shows "others_kept tmp w w'"
    "ok \<Longrightarrow> lookup_file w tmp = Some \<lparr>contents = bs, synced = 0\<rparr> \<Longrightarrow>
      lookup_file w' tmp = Some \<lparr>contents = bs, synced = length bs\<rparr>"
  using assms by (auto simp: os_sync_def others_kept_def
      split: prod.splits io.splits option.splits dest!: next_io_lookup)

lemma os_remove_effect: "os_remove tmp w = (r, w') \<Longrightarrow> others_kept tmp w w'"
  by (auto simp: os_remove_def others_kept_def
      split: prod.splits io.splits option.splits dest!: next_io_lookup)

lemma os_rename_effect:
  assumes "os_rename tmp path w = (ok, w')" "tmp \<noteq> path"
  shows "\<not> ok \<Longrightarrow> disk w' = disk w"
    "ok \<Longrightarrow> lookup_file w' path = lookup_file w tmp"
    "ok \<Longrightarrow> name \<noteq> tmp \<Longrightarrow> name \<noteq> path \<Longrightarrow> lookup_file w' name = lookup_file w name"
  using assms by (auto simp: os_rename_def split: prod.splits io.splits option.splits dest!: next_io_lookup)

lemma cleanup_kept: "others_kept tmp w (snd (os_remove tmp (snd (os_close w))))"
proof -
  obtain r w' where r: "os_remove tmp (snd (os_close w)) = (r, w')" by fastforce
  have "others_kept tmp w (snd (os_close w))" by (simp add: others_kept_def os_close_kept)
  with os_remove_effect [OF r] show ?thesis using others_kept_trans r by fastforce
qed

lemma os_call_kept': "os_call w = (ok, w') \<Longrightarrow> disk w' = disk w"
  using os_call_kept [of w] by simp

lemma os_close_kept': "os_close w = (ok, w') \<Longrightarrow> disk w' = disk w"
  using os_close_kept [of w] by simp

section \<open>The whole checkpoint\<close>

text \<open>The bytes of an engine's checkpoint.\<close>

definition checkpoint_bytes :: "state_codec \<Rightarrow> engine \<Rightarrow> bytes option" where
  "checkpoint_bytes js e = Option.bind (marshal_state js (persisted_state e))
     (\<lambda>canonical. marshal_state js (persisted_state e\<lparr>st_Checksum := crc32 canonical\<rparr>))"

text \<open>The new checkpoint is in place, whole and synced.\<close>

definition installed :: "bytes \<Rightarrow> string \<Rightarrow> world \<Rightarrow> bool" where
  "installed data path w \<longleftrightarrow> lookup_file w path = Some \<lparr>contents = data, synced = length data\<rparr>"

text \<open>The outcome of a run of \<open>Save\<close>: other files are kept; the checkpoint is the old one or the
  new one, and the new one if it succeeded.\<close>

definition save_outcome :: "bytes \<Rightarrow> string \<Rightarrow> string \<Rightarrow> world \<Rightarrow> (store_error + nat) \<times> world \<Rightarrow> bool" where
  "save_outcome data path tmp w0 rw \<longleftrightarrow>
     (\<forall>name. name \<noteq> path \<longrightarrow> name \<noteq> tmp \<longrightarrow> lookup_file (snd rw) name = lookup_file w0 name)
     \<and> (lookup_file (snd rw) path = lookup_file w0 path \<or> installed data path (snd rw))
     \<and> (\<forall>n. fst rw = Inr n \<longrightarrow> n = length data \<and> installed data path (snd rw))"

lemma outcome_early:
  "others_kept tmp w0 w \<Longrightarrow> tmp \<noteq> path \<Longrightarrow> save_outcome data path tmp w0 (Inl err, w)"
  by (simp add: save_outcome_def others_kept_def)

lemma outcome_late:
  assumes "others_kept tmp w0 w" "os_rename tmp path w = (True, w1)" "tmp \<noteq> path"
    and "lookup_file w tmp = Some \<lparr>contents = data, synced = length data\<rparr>" "disk w2 = disk w1"
    and "case r of Inl _ \<Rightarrow> True | Inr n \<Rightarrow> n = length data"
  shows "save_outcome data path tmp w0 (r, w2)"
proof -
  have "installed data path w2"
    using os_rename_effect(2) [OF assms(2,3)] assms(4,5) by (simp add: installed_def)
  moreover have "lookup_file w2 name = lookup_file w0 name" if "name \<noteq> path" "name \<noteq> tmp" for name
    using os_rename_effect(3) [OF assms(2,3) _ that(2,1)] assms(1,5) that by (simp add: others_kept_def)
  ultimately show ?thesis using assms(6) by (auto simp: save_outcome_def)
qed

lemma Save_outcome:
  assumes "checkpoint_bytes js e = Some data" "temporaryPrefix @ suffix \<noteq> path"
  shows "save_outcome data path (temporaryPrefix @ suffix) w0 (Save js path suffix e w0)"
proof -
  let ?tmp = "temporaryPrefix @ suffix"
  obtain canonical where c: "marshal_state js (persisted_state e) = Some canonical"
    "marshal_state js (persisted_state e\<lparr>st_Checksum := crc32 canonical\<rparr>) = Some data"
    using assms(1) by (auto simp: checkpoint_bytes_def bind_eq_Some_conv)
  obtain ok1 w1 where 1: "os_call w0 = (ok1, w1)" by fastforce
  obtain ok2 w2 where 2: "os_create_excl ?tmp w1 = (ok2, w2)" by fastforce
  obtain ok3 w3 where 3: "os_call w2 = (ok3, w3)" by fastforce
  obtain n4 ok4 w4 where 4: "os_write ?tmp data w3 = ((n4, ok4), w4)" by (metis prod.exhaust)
  obtain ok5 w5 where 5: "os_sync ?tmp w4 = (ok5, w5)" by fastforce
  obtain ok6 w6 where 6: "os_close w5 = (ok6, w6)" by fastforce
  obtain ok7 w7 where 7: "os_rename ?tmp path w6 = (ok7, w7)" by fastforce
  obtain ok8 w8 where 8: "os_call w7 = (ok8, w8)" by fastforce
  obtain ok9 w9 where 9: "os_call w8 = (ok9, w9)" by fastforce
  note calls = 1 2 3 4 5 6 7 8 9
  have k1: "others_kept ?tmp w0 w1" using os_call_kept' [OF 1] by (simp add: others_kept_def)
  have k2: "others_kept ?tmp w0 w2" using k1 os_create_excl_effect(1) [OF 2] by (rule others_kept_trans)
  have k3: "others_kept ?tmp w0 w3" using k2 os_call_kept' [OF 3] by (simp add: others_kept_def)
  have k4: "others_kept ?tmp w0 w4" using k3 os_write_effect(1) [OF 4] by (rule others_kept_trans)
  have k5: "others_kept ?tmp w0 w5" using k4 os_sync_effect(1) [OF 5] by (rule others_kept_trans)
  have k6: "others_kept ?tmp w0 w6" using k5 os_close_kept' [OF 6] by (simp add: others_kept_def)
  have k7: "others_kept ?tmp w0 w7" if "\<not> ok7"
    using k6 os_rename_effect(1) [OF 7 assms(2) that] by (simp add: others_kept_def)
  have clean: "save_outcome data path ?tmp w0 (Inl err, snd (os_remove ?tmp (snd (os_close w))))"
    if "others_kept ?tmp w0 w" for w err
    using others_kept_trans [OF that cleanup_kept] assms(2) by (rule outcome_early)
  have written: "lookup_file w6 ?tmp = Some \<lparr>contents = data, synced = length data\<rparr>" if "ok2" "ok4" "ok5"
  proof -
    have "lookup_file w3 ?tmp = Some \<lparr>contents = [], synced = 0\<rparr>"
      using os_create_excl_effect(2) [OF 2 that(1)] os_call_kept' [OF 3] by simp
    from os_sync_effect(2) [OF 5 that(3) os_write_effect(2) [OF 4 that(2) this]]
    show ?thesis using os_close_kept' [OF 6] by simp
  qed
  have late: "save_outcome data path ?tmp w0 (r, w)"
    if "ok2" "ok4" "ok5" "ok7" "disk w = disk w7" "case r of Inl _ \<Rightarrow> True | Inr n \<Rightarrow> n = length data" for r w
    using outcome_late [OF k6 _ assms(2) written [OF that(1-3)] that(5,6)] 7 that(4) by simp
  have d8: "disk w8 = disk w7" and d9: "disk w9 = disk w7"
    using os_call_kept' [OF 8] os_call_kept' [OF 9] by simp_all
  show ?thesis
    using outcome_early [OF k1 assms(2)] outcome_early [OF k2 assms(2)] clean [OF k3] clean [OF k4]
      clean [OF k5] clean [OF k6] clean [OF k7] late [of w8 "Inl _"] late [of "snd (os_close w9)"] d8 d9
    by (simp add: Save_def Let_def c calls os_close_kept)
qed

section \<open>Reopening\<close>

text \<open>An engine restored from a checkpoint: the same engine, with the name of the application that
  is starting registered as well.\<close>

definition restores :: "topo_options \<Rightarrow> engine \<Rightarrow> engine \<Rightarrow> bool" where
  "restores options e e' \<longleftrightarrow> same_engine e e'
    \<and> (\<forall>name. seen (g_applicationNames e') name \<longleftrightarrow> seen (g_applicationNames e) name
         \<or> (name \<noteq> [] \<and> name = trim_space (opt_ApplicationName options)))"

text \<open>A checksum of zero counts as a missing one.\<close>

definition checksum_present :: "state_codec \<Rightarrow> engine \<Rightarrow> bool" where
  "checksum_present js e \<longleftrightarrow> (\<forall>canonical. marshal_state js (persisted_state e) = Some canonical \<longrightarrow> crc32 canonical \<noteq> 0)"

lemma load_checkpoint:
  assumes "checkpoint_bytes js e = Some data" "state_codec_ok js" "checksum_present js e"
    and "engine_ok e" "identified e"
  shows "\<exists>e'. load_state js data options = Inr e' \<and> restores options e e'"
proof -
  obtain canonical where c: "marshal_state js (persisted_state e) = Some canonical"
    "marshal_state js (persisted_state e\<lparr>st_Checksum := crc32 canonical\<rparr>) = Some data"
    using assms(1) by (auto simp: checkpoint_bytes_def bind_eq_Some_conv)
  have u: "unmarshal_state js data = Some (persisted_state e\<lparr>st_Checksum := crc32 canonical\<rparr>)"
    using assms(2) c(2) by (simp add: state_codec_ok_def)
  have z: "persisted_state e\<lparr>st_Checksum := 0\<rparr> = persisted_state e" "st_Version (persisted_state e) = persistedStateVersion"
    by (simp_all add: persisted_state_def)
  have nz: "crc32 canonical \<noteq> 0" using assms(3) c(1) by (simp add: checksum_present_def)
  have ignore: "restoreState (st\<lparr>st_Checksum := k\<rparr>) options = restoreState st options" for st k
    by (simp add: restoreState_def Let_def cong del: sum.case_cong_weak if_weak_cong)
  obtain e' where e': "restoreState (persisted_state e) options = Inr e'" "restores options e e'"
    using restore_persisted_state [OF assms(4,5), of options] by (auto simp: restores_def)
  have "load_state js data options = Inr e'"
    using c(1) z nz e'(1) by (simp add: load_state_def u ignore)
  then show ?thesis using e'(2) by blast
qed

lemma remove_stale_all:
  assumes "script w = []" "\<forall>name\<in>set names. name \<noteq> path"
  shows "\<exists>w'. remove_stale names w = (True, w') \<and> script w' = [] \<and> lookup_file w' path = lookup_file w path"
  using assms
proof (induction names arbitrary: w)
  case (Cons name names)
  obtain r w1 where r: "os_remove name w = (r, w1)" by fastforce
  have "r \<noteq> RemoveError" "script w1 = []" "lookup_file w1 path = lookup_file w path"
    using r Cons.prems by (auto simp: os_remove_def split: option.splits)
  moreover from this obtain w' where "remove_stale names w1 = (True, w')" "script w' = []"
    "lookup_file w' path = lookup_file w1 path"
    using Cons.IH [of w1] Cons.prems(2) by auto
  ultimately show ?case by (cases r) (simp_all add: r)
qed simp

lemma OpenStateStore_found:
  assumes "script w = []" "\<not> has_prefix path temporaryPrefix" "lookup_file w path = Some f"
  shows "\<exists>w'. OpenStateStore js path options w = (load_state js (contents f) options, w')"
proof -
  let ?stale = "List.filter (\<lambda>name. has_prefix name temporaryPrefix) (keys (disk w))"
  have "\<forall>name\<in>set ?stale. name \<noteq> path" using assms(2) by auto
  from remove_stale_all [OF assms(1) this]
  obtain w1 where "remove_stale ?stale w = (True, w1)" "script w1 = []" "lookup_file w1 path = Some f"
    using assms(3) by auto
  then show ?thesis by (simp add: OpenStateStore_def Let_def os_read_file_def)
qed

text \<open>A fully synced file is found after a crash.\<close>

lemma reopen_after_crash:
  assumes "crash w w'" "script w' = []" "\<not> has_prefix path temporaryPrefix" "installed data path w"
  shows "\<exists>w''. OpenStateStore js path options w' = (load_state js data options, w'')"
proof -
  have "lookup_file w' path = Some \<lparr>contents = data, synced = length data\<rparr>"
    using crash_synced [OF assms(1)] assms(4) by (simp add: installed_def)
  from OpenStateStore_found [OF assms(2,3) this, of js options] show ?thesis by simp
qed

end
