(* ===== verification/Topo_Snapshot.thy ===== *)
theory Topo_Snapshot
  imports Topo_Engine
begin

text \<open>
  The views of the engine: the live snapshot and the architecture snapshot
  (\<open>liveSnapshotLocked\<close>, \<open>snapshotLocked\<close> and what they call in
  \<open>runtime/go/internal/topology/engine.go\<close>). The time of generation is left out.
\<close>

record metricSummary =
  ms_RequestCount :: int
  ms_ErrorCount :: int
  ms_ErrorRate :: f64
  ms_AvgLatencyMS :: f64
  ms_P50LatencyMS :: f64
  ms_P95LatencyMS :: f64
  ms_P99LatencyMS :: f64

record nodeMetrics =
  nm_CallCount :: int
  nm_ErrorCount :: int
  nm_AvgDurationMS :: f64
  nm_P50DurationMS :: f64
  nm_P95DurationMS :: f64
  nm_P99DurationMS :: f64

record edgeMetrics =
  em_CallCount :: int
  em_ErrorCount :: int
  em_AvgDurationMS :: f64
  em_P95DurationMS :: f64

record liveNode =
  ln_ID :: string
  ln_Name :: string
  ln_Type :: string
  ln_Framework :: string
  ln_Operation :: string
  ln_Summary :: metricSummary

record liveEdge =
  le_ID :: string
  le_Source :: string
  le_Target :: string
  le_Summary :: metricSummary

record archNode =
  an_ID :: string
  an_Type :: string
  an_Name :: string
  an_Framework :: string
  an_Metrics :: nodeMetrics

record archEdge =
  ae_ID :: string
  ae_Source :: string
  ae_Target :: string
  ae_Type :: string
  ae_Metrics :: edgeMetrics

record path_view =
  pv_ID :: string
  pv_Entrypoint :: string
  pv_Nodes :: "string list"
  pv_Calls :: int
  pv_AvgDurationMS :: f64
  pv_P95DurationMS :: f64
  pv_Errors :: int

record recentTrace =
  rt_ID :: string
  rt_Name :: string
  rt_StartedAt :: f64
  rt_Duration :: f64
  rt_Status :: string
  rt_Spans :: "traceSpan list"

record liveSnapshot =
  lv_Revision :: u64
  lv_Nodes :: "liveNode list"
  lv_Edges :: "liveEdge list"
  lv_Paths :: "path_view list"
  lv_Traces :: "recentTrace list"
  lv_Runtime :: "runtime_metrics option"
  lv_Activity :: activity

record snapshot =
  sn_Version :: string
  sn_ApplicationName :: string
  sn_NodeVersion :: string
  sn_Nodes :: "archNode list"
  sn_Edges :: "archEdge list"
  sn_Paths :: "path_view list"
  sn_ServiceNames :: "string list option"

definition average :: "metricAccumulator \<Rightarrow> f64" where
  "average m = (if m_count m = 0 then Fin 0
     else round_hundredths (f64_div (m_totalLatencyMS m) (f64_of_int (m_count m))))"

definition summarize :: "metricAccumulator \<Rightarrow> metricSummary" where
  "summarize m =
     \<lparr>ms_RequestCount = m_count m, ms_ErrorCount = m_errors m,
      ms_ErrorRate = (if m_count m > 0
        then round_hundredths (f64_mul (f64_div (f64_of_int (m_errors m)) (f64_of_int (m_count m))) (Fin 100))
        else Fin 0),
      ms_AvgLatencyMS = average m, ms_P50LatencyMS = percentile (m_latencies m) p50,
      ms_P95LatencyMS = percentile (m_latencies m) p95, ms_P99LatencyMS = percentile (m_latencies m) p99\<rparr>"

definition node_metrics :: "metricAccumulator \<Rightarrow> nodeMetrics" where
  "node_metrics m =
     \<lparr>nm_CallCount = m_count m, nm_ErrorCount = m_errors m, nm_AvgDurationMS = average m,
      nm_P50DurationMS = percentile (m_latencies m) p50, nm_P95DurationMS = percentile (m_latencies m) p95,
      nm_P99DurationMS = percentile (m_latencies m) p99\<rparr>"

definition edge_metrics :: "metricAccumulator \<Rightarrow> edgeMetrics" where
  "edge_metrics m =
     \<lparr>em_CallCount = m_count m, em_ErrorCount = m_errors m, em_AvgDurationMS = average m,
      em_P95DurationMS = percentile (m_latencies m) p95\<rparr>"

definition architectureNodeType :: "string \<Rightarrow> string" where
  "architectureNodeType kind =
     (case map_of [(''http-route'', ''http''), (''controller'', ''controller''), (''service'', ''service''),
        (''database'', ''database''), (''redis'', ''cache''), (''queue'', ''queue''),
        (''worker'', ''provider''), (''external-http'', ''external-service'')] kind of
        Some t \<Rightarrow> t | None \<Rightarrow> [])"

text \<open>The most called paths first, then by identifier.\<close>

definition buildRuntimePaths :: "engine \<Rightarrow> path_view list" where
  "buildRuntimePaths e =
     sort_key (\<lambda>v. (- pv_Calls v, pv_ID v))
       (List.map (\<lambda>(_, p).
          \<lparr>pv_ID = p_id p, pv_Entrypoint = p_entrypoint p, pv_Nodes = p_nodes p,
           pv_Calls = m_count (p_metrics p), pv_AvgDurationMS = average (p_metrics p),
           pv_P95DurationMS = percentile (m_latencies (p_metrics p)) p95,
           pv_Errors = m_errors (p_metrics p)\<rparr>) (g_paths e))"

definition contains_topology :: "traceState \<Rightarrow> bool" where
  "contains_topology t \<longleftrightarrow> list_ex (\<lambda>i. Kind (span_at t i) \<in> set topologyKinds) (t_spanOrder t)"

text \<open>The latest trace first; its spans are exported as they are in the tree.\<close>

definition buildRecentTraces :: "engine \<Rightarrow> recentTrace list" where
  "buildRecentTraces e =
     List.map (\<lambda>t.
        let built = buildTrace t
        in \<lparr>rt_ID = (case b_roots built of [] \<Rightarrow> [] | r # _ \<Rightarrow> TraceID (ts_span r)),
            rt_Name = (case b_roots built of [] \<Rightarrow> ''Trace'' | r # _ \<Rightarrow> Name (ts_span r)),
            rt_StartedAt = b_startedAt built, rt_Duration = b_durationMS built,
            rt_Status = (if b_failed built then ''error'' else ''ok''), rt_Spans = b_roots built\<rparr>)
       (sort_key (\<lambda>t. NOT (t_lastUpdatedAt t))
          (List.filter contains_topology (List.map snd (g_traces e))))"

definition liveSnapshotLocked :: "engine \<Rightarrow> liveSnapshot" where
  "liveSnapshotLocked e =
     \<lparr>lv_Revision = g_revision e,
      lv_Nodes = sort_key ln_Name (List.map (\<lambda>(_, n).
        \<lparr>ln_ID = n_id n, ln_Name = n_name n, ln_Type = n_kind n, ln_Framework = n_framework n,
         ln_Operation = n_operation n, ln_Summary = summarize (n_metrics n)\<rparr>) (g_nodes e)),
      lv_Edges = sort_key le_ID (List.map (\<lambda>(_, x).
        \<lparr>le_ID = e_id x, le_Source = e_source x, le_Target = e_target x,
         le_Summary = summarize (e_metrics x)\<rparr>) (g_edges e)),
      lv_Paths = buildRuntimePaths e, lv_Traces = buildRecentTraces e,
      lv_Runtime = g_runtime e, lv_Activity = g_activity e\<rparr>"

definition snapshotVersion :: string where "snapshotVersion = ''1.0''"

definition snapshotLocked :: "engine \<Rightarrow> snapshot" where
  "snapshotLocked e =
     (let services = sort (keys (g_applicationNames e))
      in \<lparr>sn_Version = snapshotVersion,
          sn_ApplicationName = (case services of [] \<Rightarrow> [] | s # _ \<Rightarrow> s),
          sn_NodeVersion = g_nodeVersion e,
          sn_Nodes = sort_key an_ID (List.map (\<lambda>(_, n).
            \<lparr>an_ID = n_id n, an_Type = architectureNodeType (n_kind n), an_Name = n_name n,
             an_Framework = n_framework n, an_Metrics = node_metrics (n_metrics n)\<rparr>) (g_nodes e)),
          sn_Edges = sort_key ae_ID (List.map (\<lambda>(_, x).
            \<lparr>ae_ID = e_id x, ae_Source = e_source x, ae_Target = e_target x,
             ae_Type = ''runtime-dependency'', ae_Metrics = edge_metrics (e_metrics x)\<rparr>) (g_edges e)),
          sn_Paths = buildRuntimePaths e,
          sn_ServiceNames = (if length services > 1 then Some services else None)\<rparr>)"

end
