(* ===== verification/Float_Bounds.thy ===== *)
theory Float_Bounds
  imports Topo_Identity
begin

text \<open>
  Rounding to binary64 near the integers below \<open>2 ^ 53\<close>: they are exact, and rounding does not
  cross them. From this, the index that \<open>percentile\<close> computes lies inside its slice.
\<close>

lemma pow2_pos [simp]: "0 < pow2 e"
  by (simp add: pow2_def)

lemma pow2_plus_1: "pow2 (e + 1) = 2 * pow2 e"
proof (cases "e \<ge> 0")
  case True
  then have "nat (e + 1) = Suc (nat e)" by simp
  then show ?thesis using True by (simp add: pow2_def)
next
  case False
  then have "nat (- e) = Suc (nat (- (e + 1)))" by simp
  then show ?thesis using False by (cases "e = - 1") (simp_all add: pow2_def)
qed

lemma pow2_add_nat: "pow2 (e + int k) = 2 ^ k * pow2 e"
proof (induction k)
  case (Suc k)
  have "e + int (Suc k) = (e + int k) + 1" by simp
  then have "pow2 (e + int (Suc k)) = 2 * pow2 (e + int k)" by (simp only: pow2_plus_1)
  then show ?case by (simp add: Suc)
qed simp

lemma pow2_mono: "a \<le> b \<Longrightarrow> pow2 a \<le> pow2 b"
proof -
  assume "a \<le> b"
  then have "pow2 b = 2 ^ nat (b - a) * pow2 a" using pow2_add_nat [of a "nat (b - a)"] by simp
  moreover have "1 * pow2 a \<le> 2 ^ nat (b - a) * pow2 a"
    by (rule mult_right_mono) (simp_all add: less_imp_le)
  ultimately show ?thesis by simp
qed

lemma exponent_le:
  assumes "0 < x"
  shows "pow2 (exponent x) \<le> x"
proof -
  obtain n d where q: "quotient_of x = (n, d)" by (cases "quotient_of x")
  then have d: "0 < d" and x: "x = of_int n / of_int d"
    using quotient_of_denom_pos quotient_of_div by auto
  then have n: "0 < n" using assms by (simp add: zero_less_divide_iff)
  define a b where "a = floorlog 2 (nat n)" and "b = floorlog 2 (nat d)"
  have "nat n > 0" "nat d > 0" using n d by simp_all
  then have lo: "2 ^ (a - 1) \<le> nat n" and hi: "nat d < 2 ^ b"
    using floorlog_bounds [of "nat n" 2] floorlog_bounds [of "nat d" 2] by (simp_all add: a_def b_def)
  have a: "0 < a" using \<open>nat n > 0\<close> unfolding a_def neq0_conv [symmetric] floorlog_eq_zero_iff by simp
  have lo': "(2::rat) ^ (a - 1) \<le> of_int n"
    using lo n by (metis le_nat_iff less_imp_le of_int_le_iff of_int_numeral of_int_power of_nat_numeral of_nat_power)
  have hi': "of_int d < (2::rat) ^ b"
    using hi d by (metis nat_less_iff less_imp_le of_int_less_iff of_int_numeral of_int_power of_nat_numeral of_nat_power)
  have "pow2 (int a - int b - 1) * of_int d \<le> of_int n"
  proof -
    have "pow2 (int a - int b - 1 + int b) = 2 ^ b * pow2 (int a - int b - 1)" by (rule pow2_add_nat)
    moreover have "pow2 (int a - int b - 1 + int b) = 2 ^ (a - 1)"
      using a by (simp add: pow2_def nat_diff_distrib)
    ultimately have "pow2 (int a - int b - 1) * 2 ^ b = 2 ^ (a - 1)" by (simp add: mult.commute)
    moreover have "pow2 (int a - int b - 1) * of_int d \<le> pow2 (int a - int b - 1) * 2 ^ b"
      using hi' by (intro mult_left_mono) (simp_all add: less_imp_le)
    ultimately have "pow2 (int a - int b - 1) * of_int d \<le> 2 ^ (a - 1)" by (simp only:)
    from order_trans [OF this lo'] show ?thesis .
  qed
  then have "pow2 (int a - int b - 1) \<le> x" using d by (simp add: x pos_le_divide_eq)
  then show ?thesis by (simp add: exponent_def q Let_def a_def b_def)
qed

lemma exponent_small:
  assumes "0 < x" "x < 2 ^ 53"
  shows "exponent x \<le> 52"
proof (rule ccontr)
  assume "\<not> exponent x \<le> 52"
  then have "pow2 53 \<le> pow2 (exponent x)" by (intro pow2_mono) simp
  then show False using exponent_le [OF assms(1)] assms(2) by (simp add: pow2_def)
qed

lemma round_even_int [simp]: "round_even (of_int k) = k"
  by (simp add: round_even_def Let_def)

lemma round_even_le: "q \<le> of_int k \<Longrightarrow> round_even q \<le> k"
proof -
  assume q: "q \<le> of_int k"
  show ?thesis
  proof (cases "\<lfloor>q\<rfloor> < k")
    case True
    then show ?thesis by (simp add: round_even_def Let_def)
  next
    case False
    then have "q = of_int k" using q by (metis floor_less_iff order.not_eq_order_implies_strict)
    then show ?thesis by simp
  qed
qed

lemma round_even_nonneg: "0 \<le> q \<Longrightarrow> 0 \<le> round_even q"
  by (simp add: round_even_def Let_def)

text \<open>Below \<open>2 ^ 53\<close> the spacing is an inverse power of two.\<close>

lemma unit_inverse:
  assumes "0 < x" "x < 2 ^ 53"
  obtains k where "pow2 (max (exponent x - 52) (- 1074)) = 1 / 2 ^ k"
proof -
  define e where "e = max (exponent x - 52) (- 1074)"
  have "e \<le> 0" using exponent_small [OF assms] by (simp add: e_def)
  then have "pow2 e = 1 / 2 ^ nat (- e)" by (cases "e = 0") (simp_all add: pow2_def)
  then show ?thesis using that by (simp add: e_def)
qed

lemma below_overflow: "x < 2 ^ 53 \<Longrightarrow> x < (2 :: rat) ^ 1024"
proof -
  have "(2 :: rat) ^ 53 < 2 ^ 1024" by (rule power_strict_increasing) simp_all
  then show "x < 2 ^ 53 \<Longrightarrow> x < (2 :: rat) ^ 1024" by (rule less_trans [rotated])
qed

lemma int_below: "n < 2 ^ 53 \<Longrightarrow> (of_int n :: rat) < 2 ^ 53"
proof -
  assume "n < 2 ^ 53"
  then have "(of_int n :: rat) < of_int (2 ^ 53)" by (simp only: of_int_less_iff)
  then show ?thesis by simp
qed

lemma round_f64_pos:
  assumes "0 < x" "x < 2 ^ 53" "pow2 (max (exponent x - 52) (- 1074)) = 1 / 2 ^ k"
    and "of_int (round_even (x * 2 ^ k)) / 2 ^ k < (2 :: rat) ^ 53"
  shows "round_f64 x = Fin (of_int (round_even (x * 2 ^ k)) / 2 ^ k)"
proof -
  define r :: rat where "r = of_int (round_even (x * 2 ^ k)) / 2 ^ k"
  have "\<not> (2 :: rat) ^ 1024 \<le> r" using below_overflow [of r] assms(4) by (simp only: r_def not_le)
  moreover have "of_int (round_even (\<bar>x\<bar> / pow2 (max (exponent \<bar>x\<bar> - 52) (- 1074))))
      * pow2 (max (exponent \<bar>x\<bar> - 52) (- 1074)) = r"
    using assms(1,3) by (simp add: r_def)
  ultimately show ?thesis using assms(1) unfolding round_f64_def Let_def r_def by simp
qed

lemma round_f64_below:
  assumes "0 \<le> x" "x \<le> of_int n" "n < 2 ^ 53"
  shows "\<exists>r. round_f64 x = Fin r \<and> 0 \<le> r \<and> r \<le> of_int n"
proof (cases "x = 0")
  case True
  then show ?thesis using assms by (simp add: round_f64_def)
next
  case False
  then have x: "0 < x" "x < 2 ^ 53"
    using assms(1,2) int_below [OF assms(3)] by simp_all
  obtain k where k: "pow2 (max (exponent x - 52) (- 1074)) = 1 / 2 ^ k" using unit_inverse [OF x] .
  define r :: rat where "r = of_int (round_even (x * 2 ^ k)) / 2 ^ k"
  have "x * 2 ^ k \<le> of_int (n * 2 ^ k)" using assms(2) by (simp add: mult_right_mono)
  then have "round_even (x * 2 ^ k) \<le> n * 2 ^ k" by (rule round_even_le)
  then have "(of_int (round_even (x * 2 ^ k)) :: rat) \<le> of_int (n * 2 ^ k)" by (simp only: of_int_le_iff)
  then have le: "r \<le> of_int n" by (simp add: r_def pos_divide_le_eq)
  have ge: "0 \<le> r" using x(1) by (simp add: r_def round_even_nonneg)
  have "r < 2 ^ 53" using le int_below [OF assms(3)] by (rule le_less_trans)
  then have "round_f64 x = Fin r" using round_f64_pos [OF x k] by (simp only: r_def)
  then show ?thesis using le ge by blast
qed

lemma round_f64_int:
  assumes "0 \<le> n" "n < 2 ^ 53"
  shows "round_f64 (of_int n) = Fin (of_int n)"
proof (cases "n = 0")
  case False
  then have x: "(0::rat) < of_int n" using assms(1) by simp
  note y = int_below [OF assms(2)]
  obtain k where k: "pow2 (max (exponent (of_int n) - 52) (- 1074)) = 1 / 2 ^ k" using unit_inverse [OF x y] .
  have "of_int (round_even (of_int n * 2 ^ k)) / 2 ^ k = (of_int n :: rat)"
    using round_even_int [of "n * 2 ^ k"] by simp
  then show ?thesis using round_f64_pos [OF x y k] y by simp
qed (simp add: round_f64_def)

lemma percentile_index_in_range:
  assumes "0 \<le> q" "q \<le> 1" "0 < n" "int n < 2 ^ 53"
  shows "percentile_index (Fin q) n < n"
proof -
  have "q * of_int (int n) \<le> of_int (int n)" using assms(2) by (simp add: mult_left_le_one_le assms(1))
  then obtain r where r: "round_f64 (q * of_int (int n)) = Fin r" "r \<le> of_int (int n)"
    using round_f64_below [of "q * of_int (int n)" "int n"] assms(1,4) by auto
  have c: "\<lceil>r\<rceil> \<le> int n" using r(2) by (simp add: ceiling_le_iff)
  have "int_of_f64 (f64_ceil (f64_mul (Fin q) (f64_of_int (int n)))) \<le> int n"
    using round_f64_int [of "int n"] assms(4) r(1) c by (simp add: f64_of_int_def)
  then show ?thesis using assms(3) by (simp add: percentile_index_def)
qed

end
