(* ===== verification/Topo_Properties.thy ===== *)
theory Topo_Properties
  imports Topo_Replay Topo_Checkpoint Topo_Snapshot Float_Bounds
begin

text \<open>
  The properties of the topology engine, its identities and its checkpoint.
\<close>

section \<open>Histories\<close>

text \<open>A history of the engine: the calls of its exported mutators.\<close>

datatype topo_call =
    CallIngest "span list"
  | CallRuntime runtime_metrics
  | CallRegister string string

definition topo_step :: "engine \<Rightarrow> topo_call \<Rightarrow> engine" where
  "topo_step e c = (case c of
     CallIngest spans \<Rightarrow> Ingest spans e
   | CallRuntime m \<Rightarrow> UpdateRuntime m e
   | CallRegister name version \<Rightarrow> RegisterApplication name version e)"

definition finite_call :: "topo_call \<Rightarrow> bool" where
  "finite_call c = (case c of CallIngest spans \<Rightarrow> list_all finite_span spans | _ \<Rightarrow> True)"

definition bounded :: "topo_options \<Rightarrow> engine \<Rightarrow> bool" where
  "bounded options e \<longleftrightarrow> same_limits (new_engine options) e
     \<and> length (g_traces e) \<le> g_maxRecentTraces e"

lemma new_engine_ok: "engine_ok (new_engine options) \<and> bounded options (new_engine options)"
  by (simp add: engine_ok_def new_engine_def Let_def nodes_ok_def edges_ok_def paths_ok_def traces_ok_def
      bounded_def same_limits_def seen_def holds_def)

lemma topo_step_ok:
  assumes "engine_ok e \<and> bounded options e" "finite_call c"
  shows "engine_ok (topo_step e c) \<and> bounded options (topo_step e c)"
proof (cases c)
  case (CallIngest spans)
  then have "\<forall>s\<in>set spans. finite_span s" using assms(2) by (simp add: finite_call_def list_all_iff)
  from Ingest_ok [OF conjunct1 [OF assms(1)] this] show ?thesis
    using assms(1) CallIngest by (simp add: topo_step_def bounded_def same_limits_def)
qed (use assms in \<open>auto simp: topo_step_def UpdateRuntime_def RegisterApplication_def Let_def
    engine_ok_def bounded_def same_limits_def\<close>)

lemma topo_run_ok:
  assumes "list_all finite_call cs"
  shows "engine_ok (foldl topo_step (new_engine options) cs) \<and> bounded options (foldl topo_step (new_engine options) cs)"
proof (rule foldl_inv [where P = "\<lambda>e. engine_ok e \<and> bounded options e"])
  fix e c
  assume "engine_ok e \<and> bounded options e" "c \<in> set cs"
  then show "engine_ok (topo_step e c) \<and> bounded options (topo_step e c)"
    using topo_step_ok [of e options c] assms by (simp add: list_all_iff)
qed (rule new_engine_ok)

text \<open>C8: (invariant) Whatever calls an engine has served, its graph is sound: the metrics of nodes and
  edges count no more errors than calls and hold at most the configured number of samples, every
  edge is named after its two distinct ends and both ends are known nodes, there are at most the
  configured numbers of paths and traces, every path is named by its identifier and holds no
  more samples either, a span belongs to one trace only, and exactly the spans of the retained traces
  count as seen. (Nothing is said of the counts of a path: once a path was evicted and entered again, taking away what an older trace
  gave it can leave it with more errors than calls.)\<close>

theorem engine_stays_sound:
  assumes "list_all finite_call cs"
  shows "engine_ok (foldl topo_step (new_engine options) cs)
    \<and> length (g_traces (foldl topo_step (new_engine options) cs)) \<le> g_maxRecentTraces (new_engine options)
    \<and> length (g_paths (foldl topo_step (new_engine options) cs)) \<le> g_maxRuntimePaths (new_engine options)"
  using topo_run_ok [OF assms, of options]
  by (auto simp: bounded_def same_limits_def engine_ok_def paths_ok_def)

definition demo_span :: "string \<Rightarrow> string \<Rightarrow> string \<Rightarrow> string \<Rightarrow> span" where
  "demo_span trace i parent kind = \<lparr>TraceID = trace, SpanID = i, ParentSpanID = parent, Name = ''n'' @ i,
     Kind = kind, StartTimeUnixMS = Fin 0, DurationMS = Fin 0, Status = ''ok'', Attributes = []\<rparr>"

definition demo_options :: topo_options where
  "demo_options = \<lparr>opt_MaxRecentTraces = 2, opt_MaxLatencySamples = 3, opt_MaxRuntimePaths = 2,
     opt_ApplicationName = ''a'', opt_NodeVersion = ''v''\<rparr>"

theorem engine_stays_sound_witness:
  "engine_ok (foldl topo_step (new_engine demo_options)
     [CallIngest [demo_span ''t'' ''1'' [] ''worker'', demo_span ''t'' ''2'' ''1'' ''database''], CallRegister ''b'' ''w''])"
  using engine_stays_sound [of "[CallIngest [demo_span ''t'' ''1'' [] ''worker'', demo_span ''t'' ''2'' ''1'' ''database''],
      CallRegister ''b'' ''w'']" demo_options]
  by (simp add: finite_call_def finite_span_def demo_span_def finite_f64_Fin)

text \<open>C20: (functional) Ingestion counts every span it has not seen exactly once on the node the span
  stands for, and once as an error of that node if it failed; spans seen before, repeated spans
  of the batch and spans of other kinds change no node.\<close>

theorem ingest_counts_new_spans:
  assumes "list_all finite_call cs" "list_all finite_span spans"
    and "e = foldl topo_step (new_engine options) cs"
  shows "node_calls (Ingest spans e) i = node_calls e i
      + int (length (filter (on_node i) (new_spans (seen (g_seenSpanIDs e)) spans)))
    \<and> node_errors (Ingest spans e) i = node_errors e i
      + int (length (filter (\<lambda>s. on_node i s \<and> Status s = ''error'') (new_spans (seen (g_seenSpanIDs e)) spans)))"
  using Ingest_counts [of e spans i] topo_run_ok [OF assms(1), of options] assms(2,3) by (simp add: list_all_iff)

lemma normalize_word: "normal_part s \<Longrightarrow> NormalizeSemanticIdentity s = s"
  by (rule normalize_normal) (auto simp: normal_identity_def intro: exI [of _ "[s]"])

lemma demo_identity: "StableNodeID ''worker'' ''n1'' [] = ''worker:n1''"
proof -
  have "normal_part ''worker''" "normal_part ''n1''"
    by (simp_all add: normal_part_def identity_char_def Let_def)
  moreover have "NormalizeSemanticIdentity [] = []"
    by (rule normalize_normal) (auto simp: normal_identity_def intro: exI [of _ "[]"])
  ultimately show ?thesis by (simp add: StableNodeID_def normalize_word has_prefix_def)
qed

theorem ingest_counts_new_spans_witness:
  "node_calls (Ingest [demo_span ''t'' ''1'' [] ''worker'', demo_span ''t'' ''1'' [] ''worker'']
     (new_engine demo_options)) ''worker:n1'' = 1"
proof -
  let ?s = "demo_span ''t'' ''1'' [] ''worker''"
  have i: "on_node ''worker:n1'' ?s"
    using demo_identity by (simp add: on_node_def span_node_id_def demo_span_def attributeStringValue_def
        stringAttribute_def topologyKinds_def)
  have f: "finite_span ?s" by (simp add: finite_span_def demo_span_def finite_f64_Fin)
  have n: "new_spans (seen (g_seenSpanIDs (new_engine demo_options))) [?s, ?s] = [?s]"
    by (simp add: seen_def new_engine_def Let_def)
  have z: "node_calls (new_engine demo_options) ''worker:n1'' = 0"
    by (simp add: node_calls_def new_engine_def Let_def)
  show ?thesis
    using ingest_counts_new_spans [of "[]" "[?s, ?s]" "new_engine demo_options" demo_options "''worker:n1''"] i f n z
    by simp
qed

section \<open>Replays\<close>

text \<open>C9: (safety) A batch that is delivered again, as the log does after a crash or a lost reply, while
  its spans are still held and its paths still counted, changes no metric, edge, path or
  trace: only the revision grows and the activity is empty. Trace identifiers are assumed to
  be free of colons, which the marks of the edges use as a separator.\<close>

theorem replay_changes_nothing:
  assumes "list_all finite_call cs" "e = foldl topo_step (new_engine options) cs"
    and "list_all finite_span spans" "colon_free e spans"
    and "\<forall>s\<in>set spans. seen (g_seenSpanIDs (Ingest spans e)) (SpanID s)"
    and "\<forall>s\<in>set spans. \<forall>t. map_of (g_traces (Ingest spans e)) (TraceID s) = Some t \<longrightarrow>
      (\<forall>k\<in>set (keys (t_pathContributions t)). map_of (g_paths (Ingest spans e)) k \<noteq> None)"
  shows "Ingest spans (Ingest spans e) = (Ingest spans e)\<lparr>g_revision := g_revision (Ingest spans e) + 1,
    g_activity := \<lparr>a_NodeIDs = [], a_EdgeIDs = []\<rparr>\<rparr>"
proof (rule Ingest_again)
  show "engine_ok e" using topo_run_ok [OF assms(1), of options] assms(2) by simp
  show "\<forall>s\<in>set spans. finite_span s" using assms(3) by (simp add: list_all_iff)
qed (use assms(4-6) in simp_all)

lemma demo_replay_seen:
  "seen (g_seenSpanIDs (Ingest [demo_span ''t'' ''1'' [] ''custom''] (new_engine demo_options))) ''1''"
  by code_simp

lemma demo_replay_paths:
  "list_all (\<lambda>(_, t). t_pathContributions t = [])
     (g_traces (Ingest [demo_span ''t'' ''1'' [] ''custom''] (new_engine demo_options)))"
  by code_simp

theorem replay_changes_nothing_witness:
  "let e = Ingest [demo_span ''t'' ''1'' [] ''custom''] (new_engine demo_options)
   in Ingest [demo_span ''t'' ''1'' [] ''custom''] e
     = e\<lparr>g_revision := g_revision e + 1, g_activity := \<lparr>a_NodeIDs = [], a_EdgeIDs = []\<rparr>\<rparr>"
proof -
  let ?s = "demo_span ''t'' ''1'' [] ''custom''" and ?e = "new_engine demo_options"
  have f: "SpanID ?s = ''1''" "TraceID ?s = ''t''" "finite_span ?s"
    by (simp_all add: demo_span_def finite_span_def finite_f64_Fin)
  have c: "colon_free ?e [?s]" using f(2) by (simp add: colon_free_def new_engine_def Let_def)
  have "t_pathContributions t = []" if "map_of (g_traces (Ingest [?s] ?e)) i = Some t" for i t
    using demo_replay_paths map_of_SomeD [OF that] by (fastforce simp: list_all_iff)
  then show ?thesis
    using replay_changes_nothing [of "[]" ?e demo_options "[?s]"] demo_replay_seen f c by (simp add: Let_def)
qed

section \<open>The checkpoint\<close>

text \<open>C7: (safety) A checkpoint replaces the old one whole or not at all. Whichever calls of \<open>Save\<close>
  fail, and whatever a crash after it loses of unsynced data, reopening the store gives either
  the engine of the old checkpoint or the saved engine, and the saved engine if \<open>Save\<close>
  succeeded. (A checksum of 0, which \<open>OpenStateStore\<close> refuses, is left aside here and in the next
  property.)\<close>

theorem checkpoint_is_atomic:
  assumes "engine_ok e" "identified e" "state_codec_ok js" "checksum_present js e"
    and "checkpoint_bytes js e = Some data" "\<not> has_prefix path temporaryPrefix"
    and "installed old path w" "load_state js old options = Inr e0"
    and "Save js path suffix e w = (r, w1)" "crash w1 w2" "script w2 = []"
  shows "\<exists>e' w3. OpenStateStore js path options w2 = (Inr e', w3)
    \<and> (e' = e0 \<or> restores options e e') \<and> (\<forall>n. r = Inr n \<longrightarrow> n = length data \<and> restores options e e')"
proof -
  have "temporaryPrefix @ suffix \<noteq> path" using assms(6) by auto
  from Save_outcome [OF assms(5) this, of w] assms(9)
  have out: "lookup_file w1 path = lookup_file w path \<or> installed data path w1"
    "\<And>n. r = Inr n \<Longrightarrow> n = length data \<and> installed data path w1"
    by (auto simp: save_outcome_def)
  obtain e1 where e1: "load_state js data options = Inr e1" "restores options e e1"
    using load_checkpoint [OF assms(5,3,4,1,2)] by blast
  have new: "\<exists>w3. OpenStateStore js path options w2 = (Inr e1, w3)" if "installed data path w1"
    using reopen_after_crash [OF assms(10,11,6) that, of js options] e1(1) by simp
  show ?thesis
  proof (cases "installed data path w1")
    case True
    then show ?thesis using new e1(2) out(2) by blast
  next
    case False
    then have "installed old path w1" using out(1) assms(7) by (simp add: installed_def)
    from reopen_after_crash [OF assms(10,11,6) this, of js options]
    show ?thesis using assms(8) out(2) False by auto
  qed
qed

text \<open>C21: (roundtrip) The checkpoint of an engine, read back, restores the same nodes, edges, paths,
  traces, marks, counters, limits and application names.\<close>

theorem checkpoint_round_trip:
  assumes "list_all finite_call cs" "e = foldl topo_step (new_engine options) cs" "identified e"
    and "state_codec_ok js" "checksum_present js e" "checkpoint_bytes js e = Some data"
  shows "\<exists>e'. load_state js data options' = Inr e' \<and> restores options' e e'"
  using load_checkpoint [OF assms(6,4,5) _ assms(3)] topo_run_ok [OF assms(1), of options] assms(2) by simp

text \<open>A codec for one state, with one-byte encodings.\<close>

definition topo_codec :: "engine \<Rightarrow> state_codec" where
  "topo_codec e = (let s0 = persisted_state e; s1 = s0\<lparr>st_Checksum := crc32 [1]\<rparr>
     in \<lparr>marshal_state = (\<lambda>st. if st = s0 then Some [1] else if st = s1 then Some [2] else None),
         unmarshal_state = (\<lambda>bs. if bs = [1] then Some s0 else if bs = [2] then Some s1 else None)\<rparr>)"

lemma demo_checksum: "crc32 [1] \<noteq> 0"
  by code_simp

lemma topo_codec_ok:
  "state_codec_ok (topo_codec e)" "checksum_present (topo_codec e) e" "checkpoint_bytes (topo_codec e) e = Some [2]"
proof -
  have n: "persisted_state e\<lparr>st_Checksum := crc32 [1]\<rparr> \<noteq> persisted_state e"
    using demo_checksum arg_cong [of "persisted_state e\<lparr>st_Checksum := crc32 [1]\<rparr>" "persisted_state e" st_Checksum]
    by (auto simp: persisted_state_def)
  show "state_codec_ok (topo_codec e)" "checksum_present (topo_codec e) e"
    using demo_checksum by (auto simp: state_codec_ok_def topo_codec_def Let_def checksum_present_def)
  show "checkpoint_bytes (topo_codec e) e = Some [2]"
    using n by (simp add: checkpoint_bytes_def topo_codec_def Let_def)
qed

lemma demo_identified: "identified (new_engine demo_options)"
  by (simp add: identified_def new_engine_def Let_def demo_options_def all_entries_def)

theorem checkpoint_round_trip_witness:
  "\<exists>e'. load_state (topo_codec (new_engine demo_options)) [2] demo_options = Inr e'
     \<and> restores demo_options (new_engine demo_options) e'"
  using checkpoint_round_trip [of "[]" "new_engine demo_options" demo_options _ "[2]" demo_options]
    topo_codec_ok demo_identified by simp

definition demo_disk :: world where
  "demo_disk = \<lparr>disk = [(''topology.json'', \<lparr>contents = [2], synced = 1\<rparr>)], script = []\<rparr>"

theorem checkpoint_is_atomic_witness:
  "\<exists>e' w. OpenStateStore (topo_codec (new_engine demo_options)) ''topology.json'' demo_options demo_disk = (Inr e', w)
     \<and> restores demo_options (new_engine demo_options) e'"
proof -
  let ?e = "new_engine demo_options"
  let ?js = "topo_codec ?e"
  obtain e0 where l: "load_state ?js [2] demo_options = Inr e0"
    using load_checkpoint [OF topo_codec_ok(3,1,2) conjunct1 [OF new_engine_ok] demo_identified] by blast
  have i: "installed [2] ''topology.json'' demo_disk" by (simp add: installed_def demo_disk_def)
  have p: "\<not> has_prefix ''topology.json'' temporaryPrefix" by (simp add: has_prefix_def temporaryPrefix_def)
  obtain canonical where c: "marshal_state ?js (persisted_state ?e) = Some canonical"
    "marshal_state ?js (persisted_state ?e\<lparr>st_Checksum := crc32 canonical\<rparr>) = Some [2]"
    using topo_codec_ok(3) [of ?e] by (auto simp: checkpoint_bytes_def bind_eq_Some_conv)
  have s: "Save ?js ''topology.json'' ''1'' ?e demo_disk = (Inr 1, demo_disk)"
    by (simp add: Save_def Let_def c) (simp add: demo_disk_def os_call_def os_close_def os_create_excl_def
        os_write_def os_sync_def os_rename_def temporaryPrefix_def append_file_def put_file_def drop_file_def)
  have k: "crash demo_disk demo_disk" by (auto simp: crash_def demo_disk_def cut_file_def)
  show ?thesis
    using checkpoint_is_atomic [OF conjunct1 [OF new_engine_ok] demo_identified topo_codec_ok(1-3) p i l s k]
    by (auto simp: demo_disk_def)
qed

section \<open>Identities\<close>

text \<open>C22: (functional) Identities are canonical: normalising twice is normalising once, every node
  identifier is in normal form and not empty, and an edge identifier determines the two nodes it
  names, a joined path the nodes on it.\<close>

theorem identities_are_canonical:
  assumes "NormalizeSemanticIdentity kind \<noteq> []" "NormalizeSemanticIdentity kind' \<noteq> []"
    and "a = StableNodeID kind identity framework" "b = StableNodeID kind' identity' framework'"
    and "normal_identity c" "normal_identity d" "list_all normal_identity ps" "ps \<noteq> []"
  shows "NormalizeSemanticIdentity (NormalizeSemanticIdentity v) = NormalizeSemanticIdentity v
    \<and> a \<noteq> [] \<and> NormalizeSemanticIdentity a = a
    \<and> (StableEdgeID a b = StableEdgeID c d \<longleftrightarrow> a = c \<and> b = d)
    \<and> (join ''>'' [a, b] = join ''>'' ps \<longleftrightarrow> ps = [a, b])"
proof (intro conjI)
  note a = StableNodeID_normal [OF assms(1), of identity framework, folded assms(3)]
  note b = StableNodeID_normal [OF assms(2), of identity' framework', folded assms(4)]
  show "NormalizeSemanticIdentity (NormalizeSemanticIdentity v) = NormalizeSemanticIdentity v"
    by (rule normalize_normal [OF normalize_is_normal])
  show "a \<noteq> []" "NormalizeSemanticIdentity a = a" using a normalize_normal by blast+
  show "StableEdgeID a b = StableEdgeID c d \<longleftrightarrow> a = c \<and> b = d"
    using StableEdgeID_inject [of a b c d] a b assms(5,6) by blast
  show "join ''>'' [a, b] = join ''>'' ps \<longleftrightarrow> ps = [a, b]"
    using join_arrow_inject [of "[a, b]" ps] a b assms(7,8) by auto
qed

lemma demo_words: "normal_identity ''worker'' \<and> NormalizeSemanticIdentity ''worker'' = ''worker''"
proof -
  have "normal_part ''worker''" by (simp add: normal_part_def identity_char_def Let_def)
  then have "normal_identity ''worker''" by (auto simp: normal_identity_def intro: exI [of _ "[''worker'']"])
  then show ?thesis using normalize_normal by blast
qed

theorem identities_are_canonical_witness:
  "NormalizeSemanticIdentity (StableNodeID ''worker'' ''Send Mail'' ''nest'') = StableNodeID ''worker'' ''Send Mail'' ''nest''"
  using identities_are_canonical [of "''worker''" "''worker''" _ "''Send Mail''" "''nest''" _ "''x''" "''y''"
      "''worker''" "''worker''" "[''worker'']"] demo_words by simp

text \<open>C23: (bounds) The percentile of a slice is defined: the index that \<open>percentile\<close> computes in
  floating point lies inside the slice for the three percentiles in use, and the result is a
  rounded sample. No index expression panics.\<close>

theorem percentile_in_range:
  assumes "values \<noteq> []" "int (length values) < 2 ^ 53" "p \<in> {p50, p95, p99}"
  shows "percentile_index p (length values) < length values
    \<and> (\<exists>v\<in>set values. percentile values p = round_hundredths v)"
proof -
  have r: "\<exists>q. p = Fin q \<and> 0 \<le> q \<and> q \<le> 1"
    using assms(3) round_f64_below [of "1 / 2" 1] round_f64_below [of "95 / 100" 1] round_f64_below [of "99 / 100" 1]
    by (auto simp: p50_def p95_def p99_def)
  then have i: "percentile_index p (length values) < length values"
    using percentile_index_in_range assms(1,2) by auto
  then have "sort values ! percentile_index p (length values) \<in> set values"
    by (metis length_sort nth_mem set_sort)
  then show ?thesis using i assms(1) by (auto simp: percentile_def)
qed

theorem percentile_in_range_witness: "percentile_index p95 (length [Fin 1, Fin 2]) < length [Fin 1, Fin 2]"
  using percentile_in_range [of "[Fin 1, Fin 2]" p95] by simp

section \<open>Snapshots\<close>

definition snapshot_ok :: "liveSnapshot \<Rightarrow> bool" where
  "snapshot_ok v \<longleftrightarrow> sorted (List.map ln_Name (lv_Nodes v)) \<and> distinct (List.map ln_ID (lv_Nodes v))
     \<and> sorted (List.map le_ID (lv_Edges v)) \<and> distinct (List.map le_ID (lv_Edges v))
     \<and> (\<forall>x\<in>set (lv_Edges v). le_Source x \<in> ln_ID ` set (lv_Nodes v) \<and> le_Target x \<in> ln_ID ` set (lv_Nodes v))
     \<and> sorted (List.map (\<lambda>q. (- pv_Calls q, pv_ID q)) (lv_Paths v)) \<and> distinct (List.map pv_ID (lv_Paths v))
     \<and> (\<forall>n\<in>set (lv_Nodes v). ms_ErrorCount (ln_Summary n) \<le> ms_RequestCount (ln_Summary n))"

lemma entries_ids:
  assumes "all_entries P m" "\<And>k v. map_of m k = Some v \<Longrightarrow> P k v \<Longrightarrow> ident v = k"
  shows "List.map (\<lambda>(_, v). ident v) m = keys m"
proof -
  have "ident v = k" if "(k, v) \<in> set m" for k v
    using assms that entriesD [OF assms(1)] entries_distinct [OF assms(1)] by (metis map_of_is_SomeI)
  then show ?thesis by auto
qed

lemma entries_member: "all_entries P m \<Longrightarrow> (k, v) \<in> set m \<Longrightarrow> P k v"
  using entriesD entries_distinct by (metis map_of_is_SomeI)

lemma distinct_map_sort: "distinct (List.map f xs) \<Longrightarrow> distinct (List.map f (sort_key g xs))"
  by (simp add: distinct_map)

lemma live_nodes_edges:
  assumes "engine_ok e"
  shows "distinct (List.map ln_ID (lv_Nodes (liveSnapshotLocked e)))"
    "ln_ID ` set (lv_Nodes (liveSnapshotLocked e)) = set (keys (g_nodes e))"
    "distinct (List.map le_ID (lv_Edges (liveSnapshotLocked e)))"
    "distinct (List.map pv_ID (lv_Paths (liveSnapshotLocked e)))"
proof -
  have n: "nodes_ok (g_maxLatencySamples e) (g_nodes e)"
    and x: "edges_ok (g_maxLatencySamples e) (g_nodes e) (g_edges e)"
    and p: "paths_ok (g_maxRuntimePaths e) (g_maxLatencySamples e) (g_paths e)"
    using assms by (simp_all add: engine_ok_def)
  have ni: "List.map (\<lambda>(_, n). n_id n) (g_nodes e) = keys (g_nodes e)"
    by (rule entries_ids [OF n [unfolded nodes_ok_def]]) simp
  have xi: "List.map (\<lambda>(_, x). e_id x) (g_edges e) = keys (g_edges e)"
    by (rule entries_ids [OF x [unfolded edges_ok_def]]) simp
  have pi: "List.map (\<lambda>(_, p). p_id p) (g_paths e) = keys (g_paths e)"
    by (rule entries_ids [OF conjunct2 [OF p [unfolded paths_ok_def]]]) simp
  have dn: "distinct (keys (g_nodes e))" using entries_distinct n unfolding nodes_ok_def by blast
  have dx: "distinct (keys (g_edges e))" using entries_distinct x unfolding edges_ok_def by blast
  have dp: "distinct (keys (g_paths e))" using entries_distinct p unfolding paths_ok_def by blast
  show "distinct (List.map ln_ID (lv_Nodes (liveSnapshotLocked e)))"
    unfolding liveSnapshotLocked_def liveSnapshot.simps
    by (rule distinct_map_sort) (use dn[folded ni] in \<open>simp add: comp_def case_prod_unfold\<close>)
  show "distinct (List.map le_ID (lv_Edges (liveSnapshotLocked e)))"
    unfolding liveSnapshotLocked_def liveSnapshot.simps
    by (rule distinct_map_sort) (use dx[folded xi] in \<open>simp add: comp_def case_prod_unfold\<close>)
  show "distinct (List.map pv_ID (lv_Paths (liveSnapshotLocked e)))"
    unfolding liveSnapshotLocked_def liveSnapshot.simps buildRuntimePaths_def
    by (rule distinct_map_sort) (use dp[folded pi] in \<open>simp add: comp_def case_prod_unfold\<close>)
  have "ln_ID ` set (lv_Nodes (liveSnapshotLocked e)) = set (List.map (\<lambda>(_, n). n_id n) (g_nodes e))"
    by (force simp: liveSnapshotLocked_def image_iff)
  then show "ln_ID ` set (lv_Nodes (liveSnapshotLocked e)) = set (keys (g_nodes e))" by (simp only: ni)
qed

text \<open>C24: (invariant) Every live snapshot is a well-formed graph: node, edge and path identifiers
  are unique, the lists are ordered by name, identifier and number of calls, both ends of an edge
  are among the nodes, and no node reports more errors than requests.\<close>

theorem live_snapshot_is_closed:
  assumes "list_all finite_call cs"
  shows "snapshot_ok (liveSnapshotLocked (foldl topo_step (new_engine options) cs))"
proof -
  define e where "e = foldl topo_step (new_engine options) cs"
  have ok: "engine_ok e" using topo_run_ok [OF assms, of options] by (simp add: e_def)
  note l = live_nodes_edges [OF ok]
  have ends: "le_Source x \<in> set (keys (g_nodes e)) \<and> le_Target x \<in> set (keys (g_nodes e))"
    if x: "x \<in> set (lv_Edges (liveSnapshotLocked e))" for x
  proof -
    obtain k y where y: "(k, y) \<in> set (g_edges e)" "le_Source x = e_source y" "le_Target x = e_target y"
      using x by (auto simp: liveSnapshotLocked_def)
    have "all_entries (\<lambda>i x. e_id x = i \<and> i = StableEdgeID (e_source x) (e_target x) \<and> e_source x \<noteq> e_target x
      \<and> map_of (g_nodes e) (e_source x) \<noteq> None \<and> map_of (g_nodes e) (e_target x) \<noteq> None
      \<and> metric_ok (g_maxLatencySamples e) (e_metrics x)) (g_edges e)"
      using ok unfolding engine_ok_def edges_ok_def by blast
    from entries_member [OF this y(1)] show ?thesis unfolding y(2,3) keys_iff by blast
  qed
  have errors: "ms_ErrorCount (ln_Summary n) \<le> ms_RequestCount (ln_Summary n)"
    if n: "n \<in> set (lv_Nodes (liveSnapshotLocked e))" for n
  proof -
    obtain k y where y: "(k, y) \<in> set (g_nodes e)" "ln_Summary n = summarize (n_metrics y)"
      using n by (auto simp: liveSnapshotLocked_def)
    have "all_entries (\<lambda>i n. n_id n = i \<and> metric_ok (g_maxLatencySamples e) (n_metrics n)) (g_nodes e)"
      using ok by (simp add: engine_ok_def nodes_ok_def)
    from entries_member [OF this y(1)] show ?thesis by (simp add: y(2) summarize_def metric_ok_def)
  qed
  have "sorted (List.map ln_Name (lv_Nodes (liveSnapshotLocked e)))"
    "sorted (List.map le_ID (lv_Edges (liveSnapshotLocked e)))"
    "sorted (List.map (\<lambda>q. (- pv_Calls q, pv_ID q)) (lv_Paths (liveSnapshotLocked e)))"
    by (simp_all add: liveSnapshotLocked_def buildRuntimePaths_def)
  then show ?thesis using l ends errors unfolding snapshot_ok_def e_def [symmetric] by blast
qed

theorem live_snapshot_is_closed_witness: "snapshot_ok (liveSnapshotLocked (new_engine demo_options))"
  using live_snapshot_is_closed [of "[]" demo_options] by simp

end
