(* ===== verification/Metrics.thy ===== *)
theory Metrics
  imports Prelude Float64
begin

text \<open>
  The collector's metrics (\<open>runtime/go/internal/metrics/metrics.go\<close>): counters that wrap at 64
  bits, gauges, and cumulative histograms. Each update is one atomic operation in the code (an
  observation of a histogram is several, on separate words); durations are given in seconds. The
  text format and the process statistics are not modelled.
\<close>

section \<open>Histograms\<close>

record histogram =
  h_bounds :: "f64 list"
  h_counts :: "u64 list"
  h_count :: u64
  h_sum :: f64

definition newHistogram :: "f64 list \<Rightarrow> histogram" where
  "newHistogram bounds = \<lparr>h_bounds = bounds, h_counts = replicate (length bounds) 0, h_count = 0, h_sum = Fin 0\<rparr>"

definition observe_value :: "f64 \<Rightarrow> histogram \<Rightarrow> histogram" where
  "observe_value v h = h
     \<lparr>h_count := h_count h + 1, h_sum := f64_add (h_sum h) v,
      h_counts := List.map2 (\<lambda>bound c. if f64_le v bound then c + 1 else c) (h_bounds h) (h_counts h)\<rparr>"

lemma observed_counts:
  "length cs = length bs \<Longrightarrow>
     h_counts (foldl (\<lambda>h v. observe_value v h) \<lparr>h_bounds = bs, h_counts = cs, h_count = n, h_sum = x\<rparr> vs)
     = List.map2 (\<lambda>bound c. c + of_nat (length (filter (\<lambda>v. f64_le v bound) vs))) bs cs
   \<and> h_count (foldl (\<lambda>h v. observe_value v h) \<lparr>h_bounds = bs, h_counts = cs, h_count = n, h_sum = x\<rparr> vs)
     = n + of_nat (length vs)
   \<and> h_bounds (foldl (\<lambda>h v. observe_value v h) \<lparr>h_bounds = bs, h_counts = cs, h_count = n, h_sum = x\<rparr> vs) = bs"
proof (induction vs arbitrary: cs n x)
  case Nil
  then show ?case by (auto intro!: nth_equalityI)
next
  case (Cons v vs)
  let ?cs = "List.map2 (\<lambda>bound c. if f64_le v bound then c + 1 else c) bs cs"
  have l: "length ?cs = length bs" using Cons.prems by simp
  have "List.map2 (\<lambda>bound c. c + of_nat (length (filter (\<lambda>v. f64_le v bound) vs))) bs ?cs
      = List.map2 (\<lambda>bound c. c + of_nat (length (filter (\<lambda>v. f64_le v bound) (v # vs)))) bs cs"
    using Cons.prems by (auto intro!: nth_equalityI)
  then show ?case using Cons.IH [OF l, of "n + 1" "f64_add x v"] by (simp add: observe_value_def)
qed

section \<open>The collector\<close>

record collector =
  mc_received :: u64
  mc_processed :: u64
  mc_rejectedFull :: u64
  mc_rejectedSpool :: u64
  mc_rejectedClosed :: u64
  mc_rejectedInvalid :: u64
  mc_errors :: u64
  mc_queueDepth :: int
  mc_activeWorkers :: int
  mc_topologyNodes :: int
  mc_topologyEdges :: int
  mc_topologyUpdates :: u64
  mc_topologyBytes :: int
  mc_spoolBytes :: int
  mc_spoolActive :: int
  mc_spoolQuarantine :: int
  mc_spoolRetries :: u64
  mc_spoolReplayed :: u64
  mc_spoolPermanent :: u64
  mc_spoolCorrupt :: u64
  mc_spoolDropped :: u64
  mc_walBytes :: int
  mc_walSegments :: int
  mc_walPending :: int
  mc_walQuarantine :: int
  mc_walReplayed :: u64
  mc_walCompactions :: u64
  mc_walCompacted :: u64
  mc_walCorrupt :: u64
  mc_walDiskReject :: u64
  mc_processing :: histogram
  mc_batchSize :: histogram
  mc_walAppend :: histogram
  mc_walSync :: histogram
  mc_walGroupRecords :: histogram
  mc_walCompaction :: histogram
  mc_topologyCheckpoint :: histogram

text \<open>A decimal constant of the source.\<close>

definition dec :: "rat \<Rightarrow> f64" where
  "dec q = round_f64 q"

definition new_collector :: collector where
  "new_collector =
     \<lparr>mc_received = 0, mc_processed = 0, mc_rejectedFull = 0, mc_rejectedSpool = 0,
      mc_rejectedClosed = 0, mc_rejectedInvalid = 0, mc_errors = 0, mc_queueDepth = 0,
      mc_activeWorkers = 0, mc_topologyNodes = 0, mc_topologyEdges = 0, mc_topologyUpdates = 0,
      mc_topologyBytes = 0, mc_spoolBytes = 0, mc_spoolActive = 0, mc_spoolQuarantine = 0,
      mc_spoolRetries = 0, mc_spoolReplayed = 0, mc_spoolPermanent = 0, mc_spoolCorrupt = 0,
      mc_spoolDropped = 0, mc_walBytes = 0, mc_walSegments = 0, mc_walPending = 0, mc_walQuarantine = 0,
      mc_walReplayed = 0, mc_walCompactions = 0, mc_walCompacted = 0, mc_walCorrupt = 0, mc_walDiskReject = 0,
      mc_processing = newHistogram (List.map dec [1/1000, 5/1000, 1/100, 25/1000, 5/100, 1/10, 1/4, 1/2, 1, 5/2, 5, 10]),
      mc_batchSize = newHistogram (List.map dec [1, 10, 25, 50, 100, 250, 500, 1000, 5000]),
      mc_walAppend = newHistogram (List.map dec [5/10000, 1/1000, 25/10000, 5/1000, 1/100, 25/1000, 5/100, 1/10, 1/4, 1/2, 1]),
      mc_walSync = newHistogram (List.map dec [1/10000, 25/100000, 5/10000, 1/1000, 25/10000, 5/1000, 1/100, 25/1000, 5/100, 1/10]),
      mc_walGroupRecords = newHistogram (List.map dec [1, 2, 4, 8, 16, 32, 64, 128, 256, 512]),
      mc_walCompaction = newHistogram (List.map dec [5/10000, 1/1000, 25/10000, 5/1000, 1/100, 25/1000, 5/100, 1/10, 1/4, 1]),
      mc_topologyCheckpoint = newHistogram (List.map dec
        [5/10000, 1/1000, 25/10000, 5/1000, 1/100, 25/1000, 5/100, 1/10, 1/4, 1/2, 1, 5/2, 5])\<rparr>"

definition SetSpoolUsage :: "int \<Rightarrow> int \<Rightarrow> int \<Rightarrow> collector \<Rightarrow> collector" where
  "SetSpoolUsage bytes active quarantined c =
     c\<lparr>mc_spoolBytes := bytes, mc_spoolActive := active, mc_spoolQuarantine := quarantined\<rparr>"

definition CollectWALUsage :: "int \<Rightarrow> int \<Rightarrow> int \<Rightarrow> int \<Rightarrow> collector \<Rightarrow> collector" where
  "CollectWALUsage bytes segments pending quarantined c = SetSpoolUsage bytes pending quarantined
     (c\<lparr>mc_walBytes := bytes, mc_walSegments := segments, mc_walPending := pending, mc_walQuarantine := quarantined\<rparr>)"

definition ObserveWALAppend :: "f64 \<Rightarrow> collector \<Rightarrow> collector" where
  "ObserveWALAppend t c = c\<lparr>mc_walAppend := observe_value t (mc_walAppend c)\<rparr>"

definition ObserveWALSyncTime :: "f64 \<Rightarrow> collector \<Rightarrow> collector" where
  "ObserveWALSyncTime t c = c\<lparr>mc_walSync := observe_value t (mc_walSync c)\<rparr>"

definition ObserveWALGroupSize :: "int \<Rightarrow> collector \<Rightarrow> collector" where
  "ObserveWALGroupSize n c = c\<lparr>mc_walGroupRecords := observe_value (f64_of_int n) (mc_walGroupRecords c)\<rparr>"

definition ObserveWALCompactionTime :: "f64 \<Rightarrow> u64 \<Rightarrow> collector \<Rightarrow> collector" where
  "ObserveWALCompactionTime t segments c =
     c\<lparr>mc_walCompactions := mc_walCompactions c + 1, mc_walCompacted := mc_walCompacted c + segments,
       mc_walCompaction := observe_value t (mc_walCompaction c)\<rparr>"

definition CountWALCorruption :: "collector \<Rightarrow> collector" where
  "CountWALCorruption c = c\<lparr>mc_walCorrupt := mc_walCorrupt c + 1\<rparr>"

definition CountWALReplay :: "u64 \<Rightarrow> collector \<Rightarrow> collector" where
  "CountWALReplay n c = c\<lparr>mc_walReplayed := mc_walReplayed c + n\<rparr>"

definition CountWALDiskFull :: "u64 \<Rightarrow> collector \<Rightarrow> collector" where
  "CountWALDiskFull n c = c\<lparr>mc_walDiskReject := mc_walDiskReject c + n\<rparr>"

definition RecordReceived :: "u64 \<Rightarrow> collector \<Rightarrow> collector" where
  "RecordReceived n c = c\<lparr>mc_received := mc_received c + n\<rparr>"

definition RecordProcessed :: "u64 \<Rightarrow> collector \<Rightarrow> collector" where
  "RecordProcessed n c = c\<lparr>mc_processed := mc_processed c + n\<rparr>"

definition RecordError :: "collector \<Rightarrow> collector" where
  "RecordError c = c\<lparr>mc_errors := mc_errors c + 1\<rparr>"

definition SetQueueDepth :: "int \<Rightarrow> collector \<Rightarrow> collector" where
  "SetQueueDepth n c = c\<lparr>mc_queueDepth := n\<rparr>"

definition WorkerStarted :: "collector \<Rightarrow> collector" where
  "WorkerStarted c = c\<lparr>mc_activeWorkers := mc_activeWorkers c + 1\<rparr>"

definition WorkerStopped :: "collector \<Rightarrow> collector" where
  "WorkerStopped c = c\<lparr>mc_activeWorkers := mc_activeWorkers c - 1\<rparr>"

definition ObserveProcessing :: "f64 \<Rightarrow> collector \<Rightarrow> collector" where
  "ObserveProcessing t c = c\<lparr>mc_processing := observe_value t (mc_processing c)\<rparr>"

definition ObserveBatchSize :: "u64 \<Rightarrow> collector \<Rightarrow> collector" where
  "ObserveBatchSize n c = c\<lparr>mc_batchSize := observe_value (f64_of_int (uint n)) (mc_batchSize c)\<rparr>"

definition SetTopology :: "int \<Rightarrow> int \<Rightarrow> collector \<Rightarrow> collector" where
  "SetTopology nodes edges c = c\<lparr>mc_topologyNodes := nodes, mc_topologyEdges := edges\<rparr>"

definition RecordTopologyUpdate :: "collector \<Rightarrow> collector" where
  "RecordTopologyUpdate c = c\<lparr>mc_topologyUpdates := mc_topologyUpdates c + 1\<rparr>"

definition ObserveTopologyCheckpoint :: "f64 \<Rightarrow> int \<Rightarrow> collector \<Rightarrow> collector" where
  "ObserveTopologyCheckpoint t bytes c =
     c\<lparr>mc_topologyCheckpoint := observe_value t (mc_topologyCheckpoint c), mc_topologyBytes := bytes\<rparr>"

definition RecordSpoolRetry :: "u64 \<Rightarrow> collector \<Rightarrow> collector" where
  "RecordSpoolRetry n c = c\<lparr>mc_spoolRetries := mc_spoolRetries c + n\<rparr>"

definition RecordSpoolReplay :: "u64 \<Rightarrow> collector \<Rightarrow> collector" where
  "RecordSpoolReplay n c = c\<lparr>mc_spoolReplayed := mc_spoolReplayed c + n\<rparr>"

definition RecordSpoolCorruption :: "collector \<Rightarrow> collector" where
  "RecordSpoolCorruption c = c\<lparr>mc_spoolCorrupt := mc_spoolCorrupt c + 1, mc_spoolDropped := mc_spoolDropped c + 1\<rparr>"

definition RecordSpoolPermanent :: "u64 \<Rightarrow> collector \<Rightarrow> collector" where
  "RecordSpoolPermanent n c = c\<lparr>mc_spoolPermanent := mc_spoolPermanent c + n, mc_spoolDropped := mc_spoolDropped c + n\<rparr>"

definition RecordRejected :: "string \<Rightarrow> u64 \<Rightarrow> collector \<Rightarrow> collector" where
  "RecordRejected reason n c =
     (if reason = ''queue_full'' then c\<lparr>mc_rejectedFull := mc_rejectedFull c + n\<rparr>
      else if reason = ''spool_full'' then c\<lparr>mc_rejectedSpool := mc_rejectedSpool c + n\<rparr>
      else if reason = ''closed'' then c\<lparr>mc_rejectedClosed := mc_rejectedClosed c + n\<rparr>
      else c\<lparr>mc_rejectedInvalid := mc_rejectedInvalid c + n\<rparr>)"

end
