(* ===== verification/Pipeline_Base.thy ===== *)
theory Pipeline_Base
  imports Metrics Topo_Identity Topo_Store Wal_Core "HOL-Library.Multiset"
begin

text \<open>
  The data of the pipeline (\<open>runtime/go/internal/pipeline/pipeline.go\<close>) and its sequential parts:
  the validation of its settings, the assignment of envelopes to workers, the grouping of a batch
  by service, the delay before a retry. A result channel is a number; \<open>time.Time\<close> and contexts of
  requests are left out.
\<close>

section \<open>Data\<close>

record retry_config =
  rc_InitialBackoff :: int
  rc_MaxBackoff :: int
  rc_MaxAttempts :: int
  rc_Jitter :: f64

record pipeline_config =
  pc_Workers :: int
  pc_QueueSize :: int
  pc_BatchSize :: int
  pc_FlushInterval :: int
  pc_Durable :: bool
  pc_Retry :: retry_config

type_synonym outcome = "u64 option"

text \<open>The errors of the sinks: the context's, a failed checkpoint of the topology, the status of an
  HTTP reply, anything else.\<close>

datatype sink_error =
    SinkCancelled
  | SinkCheckpoint store_error
  | HTTPStatusError int string
  | SinkFailure string

text \<open>\<open>HTTPStatusError.Permanent\<close>: a client error, save request timeout, too early, too many
  requests.\<close>

definition Permanent :: "int \<Rightarrow> bool" where
  "Permanent status \<longleftrightarrow> status \<ge> 400 \<and> status < 500 \<and> status \<noteq> 408 \<and> status \<noteq> 425 \<and> status \<noteq> 429"

datatype pipeline_error =
    ErrQueueFull
  | ErrSpoolFull
  | ErrClosed
  | ContextCanceled
  | StorageFailed spool_error
  | SinkFailed sink_error

type_synonym item_result = "outcome \<times> pipeline_error option"

record item =
  it_envelope :: envelope
  it_result :: "nat option"
  it_record :: "spool_record option"

section \<open>Settings\<close>

definition valid_retry :: "retry_config \<Rightarrow> bool" where
  "valid_retry r \<longleftrightarrow> \<not> (rc_InitialBackoff r \<le> 0 \<or> rc_MaxBackoff r < rc_InitialBackoff r
     \<or> rc_MaxAttempts r < 1 \<or> f64_lt (rc_Jitter r) (Fin 0) \<or> f64_lt (Fin 1) (rc_Jitter r))"

definition valid_pipeline :: "pipeline_config \<Rightarrow> bool" where
  "valid_pipeline c \<longleftrightarrow>
     \<not> (pc_Workers c < 1 \<or> pc_QueueSize c < 1 \<or> pc_BatchSize c < 1 \<or> pc_FlushInterval c \<le> 0)
     \<and> \<not> pc_BatchSize c > pc_QueueSize c \<and> (pc_Durable c \<longrightarrow> valid_retry (pc_Retry c))"

section \<open>Workers and groups\<close>

definition serviceKey :: "envelope \<Rightarrow> string" where
  "serviceKey e = (case SpanBatch e of
     Some b \<Rightarrow> sb_ServiceName b
   | None \<Rightarrow> (case RuntimeMetrics e of Some m \<Rightarrow> rm_ServiceName m | None \<Rightarrow> []))"

text \<open>The FNV-1a hash of the service's bytes, modulo the number of workers.\<close>

definition workerIndex :: "envelope \<Rightarrow> nat \<Rightarrow> nat" where
  "workerIndex e workers =
     unat (foldl fnv_step 2166136261 (List.map of_char (serviceKey e)) mod of_nat workers)"

definition batchEventCount :: "item list \<Rightarrow> u64" where
  "batchEventCount batch = sum_list (List.map (\<lambda>i. of_nat (EventCount (it_envelope i))) batch)"

text \<open>The groups of one worker: the batches by service, in the order the services came up.\<close>

definition add_to_group :: "item \<Rightarrow> item list gomap \<Rightarrow> item list gomap" where
  "add_to_group entry groups =
     (let key = serviceKey (it_envelope entry)
      in AList.update key ((case map_of groups key of Some g \<Rightarrow> g | None \<Rightarrow> []) @ [entry]) groups)"

text \<open>\<open>flush\<close>: the batches to send, each with its worker, in the order they are sent.\<close>

definition worker_groups :: "nat \<Rightarrow> nat \<Rightarrow> item list \<Rightarrow> item list gomap" where
  "worker_groups workers k batch =
     foldl (\<lambda>groups entry. if workerIndex (it_envelope entry) workers = k then add_to_group entry groups else groups)
       [] batch"

definition flush_batches :: "nat \<Rightarrow> item list \<Rightarrow> (nat \<times> item list) list" where
  "flush_batches workers batch =
     List.concat (List.map (\<lambda>k. List.map (\<lambda>(_, g). (k, g)) (worker_groups workers k batch)) [0..<workers])"

section \<open>Retries\<close>

definition durableRecords :: "item list \<Rightarrow> spool_record list" where
  "durableRecords batch = List.concat (List.map (\<lambda>i. case it_record i of Some r \<Rightarrow> [r] | None \<Rightarrow> []) batch)"

definition isPermanentSinkError :: "sink_error \<Rightarrow> bool" where
  "isPermanentSinkError e = (case e of HTTPStatusError status _ \<Rightarrow> Permanent status | _ \<Rightarrow> False)"

definition retryExhausted :: "retry_config \<Rightarrow> item list \<Rightarrow> bool" where
  "retryExhausted rc batch \<longleftrightarrow>
     list_ex (\<lambda>i. case it_record i of Some r \<Rightarrow> int (Attempts r) + 1 \<ge> rc_MaxAttempts rc | None \<Rightarrow> False) batch"

definition retry_attempt :: "item list \<Rightarrow> nat" where
  "retry_attempt batch =
     foldl (\<lambda>attempt i. case it_record i of
        Some r \<Rightarrow> if Attempts r > attempt then Attempts r else attempt
      | None \<Rightarrow> attempt) 1 batch"

text \<open>\<open>retryDelay\<close> in nanoseconds; \<open>random\<close> is the value of \<open>rand.Float64\<close>, in the half-open unit
  interval. A power of two is exact.\<close>

definition capped_delay :: "retry_config \<Rightarrow> nat \<Rightarrow> f64" where
  "capped_delay rc attempt =
     (let exponent = min (attempt - 1) 30;
          delay = f64_mul (f64_of_int (rc_InitialBackoff rc)) (Fin (2 ^ exponent))
      in if f64_lt (f64_of_int (rc_MaxBackoff rc)) delay then f64_of_int (rc_MaxBackoff rc) else delay)"

definition retryDelay :: "retry_config \<Rightarrow> f64 \<Rightarrow> item list \<Rightarrow> int" where
  "retryDelay rc random batch =
     (let delay = capped_delay rc (retry_attempt batch);
          delay = (if f64_lt (Fin 0) (rc_Jitter rc)
                   then f64_mul delay (f64_add (Fin 1)
                     (f64_mul (f64_sub (f64_mul random (Fin 2)) (Fin 1)) (rc_Jitter rc)))
                   else delay)
      in max 1000000 (int_of_f64 delay))"

section \<open>Grouping\<close>

definition optional_list :: "'a list option \<Rightarrow> 'a list" where
  "optional_list x = (case x of None \<Rightarrow> [] | Some xs \<Rightarrow> xs)"

text \<open>The items of a service that a worker gets.\<close>

definition group_of :: "nat \<Rightarrow> nat \<Rightarrow> item list \<Rightarrow> string \<Rightarrow> item list" where
  "group_of workers k batch key =
     filter (\<lambda>i. workerIndex (it_envelope i) workers = k \<and> serviceKey (it_envelope i) = key) batch"

definition nonempty :: "'a list \<Rightarrow> 'a list option" where
  "nonempty xs = (if xs = [] then None else Some xs)"

lemma worker_groups_snoc: "worker_groups workers k (batch @ [x]) =
    (if workerIndex (it_envelope x) workers = k then add_to_group x (worker_groups workers k batch)
     else worker_groups workers k batch)"
  by (simp add: worker_groups_def)

lemma group_of_snoc: "group_of workers k (batch @ [x]) key =
    group_of workers k batch key @ (if workerIndex (it_envelope x) workers = k \<and> serviceKey (it_envelope x) = key then [x] else [])"
  by (simp add: group_of_def)

lemma map_of_add_to_group:
  "map_of (add_to_group x m) key =
     (if key = serviceKey (it_envelope x)
      then Some ((case map_of m key of Some g \<Rightarrow> g | None \<Rightarrow> []) @ [x]) else map_of m key)"
  by (simp add: add_to_group_def Let_def)

lemma worker_groups_spec:
  "distinct (keys (worker_groups workers k batch))
   \<and> (\<forall>key. map_of (worker_groups workers k batch) key = nonempty (group_of workers k batch key))"
proof (induction batch rule: rev_induct)
  case Nil
  then show ?case by (simp add: worker_groups_def group_of_def nonempty_def)
next
  case (snoc x batch)
  have d: "distinct (keys (add_to_group x m))" if "distinct (keys m)" for m
    using that by (simp add: add_to_group_def Let_def)
  have "map_of (worker_groups workers k (batch @ [x])) key = nonempty (group_of workers k (batch @ [x]) key)" for key
    unfolding worker_groups_snoc group_of_snoc using snoc
    by (simp add: map_of_add_to_group nonempty_def del: map_of_eq_Some_iff)
  then show ?case using snoc d unfolding worker_groups_snoc by simp
qed

lemma group_of_other: "workerIndex (it_envelope i) workers \<noteq> k \<Longrightarrow> i \<notin> set (group_of workers k batch key)"
  by (simp add: group_of_def)

lemma workerIndex_less:
  assumes "0 < n" "n < 2 ^ 32"
  shows "workerIndex e n < n"
proof -
  have "unat (of_nat n :: u32) = n" using assms(2) by (simp add: unat_of_nat)
  then show ?thesis using assms(1) by (simp add: workerIndex_def unat_mod)
qed

text \<open>Every item is in exactly one of the batches.\<close>

lemma update_values:
  assumes "distinct (keys m)"
  shows "mset (List.concat (List.map snd (AList.update k (optional_list (map_of m k) @ [x]) m))) = add_mset x (mset (List.concat (List.map snd m)))"
  using assms
proof (induction m)
  case (Cons kv m)
  obtain k' v where kv: "kv = (k', v)" by fastforce
  show ?case
  proof (cases "k' = k")
    case True
    then show ?thesis by (simp add: kv optional_list_def)
  next
    case False
    then show ?thesis using Cons by (simp add: kv)
  qed
qed (simp add: optional_list_def)

lemma worker_groups_mset:
  "mset (List.concat (List.map snd (worker_groups n k batch))) = filter_mset (\<lambda>i. workerIndex (it_envelope i) n = k) (mset batch)"
proof (induction batch rule: rev_induct)
  case (snoc x batch)
  have d: "distinct (keys (worker_groups n k batch))" using worker_groups_spec by blast
  have "add_to_group x m = AList.update (serviceKey (it_envelope x)) (optional_list (map_of m (serviceKey (it_envelope x))) @ [x]) m" for m
    by (simp add: add_to_group_def optional_list_def Let_def)
  then show ?case using snoc update_values [OF d] by (simp add: worker_groups_snoc del: mset_concat)
qed (simp add: worker_groups_def)

lemma partition_mset:
  "(\<Sum>k\<leftarrow>[0..<n]. filter_mset (\<lambda>x. f x = k) M) = filter_mset (\<lambda>x. f x < (n :: nat)) M"
proof (induction n)
  case (Suc n)
  have "filter_mset (\<lambda>x. f x < n) M + filter_mset (\<lambda>x. f x = n) M = filter_mset (\<lambda>x. f x < Suc n) M"
    by (rule multiset_eqI) (auto simp: less_Suc_eq)
  then show ?case using Suc by simp
qed simp

lemma flush_batches_mset:
  assumes "0 < n" "n < 2 ^ 32"
  shows "mset (List.concat (List.map snd (flush_batches n batch))) = mset batch"
proof -
  have "mset (List.concat (List.map snd (List.concat (List.map (\<lambda>k. List.map (\<lambda>(_, g). (k, g)) (f k)) ks))))
      = (\<Sum>k\<leftarrow>ks. mset (List.concat (List.map snd (f k))))" for f :: "nat \<Rightarrow> item list gomap" and ks
    by (induction ks) (simp_all add: case_prod_unfold comp_def del: mset_concat)
  then have "mset (List.concat (List.map snd (flush_batches n batch)))
      = (\<Sum>k\<leftarrow>[0..<n]. mset (List.concat (List.map snd (worker_groups n k batch))))"
    unfolding flush_batches_def .
  also have "\<dots> = filter_mset (\<lambda>i. workerIndex (it_envelope i) n < n) (mset batch)"
    by (simp only: worker_groups_mset partition_mset)
  also have "\<dots> = mset batch" using workerIndex_less [OF assms] by simp
  finally show ?thesis .
qed

text \<open>Each batch is what its worker gets of one service, in the order of the queue.\<close>

lemma flush_batches_member:
  assumes "(k, g) \<in> set (flush_batches n batch)"
  shows "k < n \<and> g \<noteq> [] \<and> (\<exists>key. g = group_of n k batch key)"
proof -
  obtain key where key: "k < n" "(key, g) \<in> set (worker_groups n k batch)"
    using assms by (auto simp: flush_batches_def)
  then have "map_of (worker_groups n k batch) key = Some g"
    using map_of_is_SomeI conjunct1 [OF worker_groups_spec [of n k batch]] by fast
  then have "nonempty (group_of n k batch key) = Some g" using conjunct2 [OF worker_groups_spec [of n k batch]] by metis
  then show ?thesis using key(1) by (auto simp: nonempty_def split: if_splits)
qed

end
