(* ===== verification/Pipeline_Worker.thy ===== *)
theory Pipeline_Worker
  imports Pipeline_Base
begin

text \<open>
  What a worker does with one batch (\<open>work\<close> in \<open>runtime/go/internal/pipeline/pipeline.go\<close>): it
  delivers, acknowledges, retries and quarantines until the batch is done. The storage and the sink
  are parameters, records of operations on their own states.

  The context is cancelled at some point and stays cancelled: the number \<open>w_running\<close> says how many
  more times it will be found running when it is consulted (\<open>context.Err\<close>, or a wait for a retry
  that ends by its timer). For every number the loop ends. Theory \<open>Pipeline_Returns\<close> models the same
  loops over a context that may never be cancelled, where a run need not return, and shows that every
  run that returns is the run for some number.
\<close>

section \<open>Interfaces\<close>

record 's storage_ops =
  op_Append :: "envelope \<Rightarrow> 's \<Rightarrow> (spool_error + spool_record) \<times> 's"
  op_NextAfter :: "u64 \<Rightarrow> 's \<Rightarrow> ((u64 + spool_record) option \<times> spool_error option) \<times> 's"
  op_Ack :: "spool_record list \<Rightarrow> 's \<Rightarrow> spool_error option \<times> 's"
  op_MarkRetry :: "spool_record list \<Rightarrow> 's \<Rightarrow> spool_error option \<times> spool_record list \<times> 's"
  op_Quarantine :: "spool_record list \<Rightarrow> string \<Rightarrow> 's \<Rightarrow> spool_error option \<times> 's"

type_synonym 'k sink_op = "envelope list \<Rightarrow> 'k \<Rightarrow> (sink_error + outcome list) \<times> 'k"

text \<open>The calls a worker makes, recorded in order.\<close>

datatype work_call =
    Delivered "envelope list" "sink_error option"
  | Acked "u64 list" "spool_error option"
  | Retried "u64 list" "spool_error option"
  | Quarantined "u64 list" string "spool_error option"

record ('s, 'k) work_state =
  w_storage :: 's
  w_sink :: 'k
  w_running :: nat
  w_metrics :: collector
  w_results :: "(nat \<times> item_result) list"
  w_released :: "u64 list"
  w_calls :: "work_call list"
  w_elapsed :: "nat \<Rightarrow> f64"

definition consult :: "('s, 'k) work_state \<Rightarrow> bool \<times> ('s, 'k) work_state" where
  "consult w = (if w_running w = 0 then (False, w) else (True, w\<lparr>w_running := w_running w - 1\<rparr>))"

definition log_call :: "work_call \<Rightarrow> ('s, 'k) work_state \<Rightarrow> ('s, 'k) work_state" where
  "log_call c w = w\<lparr>w_calls := w_calls w @ [c]\<rparr>"

definition tally :: "(collector \<Rightarrow> collector) \<Rightarrow> ('s, 'k) work_state \<Rightarrow> ('s, 'k) work_state" where
  "tally f w = w\<lparr>w_metrics := f (w_metrics w)\<rparr>"

section \<open>Completion and release\<close>

text \<open>\<open>complete\<close>: one result for every item somebody waits for. The time from the receipt of an item
  to its completion is what the clock says; \<open>w_elapsed k\<close> is the \<open>k\<close>-th of the times still to be
  measured.\<close>

fun batch_results :: "nat \<Rightarrow> item list \<Rightarrow> outcome list \<Rightarrow> pipeline_error option \<Rightarrow> (nat \<times> item_result) list" where
  "batch_results index [] outcomes err = []"
| "batch_results index (entry # batch) outcomes err =
     (let outcome = (if index < length outcomes then outcomes ! index else None)
      in case it_result entry of
           Some ch \<Rightarrow> (ch, (outcome, err)) # batch_results (index + 1) batch outcomes err
         | None \<Rightarrow> batch_results (index + 1) batch outcomes err)"

definition complete :: "item list \<Rightarrow> outcome list \<Rightarrow> pipeline_error option \<Rightarrow> ('s, 'k) work_state \<Rightarrow> ('s, 'k) work_state" where
  "complete batch outcomes err w =
     w\<lparr>w_results := w_results w @ batch_results 0 batch outcomes err,
       w_metrics := foldl (\<lambda>m k. ObserveProcessing (w_elapsed w k) m) (w_metrics w) [0..<length batch],
       w_elapsed := (\<lambda>k. w_elapsed w (k + length batch))\<rparr>"

definition item_ids :: "item list \<Rightarrow> u64 list" where
  "item_ids batch = List.map RecordID (durableRecords batch)"

text \<open>\<open>releaseRecords\<close>: what is taken out of the in-flight and the waiter table.\<close>

definition releaseRecords :: "item list \<Rightarrow> ('s, 'k) work_state \<Rightarrow> ('s, 'k) work_state" where
  "releaseRecords batch w = w\<lparr>w_released := w_released w @ item_ids batch\<rparr>"

definition finish :: "item list \<Rightarrow> outcome list \<Rightarrow> pipeline_error option \<Rightarrow> ('s, 'k) work_state \<Rightarrow> ('s, 'k) work_state" where
  "finish batch outcomes err w = releaseRecords batch (complete batch outcomes err w)"

section \<open>Acknowledging, retrying, quarantining\<close>

text \<open>Acknowledging is retried until it succeeds or the context is cancelled.\<close>

function ackDurableBatch :: "'s storage_ops \<Rightarrow> item list \<Rightarrow> ('s, 'k) work_state
    \<Rightarrow> pipeline_error option \<times> ('s, 'k) work_state" where
  "ackDurableBatch st batch w =
     (case op_Ack st (durableRecords batch) (w_storage w) of
        (None, s') \<Rightarrow> (None, log_call (Acked (item_ids batch) None) (w\<lparr>w_storage := s'\<rparr>))
      | (Some e, s') \<Rightarrow>
          (case consult (tally RecordError (log_call (Acked (item_ids batch) (Some e)) (w\<lparr>w_storage := s'\<rparr>))) of
             (False, w2) \<Rightarrow> (Some ContextCanceled, w2)
           | (True, w2) \<Rightarrow> ackDurableBatch st batch w2))"
  by pat_completeness auto

termination
  by (relation "measure (\<lambda>(st, batch, w). w_running w)")
    (auto simp: consult_def tally_def log_call_def split: if_splits)

definition quarantine_reason :: "sink_error \<Rightarrow> string" where
  "quarantine_reason e = (if isPermanentSinkError e then ''permanent'' else ''attempts-exhausted'')"

function quarantineDurableBatch :: "'s storage_ops \<Rightarrow> item list \<Rightarrow> sink_error \<Rightarrow> ('s, 'k) work_state
    \<Rightarrow> pipeline_error option \<times> ('s, 'k) work_state" where
  "quarantineDurableBatch st batch e w =
     (let reason = quarantine_reason e
      in case op_Quarantine st (durableRecords batch) reason (w_storage w) of
        (None, s') \<Rightarrow> (None, log_call (Quarantined (item_ids batch) reason None) (w\<lparr>w_storage := s'\<rparr>))
      | (Some err, s') \<Rightarrow>
          (case consult (tally RecordError (log_call (Quarantined (item_ids batch) reason (Some err)) (w\<lparr>w_storage := s'\<rparr>))) of
             (False, w2) \<Rightarrow> (Some ContextCanceled, w2)
           | (True, w2) \<Rightarrow> quarantineDurableBatch st batch e w2))"
  by pat_completeness auto

termination
  by (relation "measure (\<lambda>(st, batch, e, w). w_running w)")
    (auto simp: consult_def tally_def log_call_def split: if_splits)

text \<open>The records of a durable batch are replaced by what \<open>MarkRetry\<close> made of them; every item
  of a durable batch has a record.\<close>

fun with_records :: "item list \<Rightarrow> spool_record list \<Rightarrow> item list" where
  "with_records (i # is) (r # rs) = i\<lparr>it_record := Some r\<rparr> # with_records is rs"
| "with_records is _ = is"

definition retryDurableBatch :: "'s storage_ops \<Rightarrow> item list \<Rightarrow> ('s, 'k) work_state
    \<Rightarrow> spool_error option \<times> item list \<times> ('s, 'k) work_state" where
  "retryDurableBatch st batch w =
     (case op_MarkRetry st (durableRecords batch) (w_storage w) of
        (Some e, _, s') \<Rightarrow> (Some e, batch, log_call (Retried (item_ids batch) (Some e)) (w\<lparr>w_storage := s'\<rparr>))
      | (None, records, s') \<Rightarrow>
          (None, with_records batch records,
           tally (RecordSpoolRetry (of_nat (length records)))
             (log_call (Retried (item_ids batch) None) (w\<lparr>w_storage := s'\<rparr>))))"

section \<open>The loop\<close>

definition deliver :: "'k sink_op \<Rightarrow> item list \<Rightarrow> ('s, 'k) work_state
    \<Rightarrow> (sink_error + outcome list) \<times> ('s, 'k) work_state" where
  "deliver sink batch w =
     (let w1 = tally WorkerStarted w; envelopes = List.map it_envelope batch
      in case sink envelopes (w_sink w1) of
           (r, k') \<Rightarrow> (r, tally WorkerStopped (log_call (Delivered envelopes
             (case r of Inl e \<Rightarrow> Some e | Inr _ \<Rightarrow> None)) (w1\<lparr>w_sink := k'\<rparr>))))"

text \<open>After a failed delivery of a durable batch: whether the loop goes on, and with what.\<close>

definition after_failure :: "retry_config \<Rightarrow> 's storage_ops \<Rightarrow> item list \<Rightarrow> sink_error \<Rightarrow> ('s, 'k) work_state
    \<Rightarrow> (item list \<times> ('s, 'k) work_state) option \<times> ('s, 'k) work_state" where
  "after_failure rc st batch e w =
     (case consult w of
        (False, w1) \<Rightarrow> (None, finish batch [] (Some ContextCanceled) w1)
      | (True, w1) \<Rightarrow>
          if isPermanentSinkError e \<or> retryExhausted rc batch
          then (case quarantineDurableBatch st batch e w1 of
                  (Some qe, w2) \<Rightarrow> (None, finish batch [] (Some qe) w2)
                | (None, w2) \<Rightarrow>
                    (None, finish batch [] (Some (SinkFailed e))
                       (tally (RecordSpoolPermanent (of_nat (length batch))) w2)))
          else (case retryDurableBatch st batch w1 of
                  (Some se, _, w2) \<Rightarrow> (None, finish batch [] (Some (StorageFailed se)) w2)
                | (None, batch', w2) \<Rightarrow>
                    (case consult w2 of
                       (False, w3) \<Rightarrow> (None, finish batch' [] (Some ContextCanceled) w3)
                     | (True, w3) \<Rightarrow> (Some (batch', w3), w3))))"

lemma after_failure_running:
  assumes "after_failure rc st batch e w = (Some (batch', w'), w'')"
  shows "w_running w' < w_running w"
proof -
  obtain b1 w1 where 1: "consult w = (b1, w1)" by fastforce
  obtain se b w2 where 2: "retryDurableBatch st batch w1 = (se, b, w2)" by (metis prod.exhaust)
  obtain b3 w3 where 3: "consult w2 = (b3, w3)" by fastforce
  have r: "w_running w2 = w_running w1"
    using 2 by (auto simp: retryDurableBatch_def log_call_def tally_def split: prod.splits option.splits)
  have "b1" "b3" "w' = w3"
    using assms 1 2 3 by (auto simp: after_failure_def split: bool.splits if_splits option.splits prod.splits)
  then show ?thesis using 1 3 r by (auto simp: consult_def split: if_splits)
qed

lemma deliver_running: "deliver sink batch w = (r, w1) \<Longrightarrow> w_running w1 = w_running w"
  by (auto simp: deliver_def tally_def log_call_def Let_def split: prod.splits)

function work_loop :: "bool \<Rightarrow> retry_config \<Rightarrow> 's storage_ops \<Rightarrow> 'k sink_op \<Rightarrow> item list \<Rightarrow> ('s, 'k) work_state
    \<Rightarrow> ('s, 'k) work_state" where
  "work_loop durable rc st sink batch w =
     (case deliver sink batch w of
        (Inr outcomes, w1) \<Rightarrow>
          if durable
          then (case ackDurableBatch st batch w1 of
                  (Some err, w2) \<Rightarrow> finish batch [] (Some err) w2
                | (None, w2) \<Rightarrow> finish batch outcomes None (tally (RecordProcessed (batchEventCount batch)) w2))
          else complete batch outcomes None (tally (RecordProcessed (batchEventCount batch)) w1)
      | (Inl e, w1) \<Rightarrow>
          let w2 = tally RecordError w1
          in if \<not> durable then complete batch [] (Some (SinkFailed e)) w2
             else (case after_failure rc st batch e w2 of
                     (None, w3) \<Rightarrow> w3
                   | (Some (batch', w3), _) \<Rightarrow> work_loop durable rc st sink batch' w3))"
  by pat_completeness auto

termination
  by (relation "measure (\<lambda>(durable, rc, st, sink, batch, w). w_running w)")
    (auto simp: tally_def dest!: after_failure_running [OF sym] deliver_running [OF sym])

text \<open>\<open>work\<close> on one batch.\<close>

definition work_batch :: "bool \<Rightarrow> retry_config \<Rightarrow> 's storage_ops \<Rightarrow> 'k sink_op \<Rightarrow> item list \<Rightarrow> ('s, 'k) work_state
    \<Rightarrow> ('s, 'k) work_state" where
  "work_batch durable rc st sink batch w =
     work_loop durable rc st sink batch (tally (ObserveBatchSize (batchEventCount batch)) w)"

declare ackDurableBatch.simps [simp del] quarantineDurableBatch.simps [simp del] work_loop.simps [simp del]

end
