(* ===== verification/Storage_Contract.thy ===== *)
theory Storage_Contract
  imports Pipeline_Worker
begin

text \<open>
  What the pipeline relies on of its storage (\<open>spool.Storage\<close>), as locales, and what a worker then
  does to the records of its batch. \<open>active s i\<close> is the number of attempts that the storage holds
  for record \<open>i\<close>, if it is to be delivered. A failed call may have settled some of its records, as
  that of the legacy spool does.
\<close>

section \<open>The contract of a worker\<close>

definition held :: "('s \<Rightarrow> u64 \<Rightarrow> nat option) \<Rightarrow> 's \<Rightarrow> spool_record list \<Rightarrow> bool" where
  "held active s rs \<longleftrightarrow> distinct (List.map RecordID rs)
     \<and> (\<forall>r\<in>set rs. active s (RecordID r) = Some (Attempts r))"

definition only_settled :: "u64 set \<Rightarrow> (u64 \<Rightarrow> nat option) \<Rightarrow> (u64 \<Rightarrow> nat option) \<Rightarrow> bool" where
  "only_settled ids a a' \<longleftrightarrow> (\<forall>i. a' i = a i \<or> i \<in> ids \<and> a' i = None)"

definition retried :: "spool_record \<Rightarrow> spool_record" where
  "retried r = r\<lparr>Attempts := Attempts r + 1\<rparr>"

locale settlement =
  fixes st :: "'s storage_ops" and inv :: "'s \<Rightarrow> bool" and active :: "'s \<Rightarrow> u64 \<Rightarrow> nat option"
    and max_attempts :: int
  assumes ack: "\<lbrakk>inv s; distinct (List.map RecordID rs); op_Ack st rs s = (r, s')\<rbrakk> \<Longrightarrow>
      inv s' \<and> only_settled (RecordID ` set rs) (active s) (active s')
      \<and> (r = None \<longrightarrow> (\<forall>i\<in>RecordID ` set rs. active s' i = None))"
    and quarantine: "\<lbrakk>inv s; distinct (List.map RecordID rs); op_Quarantine st rs reason s = (r, s')\<rbrakk> \<Longrightarrow>
      inv s' \<and> only_settled (RecordID ` set rs) (active s) (active s')
      \<and> (r = None \<longrightarrow> (\<forall>i\<in>RecordID ` set rs. active s' i = None))"
    and retry: "\<lbrakk>inv s; held active s rs; \<forall>r\<in>set rs. int (Attempts r) + 1 < max_attempts;
        op_MarkRetry st rs s = (r, rs', s')\<rbrakk> \<Longrightarrow>
      inv s' \<and> (\<forall>i. i \<notin> RecordID ` set rs \<longrightarrow> active s' i = active s i)
      \<and> (\<forall>i. active s i \<noteq> None \<longrightarrow> active s' i \<noteq> None)
      \<and> (r = None \<longrightarrow> rs' = List.map retried rs \<and> held active s' rs')"

section \<open>The protocol of a worker\<close>

text \<open>The calls of a worker on a durable batch that has \<open>left\<close> deliveries left: each delivery is of
  the whole batch; only after one that succeeded are the records acknowledged, until that succeeds;
  only after one that failed for good, or the last, are they quarantined, until that succeeds; in
  between they are marked for another delivery, with one less left.\<close>

definition acking :: "u64 list \<Rightarrow> work_call \<Rightarrow> bool" where
  "acking ids c \<longleftrightarrow> (\<exists>r. c = Acked ids r)"

definition quarantining :: "u64 list \<Rightarrow> string \<Rightarrow> work_call \<Rightarrow> bool" where
  "quarantining ids reason c \<longleftrightarrow> (\<exists>r. c = Quarantined ids reason r)"

lemma acking_Acked [simp]: "acking ids (Acked ids r)"
  by (simp add: acking_def)

lemma quarantining_Quarantined [simp]: "quarantining ids reason (Quarantined ids reason r)"
  by (simp add: quarantining_def)

fun protocol :: "int \<Rightarrow> envelope list \<Rightarrow> u64 list \<Rightarrow> work_call list \<Rightarrow> bool" where
  "protocol left envelopes ids (Delivered es None # cs) \<longleftrightarrow> es = envelopes \<and> cs \<noteq> [] \<and> list_all (acking ids) cs"
| "protocol left envelopes ids (Delivered es (Some e) # cs) \<longleftrightarrow> es = envelopes
     \<and> (cs = []
        \<or> (isPermanentSinkError e \<or> left \<le> 1) \<and> list_all (quarantining ids (quarantine_reason e)) cs
        \<or> \<not> isPermanentSinkError e \<and> left > 1
          \<and> (case cs of
               Retried ids' (Some _) # cs' \<Rightarrow> ids' = ids \<and> cs' = []
             | Retried ids' None # cs' \<Rightarrow> ids' = ids \<and> (cs' = [] \<or> protocol (left - 1) envelopes ids cs')
             | _ \<Rightarrow> False))"
| "protocol left envelopes ids _ \<longleftrightarrow> False"

fun is_delivery :: "work_call \<Rightarrow> bool" where
  "is_delivery (Delivered _ _) = True"
| "is_delivery _ = False"

lemma no_delivery: "list_all (acking ids) cs \<or> list_all (quarantining ids reason) cs \<Longrightarrow> filter is_delivery cs = []"
  by (induction cs) (auto simp: acking_def quarantining_def)

text \<open>A batch is delivered at most as often as it has attempts left, and at least once.\<close>

lemma protocol_deliveries:
  "protocol left envelopes ids cs \<Longrightarrow> int (length (filter is_delivery cs)) \<le> max 1 left \<and> 0 < length (filter is_delivery cs)"
proof (induction left envelopes ids cs rule: protocol.induct)
  case (1 left envelopes ids es cs)
  then show ?case using no_delivery [of ids cs] by simp
next
  case (2 left envelopes ids es e cs)
  then consider "cs = []" | "list_all (quarantining ids (quarantine_reason e)) cs"
    | se where "cs = [Retried ids (Some se)]"
    | "left > 1" "cs = [Retried ids None]"
    | cs' where "left > 1" "cs = Retried ids None # cs'" "protocol (left - 1) envelopes ids cs'"
    by (auto split: list.splits work_call.splits option.splits)
  then show ?case
  proof cases
    case 2
    then show ?thesis using no_delivery [of ids cs "quarantine_reason e"] by simp
  next
    case (5 cs')
    then show ?thesis using "2.IH" [of "Retried ids None" cs' ids None] "2.prems" by (auto split: if_splits)
  qed simp_all
qed simp_all

section \<open>The parts of the loop\<close>

lemma consult_fields:
  "consult w = (b, w') \<Longrightarrow> w_storage w' = w_storage w \<and> w_sink w' = w_sink w \<and> w_results w' = w_results w
     \<and> w_released w' = w_released w \<and> w_calls w' = w_calls w \<and> w_metrics w' = w_metrics w"
  by (auto simp: consult_def split: if_splits)

lemma field_simps [simp]:
  "w_storage (tally f w) = w_storage w" "w_sink (tally f w) = w_sink w" "w_results (tally f w) = w_results w"
  "w_released (tally f w) = w_released w" "w_calls (tally f w) = w_calls w"
  "w_storage (log_call c w) = w_storage w" "w_sink (log_call c w) = w_sink w" "w_results (log_call c w) = w_results w"
  "w_released (log_call c w) = w_released w" "w_calls (log_call c w) = w_calls w @ [c]"
  by (simp_all add: tally_def log_call_def)

definition quiet :: "('s, 'k) work_state \<Rightarrow> ('s, 'k) work_state \<Rightarrow> bool" where
  "quiet w w' \<longleftrightarrow> w_results w' = w_results w \<and> w_released w' = w_released w"

lemma ack_calls:
  assumes "ackDurableBatch st batch w = (r, w')"
  shows "\<exists>cs. w_calls w' = w_calls w @ cs \<and> cs \<noteq> [] \<and> list_all (acking (item_ids batch)) cs
    \<and> (r = None \<longrightarrow> last cs = Acked (item_ids batch) None) \<and> quiet w w'"
  using assms
proof (induction st batch w arbitrary: r w' rule: ackDurableBatch.induct)
  case (1 st batch w)
  obtain e s' where a: "op_Ack st (durableRecords batch) (w_storage w) = (e, s')" by fastforce
  show ?case
  proof (cases e)
    case None
    then show ?thesis
      using 1(2) a by (subst (asm) ackDurableBatch.simps) (auto simp: quiet_def)
  next
    case (Some err)
    let ?w1 = "tally RecordError (log_call (Acked (item_ids batch) (Some err)) (w\<lparr>w_storage := s'\<rparr>))"
    obtain b w2 where c: "consult ?w1 = (b, w2)" by fastforce
    note f = consult_fields [OF c]
    show ?thesis
    proof (cases b)
      case False
      then show ?thesis
        using 1(2) a Some c f by (subst (asm) ackDurableBatch.simps) (auto simp: quiet_def)
    next
      case True
      then have "ackDurableBatch st batch w2 = (r, w')"
        using 1(2) a Some c by (subst (asm) ackDurableBatch.simps) simp
      from 1(1) [OF a [symmetric] _ c [symmetric] _ this] Some True
      obtain cs where "w_calls w' = w_calls w2 @ cs" "cs \<noteq> []" "list_all (acking (item_ids batch)) cs"
        "r = None \<longrightarrow> last cs = Acked (item_ids batch) None" "quiet w2 w'" by auto
      then show ?thesis
        using f by (intro exI [of _ "Acked (item_ids batch) (Some err) # cs"]) (auto simp: quiet_def)
    qed
  qed
qed

lemma quarantine_calls:
  assumes "quarantineDurableBatch st batch e w = (r, w')"
  shows "\<exists>cs. w_calls w' = w_calls w @ cs \<and> cs \<noteq> [] \<and> list_all (quarantining (item_ids batch) (quarantine_reason e)) cs
    \<and> quiet w w'"
  using assms
proof (induction st batch e w arbitrary: r w' rule: quarantineDurableBatch.induct)
  case (1 st batch e w)
  let ?reason = "quarantine_reason e"
  obtain err s' where a: "op_Quarantine st (durableRecords batch) ?reason (w_storage w) = (err, s')" by fastforce
  show ?case
  proof (cases err)
    case None
    then show ?thesis
      using 1(2) a by (subst (asm) quarantineDurableBatch.simps) (auto simp: quiet_def Let_def)
  next
    case (Some se)
    let ?w1 = "tally RecordError (log_call (Quarantined (item_ids batch) ?reason (Some se)) (w\<lparr>w_storage := s'\<rparr>))"
    obtain b w2 where c: "consult ?w1 = (b, w2)" by fastforce
    note f = consult_fields [OF c]
    show ?thesis
    proof (cases b)
      case False
      then show ?thesis
        using 1(2) a Some c f by (subst (asm) quarantineDurableBatch.simps) (auto simp: quiet_def Let_def)
    next
      case True
      then have "quarantineDurableBatch st batch e w2 = (r, w')"
        using 1(2) a Some c by (subst (asm) quarantineDurableBatch.simps) (simp add: Let_def)
      from 1(1) [OF refl a [symmetric] _ c [symmetric] _ this] Some True
      obtain cs where "w_calls w' = w_calls w2 @ cs" "cs \<noteq> []" "list_all (quarantining (item_ids batch) ?reason) cs" "quiet w2 w'" by auto
      then show ?thesis
        using f by (intro exI [of _ "Quarantined (item_ids batch) ?reason (Some se) # cs"]) (auto simp: quiet_def)
    qed
  qed
qed

section \<open>Batches after a retry\<close>

definition durable_batch :: "item list \<Rightarrow> bool" where
  "durable_batch batch \<longleftrightarrow> batch \<noteq> [] \<and> list_all (\<lambda>i. it_record i \<noteq> None) batch"

definition attempts_left :: "retry_config \<Rightarrow> item list \<Rightarrow> int" where
  "attempts_left rc batch = Min ((\<lambda>r. rc_MaxAttempts rc - int (Attempts r)) ` set (durableRecords batch))"

definition retried_batch :: "item list \<Rightarrow> item list" where
  "retried_batch batch = List.map (\<lambda>i. i\<lparr>it_record := map_option retried (it_record i)\<rparr>) batch"

lemma durableRecords_simps [simp]:
  "durableRecords [] = []"
  "durableRecords (i # is) = (case it_record i of Some r \<Rightarrow> [r] | None \<Rightarrow> []) @ durableRecords is"
  by (simp_all add: durableRecords_def)

lemma with_records_retried:
  "list_all (\<lambda>i. it_record i \<noteq> None) batch \<Longrightarrow>
     with_records batch (List.map retried (durableRecords batch)) = retried_batch batch"
  by (induction batch) (auto simp: retried_batch_def split: option.splits)

lemma durableRecords_retried: "durableRecords (retried_batch batch) = List.map retried (durableRecords batch)"
  by (induction batch) (auto simp: retried_batch_def split: option.splits)

lemma retried_batch_fields:
  "List.map it_envelope (retried_batch batch) = List.map it_envelope batch"
  "item_ids (retried_batch batch) = item_ids batch"
  "durable_batch (retried_batch batch) = durable_batch batch"
  "batch_results k (retried_batch batch) os err = batch_results k batch os err"
  "length (retried_batch batch) = length batch"
proof -
  show "length (retried_batch batch) = length batch" by (simp add: retried_batch_def)
  show "List.map it_envelope (retried_batch batch) = List.map it_envelope batch" by (simp add: retried_batch_def)
  show "item_ids (retried_batch batch) = item_ids batch"
    by (simp add: item_ids_def durableRecords_retried retried_def)
  show "durable_batch (retried_batch batch) = durable_batch batch"
    by (simp add: durable_batch_def retried_batch_def list_all_iff)
  show "batch_results k (retried_batch batch) os err = batch_results k batch os err"
    by (induction batch arbitrary: k) (auto simp: retried_batch_def Let_def split: option.split)
qed

lemma durable_records_nonempty: "durable_batch batch \<Longrightarrow> durableRecords batch \<noteq> []"
  by (cases batch) (auto simp: durable_batch_def split: option.split)

lemma exhausted_left: "durable_batch batch \<Longrightarrow> retryExhausted rc batch \<longleftrightarrow> attempts_left rc batch \<le> 1"
proof -
  assume d: "durable_batch batch"
  have "retryExhausted rc batch \<longleftrightarrow> (\<exists>r\<in>set (durableRecords batch). int (Attempts r) + 1 \<ge> rc_MaxAttempts rc)"
    by (induction batch) (auto simp: retryExhausted_def split: option.splits)
  also have "\<dots> \<longleftrightarrow> attempts_left rc batch \<le> 1"
    using durable_records_nonempty [OF d] by (auto simp: attempts_left_def Min_le_iff algebra_simps)
  finally show ?thesis .
qed

lemma attempts_below:
  assumes "attempts_left rc batch > 1" "rc_MaxAttempts rc \<le> m"
  shows "\<forall>r\<in>set (durableRecords batch). int (Attempts r) + 1 < m"
proof
  fix r
  assume "r \<in> set (durableRecords batch)"
  then have "attempts_left rc batch \<le> rc_MaxAttempts rc - int (Attempts r)"
    by (simp add: attempts_left_def)
  then show "int (Attempts r) + 1 < m" using assms by simp
qed

lemma attempts_left_retried:
  assumes "durable_batch batch"
  shows "attempts_left rc (retried_batch batch) = attempts_left rc batch - 1"
proof -
  let ?A = "(\<lambda>r. rc_MaxAttempts rc - int (Attempts r)) ` set (durableRecords batch)"
  have "(\<lambda>r. rc_MaxAttempts rc - int (Attempts r)) ` set (List.map retried (durableRecords batch)) = (\<lambda>x. x - 1) ` ?A"
    by (force simp: retried_def image_image)
  moreover have "Min ((\<lambda>x. x - 1) ` ?A) = Min ?A - 1"
    using mono_Min_commute [of "\<lambda>x :: int. x - 1" ?A] durable_records_nonempty [OF assms] by (simp add: mono_def)
  ultimately show ?thesis by (simp add: attempts_left_def durableRecords_retried)
qed

section \<open>What becomes of the records\<close>

lemma only_settled_refl [simp]: "only_settled ids a a"
  by (simp add: only_settled_def)

lemma only_settled_trans: "only_settled ids a b \<Longrightarrow> only_settled ids b c \<Longrightarrow> only_settled ids a c"
  unfolding only_settled_def by metis

lemma item_ids_set: "set (item_ids batch) = RecordID ` set (durableRecords batch)"
  by (simp add: item_ids_def)

text \<open>The run of a worker on a durable batch: its calls follow the protocol, everybody who waits
  gets one result, the records are released, other records are left alone, success is reported only
  for records that were delivered and are settled, and a record that is not active any more was
  delivered or quarantined.\<close>

definition worked :: "('s \<Rightarrow> bool) \<Rightarrow> ('s \<Rightarrow> u64 \<Rightarrow> nat option) \<Rightarrow> retry_config \<Rightarrow> item list
    \<Rightarrow> ('s, 'k) work_state \<Rightarrow> ('s, 'k) work_state \<Rightarrow> bool" where
  "worked ok active rc batch w w' \<longleftrightarrow>
     (\<exists>cs outcomes err. w_calls w' = w_calls w @ cs
        \<and> protocol (attempts_left rc batch) (List.map it_envelope batch) (item_ids batch) cs
        \<and> w_results w' = w_results w @ batch_results 0 batch outcomes err
        \<and> w_released w' = w_released w @ item_ids batch
        \<and> ok (w_storage w')
        \<and> (\<forall>i. i \<notin> set (item_ids batch) \<longrightarrow> active (w_storage w') i = active (w_storage w) i)
        \<and> (err = None \<longrightarrow> Delivered (List.map it_envelope batch) None \<in> set cs
             \<and> (\<forall>i\<in>set (item_ids batch). active (w_storage w') i = None))
        \<and> ((\<exists>i\<in>set (item_ids batch). active (w_storage w') i = None) \<longrightarrow>
             Delivered (List.map it_envelope batch) None \<in> set cs
             \<or> (\<exists>reason r. Quarantined (item_ids batch) reason r \<in> set cs)))"

lemma worked_later:
  assumes "w_calls w1 = w_calls w @ pre" "quiet w w1"
    and "\<forall>i. i \<notin> set (item_ids batch) \<longrightarrow> active (w_storage w1) i = active (w_storage w) i"
    and "\<And>cs. protocol (attempts_left rc (retried_batch batch)) (List.map it_envelope batch) (item_ids batch) cs \<Longrightarrow>
      protocol (attempts_left rc batch) (List.map it_envelope batch) (item_ids batch) (pre @ cs)"
    and "worked ok active rc (retried_batch batch) w1 w'"
  shows "worked ok active rc batch w w'"
proof -
  obtain cs outcomes err where c: "w_calls w' = w_calls w1 @ cs"
    "protocol (attempts_left rc (retried_batch batch)) (List.map it_envelope batch) (item_ids batch) cs"
    "w_results w' = w_results w1 @ batch_results 0 batch outcomes err"
    "w_released w' = w_released w1 @ item_ids batch" "ok (w_storage w')"
    "\<forall>i. i \<notin> set (item_ids batch) \<longrightarrow> active (w_storage w') i = active (w_storage w1) i"
    "err = None \<longrightarrow> Delivered (List.map it_envelope batch) None \<in> set cs
       \<and> (\<forall>i\<in>set (item_ids batch). active (w_storage w') i = None)"
    "(\<exists>i\<in>set (item_ids batch). active (w_storage w') i = None) \<longrightarrow>
       Delivered (List.map it_envelope batch) None \<in> set cs \<or> (\<exists>reason r. Quarantined (item_ids batch) reason r \<in> set cs)"
    using assms(5) unfolding worked_def retried_batch_fields by blast
  show ?thesis
    unfolding worked_def
    using assms(1-4) c
    by (intro exI [of _ "pre @ cs"] exI [of _ outcomes] exI [of _ err]) (auto simp: quiet_def)
qed

lemma deliver_fields:
  assumes "deliver sink batch w = (r, w1)"
  shows "w_storage w1 = w_storage w \<and> quiet w w1 \<and> w_running w1 = w_running w
    \<and> w_calls w1 = w_calls w @ [Delivered (List.map it_envelope batch) (case r of Inl e \<Rightarrow> Some e | Inr _ \<Rightarrow> None)]"
  using assms by (auto simp: deliver_def Let_def quiet_def tally_def log_call_def split: prod.splits)

lemma finish_fields [simp]:
  "w_storage (finish batch os err w) = w_storage w" "w_calls (finish batch os err w) = w_calls w"
  "w_results (finish batch os err w) = w_results w @ batch_results 0 batch os err"
  "w_released (finish batch os err w) = w_released w @ item_ids batch"
  by (simp_all add: finish_def releaseRecords_def complete_def)

context settlement
begin

definition settles :: "u64 list \<Rightarrow> bool \<Rightarrow> ('s, 'k) work_state \<Rightarrow> ('s, 'k) work_state \<Rightarrow> bool" where
  "settles ids done_all w w' \<longleftrightarrow> inv (w_storage w')
     \<and> only_settled (set ids) (active (w_storage w)) (active (w_storage w'))
     \<and> (done_all \<longrightarrow> (\<forall>i\<in>set ids. active (w_storage w') i = None))"

lemma settles_after:
  assumes "only_settled (set ids) (active (w_storage w)) (active (w_storage w1))" "settles ids d w1 w2"
  shows "settles ids d w w2"
  using assms only_settled_trans unfolding settles_def by blast

lemma ack_effect:
  assumes "ackDurableBatch st batch w = (r, w')" "inv (w_storage w)" "distinct (item_ids batch)"
  shows "settles (item_ids batch) (r = None) w w'"
  using assms
proof (induction "w_running w" arbitrary: w r w' rule: less_induct)
  case less
  obtain e s' where a: "op_Ack st (durableRecords batch) (w_storage w) = (e, s')" by fastforce
  have e: "inv s'" "only_settled (set (item_ids batch)) (active (w_storage w)) (active s')"
    "e = None \<longrightarrow> (\<forall>i\<in>set (item_ids batch). active s' i = None)"
    using ack [OF less.prems(2) less.prems(3) [unfolded item_ids_def] a] by (simp_all add: item_ids_set)
  show ?case
  proof (cases e)
    case None
    then show ?thesis
      using less.prems(1) a e by (subst (asm) ackDurableBatch.simps) (auto simp: settles_def)
  next
    case (Some err)
    let ?w1 = "tally RecordError (log_call (Acked (item_ids batch) (Some err)) (w\<lparr>w_storage := s'\<rparr>))"
    obtain b w2 where c: "consult ?w1 = (b, w2)" by fastforce
    note f = consult_fields [OF c]
    show ?thesis
    proof (cases b)
      case False
      then show ?thesis
        using less.prems(1) a Some c f e by (subst (asm) ackDurableBatch.simps) (auto simp: settles_def)
    next
      case True
      then have run: "ackDurableBatch st batch w2 = (r, w')"
        using less.prems(1) a Some c by (subst (asm) ackDurableBatch.simps) simp
      have "w_running w2 < w_running w"
        using c True by (auto simp: consult_def tally_def log_call_def split: if_splits)
      from less.hyps [OF this run] f e less.prems(3)
      show ?thesis by (intro settles_after [of "item_ids batch" w w2]) simp_all
    qed
  qed
qed

lemma quarantine_effect:
  assumes "quarantineDurableBatch st batch e w = (r, w')" "inv (w_storage w)" "distinct (item_ids batch)"
  shows "settles (item_ids batch) (r = None) w w'"
  using assms
proof (induction "w_running w" arbitrary: w r w' rule: less_induct)
  case less
  let ?reason = "quarantine_reason e"
  obtain q s' where a: "op_Quarantine st (durableRecords batch) ?reason (w_storage w) = (q, s')" by fastforce
  have e: "inv s'" "only_settled (set (item_ids batch)) (active (w_storage w)) (active s')"
    "q = None \<longrightarrow> (\<forall>i\<in>set (item_ids batch). active s' i = None)"
    using quarantine [OF less.prems(2) less.prems(3) [unfolded item_ids_def] a] by (simp_all add: item_ids_set)
  show ?case
  proof (cases q)
    case None
    then show ?thesis
      using less.prems(1) a e by (subst (asm) quarantineDurableBatch.simps) (auto simp: settles_def Let_def)
  next
    case (Some err)
    let ?w1 = "tally RecordError (log_call (Quarantined (item_ids batch) ?reason (Some err)) (w\<lparr>w_storage := s'\<rparr>))"
    obtain b w2 where c: "consult ?w1 = (b, w2)" by fastforce
    note f = consult_fields [OF c]
    show ?thesis
    proof (cases b)
      case False
      then show ?thesis
        using less.prems(1) a Some c f e
        by (subst (asm) quarantineDurableBatch.simps) (auto simp: settles_def Let_def)
    next
      case True
      then have run: "quarantineDurableBatch st batch e w2 = (r, w')"
        using less.prems(1) a Some c by (subst (asm) quarantineDurableBatch.simps) (simp add: Let_def)
      have "w_running w2 < w_running w"
        using c True by (auto simp: consult_def tally_def log_call_def split: if_splits)
      from less.hyps [OF this run] f e less.prems(3)
      show ?thesis by (intro settles_after [of "item_ids batch" w w2]) simp_all
    qed
  qed
qed

lemma worked_finish:
  assumes "w_calls w' = w_calls w @ cs" "quiet w w'"
    and "protocol (attempts_left rc batch) (List.map it_envelope batch) (item_ids batch) cs"
    and "settles (item_ids batch) (err = None) w w'"
    and "err = None \<Longrightarrow> Delivered (List.map it_envelope batch) None \<in> set cs"
    and "(\<exists>i\<in>set (item_ids batch). active (w_storage w') i = None) \<Longrightarrow>
        Delivered (List.map it_envelope batch) None \<in> set cs
        \<or> (\<exists>reason r. Quarantined (item_ids batch) reason r \<in> set cs)"
  shows "worked inv active rc batch w (finish batch outcomes err w')"
proof -
  have "\<forall>i. i \<notin> set (item_ids batch) \<longrightarrow> active (w_storage w') i = active (w_storage w) i"
    using assms(4) unfolding settles_def only_settled_def by blast
  then show ?thesis
    unfolding worked_def using assms
    by (intro exI [of _ cs] exI [of _ outcomes] exI [of _ err]) (auto simp: quiet_def settles_def)
qed

lemma work_delivered:
  assumes "deliver sink batch w = (Inr outcomes, w1)" "inv (w_storage w)" "distinct (item_ids batch)"
  shows "worked inv active rc batch w (work_loop True rc st sink batch w)"
proof -
  note d = deliver_fields [OF assms(1)]
  obtain r w2 where a: "ackDurableBatch st batch w1 = (r, w2)" by fastforce
  obtain cs where cs: "w_calls w2 = w_calls w1 @ cs" "cs \<noteq> []" "list_all (acking (item_ids batch)) cs" "quiet w1 w2"
    using ack_calls [OF a] by blast
  have e: "settles (item_ids batch) (r = None) w w2"
    using ack_effect [OF a] d assms(2,3) by (simp add: settles_def)
  let ?cs = "Delivered (List.map it_envelope batch) None # cs"
  have w: "worked inv active rc batch w (finish batch os err (tally f w2))" if "err = None \<longleftrightarrow> r = None" for os err f
    using d cs e that
    by (intro worked_finish [of _ _ ?cs]) (auto simp: quiet_def settles_def)
  show ?thesis
  proof (cases r)
    case None
    then show ?thesis using w [of None] assms(1) a by (subst work_loop.simps) simp
  next
    case (Some err)
    have "worked inv active rc batch w (finish batch [] (Some err) w2)"
      using w [of "Some err" "[]" "\<lambda>m. m"] Some by (simp add: tally_def)
    then show ?thesis using assms(1) a Some by (subst work_loop.simps) simp
  qed
qed

lemma work_failed:
  fixes w w1 w' :: "('s, 'k) work_state"
  assumes "after_failure rc st batch e w1 = (None, w')" "inv (w_storage w)"
    and held: "held active (w_storage w) (durableRecords batch)" and durable: "durable_batch batch"
    and "rc_MaxAttempts rc \<le> max_attempts"
    and w1: "w_storage w1 = w_storage w" "quiet w w1"
      "w_calls w1 = w_calls w @ [Delivered (List.map it_envelope batch) (Some e)]"
  shows "worked inv active rc batch w w'"
proof -
  have ids: "distinct (item_ids batch)" using held by (simp add: held_def item_ids_def)
  have alive: "active (w_storage w) i \<noteq> None" if "i \<in> set (item_ids batch)" for i
    using held that by (auto simp: held_def item_ids_set)
  have same: "settles (item_ids batch) False w w2" if "w_storage w2 = w_storage w" for w2 :: "('s, 'k) work_state"
    using that assms(2) by (simp add: settles_def)
  obtain b2 w2 where c2: "consult w1 = (b2, w2)" by fastforce
  note f2 = consult_fields [OF c2]
  show ?thesis
  proof (cases b2)
    case False
    have "worked inv active rc batch w (finish batch [] (Some ContextCanceled) w2)"
      using w1 f2 same [of w2] alive
      by (intro worked_finish [of _ _ "[Delivered (List.map it_envelope batch) (Some e)]"]) (auto simp: quiet_def, fastforce)
    then show ?thesis using assms(1) c2 False by (simp add: after_failure_def)
  next
    case running: True
    show ?thesis
    proof (cases "isPermanentSinkError e \<or> retryExhausted rc batch")
      case True
      obtain q w3 where a: "quarantineDurableBatch st batch e w2 = (q, w3)" by fastforce
      obtain cs where cs: "w_calls w3 = w_calls w2 @ cs" "cs \<noteq> []"
        "list_all (quarantining (item_ids batch) (quarantine_reason e)) cs" "quiet w2 w3"
        using quarantine_calls [OF a] by blast
      have s: "settles (item_ids batch) (q = None) w w3"
        using quarantine_effect [OF a] ids assms(2) w1 f2 by (simp add: settles_def)
      obtain c cs' where "cs = c # cs'" using cs(2) by (cases cs) auto
      then have q: "\<exists>reason r. Quarantined (item_ids batch) reason r \<in> set cs"
        using cs(3) by (auto simp: quarantining_def)
      have "worked inv active rc batch w (finish batch [] (Some err) (tally f w3))" for err f
        using w1 f2 cs s q True exhausted_left [OF durable, of rc]
        by (intro worked_finish [of _ _ "Delivered (List.map it_envelope batch) (Some e) # cs"])
          (auto simp: quiet_def settles_def)
      from this [of _ "\<lambda>m. m"] this
      show ?thesis
        using assms(1) c2 running True a
        by (auto simp: after_failure_def tally_def split: option.splits)
    next
      case False
      obtain r rs s' where m: "op_MarkRetry st (durableRecords batch) (w_storage w2) = (r, rs, s')" by (metis prod.exhaust)
      have left: "attempts_left rc batch > 1" using False exhausted_left [OF durable, of rc] by simp
      note below = attempts_below [OF left assms(5)]
      have st2: "w_storage w2 = w_storage w" using f2 w1 by simp
      note law = retry [OF assms(2) held below m [unfolded st2]]
      have fin: "worked inv active rc batch w (finish batch [] (Some err) w4)"
        if "w_calls w4 = w_calls w @ [Delivered (List.map it_envelope batch) (Some e), Retried (item_ids batch) x]"
          "quiet w w4" "w_storage w4 = s'" for err x and w4 :: "('s, 'k) work_state"
      proof -
        have "active s' i \<noteq> None" if "i \<in> set (item_ids batch)" for i using law alive [OF that] by blast
        moreover have "active s' i = active (w_storage w) i" if "i \<notin> set (item_ids batch)" for i
          using law that by (simp add: item_ids_set)
        ultimately show ?thesis
          unfolding worked_def using that law left False
          by (intro exI [of _ "[Delivered (List.map it_envelope batch) (Some e), Retried (item_ids batch) x]"]
              exI [of _ "[]"] exI [of _ "Some err"]) (auto simp: quiet_def split: option.splits)
      qed
      show ?thesis
      proof (cases r)
        case (Some se)
        then show ?thesis
          using assms(1) c2 running False m w1 f2
            fin [of "log_call (Retried (item_ids batch) (Some se)) (w2\<lparr>w_storage := s'\<rparr>)" "Some se" "StorageFailed se"]
          by (auto simp: after_failure_def retryDurableBatch_def quiet_def)
      next
        case None
        have b: "with_records batch rs = retried_batch batch"
          using law None durable with_records_retried by (simp add: durable_batch_def)
        let ?w3 = "tally (RecordSpoolRetry (of_nat (length rs))) (log_call (Retried (item_ids batch) None) (w2\<lparr>w_storage := s'\<rparr>))"
        obtain b4 w4 where c4: "consult ?w3 = (b4, w4)" by fastforce
        note f4 = consult_fields [OF c4]
        have "\<not> b4"
          using assms(1) c2 running False m None b c4 by (auto simp: after_failure_def retryDurableBatch_def)
        then have "w' = finish (retried_batch batch) [] (Some ContextCanceled) w4"
          using assms(1) c2 running False m None b c4 by (auto simp: after_failure_def retryDurableBatch_def)
        then have "w' = finish batch [] (Some ContextCanceled) w4"
          by (simp add: finish_def releaseRecords_def complete_def retried_batch_fields)
        then show ?thesis using fin [of w4 None ContextCanceled] w1 f2 f4 by (auto simp: quiet_def)
      qed
    qed
  qed
qed

lemma work_continues:
  assumes "after_failure rc st batch e w1 = (Some (batch', w4), w5)" "inv (w_storage w)"
    and held: "held active (w_storage w) (durableRecords batch)" and durable: "durable_batch batch"
    and "rc_MaxAttempts rc \<le> max_attempts"
    and w1: "w_storage w1 = w_storage w" "quiet w w1"
      "w_calls w1 = w_calls w @ [Delivered (List.map it_envelope batch) (Some e)]"
  shows "batch' = retried_batch batch \<and> quiet w w4 \<and> inv (w_storage w4)
    \<and> w_calls w4 = w_calls w @ [Delivered (List.map it_envelope batch) (Some e), Retried (item_ids batch) None]
    \<and> held active (w_storage w4) (durableRecords (retried_batch batch))
    \<and> (\<forall>i. i \<notin> set (item_ids batch) \<longrightarrow> active (w_storage w4) i = active (w_storage w) i)
    \<and> attempts_left rc batch > 1 \<and> \<not> isPermanentSinkError e"
proof -
  obtain b2 w2 where c2: "consult w1 = (b2, w2)" by fastforce
  note f2 = consult_fields [OF c2]
  obtain r rs s' where m: "op_MarkRetry st (durableRecords batch) (w_storage w2) = (r, rs, s')" by (metis prod.exhaust)
  let ?w3 = "tally (RecordSpoolRetry (of_nat (length rs))) (log_call (Retried (item_ids batch) None) (w2\<lparr>w_storage := s'\<rparr>))"
  obtain b3 w3 where c3: "consult ?w3 = (b3, w3)" by fastforce
  note f3 = consult_fields [OF c3]
  have go: "\<not> (isPermanentSinkError e \<or> retryExhausted rc batch)" "r = None" "batch' = with_records batch rs" "w4 = w3"
    using assms(1) c2 m c3
    by (auto simp: after_failure_def retryDurableBatch_def split: bool.splits if_splits option.splits prod.splits)
  have left: "attempts_left rc batch > 1" using go(1) exhausted_left [OF durable, of rc] by simp
  note attempts_below [OF left assms(5)]
  moreover have "w_storage w2 = w_storage w" using f2 w1 by simp
  ultimately have law: "inv s'" "\<forall>i. i \<notin> RecordID ` set (durableRecords batch) \<longrightarrow> active s' i = active (w_storage w) i"
    "rs = List.map retried (durableRecords batch)" "held active s' rs"
    using retry [OF assms(2) held _ m [unfolded \<open>w_storage w2 = w_storage w\<close>]] go(2) by blast+
  have "batch' = retried_batch batch"
    using go(3) law(3) durable with_records_retried by (simp add: durable_batch_def)
  moreover have "quiet w w4" using go(4) f2 f3 w1 by (simp add: quiet_def)
  moreover have "w_storage w4 = s'" using go(4) f3 by simp
  moreover have "w_calls w4 = w_calls w @ [Delivered (List.map it_envelope batch) (Some e), Retried (item_ids batch) None]"
    using go(4) f2 f3 w1 by simp
  ultimately show ?thesis
    using go(1) left law unfolding durableRecords_retried item_ids_set by simp
qed

lemma work_loop_worked:
  assumes "inv (w_storage w)" "held active (w_storage w) (durableRecords batch)" "durable_batch batch"
    and "rc_MaxAttempts rc \<le> max_attempts"
  shows "worked inv active rc batch w (work_loop True rc st sink batch w)"
  using assms
proof (induction "w_running w" arbitrary: w batch rule: less_induct)
  case less
  have ids: "distinct (item_ids batch)" using less.prems(2) by (simp add: held_def item_ids_def)
  obtain r w1 where d: "deliver sink batch w = (r, w1)" by fastforce
  note df = deliver_fields [OF d]
  show ?case
  proof (cases r)
    case (Inr outcomes)
    then show ?thesis using work_delivered d less.prems(1) ids by blast
  next
    case (Inl e)
    let ?w1 = "tally RecordError w1"
    have w1: "w_storage ?w1 = w_storage w" "quiet w ?w1"
      "w_calls ?w1 = w_calls w @ [Delivered (List.map it_envelope batch) (Some e)]"
      using df Inl by (auto simp: quiet_def)
    obtain x w3 where f: "after_failure rc st batch e ?w1 = (x, w3)" by fastforce
    show ?thesis
    proof (cases x)
      case None
      then have "work_loop True rc st sink batch w = w3"
        using d Inl f by (subst work_loop.simps) simp
      then show ?thesis using work_failed [OF _ less.prems w1] f None by simp
    next
      case (Some y)
      then obtain batch' w4 where y: "x = Some (batch', w4)" by fastforce
      then have loop: "work_loop True rc st sink batch w = work_loop True rc st sink batch' w4"
        using d Inl f by (subst work_loop.simps) simp
      note c = work_continues [OF f [unfolded y] less.prems w1]
      have "w_running w4 < w_running w"
        using after_failure_running [OF f [unfolded y]] df by (simp add: tally_def)
      from less.hyps [OF this _ _ _ less.prems(4)] c less.prems(3)
      have "worked inv active rc (retried_batch batch) w4 (work_loop True rc st sink batch' w4)"
        by (simp add: retried_batch_fields)
      moreover have "protocol (attempts_left rc batch) (List.map it_envelope batch) (item_ids batch)
          ([Delivered (List.map it_envelope batch) (Some e), Retried (item_ids batch) None] @ cs)"
        if "protocol (attempts_left rc (retried_batch batch)) (List.map it_envelope batch) (item_ids batch) cs" for cs
        using that c attempts_left_retried [OF less.prems(3)] by simp
      ultimately show ?thesis unfolding loop using c worked_later by blast
    qed
  qed
qed

end

end
