(* ===== verification/Pipeline_System.thy ===== *)
theory Pipeline_System
  imports Storage_Contract
begin

text \<open>
  The pipeline with a durable storage as a system of interleaved steps: clients that submit, the
  loader, the dispatcher and the workers (\<open>loadDurableRecords\<close>, \<open>dispatch\<close>, \<open>work\<close> of
  \<open>runtime/go/internal/pipeline/pipeline.go\<close>). A step is a part of the code that runs under the locks, touches one
  channel or makes one call of the storage. What the locks exclude is one step: \<open>admissionBarrier\<close>
  makes the append of a record and the registration of its waiter one step for the loader, and
  \<open>stateMutex\<close> its read of the storage and its mark of the record. Timers and the race between them
  are nondeterminism: the dispatcher may flush at any time, a worker may stop when the context is
  cancelled.
\<close>

section \<open>State\<close>

text \<open>\<open>pp_work\<close>: the batch of each worker, and whether the worker has begun to settle its records.
  \<open>pp_channels\<close> are the result channels made so far.\<close>

record 's pipeline =
  pp_storage :: 's
  pp_accepting :: bool
  pp_cancelled :: bool
  pp_waiters :: "u64 \<rightharpoonup> nat"
  pp_channels :: "nat set"
  pp_inFlight :: "u64 set"
  pp_cursor :: u64
  pp_loading :: "item option"
  pp_queue :: "item list"
  pp_pending :: "item list"
  pp_outbox :: "(nat \<times> item list) list"
  pp_jobs :: "item list option list"
  pp_work :: "(item list \<times> bool) option list"
  pp_results :: "(nat \<times> item_result) list"

definition new_pipeline :: "pipeline_config \<Rightarrow> 's \<Rightarrow> 's pipeline" where
  "new_pipeline c s =
     \<lparr>pp_storage = s, pp_accepting = True, pp_cancelled = False, pp_waiters = Map.empty, pp_channels = {},
      pp_inFlight = {}, pp_cursor = 0, pp_loading = None, pp_queue = [], pp_pending = [], pp_outbox = [],
      pp_jobs = replicate (nat (pc_Workers c)) None, pp_work = replicate (nat (pc_Workers c)) None, pp_results = []\<rparr>"

text \<open>\<open>enqueue\<close> after the storage took the record: the waiter is registered, if somebody waits.\<close>

definition register :: "nat option \<Rightarrow> u64 \<Rightarrow> 's pipeline \<Rightarrow> 's pipeline" where
  "register ch i p = (case ch of
     None \<Rightarrow> p
   | Some ch \<Rightarrow> p\<lparr>pp_waiters := (pp_waiters p)(i \<mapsto> ch), pp_channels := insert ch (pp_channels p)\<rparr>)"

text \<open>\<open>loadDurableRecords\<close> after \<open>NextAfter\<close>: a record is marked and taken unless it is in flight; at the end
  of the storage the scan starts over; a corrupt record of the legacy spool is passed by.\<close>

definition load :: "(u64 + spool_record) option \<times> spool_error option \<Rightarrow> 's pipeline \<Rightarrow> 's pipeline" where
  "load x p = (case x of
     (found, Some e) \<Rightarrow>
       (case found of
          Some (Inl i) \<Rightarrow> if e = ErrCorruptRecord then p\<lparr>pp_cursor := i\<rparr> else p
        | Some (Inr r) \<Rightarrow> if e = ErrCorruptRecord then p\<lparr>pp_cursor := RecordID r\<rparr> else p
        | None \<Rightarrow> p)
   | (Some (Inr r), None) \<Rightarrow>
       if RecordID r \<in> pp_inFlight p then p\<lparr>pp_cursor := RecordID r\<rparr>
       else p\<lparr>pp_cursor := RecordID r, pp_inFlight := insert (RecordID r) (pp_inFlight p),
              pp_loading := Some \<lparr>it_envelope = Envelope r, it_result = pp_waiters p (RecordID r), it_record = Some r\<rparr>\<rparr>
   | (Some (Inl i), None) \<Rightarrow> p\<lparr>pp_cursor := i\<rparr>
   | (None, None) \<Rightarrow> p\<lparr>pp_cursor := 0\<rparr>)"

text \<open>\<open>complete\<close> and \<open>releaseRecords\<close>.\<close>

definition release :: "item list \<Rightarrow> 's pipeline \<Rightarrow> 's pipeline" where
  "release batch p = p\<lparr>pp_inFlight := pp_inFlight p - set (item_ids batch),
     pp_waiters := pp_waiters p |` (- set (item_ids batch))\<rparr>"

definition conclude :: "item list \<Rightarrow> outcome list \<Rightarrow> pipeline_error option \<Rightarrow> 's pipeline \<Rightarrow> 's pipeline" where
  "conclude batch outcomes err p = release batch (p\<lparr>pp_results := pp_results p @ batch_results 0 batch outcomes err\<rparr>)"

section \<open>Steps\<close>

inductive pipeline_step :: "pipeline_config \<Rightarrow> 's storage_ops \<Rightarrow> ('s \<Rightarrow> bool) \<Rightarrow> 's pipeline \<Rightarrow> 's pipeline \<Rightarrow> bool"
  for c :: pipeline_config and st :: "'s storage_ops" and room :: "'s \<Rightarrow> bool" where
  submit: "pp_accepting p \<Longrightarrow> room (pp_storage p) \<Longrightarrow> op_Append st e (pp_storage p) = (Inr r, s) \<Longrightarrow>
    (\<forall>x. ch = Some x \<longrightarrow> x \<notin> pp_channels p) \<Longrightarrow>
    pipeline_step c st room p (register ch (RecordID r) (p\<lparr>pp_storage := s\<rparr>))"
| refuse: "pp_accepting p \<Longrightarrow> room (pp_storage p) \<Longrightarrow> op_Append st e (pp_storage p) = (Inl err, s) \<Longrightarrow>
    pipeline_step c st room p (p\<lparr>pp_storage := s\<rparr>)"
| close: "pipeline_step c st room p (p\<lparr>pp_accepting := False\<rparr>)"
| cancel: "pipeline_step c st room p (p\<lparr>pp_cancelled := True\<rparr>)"
| read: "pp_loading p = None \<Longrightarrow> op_NextAfter st (pp_cursor p) (pp_storage p) = (x, s) \<Longrightarrow>
    pipeline_step c st room p (load x (p\<lparr>pp_storage := s\<rparr>))"
| send: "pp_loading p = Some entry \<Longrightarrow> int (length (pp_queue p)) < pc_QueueSize c \<Longrightarrow>
    pipeline_step c st room p (p\<lparr>pp_queue := pp_queue p @ [entry], pp_loading := None\<rparr>)"
| drop_loading: "pp_cancelled p \<Longrightarrow> pp_loading p = Some entry \<Longrightarrow>
    pipeline_step c st room p (release [entry] (p\<lparr>pp_loading := None\<rparr>))"
| take: "pp_queue p = entry # q \<Longrightarrow> pp_outbox p = [] \<Longrightarrow> int (unat (batchEventCount (pp_pending p))) < pc_BatchSize c \<Longrightarrow>
    pipeline_step c st room p (p\<lparr>pp_queue := q, pp_pending := pp_pending p @ [entry]\<rparr>)"
| flush: "pp_outbox p = [] \<Longrightarrow>
    pipeline_step c st room p (p\<lparr>pp_outbox := flush_batches (length (pp_jobs p)) (pp_pending p), pp_pending := []\<rparr>)"
| dispatch: "pp_outbox p = (k, batch) # out \<Longrightarrow> k < length (pp_jobs p) \<Longrightarrow> pp_jobs p ! k = None \<Longrightarrow>
    pipeline_step c st room p (p\<lparr>pp_outbox := out, pp_jobs := (pp_jobs p)[k := Some batch]\<rparr>)"
| drop_batch: "pp_cancelled p \<Longrightarrow> pp_outbox p = (k, batch) # out \<Longrightarrow>
    pipeline_step c st room p (conclude batch [] (Some ContextCanceled) (p\<lparr>pp_outbox := out\<rparr>))"
| drop_pending: "pp_cancelled p \<Longrightarrow> pp_outbox p = [] \<Longrightarrow>
    pipeline_step c st room p (conclude (pp_pending p) [] (Some ContextCanceled) (p\<lparr>pp_pending := []\<rparr>))"
| drop_queued: "pp_cancelled p \<Longrightarrow> pp_queue p = entry # q \<Longrightarrow>
    pipeline_step c st room p (conclude [entry] [] (Some ContextCanceled) (p\<lparr>pp_queue := q\<rparr>))"
| start: "k < length (pp_jobs p) \<Longrightarrow> pp_jobs p ! k = Some batch \<Longrightarrow> pp_work p ! k = None \<Longrightarrow>
    pipeline_step c st room p (p\<lparr>pp_jobs := (pp_jobs p)[k := None], pp_work := (pp_work p)[k := Some (batch, False)]\<rparr>)"
| retry: "k < length (pp_work p) \<Longrightarrow> pp_work p ! k = Some (batch, False) \<Longrightarrow> \<not> retryExhausted (pc_Retry c) batch \<Longrightarrow>
    op_MarkRetry st (durableRecords batch) (pp_storage p) = (None, rs, s) \<Longrightarrow>
    pipeline_step c st room p (p\<lparr>pp_storage := s, pp_work := (pp_work p)[k := Some (with_records batch rs, False)]\<rparr>)"
| retry_failed: "k < length (pp_work p) \<Longrightarrow> pp_work p ! k = Some (batch, False) \<Longrightarrow> \<not> retryExhausted (pc_Retry c) batch \<Longrightarrow>
    op_MarkRetry st (durableRecords batch) (pp_storage p) = (Some e, rs, s) \<Longrightarrow>
    pipeline_step c st room p (p\<lparr>pp_storage := s, pp_work := (pp_work p)[k := Some (batch, True)]\<rparr>)"
| settle: "k < length (pp_work p) \<Longrightarrow> pp_work p ! k = Some (batch, begun) \<Longrightarrow>
    op_Ack st (durableRecords batch) (pp_storage p) = (x, s)
      \<or> op_Quarantine st (durableRecords batch) reason (pp_storage p) = (x, s) \<Longrightarrow>
    pipeline_step c st room p (p\<lparr>pp_storage := s, pp_work := (pp_work p)[k := Some (batch, True)]\<rparr>)"
| finished: "k < length (pp_work p) \<Longrightarrow> pp_work p ! k = Some (batch, begun) \<Longrightarrow>
    pipeline_step c st room p (conclude batch outcomes err (p\<lparr>pp_work := (pp_work p)[k := None]\<rparr>))"

inductive pipeline_reachable :: "pipeline_config \<Rightarrow> 's storage_ops \<Rightarrow> ('s \<Rightarrow> bool) \<Rightarrow> 's \<Rightarrow> 's pipeline \<Rightarrow> bool"
  for c :: pipeline_config and st :: "'s storage_ops" and room :: "'s \<Rightarrow> bool" and s0 :: 's where
  initially: "pipeline_reachable c st room s0 (new_pipeline c s0)"
| later: "pipeline_reachable c st room s0 p \<Longrightarrow> pipeline_step c st room p p' \<Longrightarrow> pipeline_reachable c st room s0 p'"

section \<open>Where the records are\<close>

definition items_of :: "('a \<Rightarrow> item list) \<Rightarrow> 'a list \<Rightarrow> item multiset" where
  "items_of f xs = mset (List.concat (List.map f xs))"

definition worked_on :: "bool \<Rightarrow> (item list \<times> bool) option \<Rightarrow> item list" where
  "worked_on begun x = (case x of Some (batch, b) \<Rightarrow> if b = begun then batch else [] | None \<Rightarrow> [])"

text \<open>The items whose records nobody has begun to settle, and those being settled.\<close>

definition resting :: "'s pipeline \<Rightarrow> item multiset" where
  "resting p = (case pp_loading p of None \<Rightarrow> {#} | Some x \<Rightarrow> {#x#}) + mset (pp_queue p) + mset (pp_pending p)
     + items_of snd (pp_outbox p) + items_of optional_list (pp_jobs p) + items_of (worked_on False) (pp_work p)"

definition settling :: "'s pipeline \<Rightarrow> item multiset" where
  "settling p = items_of (worked_on True) (pp_work p)"

lemma items_of_simps [simp]:
  "items_of f [] = {#}" "items_of f (x # xs) = mset (f x) + items_of f xs"
  by (simp_all add: items_of_def)

lemma items_of_update:
  "k < length xs \<Longrightarrow> items_of f (xs[k := y]) + mset (f (xs ! k)) = items_of f xs + mset (f y)"
proof (induction xs arbitrary: k)
  case (Cons x xs)
  then show ?case by (cases k) (simp_all add: ac_simps)
qed simp

lemma items_of_gone:
  assumes "k < length xs" "f y = []"
  shows "items_of f xs = items_of f (xs[k := y]) + mset (f (xs ! k))"
  using items_of_update [OF assms(1), of f y] assms(2) by simp

lemma items_of_new:
  assumes "k < length xs" "f (xs ! k) = []"
  shows "items_of f (xs[k := y]) = items_of f xs + mset (f y)"
  using items_of_update [OF assms(1), of f y] assms(2) by simp

lemma items_of_same:
  assumes "k < length xs" "f (xs ! k) = f y"
  shows "items_of f (xs[k := y]) = items_of f xs"
  using items_of_update [OF assms(1), of f y] assms(2) by simp

lemma optional_simps [simp]: "optional_list None = []" "optional_list (Some xs) = xs"
  by (simp_all add: optional_list_def)

lemma worked_on_simps [simp]: "worked_on b None = []" "worked_on b (Some (xs, c)) = (if c = b then xs else [])"
  by (simp_all add: worked_on_def)

end
