(* ===== verification/Pipeline_Safety.thy ===== *)
theory Pipeline_Safety
  imports Pipeline_System
begin

text \<open>
  The invariant of the pipeline over every interleaving: each record in flight is in one place
  only, the attempts its item carries are those the storage has as long as nobody settles it, and
  every result channel is used once. The storage is any that obeys the laws of the locale.
\<close>

section \<open>The contract of the storage\<close>

locale pipeline_storage = settlement +
  fixes known :: "'a \<Rightarrow> u64 set" and room :: "'a \<Rightarrow> bool"
  assumes active_known: "inv s \<Longrightarrow> active s i \<noteq> None \<Longrightarrow> i \<in> known s"
    and append: "\<lbrakk>inv s; room s; op_Append st e s = (r, s')\<rbrakk> \<Longrightarrow>
      inv s' \<and> known s \<subseteq> known s' \<and> (\<forall>i\<in>known s. active s' i = active s i)
      \<and> (\<forall>r'. r = Inr r' \<longrightarrow> RecordID r' \<in> known s' - known s)"
    and next_after: "\<lbrakk>inv s; op_NextAfter st i s = (x, s')\<rbrakk> \<Longrightarrow>
      inv s' \<and> known s' = known s \<and> active s' = active s
      \<and> (\<forall>r. x = (Some (Inr r), None) \<longrightarrow> active s (RecordID r) = Some (Attempts r))"
    and ack_known: "inv s \<Longrightarrow> distinct (List.map RecordID rs) \<Longrightarrow> op_Ack st rs s = (failure, s') \<Longrightarrow> known s' = known s"
    and quarantine_known: "inv s \<Longrightarrow> distinct (List.map RecordID rs) \<Longrightarrow> op_Quarantine st rs reason s = (failure, s') \<Longrightarrow> known s' = known s"
    and retry_known: "\<lbrakk>inv s; held active s rs; \<forall>r\<in>set rs. int (Attempts r) + 1 < max_attempts;
      op_MarkRetry st rs s = (failure, rs', s')\<rbrakk> \<Longrightarrow> known s' = known s"

section \<open>The invariant\<close>

definition item_id :: "item \<Rightarrow> u64" where
  "item_id x = RecordID (the (it_record x))"

definition item_held :: "('s \<Rightarrow> u64 \<Rightarrow> nat option) \<Rightarrow> 's \<Rightarrow> item \<Rightarrow> bool" where
  "item_held active s x \<longleftrightarrow> active s (item_id x) = Some (Attempts (the (it_record x)))"

definition channels_of :: "item multiset \<Rightarrow> nat multiset" where
  "channels_of M = image_mset (\<lambda>x. the (it_result x)) (filter_mset (\<lambda>x. it_result x \<noteq> None) M)"

definition waiting :: "(u64 \<rightharpoonup> nat) \<Rightarrow> u64 set \<Rightarrow> nat multiset" where
  "waiting W F = image_mset (\<lambda>i. the (W i)) (mset_set (dom W - F))"

text \<open>\<open>R\<close> are the items whose records nobody settles, \<open>S\<close> those being settled, \<open>F\<close> the records in
  flight, \<open>W\<close> the waiters, \<open>U\<close> the channels made, \<open>res\<close> the results sent.\<close>

definition core_ok :: "('s \<Rightarrow> bool) \<Rightarrow> ('s \<Rightarrow> u64 \<Rightarrow> nat option) \<Rightarrow> ('s \<Rightarrow> u64 set) \<Rightarrow> 's \<Rightarrow> item multiset \<Rightarrow> item multiset
    \<Rightarrow> u64 set \<Rightarrow> (u64 \<rightharpoonup> nat) \<Rightarrow> nat set \<Rightarrow> (nat \<times> item_result) list \<Rightarrow> bool" where
  "core_ok ok active known s R S F W U res \<longleftrightarrow> ok s \<and> finite F \<and> F \<subseteq> known s \<and> finite (dom W) \<and> dom W \<subseteq> known s
     \<and> (\<forall>x. x \<in># R + S \<longrightarrow> it_record x \<noteq> None)
     \<and> image_mset item_id (R + S) = mset_set F
     \<and> (\<forall>x. x \<in># R \<longrightarrow> item_held active s x)
     \<and> (\<forall>ch. count (mset (List.map fst res) + channels_of (R + S) + waiting W F) ch \<le> (if ch \<in> U then 1 else 0))"

definition batch_at :: "nat \<Rightarrow> nat \<Rightarrow> item list \<Rightarrow> bool" where
  "batch_at n k b \<longleftrightarrow> b \<noteq> [] \<and> (\<forall>x\<in>set b. workerIndex (it_envelope x) n = k)"

definition batches_ok :: "'s pipeline \<Rightarrow> bool" where
  "batches_ok p \<longleftrightarrow> length (pp_work p) = length (pp_jobs p)
     \<and> (\<forall>(k, b)\<in>set (pp_outbox p). batch_at (length (pp_jobs p)) k b)
     \<and> (\<forall>k<length (pp_jobs p). \<forall>b. pp_jobs p ! k = Some b \<longrightarrow> batch_at (length (pp_jobs p)) k b)
     \<and> (\<forall>k<length (pp_jobs p). \<forall>b begun. pp_work p ! k = Some (b, begun) \<longrightarrow> batch_at (length (pp_jobs p)) k b)"

definition pipeline_ok :: "('s \<Rightarrow> bool) \<Rightarrow> ('s \<Rightarrow> u64 \<Rightarrow> nat option) \<Rightarrow> ('s \<Rightarrow> u64 set) \<Rightarrow> 's pipeline \<Rightarrow> bool" where
  "pipeline_ok ok active known p \<longleftrightarrow> core_ok ok active known (pp_storage p) (resting p) (settling p) (pp_inFlight p)
     (pp_waiters p) (pp_channels p) (pp_results p) \<and> batches_ok p"

section \<open>Channels\<close>

lemma channels_of_simps [simp]:
  "channels_of {#} = {#}" "channels_of (M + N) = channels_of M + channels_of N"
  by (simp_all add: channels_of_def)

lemma channels_of_single [simp]:
  "channels_of {#x#} = (case it_result x of None \<Rightarrow> {#} | Some ch \<Rightarrow> {#ch#})"
  by (simp add: channels_of_def split: option.split)

lemma channels_of_add [simp]:
  "channels_of (add_mset x M) = (case it_result x of None \<Rightarrow> {#} | Some ch \<Rightarrow> {#ch#}) + channels_of M"
  by (simp add: channels_of_def split: option.split)

lemma batch_results_channels: "mset (List.map fst (batch_results k batch os err)) = channels_of (mset batch)"
proof (induction batch arbitrary: k)
  case (Cons x batch)
  then show ?case using Cons [of "k + 1"] by (simp add: Let_def split: option.split)
qed simp

lemma item_ids_eq: "\<forall>x\<in>set batch. it_record x \<noteq> None \<Longrightarrow> item_ids batch = List.map item_id batch"
  by (induction batch) (auto simp: item_ids_def item_id_def)

lemma durable_records_eq: "\<forall>x\<in>set batch. it_record x \<noteq> None \<Longrightarrow> durableRecords batch = List.map (\<lambda>x. the (it_record x)) batch"
  by (induction batch) auto

lemma mset_set_split:
  assumes "finite F" "mset_set F = image_mset f B + N"
  shows "mset_set (F - f ` set_mset B) = N" "set_mset (image_mset f B) \<inter> set_mset N = {}" "f ` set_mset B \<subseteq> F"
proof -
  have c: "count (image_mset f B) x + count N x = (if x \<in> F then 1 else 0)" for x
  proof -
    have "count (image_mset f B + N) x = (if x \<in> F then 1 else 0)"
      unfolding assms(2) [symmetric] using assms(1) by (simp add: count_mset_set')
    then show ?thesis by simp
  qed
  have le: "count (image_mset f B) x + count N x \<le> 1" for x
    unfolding c by simp
  show sub: "f ` set_mset B \<subseteq> F"
  proof
    fix x
    assume "x \<in> f ` set_mset B"
    then have "count (image_mset f B) x \<noteq> 0" by (simp only: count_eq_zero_iff set_image_mset not_not)
    then show "x \<in> F" using c [of x] by (metis add_is_0)
  qed
  show "set_mset (image_mset f B) \<inter> set_mset N = {}"
  proof (rule ccontr)
    assume "\<not> ?thesis"
    then obtain x where "0 < count (image_mset f B) x" "0 < count N x" by (auto simp only: count_greater_zero_iff disjoint_iff)
    then show False using le [of x] by linarith
  qed
  show "mset_set (F - f ` set_mset B) = N"
  proof (rule multiset_eqI)
    fix x
    show "count (mset_set (F - f ` set_mset B)) x = count N x"
    proof (cases "x \<in> f ` set_mset B")
      case True
      then have "count (image_mset f B) x \<noteq> 0" by (simp only: count_eq_zero_iff set_image_mset not_not)
      then have "count N x = 0" using le [of x] by linarith
      then show ?thesis using True assms(1) by (simp add: count_mset_set')
    next
      case False
      then have "count (image_mset f B) x = 0" by (simp only: count_eq_zero_iff set_image_mset not_False_eq_True)
      then show ?thesis using c [of x] False assms(1) by (simp add: count_mset_set')
    qed
  qed
qed

lemma waiting_release:
  assumes "finite (dom W)" "I \<subseteq> F"
  shows "waiting (W |` (- I)) (F - I) = waiting W F"
proof -
  have "dom (W |` (- I)) - (F - I) = dom W - F" using assms(2) by (auto simp: restrict_map_def split: if_splits)
  moreover have "the ((W |` (- I)) i) = the (W i)" if "i \<in> dom W - F" for i
    using that assms(2) by (auto simp: restrict_map_def)
  ultimately show ?thesis unfolding waiting_def
    using assms(1) by (auto intro: image_mset_cong)
qed

section \<open>Steps of the core\<close>

lemma core_storage:
  assumes "core_ok ok active known s R S F W U res" "ok s'" "known s \<subseteq> known s'"
    and "\<And>x. x \<in># R \<Longrightarrow> active s' (item_id x) = active s (item_id x)"
  shows "core_ok ok active known s' R S F W U res"
  using assms unfolding core_ok_def item_held_def by auto

text \<open>The worker begins to settle a batch, or goes on: whatever becomes of its records.\<close>

lemma core_settle:
  assumes "core_ok ok active known s R S F W U res" "ok s'" "known s' = known s"
    and "R + S = R' + S'" "R' \<subseteq># R"
    and "\<And>x. x \<in># R' \<Longrightarrow> active s' (item_id x) = active s (item_id x)"
  shows "core_ok ok active known s' R' S' F W U res"
proof -
  have "x \<in># R" if "x \<in># R'" for x using that assms(5) by (rule mset_subset_eqD [rotated])
  then show ?thesis using assms unfolding core_ok_def item_held_def by simp
qed

text \<open>A batch leaves the pipeline; its results are sent, or nobody waits for them any more.\<close>

lemma core_release:
  assumes c: "core_ok ok active known s R S F W U res"
    and p: "R + S = mset batch + (R' + S')" "R' \<subseteq># R"
    and r: "mset (List.map fst res') \<subseteq># mset (List.map fst res) + channels_of (mset batch)"
  shows "core_ok ok active known s R' S' (F - set (item_ids batch)) (W |` (- set (item_ids batch))) U res'"
proof -
  have recs: "\<forall>x\<in>set batch. it_record x \<noteq> None" using c p(1) by (auto simp: core_ok_def)
  have ids: "set (item_ids batch) = item_id ` set_mset (mset batch)" using item_ids_eq [OF recs] by simp
  have F: "finite F" "mset_set F = image_mset item_id (mset batch) + image_mset item_id (R' + S')"
    using c p(1) by (simp_all add: core_ok_def)
  note split = mset_set_split [OF F, folded ids]
  have w: "waiting (W |` (- set (item_ids batch))) (F - set (item_ids batch)) = waiting W F"
    using c split(3) by (intro waiting_release) (simp_all add: core_ok_def)
  have sub: "mset (List.map fst res') + channels_of (R' + S') + waiting W F
      \<subseteq># mset (List.map fst res) + channels_of (R + S) + waiting W F"
    using r by (simp add: p(1) ac_simps)
  have "count (mset (List.map fst res') + channels_of (R' + S') + waiting W F) ch \<le> (if ch \<in> U then 1 else 0)" for ch
    using mset_subset_eq_count [OF sub, of ch] c unfolding core_ok_def by (metis order_trans)
  moreover have "item_held active s x" if "x \<in># R'" for x
    using c mset_subset_eqD [OF p(2) that] by (simp add: core_ok_def)
  moreover have "it_record x \<noteq> None" if "x \<in># R' + S'" for x
    using that c unfolding core_ok_def p(1) by auto
  moreover have "finite (dom (W |` (- set (item_ids batch))))" "dom (W |` (- set (item_ids batch))) \<subseteq> known s"
    using c by (auto simp: core_ok_def)
  ultimately show ?thesis using c split(1) unfolding core_ok_def w by auto
qed

text \<open>The loader takes a record that is not in flight.\<close>

lemma core_load:
  assumes c: "core_ok ok active known s R S F W U res"
    and r: "active s (RecordID r) = Some (Attempts r)" "RecordID r \<in> known s" "RecordID r \<notin> F"
    and x: "x = \<lparr>it_envelope = Envelope r, it_result = W (RecordID r), it_record = Some r\<rparr>"
  shows "core_ok ok active known s (add_mset x R) S (insert (RecordID r) F) W U res"
proof -
  let ?i = "RecordID r"
  have i: "item_id x = ?i" by (simp add: x item_id_def)
  have "waiting W F = (case W ?i of None \<Rightarrow> {#} | Some ch \<Rightarrow> {#ch#}) + waiting W (insert ?i F)"
  proof (cases "W ?i")
    case None
    then have "dom W - F = dom W - insert ?i F" by auto
    then show ?thesis using None by (simp add: waiting_def)
  next
    case (Some ch)
    then have "dom W - F = insert ?i (dom W - insert ?i F)" using r(3) by auto
    then show ?thesis using Some c by (simp add: waiting_def core_ok_def)
  qed
  then have w: "mset (List.map fst res) + channels_of (add_mset x R + S) + waiting W (insert ?i F)
      = mset (List.map fst res) + channels_of (R + S) + waiting W F"
    by (simp add: x ac_simps)
  have f: "finite F" "image_mset item_id (R + S) = mset_set F" using c by (simp_all add: core_ok_def)
  then have "image_mset item_id (add_mset x R + S) = mset_set (insert ?i F)" using r(3) i by simp
  moreover have "it_record x \<noteq> None" "item_held active s x" using r(1) by (simp_all add: x item_held_def item_id_def)
  ultimately show ?thesis using c r(2) f(1) unfolding core_ok_def w by auto
qed

text \<open>A client's record is stored and its waiter registered.\<close>

lemma core_register:
  assumes c: "core_ok ok active known s R S F W U res" and i: "i \<notin> F" "i \<notin> dom W" "i \<in> known s" and ch: "ch \<notin> U"
  shows "core_ok ok active known s R S F (W(i \<mapsto> ch)) (insert ch U) res"
proof -
  have d: "dom (W(i \<mapsto> ch)) - F = insert i (dom W - F)" using i by auto
  have m: "the ((W(i \<mapsto> ch)) j) = the (W j)" if "j \<in> dom W - F" for j using that i by auto
  have fin: "finite (dom W - F)" using c by (simp add: core_ok_def)
  have n: "i \<notin> dom W - F" using i by simp
  have "image_mset (\<lambda>j. the ((W(i \<mapsto> ch)) j)) (mset_set (dom W - F)) = image_mset (\<lambda>j. the (W j)) (mset_set (dom W - F))"
    by (rule image_mset_cong) (use m fin in simp)
  then have w: "waiting (W(i \<mapsto> ch)) F = add_mset ch (waiting W F)"
    unfolding waiting_def d mset_set.insert [OF fin n] by simp
  have old: "count (mset (List.map fst res) + channels_of (R + S) + waiting W F) x \<le> (if x \<in> U then 1 else 0)" for x
    using c unfolding core_ok_def by blast
  have "count (mset (List.map fst res) + channels_of (R + S) + waiting (W(i \<mapsto> ch)) F) x \<le> (if x \<in> insert ch U then 1 else 0)" for x
  proof (cases "x = ch")
    case True
    then have "count (mset (List.map fst res) + channels_of (R + S) + waiting W F) x \<le> 0"
      using old [of x] ch by simp
    then show ?thesis using True unfolding w by simp
  next
    case False
    then show ?thesis
      using old [of x] unfolding w by simp
  qed
  then show ?thesis using c i unfolding core_ok_def by auto
qed

text \<open>The records of a batch are marked for another delivery.\<close>

lemma core_retry:
  assumes c: "core_ok ok active known s R S F W U res" and "ok s'" "known s' = known s"
    and R: "R = mset batch + R0" and b: "batch' = retried_batch batch"
    and held: "held active s' (List.map retried (durableRecords batch))"
    and others: "\<And>i. i \<notin> set (item_ids batch) \<Longrightarrow> active s' i = active s i"
  shows "core_ok ok active known s' (mset batch' + R0) S F W U res"
proof -
  have recs: "\<forall>x\<in>set batch. it_record x \<noteq> None" using c R by (auto simp: core_ok_def)
  have ids: "image_mset item_id (mset batch') = image_mset item_id (mset batch)"
    using recs unfolding b by (induction batch) (auto simp: retried_batch_def item_id_def retried_def)
  have ch: "channels_of (mset batch') = channels_of (mset batch)"
    unfolding b by (induction batch) (auto simp: retried_batch_def)
  have "image_mset item_id (R + S) = mset_set F" using c unfolding core_ok_def by blast
  then have "mset_set F = image_mset item_id (mset batch) + image_mset item_id (R0 + S)" by (simp add: R ac_simps)
  moreover have "finite F" using c by (simp add: core_ok_def)
  ultimately have "mset_set F = image_mset item_id (mset batch) + image_mset item_id (R0 + S)" "finite F" by blast+
  from mset_set_split(2) [OF this(2,1)] have apart: "item_id x \<notin> set (item_ids batch)" if "x \<in># R0" for x
    using that item_ids_eq [OF recs] by auto
  have "item_held active s' x" if x: "x \<in> set batch'" for x
  proof -
    obtain y where y: "y \<in> set batch" "x = y\<lparr>it_record := map_option retried (it_record y)\<rparr>"
      using x b by (auto simp: retried_batch_def)
    then obtain r where r: "it_record y = Some r" using recs by auto
    then have "retried r \<in> set (List.map retried (durableRecords batch))"
      using y(1) durable_records_eq [OF recs] by force
    then have "active s' (RecordID (retried r)) = Some (Attempts (retried r))" using held unfolding held_def by blast
    then show ?thesis using y(2) r by (simp add: item_held_def item_id_def)
  qed
  moreover have "item_held active s' x" if "x \<in># R0" for x
    using that c R others [OF apart [OF that]] by (simp add: core_ok_def item_held_def)
  moreover have "it_record x \<noteq> None" if "x \<in> set batch'" for x
    using that recs b by (auto simp: retried_batch_def)
  moreover have "image_mset item_id (mset batch' + R0 + S) = mset_set F"
  proof -
    have "image_mset item_id (mset batch + R0 + S) = mset_set F" using c R unfolding core_ok_def by blast
    then show ?thesis using ids by simp
  qed
  moreover have "channels_of (mset batch' + R0 + S) = channels_of (R + S)" using ch R by simp
  ultimately show ?thesis
    using c assms(2,3) R unfolding core_ok_def by auto
qed

section \<open>Steps of the system\<close>

lemma pipeline_ok_core:
  "pipeline_ok ok active known p \<Longrightarrow> core_ok ok active known (pp_storage p) (resting p) (settling p) (pp_inFlight p)
     (pp_waiters p) (pp_channels p) (pp_results p)"
  by (simp add: pipeline_ok_def)

lemma same_batches:
  "pp_outbox p' = pp_outbox p \<Longrightarrow> pp_jobs p' = pp_jobs p \<Longrightarrow> pp_work p' = pp_work p \<Longrightarrow> batches_ok p' = batches_ok p"
  by (simp add: batches_ok_def)

lemma same_items:
  assumes "pp_loading p' = pp_loading p" "pp_queue p' = pp_queue p" "pp_pending p' = pp_pending p"
    "pp_outbox p' = pp_outbox p" "pp_jobs p' = pp_jobs p" "pp_work p' = pp_work p"
  shows "resting p' = resting p" "settling p' = settling p"
  using assms by (simp_all add: resting_def settling_def)

lemma release_fields [simp]:
  "pp_storage (release b p) = pp_storage p" "resting (release b p) = resting p" "settling (release b p) = settling p"
  "pp_channels (release b p) = pp_channels p" "pp_results (release b p) = pp_results p"
  "pp_inFlight (release b p) = pp_inFlight p - set (item_ids b)" "pp_waiters (release b p) = pp_waiters p |` (- set (item_ids b))"
  "batches_ok (release b p) = batches_ok p"
  by (simp_all add: release_def resting_def settling_def batches_ok_def)

lemma conclude_fields [simp]:
  "pp_storage (conclude b os err p) = pp_storage p" "resting (conclude b os err p) = resting p"
  "settling (conclude b os err p) = settling p" "pp_channels (conclude b os err p) = pp_channels p"
  "pp_results (conclude b os err p) = pp_results p @ batch_results 0 b os err"
  "pp_inFlight (conclude b os err p) = pp_inFlight p - set (item_ids b)"
  "pp_waiters (conclude b os err p) = pp_waiters p |` (- set (item_ids b))"
  "batches_ok (conclude b os err p) = batches_ok p"
  by (simp_all add: conclude_def release_def resting_def settling_def batches_ok_def)

text \<open>A step that moves items but settles none.\<close>

lemma moved_ok:
  assumes "pipeline_ok ok active known p" "resting p' = resting p" "settling p' = settling p" "batches_ok p'"
    and "pp_storage p' = pp_storage p" "pp_inFlight p' = pp_inFlight p" "pp_waiters p' = pp_waiters p"
    "pp_channels p' = pp_channels p" "pp_results p' = pp_results p"
  shows "pipeline_ok ok active known p'"
  using assms by (simp add: pipeline_ok_def)

lemma conclude_ok:
  assumes "pipeline_ok ok active known p" "resting p + settling p = mset b + (resting p' + settling p')"
    and "resting p' \<subseteq># resting p" "batches_ok p'"
    and "pp_storage p' = pp_storage p" "pp_inFlight p' = pp_inFlight p" "pp_waiters p' = pp_waiters p"
    "pp_channels p' = pp_channels p" "pp_results p' = pp_results p"
  shows "pipeline_ok ok active known (conclude b os err p')"
proof -
  have "mset (List.map fst (pp_results p @ batch_results 0 b os err)) \<subseteq># mset (List.map fst (pp_results p)) + channels_of (mset b)"
    by (simp only: map_append mset_append batch_results_channels subset_mset.order_refl)
  from core_release [OF pipeline_ok_core [OF assms(1)] assms(2,3) this] assms(4-) show ?thesis
    by (simp add: pipeline_ok_def)
qed

text \<open>What a worker holds is in flight, with distinct records.\<close>

lemma core_batch:
  assumes "core_ok ok active known s R S F W U res" "mset batch \<subseteq># R + S"
  shows "\<forall>x\<in>set batch. it_record x \<noteq> None" "distinct (item_ids batch)"
    "mset batch \<subseteq># R \<Longrightarrow> held active s (durableRecords batch)"
proof -
  obtain M where M: "R + S = mset batch + M" using assms(2) by (metis subset_mset.le_iff_add)
  then show recs: "\<forall>x\<in>set batch. it_record x \<noteq> None" using assms(1) by (auto simp: core_ok_def)
  have "image_mset item_id (mset batch + M) = mset_set F" "finite F" using assms(1) M by (simp_all add: core_ok_def)
  then have "image_mset item_id (mset batch) \<subseteq># mset_set F" by (metis image_mset_union mset_subset_eq_add_left)
  then have "count (mset (List.map item_id batch)) i \<le> 1" for i
    using mset_subset_eq_count [of _ _ i] \<open>finite F\<close> by (fastforce simp: count_mset_set' split: if_splits)
  then show d: "distinct (item_ids batch)"
    unfolding item_ids_eq [OF recs] distinct_count_atmost_1 by (metis One_nat_def count_greater_zero_iff le_antisym
      not_in_iff Suc_leI count_mset_0_iff set_mset_mset)
  show "held active s (durableRecords batch)" if "mset batch \<subseteq># R"
  proof -
    have "item_held active s x" if "x \<in> set batch" for x
      using assms(1) mset_subset_eqD [OF \<open>mset batch \<subseteq># R\<close>] that by (simp add: core_ok_def)
    then show ?thesis
      using d unfolding held_def item_ids_def durable_records_eq [OF recs]
      by (auto simp: item_held_def item_id_def)
  qed
qed

lemma batches_at:
  assumes "batches_ok p" "k < length (pp_jobs p)"
  shows "pp_jobs p ! k = Some b \<Longrightarrow> batch_at (length (pp_jobs p)) k b"
    "pp_work p ! k = Some (b, begun) \<Longrightarrow> batch_at (length (pp_jobs p)) k b"
    "length (pp_work p) = length (pp_jobs p)"
  using assms unfolding batches_ok_def by blast+

lemma updated_at: "xs[k := y] ! j = Some b \<Longrightarrow> j < length xs \<Longrightarrow> j = k \<and> y = Some b \<or> xs ! j = Some b"
  by (cases "j = k") simp_all

lemma batches_update_work:
  assumes "batches_ok p" "\<And>b begun. y = Some (b, begun) \<Longrightarrow> batch_at (length (pp_jobs p)) k b"
  shows "batches_ok (p\<lparr>pp_work := (pp_work p)[k := y]\<rparr>)"
  using assms updated_at [of "pp_work p" k y] unfolding batches_ok_def by simp blast

lemma batches_update_jobs:
  assumes "batches_ok p" "\<And>b. y = Some b \<Longrightarrow> batch_at (length (pp_jobs p)) k b" "set out \<subseteq> set (pp_outbox p)"
  shows "batches_ok (p\<lparr>pp_outbox := out, pp_jobs := (pp_jobs p)[k := y]\<rparr>)"
proof -
  have "batch_at (length (pp_jobs p)) j b" if "j < length (pp_jobs p)" "(pp_jobs p)[k := y] ! j = Some b" for j b
    using updated_at [OF that(2,1)] assms(1,2) that(1) unfolding batches_ok_def by blast
  then show ?thesis using assms(1,3) unfolding batches_ok_def by auto
qed

lemma worker_items:
  assumes "k < length (pp_work p)" "pp_work p ! k = Some (batch, False)"
  shows "resting p = mset batch + resting (p\<lparr>pp_work := (pp_work p)[k := None]\<rparr>)"
    "settling (p\<lparr>pp_work := (pp_work p)[k := None]\<rparr>) = settling p"
  using items_of_gone [OF assms(1), of "worked_on False" None] items_of_same [OF assms(1), of "worked_on True" None] assms(2)
  by (simp_all add: resting_def settling_def ac_simps)

lemma settler_items:
  assumes "k < length (pp_work p)" "pp_work p ! k = Some (batch, True)"
  shows "settling p = mset batch + settling (p\<lparr>pp_work := (pp_work p)[k := None]\<rparr>)"
    "resting (p\<lparr>pp_work := (pp_work p)[k := None]\<rparr>) = resting p"
  using items_of_gone [OF assms(1), of "worked_on True" None] items_of_same [OF assms(1), of "worked_on False" None] assms(2)
  by (simp_all add: resting_def settling_def ac_simps)

lemma working_items:
  assumes "k < length (pp_work p)"
  shows "resting (p\<lparr>pp_storage := s, pp_work := (pp_work p)[k := Some (batch, begun)]\<rparr>)
      = (if begun then {#} else mset batch) + resting (p\<lparr>pp_work := (pp_work p)[k := None]\<rparr>)"
    "settling (p\<lparr>pp_storage := s, pp_work := (pp_work p)[k := Some (batch, begun)]\<rparr>)
      = (if begun then mset batch else {#}) + settling (p\<lparr>pp_work := (pp_work p)[k := None]\<rparr>)"
  using items_of_new [of k "(pp_work p)[k := None]" "worked_on False" "Some (batch, begun)"]
    items_of_new [of k "(pp_work p)[k := None]" "worked_on True" "Some (batch, begun)"] assms
  by (auto simp: resting_def settling_def ac_simps)

end
