(* ===== verification/Pipeline_Reachable.thy ===== *)
theory Pipeline_Reachable
  imports Pipeline_Safety
begin

text \<open>
  Every step of the pipeline keeps the invariant, whatever storage it has that obeys the laws; so it
  holds in every reachable state.
\<close>

lemma retried_work_at: "batch_at n k (retried_batch b) \<longleftrightarrow> batch_at n k b"
  by (simp add: batch_at_def retried_batch_def)

lemma register_fields [simp]:
  "pp_storage (register ch i p) = pp_storage p" "resting (register ch i p) = resting p"
  "settling (register ch i p) = settling p" "pp_inFlight (register ch i p) = pp_inFlight p"
  "pp_results (register ch i p) = pp_results p" "batches_ok (register ch i p) = batches_ok p"
  "pp_jobs (register ch i p) = pp_jobs p"
  by (simp_all add: register_def resting_def settling_def batches_ok_def split: option.split)

lemma jobs_fields [simp]:
  "pp_jobs (release b p) = pp_jobs p" "pp_jobs (conclude b os err p) = pp_jobs p"
  "pp_jobs (load x p) = pp_jobs p"
  by (simp_all add: release_def conclude_def load_def split: prod.split option.split sum.split)

lemma batch_items:
  assumes "k < length (pp_work p)" "pp_work p ! k = Some (b, begun)"
  defines "q \<equiv> p\<lparr>pp_work := (pp_work p)[k := None]\<rparr>"
  shows "resting p + settling p = mset b + (resting q + settling q)" "resting q \<subseteq># resting p"
    "mset b \<subseteq># resting p + settling p" "\<not> begun \<Longrightarrow> mset b \<subseteq># resting p"
proof -
  have 1: "resting p + settling p = mset b + (resting q + settling q) \<and> resting q \<subseteq># resting p"
  proof (cases begun)
    case True
    then have "pp_work p ! k = Some (b, True)" using assms(2) by simp
    note w = settler_items [OF assms(1) this, folded q_def]
    show ?thesis unfolding w(1) w(2) by (simp add: ac_simps)
  next
    case False
    then have "pp_work p ! k = Some (b, False)" using assms(2) by simp
    note w = worker_items [OF assms(1) this, folded q_def]
    show ?thesis unfolding w(1) w(2) by (simp add: ac_simps)
  qed
  then show "resting p + settling p = mset b + (resting q + settling q)" "resting q \<subseteq># resting p" by simp_all
  then show "mset b \<subseteq># resting p + settling p" by simp
  show "mset b \<subseteq># resting p" if "\<not> begun"
  proof -
    have "pp_work p ! k = Some (b, False)" using assms(2) that by simp
    from worker_items(1) [OF assms(1) this] show ?thesis by (metis mset_subset_eq_add_left)
  qed
qed

context pipeline_storage
begin

lemma in_flight_known:
  assumes "pipeline_ok inv active known p" "x \<in># resting p"
  shows "item_id x \<in> known (pp_storage p)"
  using assms active_known [of "pp_storage p" "item_id x"]
  by (auto simp: pipeline_ok_def core_ok_def item_held_def)

text \<open>The clients' steps.\<close>

lemma append_ok:
  assumes ok: "pipeline_ok inv active known p" and r: "room (pp_storage p)"
    and a: "op_Append st e (pp_storage p) = (x, s)"
  shows "pipeline_ok inv active known (p\<lparr>pp_storage := s\<rparr>)"
proof -
  have inv: "inv (pp_storage p)" using ok by (simp add: pipeline_ok_def core_ok_def)
  note law = append [OF inv r a]
  have "core_ok inv active known s (resting p) (settling p) (pp_inFlight p) (pp_waiters p) (pp_channels p) (pp_results p)"
    using core_storage [OF pipeline_ok_core [OF ok], of s] law in_flight_known [OF ok] by blast
  then show ?thesis
    using ok same_items [of "p\<lparr>pp_storage := s\<rparr>" p] same_batches [of "p\<lparr>pp_storage := s\<rparr>" p]
    by (simp add: pipeline_ok_def)
qed

lemma submit_ok:
  assumes ok: "pipeline_ok inv active known p" and r: "room (pp_storage p)"
    and a: "op_Append st e (pp_storage p) = (Inr r, s)" and ch: "\<forall>x. ch = Some x \<longrightarrow> x \<notin> pp_channels p"
  shows "pipeline_ok inv active known (register ch (RecordID r) (p\<lparr>pp_storage := s\<rparr>))"
proof (cases ch)
  case None
  then show ?thesis using append_ok [OF ok r a] by (simp add: register_def)
next
  case (Some x)
  let ?p = "p\<lparr>pp_storage := s\<rparr>"
  note ok' = append_ok [OF ok \<open>room (pp_storage p)\<close> a]
  have "inv (pp_storage p)" using ok by (simp add: pipeline_ok_def core_ok_def)
  from append [OF this \<open>room (pp_storage p)\<close> a] have i: "RecordID r \<in> known s - known (pp_storage p)" by blast
  have "core_ok inv active known s (resting ?p) (settling ?p) (pp_inFlight p) ((pp_waiters p)(RecordID r \<mapsto> x))
      (insert x (pp_channels p)) (pp_results p)"
    by (rule core_register) (use ok ok' i ch Some in \<open>auto simp: pipeline_ok_def core_ok_def\<close>)
  then show ?thesis
    using ok' Some by (simp add: pipeline_ok_def register_def resting_def settling_def batches_ok_def)
qed

text \<open>The loader's read.\<close>

lemma read_ok:
  assumes ok: "pipeline_ok inv active known p" and l: "pp_loading p = None"
    and n: "op_NextAfter st (pp_cursor p) (pp_storage p) = (x, s)"
  shows "pipeline_ok inv active known (load x (p\<lparr>pp_storage := s\<rparr>))"
proof -
  let ?p = "p\<lparr>pp_storage := s\<rparr>"
  have inv: "inv (pp_storage p)" using ok by (simp add: pipeline_ok_def core_ok_def)
  note law = next_after [OF inv n]
  have c: "core_ok inv active known s (resting p) (settling p) (pp_inFlight p) (pp_waiters p) (pp_channels p) (pp_results p)"
    by (rule core_storage [OF pipeline_ok_core [OF ok]]) (use law in auto)
  have cursor: "pipeline_ok inv active known (?p\<lparr>pp_cursor := k\<rparr>)" "pipeline_ok inv active known ?p" for k
    using c ok same_items [of "?p\<lparr>pp_cursor := k\<rparr>" p] same_items [of ?p p]
      same_batches [of "?p\<lparr>pp_cursor := k\<rparr>" p] same_batches [of ?p p]
    by (simp_all add: pipeline_ok_def)
  show ?thesis
  proof (cases "\<exists>r. x = (Some (Inr r), None) \<and> RecordID r \<notin> pp_inFlight p")
    case False
    then show ?thesis using cursor by (auto simp: load_def split: prod.split option.split sum.split)
  next
    case True
    then obtain r where r: "x = (Some (Inr r), None)" "RecordID r \<notin> pp_inFlight p" by blast
    let ?x = "\<lparr>it_envelope = Envelope r, it_result = pp_waiters p (RecordID r), it_record = Some r\<rparr>"
    have a: "active s (RecordID r) = Some (Attempts r)" using law r(1) by auto
    have k: "RecordID r \<in> known s" using a active_known [of s "RecordID r"] law by auto
    from core_load [OF c a k r(2) refl]
    show ?thesis
      using r l ok by (simp add: pipeline_ok_def load_def resting_def settling_def batches_ok_def)
  qed
qed

text \<open>The dispatcher's and the workers' steps that move items.\<close>

lemma send_ok:
  assumes "pipeline_ok inv active known p" "pp_loading p = Some x"
  shows "pipeline_ok inv active known (p\<lparr>pp_queue := pp_queue p @ [x], pp_loading := None\<rparr>)"
  by (rule moved_ok [OF assms(1)])
    (use assms in \<open>simp_all add: resting_def settling_def pipeline_ok_def batches_ok_def\<close>)

lemma take_ok:
  assumes "pipeline_ok inv active known p" "pp_queue p = x # q"
  shows "pipeline_ok inv active known (p\<lparr>pp_queue := q, pp_pending := pp_pending p @ [x]\<rparr>)"
  by (rule moved_ok [OF assms(1)])
    (use assms in \<open>simp_all add: resting_def settling_def pipeline_ok_def batches_ok_def\<close>)

lemma flush_ok:
  assumes "pipeline_ok inv active known p" "pp_outbox p = []" "0 < length (pp_jobs p)" "length (pp_jobs p) < 2 ^ 32"
  shows "pipeline_ok inv active known (p\<lparr>pp_outbox := flush_batches (length (pp_jobs p)) (pp_pending p), pp_pending := []\<rparr>)"
proof (rule moved_ok [OF assms(1)])
  let ?n = "length (pp_jobs p)" and ?p = "p\<lparr>pp_outbox := flush_batches (length (pp_jobs p)) (pp_pending p), pp_pending := []\<rparr>"
  have "items_of snd (flush_batches ?n (pp_pending p)) = mset (pp_pending p)"
    unfolding items_of_def by (rule flush_batches_mset [OF assms(3,4)])
  then show "resting ?p = resting p" using assms(2) by (simp add: resting_def)
  have "batch_at ?n k b" if "(k, b) \<in> set (flush_batches ?n (pp_pending p))" for k b
    using flush_batches_member [OF that] by (auto simp: batch_at_def group_of_def)
  then show "batches_ok ?p" using assms(1) by (auto simp: pipeline_ok_def batches_ok_def)
qed (simp_all add: settling_def)

lemma dispatch_ok:
  assumes "pipeline_ok inv active known p" "pp_outbox p = (k, b) # out" "k < length (pp_jobs p)" "pp_jobs p ! k = None"
  shows "pipeline_ok inv active known (p\<lparr>pp_outbox := out, pp_jobs := (pp_jobs p)[k := Some b]\<rparr>)"
proof (rule moved_ok [OF assms(1)])
  let ?p = "p\<lparr>pp_outbox := out, pp_jobs := (pp_jobs p)[k := Some b]\<rparr>"
  show "resting ?p = resting p"
    using items_of_new [of k "pp_jobs p" optional_list "Some b"] assms(2-4) by (simp add: resting_def ac_simps)
  show "batches_ok ?p"
    using assms(1,2) by (intro batches_update_jobs) (auto simp: pipeline_ok_def batches_ok_def)
qed (simp_all add: settling_def)

lemma start_ok:
  assumes "pipeline_ok inv active known p" "k < length (pp_jobs p)" "pp_jobs p ! k = Some b" "pp_work p ! k = None"
  shows "pipeline_ok inv active known (p\<lparr>pp_jobs := (pp_jobs p)[k := None], pp_work := (pp_work p)[k := Some (b, False)]\<rparr>)"
proof (rule moved_ok [OF assms(1)])
  let ?p = "p\<lparr>pp_jobs := (pp_jobs p)[k := None], pp_work := (pp_work p)[k := Some (b, False)]\<rparr>"
  have bo: "batches_ok p" using assms(1) by (simp add: pipeline_ok_def)
  have k: "k < length (pp_work p)" using batches_at(3) [OF bo assms(2)] assms(2) by simp
  show "resting ?p = resting p"
    using items_of_gone [of k "pp_jobs p" optional_list None] items_of_new [OF k, of "worked_on False" "Some (b, False)"] assms(2-4)
    by (simp add: resting_def ac_simps)
  show "settling ?p = settling p"
    using items_of_same [OF k, of "worked_on True" "Some (b, False)"] assms(4) by (simp add: settling_def)
  have "batches_ok (p\<lparr>pp_outbox := pp_outbox p, pp_jobs := (pp_jobs p)[k := None]\<rparr>)"
    by (rule batches_update_jobs [OF bo]) simp_all
  from batches_update_work [OF this, of "Some (b, False)" k]
  show "batches_ok ?p" using batches_at(1) [OF bo assms(2,3)] by simp
qed simp_all

text \<open>The workers' calls of the storage.\<close>

lemma worker_batch:
  assumes ok: "pipeline_ok inv active known p" and k: "k < length (pp_work p)" "pp_work p ! k = Some (b, begun)"
  shows "distinct (item_ids b)" "\<forall>x\<in>set b. it_record x \<noteq> None" "durable_batch b"
    "batch_at (length (pp_jobs p)) k b" "\<not> begun \<Longrightarrow> held active (pp_storage p) (durableRecords b)"
proof -
  note sub = batch_items(3,4) [OF k]
  note c = core_batch [OF pipeline_ok_core [OF ok] sub(1)]
  show "distinct (item_ids b)" "\<forall>x\<in>set b. it_record x \<noteq> None" using c(1,2) by simp_all
  have bo: "batches_ok p" using ok by (simp add: pipeline_ok_def)
  then have "k < length (pp_jobs p)" using k(1) by (simp add: batches_ok_def)
  from batches_at(2) [OF bo this k(2)] show at: "batch_at (length (pp_jobs p)) k b" .
  show "durable_batch b" using at c(1) by (simp add: durable_batch_def batch_at_def list_all_iff)
  show "\<not> begun \<Longrightarrow> held active (pp_storage p) (durableRecords b)" using c(3) sub(2) by simp
qed

text \<open>A worker that settles its batch, or failed to mark it: the records of others are untouched.\<close>

lemma settling_ok:
  assumes ok: "pipeline_ok inv active known p" and k: "k < length (pp_work p)" "pp_work p ! k = Some (b, begun)"
    and s: "inv s" "known s = known (pp_storage p)"
    and others: "\<And>i. i \<notin> set (item_ids b) \<Longrightarrow> active s i = active (pp_storage p) i"
  shows "pipeline_ok inv active known (p\<lparr>pp_storage := s, pp_work := (pp_work p)[k := Some (b, True)]\<rparr>)"
proof -
  let ?p = "p\<lparr>pp_storage := s, pp_work := (pp_work p)[k := Some (b, True)]\<rparr>"
  let ?q = "p\<lparr>pp_work := (pp_work p)[k := None]\<rparr>"
  note b = worker_batch [OF ok k]
  note c = pipeline_ok_core [OF ok]
  have new: "resting ?p = resting ?q" "settling ?p = mset b + settling ?q"
    using working_items [OF k(1), where s = s and batch = b and begun = True] by simp_all
  note old = batch_items(1,2) [OF k]
  have "mset_set (pp_inFlight p) = image_mset item_id (mset b) + image_mset item_id (resting ?q + settling ?q)"
    using c old(1) unfolding core_ok_def by (metis image_mset_union)
  moreover have "finite (pp_inFlight p)" using c by (simp add: core_ok_def)
  ultimately have apart: "item_id x \<notin> set (item_ids b)" if "x \<in># resting ?q" for x
    using mset_set_split(2) [of "pp_inFlight p" item_id "mset b" "image_mset item_id (resting ?q + settling ?q)"]
      that item_ids_eq [OF b(2)] by auto
  have "core_ok inv active known s (resting ?p) (settling ?p) (pp_inFlight p) (pp_waiters p) (pp_channels p) (pp_results p)"
  proof (rule core_settle [OF c s])
    show "resting p + settling p = resting ?p + settling ?p" using old(1) new by (simp add: ac_simps)
    show "resting ?p \<subseteq># resting p" using old(2) new(1) by simp
    show "active s (item_id x) = active (pp_storage p) (item_id x)" if "x \<in># resting ?p" for x
      using others apart that new(1) by simp
  qed
  moreover have "batches_ok (p\<lparr>pp_work := (pp_work p)[k := Some (b, True)]\<rparr>)"
    using ok b(4) by (intro batches_update_work) (auto simp: pipeline_ok_def)
  then have "batches_ok ?p" using same_batches [of ?p "p\<lparr>pp_work := (pp_work p)[k := Some (b, True)]\<rparr>"] by simp
  ultimately show ?thesis by (simp add: pipeline_ok_def)
qed

lemma settle_ok:
  assumes ok: "pipeline_ok inv active known p" and k: "k < length (pp_work p)" "pp_work p ! k = Some (b, begun)"
    and call: "op_Ack st (durableRecords b) (pp_storage p) = (x, s)
      \<or> op_Quarantine st (durableRecords b) reason (pp_storage p) = (x, s)"
  shows "pipeline_ok inv active known (p\<lparr>pp_storage := s, pp_work := (pp_work p)[k := Some (b, True)]\<rparr>)"
proof -
  have inv: "inv (pp_storage p)" using ok by (simp add: pipeline_ok_def core_ok_def)
  have d: "distinct (List.map RecordID (durableRecords b))" using worker_batch(1) [OF ok k] by (simp add: item_ids_def)
  have law: "inv s \<and> only_settled (set (item_ids b)) (active (pp_storage p)) (active s)" "known s = known (pp_storage p)"
    using call ack [OF inv d] quarantine [OF inv d] ack_known [OF inv d] quarantine_known [OF inv d]
    by (auto simp: item_ids_set)
  show ?thesis
    by (rule settling_ok [OF ok k]) (use law in \<open>auto simp: only_settled_def\<close>)
qed

lemma marking_ok:
  assumes ok: "pipeline_ok inv active known p" and k: "k < length (pp_work p)" "pp_work p ! k = Some (b, False)"
    and lim: "\<not> retryExhausted rc b" "rc_MaxAttempts rc \<le> max_attempts"
    and call: "op_MarkRetry st (durableRecords b) (pp_storage p) = (x, rs, s)"
  shows "pipeline_ok inv active known (p\<lparr>pp_storage := s,
    pp_work := (pp_work p)[k := Some (if x = None then (with_records b rs, False) else (b, True))]\<rparr>)"
proof -
  note b = worker_batch [OF ok k, simplified]
  have inv: "inv (pp_storage p)" using ok by (simp add: pipeline_ok_def core_ok_def)
  have "attempts_left rc b > 1" using exhausted_left [OF b(3), of rc] lim(1) by simp
  note below = attempts_below [OF this lim(2)]
  note law = retry [OF inv b(5) below call] retry_known [OF inv b(5) below call]
  show ?thesis
  proof (cases x)
    case (Some e)
    have "pipeline_ok inv active known (p\<lparr>pp_storage := s, pp_work := (pp_work p)[k := Some (b, True)]\<rparr>)"
      by (rule settling_ok [OF ok k]) (use law in \<open>auto simp: item_ids_set\<close>)
    then show ?thesis using Some by simp
  next
    case None
    let ?b = "with_records b rs"
    let ?p = "p\<lparr>pp_storage := s, pp_work := (pp_work p)[k := Some (?b, False)]\<rparr>"
    let ?q = "p\<lparr>pp_work := (pp_work p)[k := None]\<rparr>"
    have rb: "?b = retried_batch b"
      using law None b(3) with_records_retried by (simp add: durable_batch_def)
    have new: "resting ?p = mset ?b + resting ?q" "settling ?p = settling ?q"
      using working_items [OF k(1), where s = s and batch = ?b and begun = False] by simp_all
    have "core_ok inv active known s (mset ?b + resting ?q) (settling p) (pp_inFlight p) (pp_waiters p) (pp_channels p) (pp_results p)"
    proof (rule core_retry [OF pipeline_ok_core [OF ok]])
      show "resting p = mset b + resting ?q" by (rule worker_items(1) [OF k])
      show "?b = retried_batch b" by (rule rb)
      show "inv s" "known s = known (pp_storage p)" using law by simp_all
      show "held active s (List.map retried (durableRecords b))" using law None by blast
      show "\<And>i. i \<notin> set (item_ids b) \<Longrightarrow> active s i = active (pp_storage p) i" using law by (simp add: item_ids_set)
    qed
    then have "core_ok inv active known s (resting ?p) (settling ?p) (pp_inFlight p) (pp_waiters p) (pp_channels p) (pp_results p)"
      using new worker_items(2) [OF k] by simp
    moreover have "batches_ok (p\<lparr>pp_work := (pp_work p)[k := Some (?b, False)]\<rparr>)"
      using ok b(4) rb by (intro batches_update_work) (auto simp: pipeline_ok_def retried_work_at)
    then have "batches_ok ?p" using same_batches [of ?p "p\<lparr>pp_work := (pp_work p)[k := Some (?b, False)]\<rparr>"] by simp
    ultimately show ?thesis using None by (simp add: pipeline_ok_def)
  qed
qed

lemma finished_ok:
  assumes ok: "pipeline_ok inv active known p" and k: "k < length (pp_work p)" "pp_work p ! k = Some (b, begun)"
  shows "pipeline_ok inv active known (conclude b os err (p\<lparr>pp_work := (pp_work p)[k := None]\<rparr>))"
proof (rule conclude_ok [OF ok])
  let ?q = "p\<lparr>pp_work := (pp_work p)[k := None]\<rparr>"
  show "resting p + settling p = mset b + (resting ?q + settling ?q)" "resting ?q \<subseteq># resting p"
    by (rule batch_items [OF k])+
  show "batches_ok ?q" by (rule batches_update_work) (use ok in \<open>simp_all add: pipeline_ok_def\<close>)
qed simp_all

text \<open>Cancellation: whatever is still waiting leaves the pipeline.\<close>

lemma drop_loading_ok:
  assumes ok: "pipeline_ok inv active known p" and l: "pp_loading p = Some x"
  shows "pipeline_ok inv active known (release [x] (p\<lparr>pp_loading := None\<rparr>))"
proof -
  let ?q = "p\<lparr>pp_loading := None\<rparr>"
  have "resting p + settling p = mset [x] + (resting ?q + settling ?q)" "resting ?q \<subseteq># resting p"
    using l by (simp_all add: resting_def settling_def ac_simps)
  from core_release [OF pipeline_ok_core [OF ok] this, of "pp_results p"]
  moreover have "batches_ok ?q" using ok same_batches [of ?q p] by (simp add: pipeline_ok_def)
  ultimately show ?thesis by (simp add: pipeline_ok_def)
qed

lemma drop_batch_ok:
  assumes ok: "pipeline_ok inv active known p" and o: "pp_outbox p = (k, b) # out"
  shows "pipeline_ok inv active known (conclude b os err (p\<lparr>pp_outbox := out\<rparr>))"
  by (rule conclude_ok [OF ok]) (use ok o in \<open>auto simp: resting_def settling_def ac_simps pipeline_ok_def batches_ok_def\<close>)

lemma drop_pending_ok:
  assumes ok: "pipeline_ok inv active known p"
  shows "pipeline_ok inv active known (conclude (pp_pending p) os err (p\<lparr>pp_pending := []\<rparr>))"
  by (rule conclude_ok [OF ok]) (use ok in \<open>auto simp: resting_def settling_def ac_simps pipeline_ok_def batches_ok_def\<close>)

lemma drop_queued_ok:
  assumes ok: "pipeline_ok inv active known p" and q: "pp_queue p = x # q"
  shows "pipeline_ok inv active known (conclude [x] os err (p\<lparr>pp_queue := q\<rparr>))"
  by (rule conclude_ok [OF ok]) (use ok q in \<open>auto simp: resting_def settling_def ac_simps pipeline_ok_def batches_ok_def\<close>)

text \<open>Every step, hence every reachable state.\<close>

lemma step_keeps_workers: "pipeline_step c st room p p' \<Longrightarrow> length (pp_jobs p') = length (pp_jobs p)"
  by (induction rule: pipeline_step.induct) simp_all

lemma pipeline_step_ok:
  assumes "pipeline_step c st room p p'" "pipeline_ok inv active known p"
    and n: "0 < length (pp_jobs p)" "length (pp_jobs p) < 2 ^ 32" and m: "rc_MaxAttempts (pc_Retry c) \<le> max_attempts"
  shows "pipeline_ok inv active known p'"
  using assms(1)
proof cases
  case (submit e r s ch)
  then show ?thesis using submit_ok [OF assms(2)] by blast
next
  case (refuse e err s)
  then show ?thesis using append_ok [OF assms(2)] by blast
next
  case (read x s)
  then show ?thesis using read_ok [OF assms(2)] by blast
next
  case (send entry)
  then show ?thesis using send_ok [OF assms(2)] by blast
next
  case (drop_loading entry)
  then show ?thesis using drop_loading_ok [OF assms(2)] by blast
next
  case (take entry q)
  then show ?thesis using take_ok [OF assms(2)] by blast
next
  case flush
  then show ?thesis using flush_ok [OF assms(2) _ n] by blast
next
  case (dispatch k batch out)
  then show ?thesis using dispatch_ok [OF assms(2)] by blast
next
  case (drop_batch k batch out)
  then show ?thesis using drop_batch_ok [OF assms(2)] by blast
next
  case drop_pending
  then show ?thesis using drop_pending_ok [OF assms(2)] by blast
next
  case (drop_queued entry q)
  then show ?thesis using drop_queued_ok [OF assms(2)] by blast
next
  case (start k batch)
  then show ?thesis using start_ok [OF assms(2)] by blast
next
  case (retry k batch rs s)
  then show ?thesis using marking_ok [OF assms(2) retry(2-4) m retry(5)] by simp
next
  case (retry_failed k batch e rs s)
  then show ?thesis using marking_ok [OF assms(2) retry_failed(2-4) m retry_failed(5)] by simp
next
  case (settle k batch begun x s reason)
  then show ?thesis using settle_ok [OF assms(2)] by blast
next
  case (finished k batch begun outcomes err)
  then show ?thesis using finished_ok [OF assms(2)] by blast
qed (use assms(2) in \<open>simp_all add: pipeline_ok_def resting_def settling_def batches_ok_def\<close>)

lemma new_pipeline_ok:
  assumes "inv s" "0 < pc_Workers c"
  shows "pipeline_ok inv active known (new_pipeline c s)"
proof -
  have z: "items_of optional_list (replicate n None) = {#}" "items_of (worked_on b) (replicate n None) = {#}" for n b
    by (induction n) simp_all
  show ?thesis
    using assms by (simp add: pipeline_ok_def core_ok_def new_pipeline_def resting_def settling_def z batches_ok_def waiting_def)
qed

lemma pipeline_reachable_ok:
  assumes "pipeline_reachable c st room s0 p" "inv s0" "valid_pipeline c" "pc_Workers c < 2 ^ 32"
    and "rc_MaxAttempts (pc_Retry c) \<le> max_attempts"
  shows "pipeline_ok inv active known p \<and> length (pp_jobs p) = nat (pc_Workers c)"
  using assms(1)
proof (induction rule: pipeline_reachable.induct)
  case initially
  have "0 < pc_Workers c" using assms(3) by (simp add: valid_pipeline_def)
  then show ?case using new_pipeline_ok [OF assms(2)] by (simp add: new_pipeline_def)
next
  case (later p p')
  have "0 < pc_Workers c" using assms(3) by (simp add: valid_pipeline_def)
  then show ?case
    using pipeline_step_ok [OF later(2) _ _ _ assms(5)] step_keeps_workers [OF later(2)] later.IH assms(4) by simp
qed

end

end
