(* ===== verification/Pipeline_Liveness.thy ===== *)
theory Pipeline_Liveness
  imports Storage_Contract
begin

text \<open>
  That a worker comes to an end, and that it settles its batch: the number of its calls is bounded
  by how often the context is found running, and a worker that is not cancelled for long enough and
  whose storage does not fail has acknowledged or quarantined every record.
\<close>

section \<open>The number of calls\<close>

lemma consult_count: "consult w = (b, w') \<Longrightarrow> w_calls w' = w_calls w \<and> w_running w' + (if b then 1 else 0) = w_running w"
  by (auto simp: consult_def split: if_splits)

lemma running_simps [simp]: "w_running (tally f w) = w_running w" "w_running (log_call c w) = w_running w"
  "w_running (finish batch os err w) = w_running w"
  by (simp_all add: tally_def log_call_def finish_def releaseRecords_def complete_def)

text \<open>What is left to spend: calls made and consultations to come.\<close>

definition spent :: "('s, 'k) work_state \<Rightarrow> nat" where
  "spent w = length (w_calls w) + w_running w"

lemma spent_simps [simp]:
  "spent (tally f w) = spent w" "spent (log_call c w) = Suc (spent w)" "spent (finish batch os err w) = spent w"
  "spent (w\<lparr>w_storage := s\<rparr>) = spent w"
  by (simp_all add: spent_def)

lemma spent_consult: "consult w = (b, w') \<Longrightarrow> spent w' + (if b then 1 else 0) = spent w"
  using consult_count [of w b w'] by (auto simp: spent_def)

lemma spent_ack: "ackDurableBatch st batch w = (r, w') \<Longrightarrow> spent w' \<le> spent w + 1"
proof (induction "w_running w" arbitrary: w r w' rule: less_induct)
  case less
  obtain e s' where a: "op_Ack st (durableRecords batch) (w_storage w) = (e, s')" by fastforce
  show ?case
  proof (cases e)
    case None
    then show ?thesis using less.prems a by (subst (asm) ackDurableBatch.simps) auto
  next
    case (Some err)
    let ?w1 = "tally RecordError (log_call (Acked (item_ids batch) (Some err)) (w\<lparr>w_storage := s'\<rparr>))"
    obtain b w2 where c: "consult ?w1 = (b, w2)" by fastforce
    have s: "spent w2 + (if b then 1 else 0) = Suc (spent w)" using spent_consult [OF c] by simp
    show ?thesis
    proof (cases b)
      case False
      then show ?thesis using less.prems a Some c s by (subst (asm) ackDurableBatch.simps) auto
    next
      case True
      then have run: "ackDurableBatch st batch w2 = (r, w')"
        using less.prems a Some c by (subst (asm) ackDurableBatch.simps) simp
      have "w_running w2 < w_running w" using consult_count [OF c] True by simp
      from less.hyps [OF this run] s True show ?thesis by simp
    qed
  qed
qed

lemma spent_quarantine: "quarantineDurableBatch st batch e w = (r, w') \<Longrightarrow> spent w' \<le> spent w + 1"
proof (induction "w_running w" arbitrary: w r w' rule: less_induct)
  case less
  let ?reason = "quarantine_reason e"
  obtain q s' where a: "op_Quarantine st (durableRecords batch) ?reason (w_storage w) = (q, s')" by fastforce
  show ?case
  proof (cases q)
    case None
    then show ?thesis using less.prems a by (subst (asm) quarantineDurableBatch.simps) (auto simp: Let_def)
  next
    case (Some err)
    let ?w1 = "tally RecordError (log_call (Quarantined (item_ids batch) ?reason (Some err)) (w\<lparr>w_storage := s'\<rparr>))"
    obtain b w2 where c: "consult ?w1 = (b, w2)" by fastforce
    have s: "spent w2 + (if b then 1 else 0) = Suc (spent w)" using spent_consult [OF c] by simp
    show ?thesis
    proof (cases b)
      case False
      then show ?thesis using less.prems a Some c s by (subst (asm) quarantineDurableBatch.simps) (auto simp: Let_def)
    next
      case True
      then have run: "quarantineDurableBatch st batch e w2 = (r, w')"
        using less.prems a Some c by (subst (asm) quarantineDurableBatch.simps) (simp add: Let_def)
      have "w_running w2 < w_running w" using consult_count [OF c] True by simp
      from less.hyps [OF this run] s True show ?thesis by simp
    qed
  qed
qed

lemma spent_retry: "retryDurableBatch st batch w = (e, b, w') \<Longrightarrow> spent w' = Suc (spent w)"
  by (auto simp: retryDurableBatch_def split: prod.splits option.splits)

lemma spent_deliver: "deliver sink batch w = (r, w') \<Longrightarrow> spent w' = Suc (spent w)"
  using deliver_fields [of sink batch w r w'] by (simp add: spent_def)

lemma spent_after_failure:
  assumes "after_failure rc st batch e w = (r, w')"
  shows "(r = None \<longrightarrow> spent w' \<le> spent w + 1) \<and> (\<forall>b w1. r = Some (b, w1) \<longrightarrow> spent w1 + 1 = spent w)"
proof -
  obtain b1 w1 where c1: "consult w = (b1, w1)" by fastforce
  note s1 = spent_consult [OF c1]
  obtain q w2 where q: "quarantineDurableBatch st batch e w1 = (q, w2)" by fastforce
  note s2 = spent_quarantine [OF q]
  obtain se b w3 where m: "retryDurableBatch st batch w1 = (se, b, w3)" by (metis prod.exhaust)
  note s3 = spent_retry [OF m]
  obtain b4 w4 where c4: "consult w3 = (b4, w4)" by fastforce
  note s4 = spent_consult [OF c4]
  show ?thesis
    using assms c1 s1 q s2 m s3 c4 s4
    by (auto simp: after_failure_def split: bool.splits if_splits option.splits)
qed

lemma work_loop_spent: "durable \<Longrightarrow> spent (work_loop durable rc st sink batch w) \<le> spent w + 2"
proof (induction "w_running w" arbitrary: w batch rule: less_induct)
  case less
  obtain r w1 where d: "deliver sink batch w = (r, w1)" by fastforce
  note s = spent_deliver [OF d]
  show ?case
  proof (cases r)
    case (Inr outcomes)
    obtain a w2 where a: "ackDurableBatch st batch w1 = (a, w2)" by fastforce
    show ?thesis
      using d Inr a spent_ack [OF a] s less.prems by (subst work_loop.simps) (simp split: option.split)
  next
    case (Inl e)
    obtain x w3 where f: "after_failure rc st batch e (tally RecordError w1) = (x, w3)" by fastforce
    note sf = spent_after_failure [OF f]
    show ?thesis
    proof (cases x)
      case None
      then show ?thesis using d Inl f sf s less.prems by (subst work_loop.simps) simp
    next
      case (Some y)
      then obtain batch' w4 where y: "x = Some (batch', w4)" by fastforce
      have "w_running w4 < w_running w"
        using after_failure_running [OF f [unfolded y]] deliver_running [OF d] by simp
      from less.hyps [OF this less.prems, of batch'] show ?thesis
        using d Inl f sf s less.prems y by (subst work_loop.simps) simp
    qed
  qed
qed

section \<open>Settling\<close>

fun storage_failed :: "work_call \<Rightarrow> bool" where
  "storage_failed (Delivered _ _) = False"
| "storage_failed (Acked _ r) = (r \<noteq> None)"
| "storage_failed (Retried _ r) = (r \<noteq> None)"
| "storage_failed (Quarantined _ _ r) = (r \<noteq> None)"

definition sound_calls :: "('s, 'k) work_state \<Rightarrow> bool" where
  "sound_calls w \<longleftrightarrow> list_all (\<lambda>c. \<not> storage_failed c) (w_calls w)"

lemma sound_calls_simps [simp]:
  "sound_calls (tally f w) = sound_calls w" "sound_calls (finish batch os err w) = sound_calls w"
  "sound_calls (log_call c w) \<longleftrightarrow> sound_calls w \<and> \<not> storage_failed c"
  "sound_calls (w\<lparr>w_storage := s\<rparr>) = sound_calls w"
  by (simp_all add: sound_calls_def)

lemma sound_ack:
  assumes "ackDurableBatch st batch w = (r, w')" "sound_calls w'"
  obtains s' where "op_Ack st (durableRecords batch) (w_storage w) = (None, s')" "w_storage w' = s'"
proof -
  obtain e s' where a: "op_Ack st (durableRecords batch) (w_storage w) = (e, s')" by fastforce
  show ?thesis
  proof (cases e)
    case None
    then have "w_storage w' = s'" using assms(1) a by (subst (asm) ackDurableBatch.simps) auto
    then show ?thesis using that a None by simp
  next
    case (Some err)
    let ?w1 = "tally RecordError (log_call (Acked (item_ids batch) (Some err)) (w\<lparr>w_storage := s'\<rparr>))"
    obtain b w2 where c: "consult ?w1 = (b, w2)" by fastforce
    have bad: "\<not> sound_calls w2" using consult_fields [OF c] by (simp add: sound_calls_def)
    have "\<not> sound_calls w'"
    proof (cases b)
      case False
      then show ?thesis using bad assms(1) a Some c by (subst (asm) ackDurableBatch.simps) auto
    next
      case True
      then have "ackDurableBatch st batch w2 = (r, w')"
        using assms(1) a Some c by (subst (asm) ackDurableBatch.simps) simp
      then show ?thesis using bad ack_calls by (fastforce simp: sound_calls_def)
    qed
    then show ?thesis using assms(2) by simp
  qed
qed

lemma sound_quarantine:
  assumes "quarantineDurableBatch st batch e w = (r, w')" "sound_calls w'"
  obtains s' where "op_Quarantine st (durableRecords batch) (quarantine_reason e) (w_storage w) = (None, s')"
    "w_storage w' = s'"
proof -
  let ?reason = "quarantine_reason e"
  obtain q s' where a: "op_Quarantine st (durableRecords batch) ?reason (w_storage w) = (q, s')" by fastforce
  show ?thesis
  proof (cases q)
    case None
    then have "w_storage w' = s'" using assms(1) a by (subst (asm) quarantineDurableBatch.simps) (auto simp: Let_def)
    then show ?thesis using that a None by simp
  next
    case (Some err)
    let ?w1 = "tally RecordError (log_call (Quarantined (item_ids batch) ?reason (Some err)) (w\<lparr>w_storage := s'\<rparr>))"
    obtain b w2 where c: "consult ?w1 = (b, w2)" by fastforce
    have bad: "\<not> sound_calls w2" using consult_fields [OF c] by (simp add: sound_calls_def)
    have "\<not> sound_calls w'"
    proof (cases b)
      case False
      then show ?thesis using bad assms(1) a Some c by (subst (asm) quarantineDurableBatch.simps) (auto simp: Let_def)
    next
      case True
      then have "quarantineDurableBatch st batch e w2 = (r, w')"
        using assms(1) a Some c by (subst (asm) quarantineDurableBatch.simps) (simp add: Let_def)
      then show ?thesis using bad quarantine_calls by (fastforce simp: sound_calls_def)
    qed
    then show ?thesis using assms(2) by simp
  qed
qed

text \<open>A round of the loop consults the context twice.\<close>

lemma after_failure_twice:
  assumes "after_failure rc st batch e w = (Some (batch', w'), w'')"
  shows "w_running w' + 2 = w_running w"
proof -
  obtain b1 w1 where 1: "consult w = (b1, w1)" by fastforce
  obtain se b w2 where 2: "retryDurableBatch st batch w1 = (se, b, w2)" by (metis prod.exhaust)
  obtain b3 w3 where 3: "consult w2 = (b3, w3)" by fastforce
  have r: "w_running w2 = w_running w1"
    using 2 by (auto simp: retryDurableBatch_def split: prod.splits option.splits)
  have "b1" "b3" "w' = w3"
    using assms 1 2 3 by (auto simp: after_failure_def split: bool.splits if_splits option.splits prod.splits)
  then show ?thesis using consult_count [OF 1] consult_count [OF 3] r by simp
qed

context settlement
begin

lemma failed_settles:
  assumes f: "after_failure rc st batch e w1 = (None, w')" and sound: "sound_calls w'"
    and run: "2 * max 1 (attempts_left rc batch) - 1 \<le> int (w_running w1)"
    and ok: "inv (w_storage w1)" "distinct (item_ids batch)" "durable_batch batch"
  shows "\<forall>i\<in>set (item_ids batch). active (w_storage w') i = None"
proof -
  obtain b2 w2 where c2: "consult w1 = (b2, w2)" by fastforce
  note f2 = consult_fields [OF c2]
  have run1: "1 \<le> w_running w1" using run by linarith
  then have b2: b2 "w_running w2 + 1 = w_running w1" using c2 by (auto simp: consult_def split: if_splits)
  show ?thesis
  proof (cases "isPermanentSinkError e \<or> retryExhausted rc batch")
    case True
    obtain q w3 where a: "quarantineDurableBatch st batch e w2 = (q, w3)" by fastforce
    have w': "w_storage w' = w_storage w3" "sound_calls w' = sound_calls w3"
      using f c2 b2 True a by (auto simp: after_failure_def split: option.splits)
    obtain s' where s: "op_Quarantine st (durableRecords batch) (quarantine_reason e) (w_storage w2) = (None, s')" "w_storage w3 = s'"
      using sound_quarantine [OF a] sound w'(2) by blast
    show ?thesis
      using quarantine [OF _ _ s(1)] ok f2 s(2) w'(1) by (simp add: item_ids_set item_ids_def [symmetric])
  next
    case False
    obtain r b' w3 where m: "retryDurableBatch st batch w2 = (r, b', w3)" by (metis prod.exhaust)
    obtain b4 w4 where c4: "consult w3 = (b4, w4)" by fastforce
    have "attempts_left rc batch > 1" using False exhausted_left [OF ok(3), of rc] by simp
    then have "2 \<le> w_running w1" using run by linarith
    moreover have "w_running w3 = w_running w2"
      using m by (auto simp: retryDurableBatch_def split: prod.splits option.splits)
    ultimately have b4: "b4" using c4 b2(2) by (auto simp: consult_def split: if_splits)
    have "r \<noteq> None" using f c2 b2 False m c4 b4 by (cases r) (simp_all add: after_failure_def)
    then obtain se where r: "r = Some se" by blast
    have "\<not> sound_calls w3" using m r by (auto simp: retryDurableBatch_def split: prod.splits option.splits)
    moreover have "w' = finish batch [] (Some (StorageFailed se)) w3"
      using f c2 b2 False m r by (simp add: after_failure_def)
    ultimately show ?thesis using sound by simp
  qed
qed

lemma work_loop_settles:
  assumes "inv (w_storage w)" "held active (w_storage w) (durableRecords batch)" "durable_batch batch"
    and "rc_MaxAttempts rc \<le> max_attempts" and "sound_calls (work_loop True rc st sink batch w)"
    and "2 * max 1 (attempts_left rc batch) - 1 \<le> int (w_running w)"
  shows "\<forall>i\<in>set (item_ids batch). active (w_storage (work_loop True rc st sink batch w)) i = None"
  using assms
proof (induction "w_running w" arbitrary: w batch rule: less_induct)
  case less
  have ids: "distinct (item_ids batch)" using less.prems(2) by (simp add: held_def item_ids_def)
  obtain r w1 where d: "deliver sink batch w = (r, w1)" by fastforce
  note df = deliver_fields [OF d]
  show ?case
  proof (cases r)
    case (Inr outcomes)
    obtain a w2 where a: "ackDurableBatch st batch w1 = (a, w2)" by fastforce
    let ?w' = "work_loop True rc st sink batch w"
    have w': "w_storage ?w' = w_storage w2" "sound_calls ?w' = sound_calls w2"
      using d Inr a by (auto simp: work_loop.simps [of True rc st sink batch w] split: option.split)
    obtain s' where s: "op_Ack st (durableRecords batch) (w_storage w1) = (None, s')" "w_storage w2 = s'"
      using sound_ack [OF a] less.prems(5) w'(2) by blast
    show ?thesis
      using ack [OF _ _ s(1)] df less.prems(1) ids s(2) w'(1) by (simp add: item_ids_set item_ids_def [symmetric])
  next
    case (Inl e)
    let ?w1 = "tally RecordError w1"
    have w1: "w_storage ?w1 = w_storage w" "quiet w ?w1"
      "w_calls ?w1 = w_calls w @ [Delivered (List.map it_envelope batch) (Some e)]" "w_running ?w1 = w_running w"
      using df Inl by (auto simp: quiet_def)
    obtain x w3 where f: "after_failure rc st batch e ?w1 = (x, w3)" by fastforce
    show ?thesis
    proof (cases x)
      case None
      then have loop: "work_loop True rc st sink batch w = w3"
        using d Inl f by (simp add: work_loop.simps [of True rc st sink batch w])
      show ?thesis
        using failed_settles [OF f [unfolded None]] less.prems ids w1 by (simp add: loop)
    next
      case (Some y)
      then obtain batch' w4 where y: "x = Some (batch', w4)" by fastforce
      then have loop: "work_loop True rc st sink batch w = work_loop True rc st sink batch' w4"
        using d Inl f by (simp add: work_loop.simps [of True rc st sink batch w])
      note c = work_continues [OF f [unfolded y] less.prems(1-4) w1(1-3)]
      have "w_running w4 + 2 = w_running ?w1"
        using after_failure_twice [OF f [unfolded y]] .
      then have n: "w_running w4 + 2 = w_running w" using w1(4) by simp
      then have "2 * max 1 (attempts_left rc (retried_batch batch)) - 1 \<le> int (w_running w4)"
        using less.prems(6) c attempts_left_retried [OF less.prems(3), of rc] by linarith
      then show ?thesis
        using less.hyps [of w4 "retried_batch batch"] n c less.prems(3-5) unfolding loop
        by (simp add: retried_batch_fields)
    qed
  qed
qed

end

end
