(* ===== verification/Storage_Wal.thy ===== *)
theory Storage_Wal
  imports Pipeline_Liveness Wal_Demo
begin

text \<open>
  The write-ahead log as the storage of the pipeline: it obeys the contract of a worker. What the
  log is asked to do by other goroutines in between is in the step relation of \<open>Wal_Ops\<close>.
\<close>

definition wal_attempts :: "WAL \<Rightarrow> u64 \<Rightarrow> nat option" where
  "wal_attempts w i = map_option md_attempts (w_active w i)"

definition wal_ready :: "int \<Rightarrow> WAL \<Rightarrow> bool" where
  "wal_ready m w \<longleftrightarrow> wal_inv w \<and> cfg_MaxRecordAttempts (w_config w) = m"

text \<open>\<open>Append\<close> on behalf of one client that is alone with the writer: its request is admitted,
  committed as a group of its own, and answered.\<close>

definition wal_append :: "codec \<Rightarrow> int \<Rightarrow> envelope \<Rightarrow> WAL \<Rightarrow> (spool_error + spool_record) \<times> WAL" where
  "wal_append js now e w =
     (let rq = \<lparr>rq_tag = 0, rq_envelope = e, rq_now = now\<rparr>
      in case append_admit False False rq w of
           (Some err, w1) \<Rightarrow> (Inl err, w1)
         | (None, w1) \<Rightarrow>
             (case processAppendRequests js (w_appendQueue w1) (w1\<lparr>w_appendQueue := []\<rparr>) of
                (out, w2) \<Rightarrow>
                  ((case map_of out 0 of
                      Some a \<Rightarrow> (case ar_err a of Some err \<Rightarrow> Inl err
                        | None \<Rightarrow> (case ar_record a of Some r \<Rightarrow> Inr r | None \<Rightarrow> Inl NilDereference))
                    | None \<Rightarrow> Inl NilDereference), compactSegments w2)))"

definition wal_storage :: "codec \<Rightarrow> int \<Rightarrow> WAL storage_ops" where
  "wal_storage js now =
     \<lparr>op_Append = wal_append js now, op_NextAfter = NextAfter js, op_Ack = Ack, op_MarkRetry = MarkRetry,
      op_Quarantine = Quarantine\<rparr>"

section \<open>The laws\<close>

lemma settle_law:
  assumes run: "writeRecordStates rs kind reason False w = (r, rs', w')" and ok: "wal_ready m w"
    and d: "distinct (List.map RecordID rs)" and k: "kind \<noteq> StateRetry"
  shows "wal_ready m w' \<and> only_settled (RecordID ` set rs) (wal_attempts w) (wal_attempts w')
    \<and> (r = None \<longrightarrow> (\<forall>i\<in>RecordID ` set rs. wal_attempts w' i = None))"
proof -
  have "settleable False w rs" using d by (simp add: settleable_def)
  then have i: "wal_ready m w'"
    using writeRecordStates_inv [OF run] ok k by (simp add: wal_ready_def)
  show ?thesis
  proof (cases r)
    case None
    have "w_active w' = (\<lambda>j. if j \<in> RecordID ` set rs then None else w_active w j)"
      using writeRecordStates_active [OF run [unfolded None]] k by (simp cong: if_cong)
    then show ?thesis using i by (auto simp: only_settled_def wal_attempts_def)
  next
    case (Some e)
    have "w_active w' = w_active w"
      using writeRecordStates_error [OF run [unfolded Some]] ok by (simp add: wal_ready_def records_same_def)
    then show ?thesis using i Some by (simp add: wal_attempts_def only_settled_def)
  qed
qed

text \<open>The attempts written back into the records are those of the table.\<close>

lemma update_attempts_retried:
  assumes m: "collect_entries StateRetry reason True w rs [] = Inr m"
    and h: "held wal_attempts w rs"
  shows "update_attempts (sort_key fst m) rs = List.map retried rs"
proof -
  let ?es = "concat (List.map snd (sort_key fst m))"
  note b = collected_batches [OF m]
  have act: "w_active w (RecordID r) \<noteq> None \<and> md_attempts (the (w_active w (RecordID r))) = Attempts r"
    if "r \<in> set rs" for r
    using h that by (fastforce simp: held_def wal_attempts_def)
  then have all: "active_records w rs = rs" by (auto simp: active_records_def)
  have es: "set ?es = record_entry StateRetry reason True w ` set rs"
    using set_batches [OF b] all by simp
  have d: "distinct (List.map se_id ?es)"
    using b distinct_batches [of "sort_key fst m" "record_entry StateRetry reason True w" "record_segment w"
        rs RecordID] h all
    by (simp add: batches_for_def record_entry_def held_def)
  let ?kv = "List.map (\<lambda>e. (se_id e, unat (se_attempts e))) ?es"
  have k: "distinct (List.map fst (rev ?kv))" using d by (simp add: o_def rev_map [symmetric])
  have "map_of (rev ?kv) (RecordID r) = Some (Attempts r + 1)" if r: "r \<in> set rs" for r
  proof -
    let ?e = "record_entry StateRetry reason True w r"
    obtain md where md: "w_active w (RecordID r) = Some md" "md_attempts md = Attempts r"
      using act [OF r] by auto
    have "md_attempts md < 99999" using collect_entries_spec [OF m] md(1) r by force
    then have "unat (1 + of_nat (md_attempts md) :: u32) = Suc (md_attempts md)"
      by (simp add: unat_of_nat flip: of_nat_Suc)
    then have "(se_id ?e, unat (se_attempts ?e)) = (RecordID r, Attempts r + 1)"
      using md by (simp add: record_entry_def)
    moreover have "(se_id ?e, unat (se_attempts ?e)) \<in> set (rev ?kv)"
      unfolding set_rev set_map es using r by (intro imageI)
    ultimately have "(RecordID r, Attempts r + 1) \<in> set (rev ?kv)" by (simp only:)
    then show ?thesis by (rule map_of_is_SomeI [OF k])
  qed
  then show ?thesis by (simp add: update_attempts_def retried_def)
qed

lemma retry_law:
  assumes run: "MarkRetry rs w = (r, rs', w')" and ok: "wal_ready m w" and h: "held wal_attempts w rs"
    and lim: "\<forall>r\<in>set rs. int (Attempts r) + 1 < m"
  shows "wal_ready m w' \<and> (\<forall>i. i \<notin> RecordID ` set rs \<longrightarrow> wal_attempts w' i = wal_attempts w i)
    \<and> (\<forall>i. wal_attempts w i \<noteq> None \<longrightarrow> wal_attempts w' i \<noteq> None)
    \<and> (r = None \<longrightarrow> rs' = List.map retried rs \<and> held wal_attempts w' rs')"
proof -
  note run' = run [unfolded MarkRetry_def]
  have "settleable True w rs"
    using h lim ok by (auto simp: settleable_def held_def wal_attempts_def wal_ready_def)
  then have i: "wal_ready m w'"
    using writeRecordStates_inv [OF run'] ok by (simp add: wal_ready_def)
  show ?thesis
  proof (cases r)
    case None
    have a: "w_active w' = (\<lambda>j. if j \<in> RecordID ` set rs
        then map_option (\<lambda>md. md\<lparr>md_attempts := md_attempts md + 1\<rparr>) (w_active w j) else w_active w j)"
      using writeRecordStates_active [OF run' [unfolded None]] by (simp cong: if_cong)
    have rs': "rs' = List.map retried rs"
      using run' unfolding None
    proof (cases rule: writeRecordStates_cases)
      case (written m' w1)
      then show ?thesis using update_attempts_retried [OF written(3) h] by simp
    qed auto
    have "held wal_attempts w' (List.map retried rs)"
      using h by (fastforce simp: held_def wal_attempts_def a retried_def o_def)
    then show ?thesis using i a rs' by (auto simp: wal_attempts_def)
  next
    case (Some e)
    have "w_active w' = w_active w"
      using writeRecordStates_error [OF run' [unfolded Some]] ok by (simp add: wal_ready_def records_same_def)
    then show ?thesis using i Some by (simp add: wal_attempts_def)
  qed
qed

interpretation wal: settlement "wal_storage js now" "wal_ready m" wal_attempts m
proof (unfold_locales, unfold wal_storage_def storage_ops.simps)
  fix s rs r s'
  assume a: "wal_ready m s" "distinct (List.map RecordID rs)" "Ack rs s = (r, s')"
  then obtain rs' where w: "writeRecordStates rs StateAck walReasonNone False s = (r, rs', s')"
    by (auto simp: Ack_def split: prod.splits)
  show "wal_ready m s' \<and> only_settled (RecordID ` set rs) (wal_attempts s) (wal_attempts s')
      \<and> (r = None \<longrightarrow> (\<forall>i\<in>RecordID ` set rs. wal_attempts s' i = None))"
    by (intro settle_law [OF w a(1,2)]) simp
next
  fix s rs reason r s'
  assume a: "wal_ready m s" "distinct (List.map RecordID rs)" "Quarantine rs reason s = (r, s')"
  then obtain sr rs' where w: "writeRecordStates rs StateQuarantine sr False s = (r, rs', s')"
    by (auto simp: Quarantine_def Let_def split: prod.splits)
  show "wal_ready m s' \<and> only_settled (RecordID ` set rs) (wal_attempts s) (wal_attempts s')
      \<and> (r = None \<longrightarrow> (\<forall>i\<in>RecordID ` set rs. wal_attempts s' i = None))"
    by (intro settle_law [OF w a(1,2)]) simp
next
  fix s rs r rs' s'
  assume "wal_ready m s" "held wal_attempts s rs" "\<forall>r\<in>set rs. int (Attempts r) + 1 < m"
    "MarkRetry rs s = (r, rs', s')"
  then show "wal_ready m s' \<and> (\<forall>i. i \<notin> RecordID ` set rs \<longrightarrow> wal_attempts s' i = wal_attempts s i)
      \<and> (\<forall>i. wal_attempts s i \<noteq> None \<longrightarrow> wal_attempts s' i \<noteq> None)
      \<and> (r = None \<longrightarrow> rs' = List.map retried rs \<and> held wal_attempts s' rs')"
    using retry_law by blast
qed

end
