(* ===== verification/Storage_Pipeline.thy ===== *)
theory Storage_Pipeline
  imports Pipeline_Reachable Storage_Wal Wal_System
begin

text \<open>
  The write-ahead log obeys the whole contract of the pipeline: its identifiers are handed out once,
  an append leaves every other record alone, and what it reads is active with the attempts of its
  table. So what holds of every reachable state of the pipeline holds with the log beneath it.
\<close>

section \<open>What an append leaves alone\<close>

lemma install_records_active:
  "i \<notin> prepared_id ` set ps \<Longrightarrow> w_active (install_records ps offset w) i = w_active w i"
  by (induction ps arbitrary: offset w) (simp_all add: Let_def prepared_id_def)

lemma write_group_active:
  assumes "write_group ps enc w = (err, w')" "i \<notin> prepared_id ` set ps"
  shows "w_active w' i = w_active w i"
proof (cases "w_segments w (w_current w)")
  case None
  then show ?thesis using assms by (auto simp: write_group_def)
next
  case (Some cur)
  obtain n w1 where g: "grown cur n w w1"
    and w1: "err \<noteq> None \<Longrightarrow> w' = observeUsageLocked (w1\<lparr>w_fault := err\<rparr>)"
    "err = None \<Longrightarrow> n = length enc \<and> w' = observeUsageLocked (install_records ps (seg_size cur) w1)"
    using write_group_cases [OF assms(1) Some] by metis
  then show ?thesis using assms(2) by (cases err) (simp_all add: grown_def install_records_active)
qed

lemma rotateLocked_active:
  assumes "rotateLocked w = (e, w')"
  shows "w_active w' = w_active w"
proof (cases e)
  case None
  obtain fs' where "w' = (installSegment (fresh_segment (w_nextSegmentID w))
        (upd_segment (w_current w) (\<lambda>c. c\<lparr>seg_file := False, seg_closed := True\<rparr>)
          (w\<lparr>w_world := fs'\<rparr>)))\<lparr>w_current := w_nextSegmentID w\<rparr>"
    using rotateLocked_None [OF assms [unfolded None]] by metis
  then show ?thesis by (simp add: installSegment_def fresh_segment_def)
next
  case (Some x)
  obtain fs where "w' = w\<lparr>w_world := fs\<rparr>" using rotateLocked_Some [OF assms [unfolded Some]] .
  then show ?thesis by simp
qed

lemma commitGroup_active:
  assumes "commitGroup ps w = (err, w')" "i \<notin> prepared_id ` set ps"
  shows "w_active w' i = w_active w i"
  using assms(1)
proof (cases rule: commitGroup_cases)
  case plain
  then show ?thesis using write_group_active assms(2) by blast
next
  case (failed e w1)
  then show ?thesis using rotateLocked_active by fastforce
next
  case (rotated w1 n w2)
  have "w_active w2 = w_active w1" using compactSegmentsLocked_frame [of w1] rotated(2) by simp
  then show ?thesis
    using rotateLocked_active [OF rotated(1)] write_group_active [OF rotated(3) assms(2)] by simp
qed simp

lemma flush_group_active:
  "flush_group ps w = (err, out, w') \<Longrightarrow> i \<notin> prepared_id ` set ps \<Longrightarrow> w_active w' i = w_active w i"
  by (auto simp: flush_group_def dest: commitGroup_active split: if_splits prod.splits)

text \<open>A batch of one request: the identifier is taken, whatever becomes of the record.\<close>

lemma process_one:
  assumes "process_loop js [rq] [] 0 w = (out, w')"
  shows "w_nextID w' = w_nextID w + 1 \<and> (\<forall>i. i \<noteq> w_nextID w \<longrightarrow> w_active w' i = w_active w i)
    \<and> (\<forall>a r. map_of out (rq_tag rq) = Some a \<longrightarrow> ar_record a = Some r \<longrightarrow> RecordID r = w_nextID w)"
proof -
  let ?w = "w\<lparr>w_nextID := w_nextID w + 1\<rparr>"
  let ?r = "\<lparr>RecordID = w_nextID w, Attempts = 0, EnqueuedAt = rq_now rq, Envelope = rq_envelope rq\<rparr>"
  show ?thesis
  proof (cases "encodeWALDataFrame js ?r")
    case (Inl e)
    then show ?thesis using assms by (auto simp: Let_def flush_group_def)
  next
    case (Inr frame)
    let ?p = "\<lparr>pr_tag = rq_tag rq, pr_record = ?r, pr_frame = frame\<rparr>"
    obtain err where c: "commitGroup [?p] ?w = (err, w')"
      and out: "out = [(rq_tag rq, \<lparr>ar_record = Some ?r, ar_err = err\<rparr>)]"
      using assms Inr by (auto simp: Let_def flush_group_def split: prod.splits)
    have "w_nextID w' = w_nextID w + 1" using commitGroup_ids [OF c] by simp
    moreover have "w_active w' i = w_active w i" if "i \<noteq> w_nextID w" for i
      using commitGroup_active [OF c, of i] that by (simp add: prepared_id_def)
    ultimately show ?thesis using out by auto
  qed
qed

section \<open>The laws\<close>

definition wal_known :: "WAL \<Rightarrow> u64 set" where
  "wal_known w = {i. i < w_nextID w}"

text \<open>A client of \<open>wal_append\<close> is alone with the writer, and the identifiers do not run out.\<close>

definition wal_room :: "WAL \<Rightarrow> bool" where
  "wal_room w \<longleftrightarrow> w_appendQueue w = [] \<and> 1 \<le> cfg_MaxRecordAttempts (w_config w)
     \<and> room_for 1 (w_nextID w) \<and> room_for 2 (w_nextSegmentID w)"

lemma wal_inv_queue: "wal_inv (w\<lparr>w_appendQueue := q\<rparr>) = wal_inv w"
  using tables_ok_cong [of "w\<lparr>w_appendQueue := q\<rparr>" w] index_ok_cong [of "w\<lparr>w_appendQueue := q\<rparr>" w]
  by (simp add: wal_inv_def)

lemma compactSegments_same:
  "w_active (compactSegments w) = w_active w" "w_nextID (compactSegments w) = w_nextID w"
  "w_config (compactSegments w) = w_config w"
  using compactSegmentsLocked_frame [of w] by (simp_all add: compactSegments_def split_beta)

lemma append_law:
  assumes ok: "wal_ready m w" and room: "wal_room w" and run: "wal_append js now e w = (r, w')"
  shows "wal_ready m w' \<and> wal_known w \<subseteq> wal_known w' \<and> (\<forall>i\<in>wal_known w. wal_attempts w' i = wal_attempts w i)
    \<and> (\<forall>r'. r = Inr r' \<longrightarrow> RecordID r' \<in> wal_known w' - wal_known w)"
proof -
  let ?rq = "\<lparr>rq_tag = 0, rq_envelope = e, rq_now = now\<rparr>"
  obtain err w1 where a: "append_admit False False ?rq w = (err, w1)" by fastforce
  show ?thesis
  proof (cases err)
    case (Some x)
    then have "w1 = w" using a by (auto simp: append_admit_def split: option.splits if_splits)
    then show ?thesis using run a Some ok by (auto simp: wal_append_def Let_def)
  next
    case None
    have w1: "w_appendQueue w1 = [?rq]" "w1\<lparr>w_appendQueue := []\<rparr> = w"
      using append_admit_None(1) [OF a [unfolded None]] room by (simp_all add: wal_room_def)
    obtain out w2 where l: "process_loop js [?rq] [] 0 w = (out, w2)" by fastforce
    have w': "w' = compactSegments w2"
      using run a None w1 l by (simp add: wal_append_def processAppendRequests_def Let_def)
    have rec: "\<exists>a. map_of out 0 = Some a \<and> ar_record a = Some r'" if "r = Inr r'" for r'
      using run that a None w1 l
      by (auto simp: wal_append_def processAppendRequests_def Let_def simp del: map_of_eq_Some_iff split: option.splits)
    have "wal_inv w2"
      using process_loop_inv [OF l] ok room by (simp add: wal_ready_def wal_room_def fresh_ids_def numeral_2_eq_2)
    then have "wal_inv w'" using compactSegments_inv w' by simp
    moreover have "w_config w2 = w_config w" using same_queue_process_loop [OF l] by (simp add: same_queue_def)
    ultimately have inv: "wal_ready m w'" using ok w' compactSegments_same by (simp add: wal_ready_def)
    note p = process_one [OF l]
    have nid: "w_nextID w' = w_nextID w + 1" and act: "\<forall>i. i \<noteq> w_nextID w \<longrightarrow> w_active w' i = w_active w i"
      using p w' compactSegments_same by simp_all
    have less: "w_nextID w < w_nextID w + 1"
      using room room_for_Suc [of 0 "w_nextID w"] by (simp add: wal_room_def word_less_plus_1)
    have "wal_known w \<subseteq> wal_known w'"
      using less unfolding wal_known_def nid by auto
    moreover have "\<forall>i\<in>wal_known w. wal_attempts w' i = wal_attempts w i"
      using act by (auto simp: wal_known_def wal_attempts_def)
    moreover have "RecordID r' \<in> wal_known w' - wal_known w" if r: "r = Inr r'" for r'
    proof -
      have "RecordID r' = w_nextID w" using rec [OF r] p by auto
      then show ?thesis using less by (simp add: wal_known_def nid)
    qed
    ultimately show ?thesis using inv by blast
  qed
qed

text \<open>A read changes only what comes from outside, and may mark the log as faulty.\<close>

definition read_only :: "WAL \<Rightarrow> WAL \<Rightarrow> bool" where
  "read_only w w' \<longleftrightarrow> (\<exists>fa w1. only_io w w1 \<and> (w' = w1 \<or> w' = observe RecordWALCorruption (w1\<lparr>w_fault := fa\<rparr>)))"

lemma next_active_frame:
  "next_active js is w = (x, w') \<Longrightarrow> read_only w w'
     \<and> (\<forall>r. x = (Some (Inr r), None) \<longrightarrow> (\<exists>md. w_active w (RecordID r) = Some md \<and> Attempts r = md_attempts md))"
proof (induction "is")
  case Nil
  then have "w' = w" "x = (None, None)" by simp_all
  moreover have "only_io w w" by simp
  ultimately show ?case unfolding read_only_def by blast
next
  case (Cons i "is")
  show ?case
  proof (cases "w_active w i")
    case None
    then show ?thesis using Cons by simp
  next
    case (Some md)
    obtain q w1 where q: "readRecordLocked js i md w = (q, w1)" by fastforce
    have io: "only_io w w1" using readRecordLocked_io [of w js i md] q by simp
    show ?thesis
    proof (cases q)
      case None
      then show ?thesis using Cons.prems Some q io unfolding read_only_def by (auto simp: Let_def)
    next
      case (Some r)
      then have "RecordID r = i \<and> Attempts r = md_attempts md" using readRecordLocked_result q by blast
      then show ?thesis using Cons.prems Some \<open>w_active w i = Some md\<close> q io unfolding read_only_def by auto
    qed
  qed
qed

lemma read_only_ok:
  assumes "read_only w w'" "wal_ready m w"
  shows "wal_ready m w' \<and> wal_known w' = wal_known w \<and> wal_attempts w' = wal_attempts w"
proof -
  have t: "w_segments w' = w_segments w \<and> w_current w' = w_current w \<and> w_usedBytes w' = w_usedBytes w
      \<and> w_active w' = w_active w \<and> w_reservedBytes w' = w_reservedBytes w \<and> w_config w' = w_config w
      \<and> w_nextSegmentID w' = w_nextSegmentID w \<and> w_ids w' = w_ids w \<and> w_nextID w' = w_nextID w
      \<and> w_segmentIDs w' = w_segmentIDs w"
    using assms(1) by (auto simp: read_only_def only_io_def)
  then have "wal_inv w' = wal_inv w"
    using tables_ok_cong [of w' w] index_ok_cong [of w' w] by (simp add: wal_inv_def)
  then show ?thesis using assms(2) t by (simp add: wal_ready_def wal_known_def wal_attempts_def fun_eq_iff)
qed

lemma next_law:
  assumes ok: "wal_ready m w" and run: "NextAfter js i w = (x, w')"
  shows "wal_ready m w' \<and> wal_known w' = wal_known w \<and> wal_attempts w' = wal_attempts w
    \<and> (\<forall>r. x = (Some (Inr r), None) \<longrightarrow> wal_attempts w (RecordID r) = Some (Attempts r))"
proof (cases "w_fault w")
  case None
  then obtain "is" where n: "next_active js is w = (x, w')" using run by (auto simp: NextAfter_def Let_def)
  show ?thesis
    using read_only_ok [OF conjunct1 [OF next_active_frame [OF n]] ok] next_active_frame [OF n]
    by (auto simp: wal_attempts_def)
next
  case (Some e)
  then show ?thesis using run ok by (auto simp: NextAfter_def)
qed

lemma wal_active_known: "wal_ready m w \<Longrightarrow> wal_attempts w i \<noteq> None \<Longrightarrow> i \<in> wal_known w"
  by (auto simp: wal_ready_def wal_inv_def index_ok_def wal_attempts_def wal_known_def domIff subset_iff)

text \<open>Settling takes no identifiers.\<close>

lemma settle_known:
  assumes "writeRecordStates rs kind reason inc w = (r, rs', w')" "wal_inv w" "settleable inc w rs"
    "inc = (kind = StateRetry)"
  shows "wal_known w' = wal_known w"
  using writeRecordStates_inv [OF assms] by (simp add: wal_known_def)

lemma distinct_settleable: "distinct (List.map RecordID rs) \<Longrightarrow> settleable False w rs"
  by (simp add: settleable_def)

lemma ack_known_law:
  assumes "wal_ready m w" "distinct (List.map RecordID rs)" "Ack rs w = (r, w')"
  shows "wal_known w' = wal_known w"
proof -
  obtain rs' where w: "writeRecordStates rs StateAck walReasonNone False w = (r, rs', w')"
    using assms(3) by (auto simp: Ack_def split: prod.splits)
  then show ?thesis
    by (rule settle_known [OF _ _ distinct_settleable [OF assms(2)]]) (use assms(1) in \<open>simp_all add: wal_ready_def\<close>)
qed

lemma quarantine_known_law:
  assumes "wal_ready m w" "distinct (List.map RecordID rs)" "Quarantine rs reason w = (r, w')"
  shows "wal_known w' = wal_known w"
proof -
  obtain sr rs' where w: "writeRecordStates rs StateQuarantine sr False w = (r, rs', w')"
    using assms(3) by (auto simp: Quarantine_def Let_def split: prod.splits)
  then show ?thesis
    by (rule settle_known [OF _ _ distinct_settleable [OF assms(2)]]) (use assms(1) in \<open>simp_all add: wal_ready_def\<close>)
qed

lemma retry_known_law:
  assumes "wal_ready m w" "held wal_attempts w rs" "\<forall>r\<in>set rs. int (Attempts r) + 1 < m"
    "MarkRetry rs w = (r, rs', w')"
  shows "wal_known w' = wal_known w"
proof -
  have "settleable True w rs"
    using assms(1-3) by (auto simp: settleable_def held_def wal_attempts_def wal_ready_def)
  then show ?thesis
    by (intro settle_known [OF assms(4) [unfolded MarkRetry_def]]) (use assms(1) in \<open>simp_all add: wal_ready_def\<close>)
qed

interpretation wal_pipeline: pipeline_storage "wal_storage js now" "wal_ready m" wal_attempts m wal_known wal_room
proof (unfold_locales, unfold wal_storage_def storage_ops.simps)
  show "wal_ready m s \<Longrightarrow> wal_attempts s i \<noteq> None \<Longrightarrow> i \<in> wal_known s" for s i
    by (rule wal_active_known)
  show "wal_ready m s' \<and> wal_known s \<subseteq> wal_known s' \<and> (\<forall>i\<in>wal_known s. wal_attempts s' i = wal_attempts s i)
      \<and> (\<forall>r'. r = Inr r' \<longrightarrow> RecordID r' \<in> wal_known s' - wal_known s)"
    if "wal_ready m s" "wal_room s" "wal_append js now e s = (r, s')" for s e r s'
    by (rule append_law [OF that])
  show "wal_ready m s' \<and> wal_known s' = wal_known s \<and> wal_attempts s' = wal_attempts s
      \<and> (\<forall>r. x = (Some (Inr r), None) \<longrightarrow> wal_attempts s (RecordID r) = Some (Attempts r))"
    if "wal_ready m s" "NextAfter js i s = (x, s')" for s i x s'
    by (rule next_law [OF that])
  show "wal_known s' = wal_known s"
    if "wal_ready m s" "distinct (List.map RecordID rs)" "Ack rs s = (failure, s')" for s rs failure s'
    by (rule ack_known_law [OF that])
  show "wal_known s' = wal_known s"
    if "wal_ready m s" "distinct (List.map RecordID rs)" "Quarantine rs reason s = (failure, s')" for s rs reason failure s'
    by (rule quarantine_known_law [OF that])
  show "wal_known s' = wal_known s"
    if "wal_ready m s" "held wal_attempts s rs" "\<forall>r\<in>set rs. int (Attempts r) + 1 < m"
      "MarkRetry rs s = (failure, rs', s')" for s rs failure rs' s'
    by (rule retry_known_law [OF that])
qed

end
