(* ===== verification/Storage_Queue.thy ===== *)
theory Storage_Queue
  imports Storage_Pipeline
begin

text \<open>
  The write-ahead log as a refinement of an abstract durable queue: a table of records with the
  attempts each has had, and the next identifier. Whatever of the log's files, segments, rotations
  and checkpoints a call goes through, its effect on the table is that of the queue's call.
\<close>

section \<open>The abstract queue\<close>

record durable_queue =
  dq_next :: u64
  dq_records :: "u64 \<rightharpoonup> nat"

datatype queue_call =
    QAppend envelope
  | QNext u64
  | QAck "spool_record list"
  | QRetry "spool_record list"
  | QQuarantine "spool_record list" string

datatype queue_reply =
    RAppend "spool_error + spool_record"
  | RNext "(u64 + spool_record) option" "spool_error option"
  | RDone "spool_error option"
  | RRetry "spool_error option" "spool_record list"

definition settle_queue :: "spool_record list \<Rightarrow> durable_queue \<Rightarrow> durable_queue" where
  "settle_queue rs q = q\<lparr>dq_records := dq_records q |` (- RecordID ` set rs)\<rparr>"

definition retry_queue :: "spool_record list \<Rightarrow> durable_queue \<Rightarrow> durable_queue" where
  "retry_queue rs q =
     q\<lparr>dq_records := (\<lambda>i. if i \<in> RecordID ` set rs then map_option Suc (dq_records q i) else dq_records q i)\<rparr>"

text \<open>A refused append may use up an identifier; any other refused call leaves the queue alone.\<close>

fun queue_spec :: "durable_queue \<Rightarrow> queue_call \<Rightarrow> queue_reply \<Rightarrow> durable_queue \<Rightarrow> bool" where
  "queue_spec q (QAppend e) (RAppend (Inr r)) q' \<longleftrightarrow> RecordID r = dq_next q \<and> Attempts r = 0 \<and> Envelope r = e
     \<and> q' = q\<lparr>dq_next := dq_next q + 1, dq_records := (dq_records q)(dq_next q \<mapsto> 0)\<rparr>"
| "queue_spec q (QAppend e) (RAppend (Inl err)) q' \<longleftrightarrow> q' = q \<or> q' = q\<lparr>dq_next := dq_next q + 1\<rparr>"
| "queue_spec q (QNext i) (RNext x (Some err)) q' \<longleftrightarrow> q' = q"
| "queue_spec q (QNext i) (RNext None None) q' \<longleftrightarrow> q' = q \<and> (\<forall>j. i < j \<longrightarrow> dq_records q j = None)"
| "queue_spec q (QNext i) (RNext (Some (Inr r)) None) q' \<longleftrightarrow> q' = q \<and> i < RecordID r
     \<and> dq_records q (RecordID r) = Some (Attempts r) \<and> (\<forall>j. i < j \<longrightarrow> dq_records q j \<noteq> None \<longrightarrow> RecordID r \<le> j)"
| "queue_spec q (QAck rs) (RDone r) q' \<longleftrightarrow> q' = (if r = None then settle_queue rs q else q)"
| "queue_spec q (QQuarantine rs reason) (RDone r) q' \<longleftrightarrow> q' = (if r = None then settle_queue rs q else q)"
| "queue_spec q (QRetry rs) (RRetry r rs') q' \<longleftrightarrow>
     (if r = None then rs' = List.map retried rs \<and> q' = retry_queue rs q else q' = q)"
| "queue_spec q _ _ q' \<longleftrightarrow> False"

section \<open>The calls of the log\<close>

fun run_call :: "'s storage_ops \<Rightarrow> queue_call \<Rightarrow> 's \<Rightarrow> queue_reply \<times> 's" where
  "run_call st (QAppend e) s = (case op_Append st e s of (r, s') \<Rightarrow> (RAppend r, s'))"
| "run_call st (QNext i) s = (case op_NextAfter st i s of ((x, e), s') \<Rightarrow> (RNext x e, s'))"
| "run_call st (QAck rs) s = (case op_Ack st rs s of (r, s') \<Rightarrow> (RDone r, s'))"
| "run_call st (QRetry rs) s = (case op_MarkRetry st rs s of (r, rs', s') \<Rightarrow> (RRetry r rs', s'))"
| "run_call st (QQuarantine rs reason) s = (case op_Quarantine st rs reason s of (r, s') \<Rightarrow> (RDone r, s'))"

definition queue_of :: "WAL \<Rightarrow> durable_queue" where
  "queue_of w = \<lparr>dq_next = w_nextID w, dq_records = wal_attempts w\<rparr>"

text \<open>What a caller keeps to: it settles what it was given, and does not retry beyond the limit.\<close>

fun proper_call :: "WAL \<Rightarrow> queue_call \<Rightarrow> bool" where
  "proper_call w (QAppend e) = wal_room w"
| "proper_call w (QNext i) = True"
| "proper_call w (QAck rs) = distinct (List.map RecordID rs)"
| "proper_call w (QQuarantine rs reason) = distinct (List.map RecordID rs)"
| "proper_call w (QRetry rs) \<longleftrightarrow> held wal_attempts w rs
     \<and> (\<forall>r\<in>set rs. int (Attempts r) + 1 < cfg_MaxRecordAttempts (w_config w))"

section \<open>Appending\<close>

lemma write_group_single:
  assumes "write_group [p] enc w = (err, w')" "w_segments w (w_current w) \<noteq> None"
  shows "wal_attempts w' = (if err = None then (wal_attempts w)(prepared_id p \<mapsto> 0) else wal_attempts w)"
proof -
  obtain cur where cur: "w_segments w (w_current w) = Some cur" using assms(2) by blast
  obtain n w1 where g: "grown cur n w w1"
    and w1: "err \<noteq> None \<Longrightarrow> w' = observeUsageLocked (w1\<lparr>w_fault := err\<rparr>)"
    "err = None \<Longrightarrow> n = length enc \<and> w' = observeUsageLocked (install_records [p] (seg_size cur) w1)"
    using write_group_cases [OF assms(1) cur] by metis
  then show ?thesis
    by (cases err) (auto simp: grown_def wal_attempts_def fun_eq_iff prepared_id_def Let_def)
qed

lemma commitGroup_single:
  assumes "commitGroup [p] w = (err, w')" "wal_inv w" "w_nextSegmentID w \<noteq> - 1"
  shows "wal_attempts w' = (if err = None then (wal_attempts w)(prepared_id p \<mapsto> 0) else wal_attempts w)"
  using assms(1)
proof (cases rule: commitGroup_cases)
  case (refused ev)
  then show ?thesis by (cases err) (simp_all add: wal_attempts_def fun_eq_iff)
next
  case plain
  then show ?thesis using write_group_single assms(2) unfolding wal_inv_def tables_ok_def by blast
next
  case (failed e w1)
  then show ?thesis using rotateLocked_active by (fastforce simp: wal_attempts_def fun_eq_iff)
next
  case (rotated w1 n w2)
  obtain cur where cur: "w_segments w (w_current w) = Some cur"
    using assms(2) unfolding wal_inv_def tables_ok_def by blast
  note r = rotate_compact_ok(6) [OF rotated(1,2) assms(2) cur assms(3)]
  have "w_active w2 = w_active w"
    using compactSegmentsLocked_frame [of w1] rotated(2) rotateLocked_active [OF rotated(1)] by simp
  then have "wal_attempts w2 = wal_attempts w" by (simp add: wal_attempts_def fun_eq_iff)
  then show ?thesis using write_group_single [OF rotated(3)] r by simp
qed

lemma process_one_queue:
  assumes "process_loop js [rq] [] 0 w = (out, w')" "wal_inv w" "w_nextSegmentID w \<noteq> - 1" "room_for 1 (w_nextID w)"
  obtains err r where "map_of out (rq_tag rq) = Some \<lparr>ar_record = r, ar_err = err\<rparr>" "w_nextID w' = w_nextID w + 1"
    "wal_attempts w' = (if err = None then (wal_attempts w)(w_nextID w \<mapsto> 0) else wal_attempts w)"
    "err = None \<Longrightarrow> r = Some \<lparr>RecordID = w_nextID w, Attempts = 0, EnqueuedAt = rq_now rq, Envelope = rq_envelope rq\<rparr>"
proof -
  let ?w = "w\<lparr>w_nextID := w_nextID w + 1\<rparr>"
  let ?r = "\<lparr>RecordID = w_nextID w, Attempts = 0, EnqueuedAt = rq_now rq, Envelope = rq_envelope rq\<rparr>"
  have same: "wal_attempts ?w = wal_attempts w" by (simp add: wal_attempts_def fun_eq_iff)
  show ?thesis
  proof (cases "encodeWALDataFrame js ?r")
    case (Inl e)
    then have "out = [(rq_tag rq, \<lparr>ar_record = None, ar_err = Some (ErrFormat e)\<rparr>)]" "w' = ?w"
      using assms(1) by (auto simp: Let_def flush_group_def)
    then show ?thesis using that [of None "Some (ErrFormat e)"] same by simp
  next
    case (Inr frame)
    let ?p = "\<lparr>pr_tag = rq_tag rq, pr_record = ?r, pr_frame = frame\<rparr>"
    obtain err where c: "commitGroup [?p] ?w = (err, w')"
      and out: "out = [(rq_tag rq, \<lparr>ar_record = Some ?r, ar_err = err\<rparr>)]"
      using assms(1) Inr by (auto simp: Let_def flush_group_def split: prod.splits)
    have "w_nextID w < w_nextID w + 1" using assms(4) room_for_Suc [of 0 "w_nextID w"] by (simp add: word_less_plus_1)
    then have "wal_inv ?w"
      using assms(2) tables_ok_cong [of ?w w] by (auto simp: wal_inv_def index_ok_def)
    then have "wal_attempts w' = (if err = None then (wal_attempts ?w)(prepared_id ?p \<mapsto> 0) else wal_attempts ?w)"
      using commitGroup_single [OF c] assms(3) by simp
    then have "wal_attempts w' = (if err = None then (wal_attempts w)(w_nextID w \<mapsto> 0) else wal_attempts w)"
      unfolding same by (simp add: prepared_id_def)
    moreover have "w_nextID w' = w_nextID w + 1" using commitGroup_ids [OF c] by simp
    ultimately show ?thesis using that [of "Some ?r" err] out by simp
  qed
qed

lemma append_queue:
  assumes ok: "wal_inv w" and room: "wal_room w" and run: "wal_append js now e w = (r, w')"
  shows "queue_spec (queue_of w) (QAppend e) (RAppend r) (queue_of w')"
proof -
  let ?rq = "\<lparr>rq_tag = 0, rq_envelope = e, rq_now = now\<rparr>"
  obtain err w1 where a: "append_admit False False ?rq w = (err, w1)" by fastforce
  show ?thesis
  proof (cases err)
    case (Some x)
    then have "w1 = w" using a by (auto simp: append_admit_def split: option.splits if_splits)
    then show ?thesis using run a Some by (auto simp: wal_append_def Let_def)
  next
    case None
    have w1: "w_appendQueue w1 = [?rq]" "w1\<lparr>w_appendQueue := []\<rparr> = w"
      using append_admit_None(1) [OF a [unfolded None]] room by (simp_all add: wal_room_def)
    obtain out w2 where l: "process_loop js [?rq] [] 0 w = (out, w2)" by fastforce
    have next_id: "w_nextSegmentID w \<noteq> - 1" "room_for 1 (w_nextID w)"
      using room room_for_Suc [of 1 "w_nextSegmentID w"] by (simp_all add: wal_room_def numeral_2_eq_2)
    obtain e2 rec where o: "map_of out 0 = Some \<lparr>ar_record = rec, ar_err = e2\<rparr>" "w_nextID w2 = w_nextID w + 1"
      "wal_attempts w2 = (if e2 = None then (wal_attempts w)(w_nextID w \<mapsto> 0) else wal_attempts w)"
      "e2 = None \<Longrightarrow> rec = Some \<lparr>RecordID = w_nextID w, Attempts = 0, EnqueuedAt = rq_now ?rq, Envelope = rq_envelope ?rq\<rparr>"
      using process_one_queue [OF l ok next_id] by simp metis
    have "wal_append js now e w = ((case e2 of Some err \<Rightarrow> Inl err
        | None \<Rightarrow> (case rec of Some r \<Rightarrow> Inr r | None \<Rightarrow> Inl NilDereference)), compactSegments w2)"
      using a None w1 l o(1)
      by (simp add: wal_append_def processAppendRequests_def Let_def del: process_loop.simps map_of_eq_Some_iff split: option.split)
    then have r: "r = (case e2 of Some err \<Rightarrow> Inl err | None \<Rightarrow> (case rec of Some r \<Rightarrow> Inr r | None \<Rightarrow> Inl NilDereference))"
      and "w' = compactSegments w2"
      using run by simp_all
    then have w': "queue_of w' = \<lparr>dq_next = w_nextID w2, dq_records = wal_attempts w2\<rparr>"
      by (simp add: queue_of_def wal_attempts_def fun_eq_iff)
    show ?thesis
    proof (cases e2)
      case None
      then show ?thesis using o r w' by (simp add: queue_of_def)
    next
      case (Some x)
      then show ?thesis using o r w' by (simp add: queue_of_def)
    qed
  qed
qed

section \<open>Settling and reading\<close>

lemma settle_queue_law:
  assumes "writeRecordStates rs kind reason False w = (r, rs', w')" "wal_inv w" "distinct (List.map RecordID rs)"
    "kind \<noteq> StateRetry"
  shows "queue_of w' = (if r = None then settle_queue rs (queue_of w) else queue_of w)"
proof -
  have "settleable False w rs" using assms(3) by (simp add: settleable_def)
  then have n: "w_nextID w' = w_nextID w" using writeRecordStates_inv [OF assms(1,2)] assms(4) by simp
  show ?thesis
  proof (cases r)
    case None
    have "w_active w' = (\<lambda>j. if j \<in> RecordID ` set rs then None else w_active w j)"
      using writeRecordStates_active [OF assms(1) [unfolded None]] assms(4) by (simp cong: if_cong)
    then show ?thesis
      using None n by (auto simp: queue_of_def settle_queue_def wal_attempts_def fun_eq_iff restrict_map_def)
  next
    case (Some e)
    have "w_active w' = w_active w"
      using writeRecordStates_error [OF assms(1) [unfolded Some]] assms(2) by (simp add: records_same_def)
    then show ?thesis using Some n by (simp add: queue_of_def wal_attempts_def fun_eq_iff)
  qed
qed

lemma retry_queue_law:
  assumes run: "MarkRetry rs w = (r, rs', w')" and ok: "wal_ready m w" and h: "held wal_attempts w rs"
    and lim: "\<forall>r\<in>set rs. int (Attempts r) + 1 < m"
  shows "if r = None then rs' = List.map retried rs \<and> queue_of w' = retry_queue rs (queue_of w) else queue_of w' = queue_of w"
proof -
  note run' = run [unfolded MarkRetry_def]
  have "settleable True w rs"
    using h lim ok by (auto simp: settleable_def held_def wal_attempts_def wal_ready_def)
  then have n: "w_nextID w' = w_nextID w" using writeRecordStates_inv [OF run'] ok by (simp add: wal_ready_def)
  show ?thesis
  proof (cases r)
    case None
    have "w_active w' = (\<lambda>j. if j \<in> RecordID ` set rs
        then map_option (\<lambda>md. md\<lparr>md_attempts := md_attempts md + 1\<rparr>) (w_active w j) else w_active w j)"
      using writeRecordStates_active [OF run' [unfolded None]] by (simp cong: if_cong)
    then have "queue_of w' = retry_queue rs (queue_of w)"
      using n by (auto simp: queue_of_def retry_queue_def wal_attempts_def fun_eq_iff option.map_comp o_def)
    then show ?thesis using retry_law [OF run ok h lim] None by simp
  next
    case (Some e)
    have "w_active w' = w_active w"
      using writeRecordStates_error [OF run' [unfolded Some]] ok by (simp add: wal_ready_def records_same_def)
    then show ?thesis using Some n by (simp add: queue_of_def wal_attempts_def fun_eq_iff)
  qed
qed

lemma next_queue:
  assumes ok: "wal_inv w" and run: "NextAfter js i w = ((x, e), w')"
  shows "queue_spec (queue_of w) (QNext i) (RNext x e) (queue_of w')"
proof -
  let ?m = "cfg_MaxRecordAttempts (w_config w)"
  have law: "wal_ready ?m w' \<and> wal_known w' = wal_known w \<and> wal_attempts w' = wal_attempts w"
    using next_law [OF _ run, of ?m] ok by (simp add: wal_ready_def)
  have id: "w_nextID w' = w_nextID w"
  proof (cases "w_fault w")
    case None
    then obtain "is" where "next_active js is w = ((x, e), w')" using run by (auto simp: NextAfter_def Let_def)
    from next_active_frame [OF this] show ?thesis by (auto simp: read_only_def only_io_def)
  qed (use run in \<open>simp add: NextAfter_def\<close>)
  then have q: "queue_of w' = queue_of w" using law by (simp add: queue_of_def)
  show ?thesis
  proof (cases "w_fault w")
    case (Some f)
    then have "e = Some f" using run by (auto simp: NextAfter_def)
    then show ?thesis using q by simp
  next
    case None
    have "index_ok w" using ok by (simp add: wal_inv_def)
    note s = NextAfter_spec [OF run this None]
    show ?thesis
    proof (cases x)
      case None
      then show ?thesis using s q by (auto simp: queue_of_def wal_attempts_def)
    next
      case (Some y)
      show ?thesis
      proof (cases y)
        case (Inl j)
        then show ?thesis using s Some q by auto
      next
        case (Inr r)
        then show ?thesis using s Some q by (auto simp: queue_of_def wal_attempts_def found_id_def)
      qed
    qed
  qed
qed

section \<open>The property\<close>

text \<open>C5: (refinement) The log refines the durable queue: whichever writes, rotations and compactions a call of
  \<open>Append\<close>, \<open>NextAfter\<close>, \<open>Ack\<close>, \<open>MarkRetry\<close> or \<open>Quarantine\<close> performs and whichever of them fail, its reply and
  its effect on records and identifiers are those of the abstract queue's call.\<close>

theorem log_refines_queue:
  assumes "wal_inv w" "proper_call w call" "run_call (wal_storage js now) call w = (reply, w')"
  shows "wal_inv w' \<and> queue_spec (queue_of w) call reply (queue_of w')"
proof -
  let ?m = "cfg_MaxRecordAttempts (w_config w)"
  have ok: "wal_ready ?m w" using assms(1) by (simp add: wal_ready_def)
  show ?thesis
  proof (cases call)
    case (QAppend e)
    then obtain r where r: "wal_append js now e w = (r, w')" "reply = RAppend r"
      using assms(3) by (auto simp: wal_storage_def split: prod.splits)
    then show ?thesis
      using append_queue [OF assms(1) _ r(1)] append_law [OF ok _ r(1)] assms(2) QAppend by (simp add: wal_ready_def)
  next
    case (QNext i)
    then obtain x e where r: "NextAfter js i w = ((x, e), w')" "reply = RNext x e"
      using assms(3) by (auto simp: wal_storage_def split: prod.splits)
    then show ?thesis
      using next_queue [OF assms(1) r(1)] next_law [OF ok r(1)] QNext by (simp add: wal_ready_def)
  next
    case (QAck rs)
    then obtain r where r: "Ack rs w = (r, w')" "reply = RDone r"
      using assms(3) by (auto simp: wal_storage_def split: prod.splits)
    obtain rs' where run: "writeRecordStates rs StateAck walReasonNone False w = (r, rs', w')"
      using r(1) by (auto simp: Ack_def split: prod.splits)
    show ?thesis
      using settle_queue_law [OF run assms(1)] settle_law [OF run ok] assms(2) QAck r(2) by (simp add: wal_ready_def)
  next
    case (QRetry rs)
    then obtain r rs' where r: "MarkRetry rs w = (r, rs', w')" "reply = RRetry r rs'"
      using assms(3) by (auto simp: wal_storage_def split: prod.splits)
    show ?thesis
      using retry_queue_law [OF r(1) ok] retry_law [OF r(1) ok] assms(2) QRetry r(2) by (simp add: wal_ready_def)
  next
    case (QQuarantine rs reason)
    then obtain r where r: "Quarantine rs reason w = (r, w')" "reply = RDone r"
      using assms(3) by (auto simp: wal_storage_def split: prod.splits)
    obtain sr rs' where run: "writeRecordStates rs StateQuarantine sr False w = (r, rs', w')"
      using r(1) by (auto simp: Quarantine_def Let_def split: prod.splits)
    show ?thesis
      using settle_queue_law [OF run assms(1)] settle_law [OF run ok] assms(2) QQuarantine r(2) by (simp add: wal_ready_def)
  qed
qed

theorem log_refines_queue_witness:
  "\<exists>w'. Ack [demo_record 1] demo_active = (None, w') \<and> dq_records (queue_of w') = Map.empty"
proof -
  obtain w' where a: "Ack [demo_record 1] demo_active = (None, w')" using demo_settled(1) by blast
  then have "run_call (wal_storage demo_codec 7) (QAck [demo_record 1]) demo_active = (RDone None, w')"
    by (simp add: wal_storage_def)
  from log_refines_queue [OF demo_active_inv _ this]
  have "queue_of w' = settle_queue [demo_record 1] (queue_of demo_active)" by simp
  moreover have "dq_records (settle_queue [demo_record 1] (queue_of demo_active)) = Map.empty"
    by (auto simp: settle_queue_def queue_of_def wal_attempts_def restrict_map_def fun_eq_iff)
  ultimately show ?thesis using a by simp
qed

end
