(* ===== verification/Telemetry_Validate.thy ===== *)
theory Telemetry_Validate
  imports Telemetry_Model Go_Strings
begin

text \<open>
  Validation and sanitisation of envelopes (\<open>runtime/go/internal/telemetry/validate.go\<close>). The
  code changes the envelope in place; here an accepted envelope is returned as it is after the
  changes, and a refused one is dropped, as its callers do. A Go \<open>len\<close> of a string is its number
  of bytes. \<open>net/url\<close> is a parameter: how a string is parsed, and how a parsed URL is printed.
\<close>

record limits =
  MaxSpans :: int
  MaxAttributes :: int
  MaxIdentifierSize :: int
  MaxNameSize :: int
  MaxAttributeSize :: int

definition DefaultLimits :: limits where
  "DefaultLimits = \<lparr>MaxSpans = 2048, MaxAttributes = 128, MaxIdentifierSize = 256,
     MaxNameSize = 512, MaxAttributeSize = 4096\<rparr>"

definition validKinds :: "string list" where
  "validKinds = [''http-route'', ''controller'', ''service'', ''database'', ''redis'', ''queue'',
     ''worker'', ''external-http'', ''custom'', ''internal'']"

datatype validation_error =
    UnsupportedProtocol string
  | PayloadRequired
  | ServiceNameRequired
  | NodeVersionTooLong
  | SpanCount
  | InSpan nat validation_error
  | TraceIDRequired
  | SpanIDRequired
  | ParentEqualsSpan
  | ParentTooLong
  | NameRequired
  | UnsupportedKindName string
  | UnsupportedStatus string
  | TimingNotFinite
  | TooManyAttributes
  | BadAttributeKey
  | AttributeTooLong string
  | AttributeNotFinite string
  | AttributeUnsupported string
  | RuntimeNotFinite
  | UtilizationTooHigh

section \<open>Values and keys\<close>

definition finiteNonNegative :: "f64 \<Rightarrow> bool" where
  "finiteNonNegative v \<longleftrightarrow> f64_le (Fin 0) v \<and> \<not> is_nan v \<and> \<not> is_inf v"

definition sensitiveFragments :: "string list" where
  "sensitiveFragments = [''authorization'', ''cookie'', ''set_cookie'', ''password'', ''passwd'',
     ''secret'', ''token'', ''access_token'', ''refresh_token'', ''api_key'', ''client_secret'',
     ''request_body'', ''response_body'', ''message_body'', ''message_payload'', ''db_statement'',
     ''query_text'', ''connection_string'', ''dsn'', ''url_query'']"

definition normalized_key :: "string \<Rightarrow> string" where
  "normalized_key key =
     List.map (\<lambda>c. if c \<in> {CHR ''-'', CHR ''.'', CHR ''/''} then CHR ''_'' else c) (to_lower key)"

definition sensitiveAttributeKey :: "string \<Rightarrow> bool" where
  "sensitiveAttributeKey key \<longleftrightarrow>
     (let normalized = normalized_key key
      in list_ex (\<lambda>fragment. normalized = fragment \<or> has_suffix normalized (''_'' @ fragment)
           \<or> contains normalized (''_'' @ fragment @ ''_'')) sensitiveFragments)"

text \<open>A parsed URL as \<open>sanitizeURLAttribute\<close> uses it; the parts it leaves alone are in
  \<open>url_rest\<close>.\<close>

record 'r parsed_url =
  url_Scheme :: string
  url_Host :: string
  url_User :: "string option"
  url_RawQuery :: string
  url_Fragment :: string
  url_rest :: 'r

record 'r url_library =
  url_parse :: "string \<Rightarrow> 'r parsed_url option"
  url_string :: "'r parsed_url \<Rightarrow> string"

definition sanitizeURLAttribute :: "'r url_library \<Rightarrow> string \<Rightarrow> string \<Rightarrow> string" where
  "sanitizeURLAttribute lib key v =
     (let normalized = to_lower key
      in if normalized \<noteq> ''url.full'' \<and> normalized \<noteq> ''http.url'' then v
         else (case url_parse lib v of
                 None \<Rightarrow> ''[REDACTED]''
               | Some u \<Rightarrow>
                   if url_Scheme u = [] \<or> url_Host u = [] then ''[REDACTED]''
                   else url_string lib (u\<lparr>url_User := None, url_RawQuery := [], url_Fragment := []\<rparr>)))"

section \<open>Spans\<close>

text \<open>The type switch on an attribute's value.\<close>

definition validate_value :: "'r url_library \<Rightarrow> limits \<Rightarrow> string \<Rightarrow> attr \<Rightarrow> validation_error + attr" where
  "validate_value lib limits key v = (case v of
     AString s \<Rightarrow>
       if int (length s) > MaxAttributeSize limits then Inl (AttributeTooLong key)
       else Inr (AString (sanitizeURLAttribute lib key s))
   | ANumber x \<Rightarrow> if is_nan x \<or> is_inf x then Inl (AttributeNotFinite key) else Inr v
   | ABool b \<Rightarrow> Inr v
   | _ \<Rightarrow> Inl (AttributeUnsupported key))"

text \<open>The loop over the attributes: sensitive keys are deleted, strings are sanitised.\<close>

fun validate_attributes :: "'r url_library \<Rightarrow> limits \<Rightarrow> attr gomap \<Rightarrow> validation_error + attr gomap" where
  "validate_attributes lib limits [] = Inr []"
| "validate_attributes lib limits ((key, v) # rest) =
     (if key = [] \<or> int (length key) > MaxIdentifierSize limits then Inl BadAttributeKey
      else if sensitiveAttributeKey key then validate_attributes lib limits rest
      else (case validate_value lib limits key v of
              Inl e \<Rightarrow> Inl e
            | Inr v' \<Rightarrow>
                (case validate_attributes lib limits rest of
                   Inl e \<Rightarrow> Inl e
                 | Inr kvs \<Rightarrow> Inr ((key, v') # kvs))))"

definition validateSpan :: "'r url_library \<Rightarrow> limits \<Rightarrow> span \<Rightarrow> validation_error + span" where
  "validateSpan lib limits s =
     (if TraceID s = [] \<or> int (length (TraceID s)) > MaxIdentifierSize limits then Inl TraceIDRequired
      else if SpanID s = [] \<or> int (length (SpanID s)) > MaxIdentifierSize limits then Inl SpanIDRequired
      else if ParentSpanID s = SpanID s \<and> ParentSpanID s \<noteq> [] then Inl ParentEqualsSpan
      else if int (length (ParentSpanID s)) > MaxIdentifierSize limits then Inl ParentTooLong
      else if trim_space (Name s) = [] \<or> int (length (Name s)) > MaxNameSize limits then Inl NameRequired
      else if Kind s \<notin> set validKinds then Inl (UnsupportedKindName (Kind s))
      else if Status s \<noteq> ''ok'' \<and> Status s \<noteq> ''error'' then Inl (UnsupportedStatus (Status s))
      else if \<not> finiteNonNegative (StartTimeUnixMS s) \<or> \<not> finiteNonNegative (DurationMS s) then Inl TimingNotFinite
      else if int (length (Attributes s)) > MaxAttributes limits then Inl TooManyAttributes
      else (case validate_attributes lib limits (Attributes s) of
              Inl e \<Rightarrow> Inl e
            | Inr kvs \<Rightarrow> Inr (s\<lparr>Attributes := kvs\<rparr>)))"

fun validate_spans :: "'r url_library \<Rightarrow> limits \<Rightarrow> nat \<Rightarrow> span list \<Rightarrow> validation_error + span list" where
  "validate_spans lib limits index [] = Inr []"
| "validate_spans lib limits index (s # ss) =
     (case validateSpan lib limits s of
        Inl e \<Rightarrow> Inl (InSpan index e)
      | Inr s' \<Rightarrow>
          (case validate_spans lib limits (index + 1) ss of
             Inl e \<Rightarrow> Inl e
           | Inr ss' \<Rightarrow> Inr (s' # ss')))"

section \<open>Payloads and envelopes\<close>

definition validateSpanBatch :: "'r url_library \<Rightarrow> limits \<Rightarrow> span_batch \<Rightarrow> validation_error + span_batch" where
  "validateSpanBatch lib limits b =
     (let name = trim_space (sb_ServiceName b)
      in if name = [] \<or> int (length name) > MaxIdentifierSize limits then Inl ServiceNameRequired
         else if int (length (sb_NodeVersion b)) > MaxIdentifierSize limits then Inl NodeVersionTooLong
         else if sb_Spans b = [] \<or> int (length (sb_Spans b)) > MaxSpans limits then Inl SpanCount
         else (case validate_spans lib limits 0 (sb_Spans b) of
                 Inl e \<Rightarrow> Inl e
               | Inr ss \<Rightarrow> Inr (b\<lparr>sb_ServiceName := name, sb_Spans := ss\<rparr>)))"

definition validateRuntime :: "limits \<Rightarrow> runtime_metrics \<Rightarrow> validation_error + runtime_metrics" where
  "validateRuntime limits m =
     (let name = trim_space (rm_ServiceName m)
      in if name = [] \<or> int (length name) > MaxIdentifierSize limits then Inl ServiceNameRequired
         else if \<not> list_all finiteNonNegative
                   [rm_Timestamp m, rm_CPUPercent m, rm_EventLoopUtilization m, rm_UptimeSeconds m]
         then Inl RuntimeNotFinite
         else if f64_lt (Fin 100) (rm_EventLoopUtilization m) then Inl UtilizationTooHigh
         else Inr (m\<lparr>rm_ServiceName := name\<rparr>))"

definition ValidateAndSanitize :: "'r url_library \<Rightarrow> limits \<Rightarrow> envelope \<Rightarrow> validation_error + envelope" where
  "ValidateAndSanitize lib limits e =
     (if ProtocolVersion e \<noteq> protocol_version then Inl (UnsupportedProtocol (ProtocolVersion e))
      else (case (SpanBatch e, RuntimeMetrics e) of
              (Some b, None) \<Rightarrow>
                (case validateSpanBatch lib limits b of
                   Inl err \<Rightarrow> Inl err | Inr b' \<Rightarrow> Inr (e\<lparr>SpanBatch := Some b'\<rparr>))
            | (None, Some m) \<Rightarrow>
                (case validateRuntime limits m of
                   Inl err \<Rightarrow> Inl err | Inr m' \<Rightarrow> Inr (e\<lparr>RuntimeMetrics := Some m'\<rparr>))
            | _ \<Rightarrow> Inl PayloadRequired))"

section \<open>What is acceptable\<close>

text \<open>A declarative account, with no order of checks: what an envelope must be to be accepted, and
  what becomes of it.\<close>

definition good_value :: "limits \<Rightarrow> attr \<Rightarrow> bool" where
  "good_value limits v = (case v of
     AString s \<Rightarrow> int (length s) \<le> MaxAttributeSize limits
   | ANumber x \<Rightarrow> finite_f64 x
   | ABool _ \<Rightarrow> True
   | _ \<Rightarrow> False)"

definition good_attribute :: "limits \<Rightarrow> string \<times> attr \<Rightarrow> bool" where
  "good_attribute limits kv \<longleftrightarrow> fst kv \<noteq> [] \<and> int (length (fst kv)) \<le> MaxIdentifierSize limits
     \<and> (sensitiveAttributeKey (fst kv) \<or> good_value limits (snd kv))"

definition good_identifier :: "limits \<Rightarrow> string \<Rightarrow> bool" where
  "good_identifier limits s \<longleftrightarrow> s \<noteq> [] \<and> int (length s) \<le> MaxIdentifierSize limits"

definition acceptable_span :: "limits \<Rightarrow> span \<Rightarrow> bool" where
  "acceptable_span limits s \<longleftrightarrow> good_identifier limits (TraceID s) \<and> good_identifier limits (SpanID s)
     \<and> ParentSpanID s \<noteq> SpanID s \<and> int (length (ParentSpanID s)) \<le> MaxIdentifierSize limits
     \<and> trim_space (Name s) \<noteq> [] \<and> int (length (Name s)) \<le> MaxNameSize limits
     \<and> Kind s \<in> set validKinds \<and> Status s \<in> {''ok'', ''error''}
     \<and> finiteNonNegative (StartTimeUnixMS s) \<and> finiteNonNegative (DurationMS s)
     \<and> int (length (Attributes s)) \<le> MaxAttributes limits \<and> list_all (good_attribute limits) (Attributes s)"

definition acceptable :: "limits \<Rightarrow> envelope \<Rightarrow> bool" where
  "acceptable limits e \<longleftrightarrow> ProtocolVersion e = protocol_version
     \<and> (case (SpanBatch e, RuntimeMetrics e) of
          (Some b, None) \<Rightarrow> good_identifier limits (trim_space (sb_ServiceName b))
            \<and> int (length (sb_NodeVersion b)) \<le> MaxIdentifierSize limits
            \<and> sb_Spans b \<noteq> [] \<and> int (length (sb_Spans b)) \<le> MaxSpans limits
            \<and> list_all (acceptable_span limits) (sb_Spans b)
        | (None, Some m) \<Rightarrow> good_identifier limits (trim_space (rm_ServiceName m))
            \<and> list_all finiteNonNegative
                [rm_Timestamp m, rm_CPUPercent m, rm_EventLoopUtilization m, rm_UptimeSeconds m]
            \<and> f64_le (rm_EventLoopUtilization m) (Fin 100)
        | _ \<Rightarrow> False)"

definition sanitized_value :: "'r url_library \<Rightarrow> string \<Rightarrow> attr \<Rightarrow> attr" where
  "sanitized_value lib k v = (case v of AString s \<Rightarrow> AString (sanitizeURLAttribute lib k s) | _ \<Rightarrow> v)"

definition sanitized_attributes :: "'r url_library \<Rightarrow> attr gomap \<Rightarrow> attr gomap" where
  "sanitized_attributes lib kvs =
     List.map (\<lambda>(k, v). (k, sanitized_value lib k v))
       (List.filter (\<lambda>kv. \<not> sensitiveAttributeKey (fst kv)) kvs)"

definition sanitized_span :: "'r url_library \<Rightarrow> span \<Rightarrow> span" where
  "sanitized_span lib s = s\<lparr>Attributes := sanitized_attributes lib (Attributes s)\<rparr>"

definition sanitized :: "'r url_library \<Rightarrow> envelope \<Rightarrow> envelope" where
  "sanitized lib e = e
     \<lparr>SpanBatch := map_option (\<lambda>b. b\<lparr>sb_ServiceName := trim_space (sb_ServiceName b),
        sb_Spans := List.map (sanitized_span lib) (sb_Spans b)\<rparr>) (SpanBatch e),
      RuntimeMetrics := map_option (\<lambda>m. m\<lparr>rm_ServiceName := trim_space (rm_ServiceName m)\<rparr>) (RuntimeMetrics e)\<rparr>"

lemma finite_not_special: "finite_f64 x \<longleftrightarrow> \<not> (is_nan x \<or> is_inf x)"
  by (simp add: finite_f64_def)

lemma validate_value_spec:
  "if good_value limits v then validate_value lib limits k v = Inr (sanitized_value lib k v)
   else \<exists>err. validate_value lib limits k v = Inl err"
  by (cases v) (auto simp: good_value_def validate_value_def sanitized_value_def finite_not_special)

lemma validate_attributes_spec:
  "if list_all (good_attribute limits) kvs
   then validate_attributes lib limits kvs = Inr (sanitized_attributes lib kvs)
   else \<exists>err. validate_attributes lib limits kvs = Inl err"
proof (induction kvs)
  case (Cons kv kvs)
  obtain k v where kv: "kv = (k, v)" by fastforce
  have g: "good_attribute limits (k, v) \<longleftrightarrow> \<not> (k = [] \<or> int (length k) > MaxIdentifierSize limits)
      \<and> (sensitiveAttributeKey k \<or> good_value limits v)"
    by (auto simp: good_attribute_def)
  show ?case
    using Cons validate_value_spec [of limits v lib k]
    by (auto simp: kv g sanitized_attributes_def split: if_splits)
qed (simp add: sanitized_attributes_def)

lemma validateSpan_spec:
  "if acceptable_span limits s then validateSpan lib limits s = Inr (sanitized_span lib s)
   else \<exists>err. validateSpan lib limits s = Inl err"
  using validate_attributes_spec [of limits "Attributes s" lib]
  by (auto simp: validateSpan_def acceptable_span_def good_identifier_def sanitized_span_def
      split: if_splits sum.splits)

lemma validate_spans_spec:
  "if list_all (acceptable_span limits) ss
   then validate_spans lib limits i ss = Inr (List.map (sanitized_span lib) ss)
   else \<exists>err. validate_spans lib limits i ss = Inl err"
proof (induction ss arbitrary: i)
  case (Cons s ss)
  show ?case
    using validateSpan_spec [of limits s lib] Cons [of "Suc i"]
    by (auto split: if_splits)
qed simp

lemma ValidateAndSanitize_spec:
  "if acceptable limits e then ValidateAndSanitize lib limits e = Inr (sanitized lib e)
   else \<exists>err. ValidateAndSanitize lib limits e = Inl err"
proof -
  have up: "\<not> f64_lt (Fin 100) x \<longleftrightarrow> f64_le x (Fin 100)" if "finiteNonNegative x" for x
    using that by (cases x) (auto simp: finiteNonNegative_def f64_lt_def is_nan_def is_inf_def)
  have batch: "if acceptable limits e then ValidateAndSanitize lib limits e = Inr (sanitized lib e)
      else \<exists>err. ValidateAndSanitize lib limits e = Inl err"
    if "SpanBatch e = Some b" "RuntimeMetrics e = None" for b
    using that validate_spans_spec [of limits "sb_Spans b" lib 0]
    by (auto simp: ValidateAndSanitize_def acceptable_def validateSpanBatch_def Let_def good_identifier_def
        sanitized_def split: if_splits sum.splits)
  have metrics: "if acceptable limits e then ValidateAndSanitize lib limits e = Inr (sanitized lib e)
      else \<exists>err. ValidateAndSanitize lib limits e = Inl err"
    if "SpanBatch e = None" "RuntimeMetrics e = Some m" for m
    using that up [of "rm_EventLoopUtilization m"]
    by (auto simp: ValidateAndSanitize_def acceptable_def validateRuntime_def Let_def good_identifier_def
        sanitized_def)
  show ?thesis
    using batch metrics
    by (cases "SpanBatch e"; cases "RuntimeMetrics e") (auto simp: ValidateAndSanitize_def acceptable_def)
qed

end
