(* ===== verification/Telemetry_Codec.thy ===== *)
theory Telemetry_Codec
  imports Telemetry_Validate
begin

text \<open>
  Decoding of requests (\<open>runtime/go/internal/telemetry/codec.go\<close>). The messages that
  \<open>proto.Unmarshal\<close> fills in (\<open>runtime/go/gen/nodeflow/v1\<close>) are records; the unmarshalling itself
  and the JSON decoder are parameters. A pointer that may be \<open>nil\<close> is an option, and a getter on
  \<open>nil\<close> gives the zero value.
\<close>

section \<open>Messages\<close>

datatype proto_value = StringValue string | NumberValue f64 | BoolValue bool

record proto_span =
  ps_TraceId :: string
  ps_SpanId :: string
  ps_ParentSpanId :: string
  ps_Name :: string
  ps_Kind :: "32 word"
  ps_StartTimeUnixMs :: f64
  ps_DurationMs :: f64
  ps_Status :: "32 word"
  ps_Attributes :: "proto_value option gomap"

record proto_batch =
  pb_ServiceName :: string
  pb_NodeVersion :: string
  pb_Spans :: "proto_span list"

record proto_runtime =
  pm_TimestampUnixMs :: f64
  pm_ServiceName :: string
  pm_RssBytes :: u64
  pm_HeapUsedBytes :: u64
  pm_HeapTotalBytes :: u64
  pm_CpuPercent :: f64
  pm_EventLoopUtilization :: f64
  pm_UptimeSeconds :: f64

datatype proto_payload =
    PayloadSpanBatch "proto_batch option"
  | PayloadRuntimeMetrics "proto_runtime option"

record proto_envelope =
  pe_ProtocolVersion :: string
  pe_Payload :: "proto_payload option"

section \<open>Conversion\<close>

definition spanKindFromProto :: "32 word \<Rightarrow> string" where
  "spanKindFromProto kind =
     (case map_of [(1, ''http-route''), (2, ''controller''), (3, ''service''), (4, ''database''),
        (5, ''redis''), (6, ''queue''), (7, ''worker''), (8, ''external-http''), (9, ''custom''),
        (10, ''internal'')] kind of
        Some k \<Rightarrow> k | None \<Rightarrow> [])"

definition spanStatusFromProto :: "32 word \<Rightarrow> string" where
  "spanStatusFromProto status = (if status = 2 then ''error'' else if status = 1 then ''ok'' else [])"

text \<open>An attribute without a value is left out.\<close>

definition attributes_from_proto :: "proto_value option gomap \<Rightarrow> attr gomap" where
  "attributes_from_proto kvs = List.concat (List.map (\<lambda>(key, v). case v of
     Some (StringValue s) \<Rightarrow> [(key, AString s)]
   | Some (NumberValue x) \<Rightarrow> [(key, ANumber x)]
   | Some (BoolValue b) \<Rightarrow> [(key, ABool b)]
   | None \<Rightarrow> []) kvs)"

definition span_from_proto :: "proto_span \<Rightarrow> span" where
  "span_from_proto s =
     \<lparr>TraceID = ps_TraceId s, SpanID = ps_SpanId s, ParentSpanID = ps_ParentSpanId s, Name = ps_Name s,
      Kind = spanKindFromProto (ps_Kind s), StartTimeUnixMS = ps_StartTimeUnixMs s,
      DurationMS = ps_DurationMs s, Status = spanStatusFromProto (ps_Status s),
      Attributes = attributes_from_proto (ps_Attributes s)\<rparr>"

definition empty_batch :: span_batch where
  "empty_batch = \<lparr>sb_ServiceName = [], sb_NodeVersion = [], sb_Spans = []\<rparr>"

definition spanBatchFromProto :: "proto_batch option \<Rightarrow> span_batch" where
  "spanBatchFromProto batch = (case batch of
     None \<Rightarrow> empty_batch
   | Some b \<Rightarrow> \<lparr>sb_ServiceName = pb_ServiceName b, sb_NodeVersion = pb_NodeVersion b,
       sb_Spans = List.map span_from_proto (pb_Spans b)\<rparr>)"

definition empty_runtime :: runtime_metrics where
  "empty_runtime = \<lparr>rm_Timestamp = Fin 0, rm_ServiceName = [], rm_RSSBytes = 0, rm_HeapUsedBytes = 0,
     rm_HeapTotalBytes = 0, rm_CPUPercent = Fin 0, rm_EventLoopUtilization = Fin 0, rm_UptimeSeconds = Fin 0\<rparr>"

definition runtimeFromProto :: "proto_runtime option \<Rightarrow> runtime_metrics" where
  "runtimeFromProto metrics = (case metrics of
     None \<Rightarrow> empty_runtime
   | Some m \<Rightarrow>
       \<lparr>rm_Timestamp = pm_TimestampUnixMs m, rm_ServiceName = pm_ServiceName m, rm_RSSBytes = pm_RssBytes m,
        rm_HeapUsedBytes = pm_HeapUsedBytes m, rm_HeapTotalBytes = pm_HeapTotalBytes m,
        rm_CPUPercent = pm_CpuPercent m, rm_EventLoopUtilization = pm_EventLoopUtilization m,
        rm_UptimeSeconds = pm_UptimeSeconds m\<rparr>)"

datatype decode_error = DecodeProto | NoPayload | DecodeJSONError | MultipleValues

definition DecodeProtobuf :: "(bytes \<Rightarrow> proto_envelope option) \<Rightarrow> bytes \<Rightarrow> decode_error + envelope" where
  "DecodeProtobuf unmarshal data =
     (case unmarshal data of
        None \<Rightarrow> Inl DecodeProto
      | Some msg \<Rightarrow>
          (case pe_Payload msg of
             None \<Rightarrow> Inl NoPayload
           | Some (PayloadSpanBatch b) \<Rightarrow>
               Inr \<lparr>ProtocolVersion = pe_ProtocolVersion msg, SpanBatch = Some (spanBatchFromProto b),
                    RuntimeMetrics = None\<rparr>
           | Some (PayloadRuntimeMetrics m) \<Rightarrow>
               Inr \<lparr>ProtocolVersion = pe_ProtocolVersion msg, SpanBatch = None,
                    RuntimeMetrics = Some (runtimeFromProto m)\<rparr>))"

text \<open>\<open>json.Decoder.Decode\<close>: the next value of a reader, the end of the input, or an error, with the
  bytes not yet read.\<close>

datatype 'a json_result = JsonValue 'a bytes | JsonEOF | JsonError

definition DecodeJSON :: "(bytes \<Rightarrow> 'a json_result) \<Rightarrow> (bytes \<Rightarrow> unit json_result) \<Rightarrow> bytes \<Rightarrow> decode_error + 'a" where
  "DecodeJSON decode decode_empty data =
     (case decode data of
        JsonValue v rest \<Rightarrow>
          (case decode_empty rest of
             JsonEOF \<Rightarrow> Inr v
           | JsonValue _ _ \<Rightarrow> Inl MultipleValues
           | JsonError \<Rightarrow> Inl DecodeJSONError)
      | _ \<Rightarrow> Inl DecodeJSONError)"

end
