(* ===== verification/Telemetry_Sdk.thy ===== *)
theory Telemetry_Sdk
  imports Telemetry_Codec
begin

text \<open>
  The encoder of the SDK (\<open>protocol/src/protobuf.ts\<close>) and the schema (\<open>protocol/proto/nodeflow/v1/telemetry.proto\<close>),
  the other side of theory \<open>Telemetry_Codec\<close>. What the encoder hands to the writer of \<open>protobufjs\<close> is a list of
  tagged fields; a tag is the number of the field times eight plus the wire type. How the writer and
  Go's \<open>proto.Unmarshal\<close> turn fields into bytes and back is not modelled: that together they read the
  fields by the schema is a hypothesis of what is proved with them.

  The envelope of TypeScript is the record of theory \<open>Telemetry_Model\<close>, an optional string that is absent being
  empty, which the encoder does not tell apart. The types of \<open>index.ts\<close> are \<open>sdk_envelope\<close>.
\<close>

section \<open>The encoder\<close>

datatype wire = WVarint nat | WDouble f64 | WString string | WFields "(nat \<times> wire) list"

type_synonym fields = "(nat \<times> wire) list"

definition kindToWire :: "string \<Rightarrow> nat option" where
  "kindToWire = map_of [(''http-route'', 1), (''controller'', 2), (''service'', 3), (''database'', 4),
     (''redis'', 5), (''queue'', 6), (''worker'', 7), (''external-http'', 8), (''custom'', 9),
     (''internal'', 10)]"

definition string_field :: "nat \<Rightarrow> string \<Rightarrow> fields" where
  "string_field tag s = (if s \<noteq> [] then [(tag, WString s)] else [])"

definition truthy :: "attr \<Rightarrow> bool" where
  "truthy v = (case v of ABool b \<Rightarrow> b | ANull \<Rightarrow> False | _ \<Rightarrow> True)"

definition encodeAttribute :: "attr \<Rightarrow> fields" where
  "encodeAttribute v = (case v of
     AString s \<Rightarrow> [(10, WString s)]
   | ANumber x \<Rightarrow> [(17, WDouble x)]
   | _ \<Rightarrow> [(24, WVarint (if truthy v then 1 else 0))])"

definition encodeEntry :: "string \<times> attr \<Rightarrow> nat \<times> wire" where
  "encodeEntry kv = (74, WFields [(10, WString (fst kv)), (18, WFields (encodeAttribute (snd kv)))])"

definition encodeSpan :: "span \<Rightarrow> fields" where
  "encodeSpan s =
     string_field 10 (TraceID s) @ string_field 18 (SpanID s) @ string_field 26 (ParentSpanID s)
     @ string_field 34 (Name s)
     @ [(40, WVarint (case kindToWire (Kind s) of Some n \<Rightarrow> n | None \<Rightarrow> 0)),
        (49, WDouble (StartTimeUnixMS s)), (57, WDouble (DurationMS s)),
        (64, WVarint (if Status s = ''error'' then 2 else 1))]
     @ List.map encodeEntry (Attributes s)"

definition encodeSpanBatch :: "span_batch \<Rightarrow> fields" where
  "encodeSpanBatch b =
     string_field 10 (sb_ServiceName b) @ string_field 18 (sb_NodeVersion b)
     @ List.map (\<lambda>s. (26, WFields (encodeSpan s))) (sb_Spans b)"

definition encodeRuntimeMetrics :: "runtime_metrics \<Rightarrow> fields" where
  "encodeRuntimeMetrics m =
     [(9, WDouble (rm_Timestamp m))] @ string_field 18 (rm_ServiceName m)
     @ [(24, WVarint (unat (rm_RSSBytes m))), (32, WVarint (unat (rm_HeapUsedBytes m))),
        (40, WVarint (unat (rm_HeapTotalBytes m))), (49, WDouble (rm_CPUPercent m)),
        (57, WDouble (rm_EventLoopUtilization m)), (65, WDouble (rm_UptimeSeconds m))]"

text \<open>Without any payload the encoder fails on the missing metrics.\<close>

definition encodeTelemetryEnvelope :: "envelope \<Rightarrow> fields option" where
  "encodeTelemetryEnvelope e =
     map_option (\<lambda>payload. [(10, WString (ProtocolVersion e)), payload])
       (case SpanBatch e of
          Some b \<Rightarrow> Some (18, WFields (encodeSpanBatch b))
        | None \<Rightarrow> map_option (\<lambda>m. (26, WFields (encodeRuntimeMetrics m))) (RuntimeMetrics e))"

section \<open>The schema\<close>

text \<open>A message read from fields: of a field that occurs more than once the last counts, an absent one has the
  zero value, a repeated field keeps its order, and of a map the last entry of a key counts. (A nested
  message that occurs twice would be merged; the encoder writes none twice.)\<close>

definition last_field :: "nat list \<Rightarrow> fields \<Rightarrow> (nat \<times> wire) option" where
  "last_field tags fs = (case filter (\<lambda>f. fst f \<in> set tags) fs of [] \<Rightarrow> None | xs \<Rightarrow> Some (last xs))"

definition read_string :: "nat \<Rightarrow> fields \<Rightarrow> string" where
  "read_string tag fs = (case last_field [tag] fs of Some (_, WString s) \<Rightarrow> s | _ \<Rightarrow> [])"

definition read_double :: "nat \<Rightarrow> fields \<Rightarrow> f64" where
  "read_double tag fs = (case last_field [tag] fs of Some (_, WDouble x) \<Rightarrow> x | _ \<Rightarrow> Fin 0)"

definition read_varint :: "nat \<Rightarrow> fields \<Rightarrow> 'w :: len word" where
  "read_varint tag fs = (case last_field [tag] fs of Some (_, WVarint n) \<Rightarrow> of_nat n | _ \<Rightarrow> 0)"

definition read_message :: "nat \<Rightarrow> fields \<Rightarrow> fields" where
  "read_message tag fs = (case last_field [tag] fs of Some (_, WFields m) \<Rightarrow> m | _ \<Rightarrow> [])"

definition read_repeated :: "nat \<Rightarrow> fields \<Rightarrow> fields list" where
  "read_repeated tag fs =
     List.map (\<lambda>f. case snd f of WFields m \<Rightarrow> m | _ \<Rightarrow> []) (filter (\<lambda>f. fst f = tag) fs)"

definition schema_value :: "fields \<Rightarrow> proto_value option" where
  "schema_value fs = (case last_field [10, 17, 24] fs of
     Some (_, WString s) \<Rightarrow> Some (StringValue s)
   | Some (_, WDouble x) \<Rightarrow> Some (NumberValue x)
   | Some (_, WVarint n) \<Rightarrow> Some (BoolValue (n \<noteq> 0))
   | _ \<Rightarrow> None)"

definition schema_attributes :: "fields \<Rightarrow> proto_value option gomap" where
  "schema_attributes fs =
     foldl (\<lambda>m entry. AList.update (read_string 10 entry) (schema_value (read_message 18 entry)) m) []
       (read_repeated 74 fs)"

definition schema_span :: "fields \<Rightarrow> proto_span" where
  "schema_span fs =
     \<lparr>ps_TraceId = read_string 10 fs, ps_SpanId = read_string 18 fs, ps_ParentSpanId = read_string 26 fs,
      ps_Name = read_string 34 fs, ps_Kind = read_varint 40 fs, ps_StartTimeUnixMs = read_double 49 fs,
      ps_DurationMs = read_double 57 fs, ps_Status = read_varint 64 fs,
      ps_Attributes = schema_attributes fs\<rparr>"

definition schema_batch :: "fields \<Rightarrow> proto_batch" where
  "schema_batch fs =
     \<lparr>pb_ServiceName = read_string 10 fs, pb_NodeVersion = read_string 18 fs,
      pb_Spans = List.map schema_span (read_repeated 26 fs)\<rparr>"

definition schema_runtime :: "fields \<Rightarrow> proto_runtime" where
  "schema_runtime fs =
     \<lparr>pm_TimestampUnixMs = read_double 9 fs, pm_ServiceName = read_string 18 fs, pm_RssBytes = read_varint 24 fs,
      pm_HeapUsedBytes = read_varint 32 fs, pm_HeapTotalBytes = read_varint 40 fs, pm_CpuPercent = read_double 49 fs,
      pm_EventLoopUtilization = read_double 57 fs, pm_UptimeSeconds = read_double 65 fs\<rparr>"

definition schema_envelope :: "fields \<Rightarrow> proto_envelope" where
  "schema_envelope fs =
     \<lparr>pe_ProtocolVersion = read_string 10 fs,
      pe_Payload = (case last_field [18, 26] fs of
        None \<Rightarrow> None
      | Some (tag, WFields m) \<Rightarrow>
          Some (if tag = 18 then PayloadSpanBatch (Some (schema_batch m))
                else PayloadRuntimeMetrics (Some (schema_runtime m)))
      | Some _ \<Rightarrow> None)\<rparr>"

section \<open>From the encoder to the messages of Go\<close>

definition scalar :: "attr \<Rightarrow> bool" where
  "scalar v \<longleftrightarrow> (case v of AString _ \<Rightarrow> True | ANumber _ \<Rightarrow> True | ABool _ \<Rightarrow> True | _ \<Rightarrow> False)"

definition sdk_span :: "span \<Rightarrow> bool" where
  "sdk_span s \<longleftrightarrow> Kind s \<in> set validKinds \<and> Status s \<in> {''ok'', ''error''} \<and> distinct (keys (Attributes s))
     \<and> list_all (\<lambda>kv. scalar (snd kv)) (Attributes s)"

definition sdk_envelope :: "envelope \<Rightarrow> bool" where
  "sdk_envelope e \<longleftrightarrow> (case (SpanBatch e, RuntimeMetrics e) of
     (Some b, None) \<Rightarrow> list_all sdk_span (sb_Spans b)
   | (None, Some m) \<Rightarrow> True
   | _ \<Rightarrow> False)"

lemma filter_string_field [simp]:
  "filter (\<lambda>f. fst f \<in> set tags) (string_field tag s) = (if tag \<in> set tags then string_field tag s else [])"
  "filter (\<lambda>f. fst f = t) (string_field tag s) = (if tag = t then string_field tag s else [])"
  by (auto simp: string_field_def)

lemma filter_entries [simp]:
  "filter (\<lambda>f. fst f \<in> set tags) (List.map encodeEntry kvs) = (if 74 \<in> set tags then List.map encodeEntry kvs else [])"
  "filter (\<lambda>f. fst f = t) (List.map encodeEntry kvs) = (if t = 74 then List.map encodeEntry kvs else [])"
  by (induction kvs) (auto simp: encodeEntry_def)

lemma filter_spans [simp]:
  "filter (\<lambda>f. fst f \<in> set tags) (List.map (\<lambda>s. (26, w s)) xs) = (if 26 \<in> set tags then List.map (\<lambda>s. (26, w s)) xs else [])"
  "filter (\<lambda>f. fst f = t) (List.map (\<lambda>s. (26, w s)) xs) = (if t = 26 then List.map (\<lambda>s. (26, w s)) xs else [])"
  by (induction xs) auto

lemma read_string_field [simp]:
  "(case (case string_field tag s of [] \<Rightarrow> None | x # xs \<Rightarrow> Some (last (x # xs))) of
      Some (_, WString t) \<Rightarrow> t | _ \<Rightarrow> []) = s"
  by (simp add: string_field_def)

lemmas schema_reads = last_field_def read_string_def read_double_def read_varint_def read_message_def

lemma schema_runtime_encode:
  "schema_runtime (encodeRuntimeMetrics m) =
     \<lparr>pm_TimestampUnixMs = rm_Timestamp m, pm_ServiceName = rm_ServiceName m, pm_RssBytes = rm_RSSBytes m,
      pm_HeapUsedBytes = rm_HeapUsedBytes m, pm_HeapTotalBytes = rm_HeapTotalBytes m, pm_CpuPercent = rm_CPUPercent m,
      pm_EventLoopUtilization = rm_EventLoopUtilization m, pm_UptimeSeconds = rm_UptimeSeconds m\<rparr>"
  by (simp add: schema_runtime_def encodeRuntimeMetrics_def schema_reads)

lemma schema_entry:
  "read_string 10 [(10, WString k), (18, m)] = k" "read_message 18 [(10, WString k), (18, WFields fs)] = fs"
  by (simp_all add: schema_reads)

lemma schema_value_encode:
  "schema_value (encodeAttribute v) = (case v of AString s \<Rightarrow> Some (StringValue s) | ANumber x \<Rightarrow> Some (NumberValue x)
     | _ \<Rightarrow> Some (BoolValue (truthy v)))"
  by (cases v) (simp_all add: schema_value_def encodeAttribute_def last_field_def)

lemma update_absent: "k \<notin> fst ` set m \<Longrightarrow> AList.update k v m = m @ [(k, v)]"
  by (induction m) auto

lemma foldl_update_distinct:
  "distinct (List.map key xs) \<Longrightarrow> key ` set xs \<inter> fst ` set m = {} \<Longrightarrow>
     foldl (\<lambda>m x. AList.update (key x) (f x) m) m xs = m @ List.map (\<lambda>x. (key x, f x)) xs"
proof (induction xs arbitrary: m)
  case (Cons x xs)
  have "AList.update (key x) (f x) m = m @ [(key x, f x)]"
    using Cons.prems(2) by (intro update_absent) auto
  then show ?case using Cons by auto
qed simp

definition sdk_value :: "attr \<Rightarrow> proto_value option" where
  "sdk_value v = schema_value (encodeAttribute v)"

lemma schema_attributes_encode:
  assumes "distinct (keys kvs)" "filter (\<lambda>f. fst f = 74) fs = List.map encodeEntry kvs"
  shows "schema_attributes fs = List.map (\<lambda>kv. (fst kv, sdk_value (snd kv))) kvs"
proof -
  have "read_repeated 74 fs = List.map (\<lambda>kv. [(10, WString (fst kv)), (18, WFields (encodeAttribute (snd kv)))]) kvs"
    by (simp add: read_repeated_def assms(2) encodeEntry_def)
  then have "schema_attributes fs = foldl (\<lambda>m kv. AList.update (fst kv) (sdk_value (snd kv)) m) [] kvs"
    by (simp add: schema_attributes_def foldl_map schema_entry sdk_value_def)
  also have "\<dots> = List.map (\<lambda>kv. (fst kv, sdk_value (snd kv))) kvs"
    using foldl_update_distinct [of fst kvs "[]" "\<lambda>kv. sdk_value (snd kv)"] assms(1) by simp
  finally show ?thesis .
qed

lemma attributes_round_trip:
  "list_all (\<lambda>kv. scalar (snd kv)) kvs \<Longrightarrow>
     attributes_from_proto (List.map (\<lambda>kv. (fst kv, sdk_value (snd kv))) kvs) = kvs"
proof (induction kvs)
  case (Cons kv kvs)
  obtain k v where "kv = (k, v)" by fastforce
  then show ?case using Cons
    by (cases v) (auto simp: attributes_from_proto_def sdk_value_def schema_value_encode scalar_def truthy_def)
qed (simp add: attributes_from_proto_def)

lemma kind_round_trip:
  "k \<in> set validKinds \<Longrightarrow> spanKindFromProto (of_nat (case kindToWire k of Some n \<Rightarrow> n | None \<Rightarrow> 0)) = k"
  by (auto simp: validKinds_def kindToWire_def spanKindFromProto_def)

lemma span_round_trip:
  assumes "sdk_span s"
  shows "span_from_proto (schema_span (encodeSpan s)) = s"
proof -
  have fields: "read_string 10 (encodeSpan s) = TraceID s" "read_string 18 (encodeSpan s) = SpanID s"
    "read_string 26 (encodeSpan s) = ParentSpanID s" "read_string 34 (encodeSpan s) = Name s"
    "read_varint 40 (encodeSpan s) = (of_nat (case kindToWire (Kind s) of Some n \<Rightarrow> n | None \<Rightarrow> 0) :: u32)"
    "read_double 49 (encodeSpan s) = StartTimeUnixMS s" "read_double 57 (encodeSpan s) = DurationMS s"
    "read_varint 64 (encodeSpan s) = (if Status s = ''error'' then 2 else 1 :: u32)"
    by (simp_all add: encodeSpan_def schema_reads)
  have "schema_attributes (encodeSpan s) = List.map (\<lambda>kv. (fst kv, sdk_value (snd kv))) (Attributes s)"
    using assms by (intro schema_attributes_encode) (simp_all add: sdk_span_def encodeSpan_def)
  moreover have "list_all (\<lambda>kv. scalar (snd kv)) (Attributes s)" using assms by (simp add: sdk_span_def)
  ultimately show ?thesis
    using assms kind_round_trip [of "Kind s"] attributes_round_trip [of "Attributes s"]
    by (intro span.equality) (auto simp: span_from_proto_def schema_span_def fields sdk_span_def spanStatusFromProto_def)
qed

lemma batch_round_trip:
  assumes "list_all sdk_span (sb_Spans b)"
  shows "spanBatchFromProto (Some (schema_batch (encodeSpanBatch b))) = b"
proof -
  have "read_repeated 26 (encodeSpanBatch b) = List.map encodeSpan (sb_Spans b)"
    by (simp add: read_repeated_def encodeSpanBatch_def)
  moreover have "read_string 10 (encodeSpanBatch b) = sb_ServiceName b" "read_string 18 (encodeSpanBatch b) = sb_NodeVersion b"
    by (simp_all add: encodeSpanBatch_def schema_reads)
  moreover have "List.map (span_from_proto \<circ> (schema_span \<circ> encodeSpan)) (sb_Spans b) = sb_Spans b"
    using assms span_round_trip by (intro map_idI) (auto simp: list_all_iff)
  ultimately show ?thesis by (cases b) (simp add: spanBatchFromProto_def schema_batch_def)
qed

lemma envelope_round_trip:
  assumes "sdk_envelope e" "encodeTelemetryEnvelope e = Some fs" "unmarshal data = Some (schema_envelope fs)"
  shows "DecodeProtobuf unmarshal data = Inr e"
proof (cases "SpanBatch e")
  case (Some b)
  then have ok: "RuntimeMetrics e = None" "list_all sdk_span (sb_Spans b)"
    using assms(1) by (auto simp: sdk_envelope_def split: option.splits)
  have "fs = [(10, WString (ProtocolVersion e)), (18, WFields (encodeSpanBatch b))]"
    using assms(2) Some by (simp add: encodeTelemetryEnvelope_def)
  then show ?thesis using Some ok assms(3) batch_round_trip [OF ok(2)]
    by (simp add: DecodeProtobuf_def schema_envelope_def schema_reads)
next
  case None
  then obtain m where m: "RuntimeMetrics e = Some m" using assms(1) by (auto simp: sdk_envelope_def split: option.splits)
  have "fs = [(10, WString (ProtocolVersion e)), (26, WFields (encodeRuntimeMetrics m))]"
    using assms(2) None m by (simp add: encodeTelemetryEnvelope_def)
  then show ?thesis using None m assms(3)
    by (simp add: DecodeProtobuf_def schema_envelope_def last_field_def read_string_def schema_runtime_encode runtimeFromProto_def)
qed

end
