(* ===== verification/Telemetry_Properties.thy ===== *)
theory Telemetry_Properties
  imports Telemetry_Sdk Metrics
begin

text \<open>
  The properties of what comes in: validation against a declarative account, what an accepted
  envelope is free of, the decoding of protobuf messages, and the histograms of the collector.
\<close>

section \<open>Accepted envelopes\<close>

text \<open>An attribute that may be stored: its key is not sensitive, its value a scalar, and a URL has lost
  its credentials, query and fragment.\<close>

definition clean_attribute :: "'r url_library \<Rightarrow> limits \<Rightarrow> string \<times> attr \<Rightarrow> bool" where
  "clean_attribute lib limits kv \<longleftrightarrow> \<not> sensitiveAttributeKey (fst kv)
     \<and> fst kv \<noteq> [] \<and> int (length (fst kv)) \<le> MaxIdentifierSize limits
     \<and> (case snd kv of
          AString s \<Rightarrow> to_lower (fst kv) \<in> {''url.full'', ''http.url''} \<longrightarrow> s = ''[REDACTED]''
            \<or> (\<exists>u. url_User u = None \<and> url_RawQuery u = [] \<and> url_Fragment u = [] \<and> s = url_string lib u)
        | ANumber x \<Rightarrow> finite_f64 x
        | ABool _ \<Rightarrow> True
        | _ \<Rightarrow> False)"

lemma sanitized_attributes_clean:
  assumes "list_all (good_attribute limits) kvs"
  shows "list_all (clean_attribute lib limits) (sanitized_attributes lib kvs)"
proof -
  have "clean_attribute lib limits (k, sanitized_value lib k v)"
    if "good_attribute limits (k, v)" "\<not> sensitiveAttributeKey k" for k v
  proof (cases v)
    case (AString s)
    have "sanitizeURLAttribute lib k s = ''[REDACTED]''
        \<or> (\<exists>u. url_User u = None \<and> url_RawQuery u = [] \<and> url_Fragment u = [] \<and> sanitizeURLAttribute lib k s = url_string lib u)"
      if "to_lower k \<in> {''url.full'', ''http.url''}"
    proof (cases "url_parse lib s")
      case None
      then show ?thesis using that by (auto simp: sanitizeURLAttribute_def Let_def)
    next
      case (Some u)
      let ?u = "u\<lparr>url_User := None, url_RawQuery := [], url_Fragment := []\<rparr>"
      have "sanitizeURLAttribute lib k s \<in> {''[REDACTED]'', url_string lib ?u}"
        using that Some by (auto simp: sanitizeURLAttribute_def Let_def)
      moreover have "url_User ?u = None \<and> url_RawQuery ?u = [] \<and> url_Fragment ?u = []" by simp
      ultimately show ?thesis by blast
    qed
    then show ?thesis
      using that AString by (auto simp: clean_attribute_def sanitized_value_def good_attribute_def)
  qed (use that in \<open>auto simp: clean_attribute_def sanitized_value_def good_attribute_def good_value_def\<close>)
  then show ?thesis using assms by (auto simp: sanitized_attributes_def list_all_iff)
qed

definition well_formed_span :: "'r url_library \<Rightarrow> limits \<Rightarrow> span \<Rightarrow> bool" where
  "well_formed_span lib limits s \<longleftrightarrow> good_identifier limits (TraceID s) \<and> good_identifier limits (SpanID s)
     \<and> ParentSpanID s \<noteq> SpanID s \<and> Kind s \<in> set validKinds \<and> Status s \<in> {''ok'', ''error''}
     \<and> finiteNonNegative (StartTimeUnixMS s) \<and> finiteNonNegative (DurationMS s)
     \<and> int (length (Attributes s)) \<le> MaxAttributes limits
     \<and> list_all (clean_attribute lib limits) (Attributes s)"

definition well_formed :: "'r url_library \<Rightarrow> limits \<Rightarrow> envelope \<Rightarrow> bool" where
  "well_formed lib limits e \<longleftrightarrow> ProtocolVersion e = protocol_version
     \<and> (case (SpanBatch e, RuntimeMetrics e) of
          (Some b, None) \<Rightarrow> good_identifier limits (sb_ServiceName b) \<and> sb_Spans b \<noteq> []
            \<and> int (length (sb_Spans b)) \<le> MaxSpans limits \<and> list_all (well_formed_span lib limits) (sb_Spans b)
        | (None, Some m) \<Rightarrow> good_identifier limits (rm_ServiceName m) \<and> finiteNonNegative (rm_Timestamp m)
            \<and> f64_le (rm_EventLoopUtilization m) (Fin 100)
        | _ \<Rightarrow> False)"

lemma sanitized_span_well_formed:
  assumes "acceptable_span limits s"
  shows "well_formed_span lib limits (sanitized_span lib s)"
proof -
  have "length (sanitized_attributes lib (Attributes s)) \<le> length (Attributes s)"
    by (simp add: sanitized_attributes_def)
  then show ?thesis
    using assms sanitized_attributes_clean [of limits "Attributes s" lib]
    by (auto simp: acceptable_span_def well_formed_span_def sanitized_span_def)
qed

lemma sanitized_well_formed: "acceptable limits e \<Longrightarrow> well_formed lib limits (sanitized lib e)"
  using sanitized_span_well_formed
  by (auto simp: acceptable_def well_formed_def sanitized_def list_all_iff split: option.splits)

section \<open>Messages\<close>

text \<open>A message whose span is of no known kind.\<close>

definition unknown_span :: proto_span where
  "unknown_span = \<lparr>ps_TraceId = ''t'', ps_SpanId = ''s'', ps_ParentSpanId = [], ps_Name = ''n'', ps_Kind = 11,
     ps_StartTimeUnixMs = Fin 1, ps_DurationMs = Fin 2, ps_Status = 1, ps_Attributes = []\<rparr>"

definition unknown_message :: proto_envelope where
  "unknown_message = \<lparr>pe_ProtocolVersion = ''1.0'', pe_Payload = Some (PayloadSpanBatch (Some
     \<lparr>pb_ServiceName = ''a'', pb_NodeVersion = [], pb_Spans = [unknown_span]\<rparr>))\<rparr>"

section \<open>Properties\<close>

text \<open>C34: (equivalence) Validation decides exactly the declarative account of what is acceptable, and an accepted
  envelope is its sanitised form: the order of the checks, the early returns and the loop that deletes
  attributes make no difference to what is accepted and what comes out.\<close>

theorem validation_is_exact:
  "if acceptable limits e then ValidateAndSanitize lib limits e = Inr (sanitized lib e)
   else \<exists>err. ValidateAndSanitize lib limits e = Inl err"
  by (rule ValidateAndSanitize_spec)

text \<open>C35: (type) Every envelope that validation lets through is well formed: one payload, identifiers and counts within
  their limits, known kinds and statuses, finite times, and only scalar attributes without
  sensitive keys, its URLs without credentials, query or fragment.\<close>

theorem accepted_envelopes_are_well_formed:
  assumes "ValidateAndSanitize lib limits raw = Inr e"
  shows "well_formed lib limits e"
  using ValidateAndSanitize_spec [of limits raw lib] sanitized_well_formed [of limits raw lib] assms
  by (auto split: if_splits)

definition plain_urls :: "string url_library" where
  "plain_urls = \<lparr>url_parse = (\<lambda>s. Some \<lparr>url_Scheme = ''http'', url_Host = ''h'', url_User = Some ''u'', url_RawQuery = ''q'',
     url_Fragment = [], url_rest = s\<rparr>), url_string = (\<lambda>u. url_Scheme u @ url_RawQuery u)\<rparr>"

definition plain_span :: span where
  "plain_span = \<lparr>TraceID = ''t'', SpanID = ''s'', ParentSpanID = [], Name = ''n'', Kind = ''service'',
     StartTimeUnixMS = Fin 1, DurationMS = Fin 2, Status = ''ok'',
     Attributes = [(''password'', AString ''x''), (''url.full'', AString ''y''), (''n'', ANumber (Fin 3))]\<rparr>"

definition plain_envelope :: "span list \<Rightarrow> envelope" where
  "plain_envelope ss = \<lparr>ProtocolVersion = ''1.0'',
     SpanBatch = Some \<lparr>sb_ServiceName = ''a'', sb_NodeVersion = [], sb_Spans = ss\<rparr>, RuntimeMetrics = None\<rparr>"

definition clean_span :: span where
  "clean_span = plain_span\<lparr>Attributes := [(''url.full'', AString ''http''), (''n'', ANumber (Fin 3))]\<rparr>"

lemma plain_keys: "sensitiveAttributeKey ''password''" "\<not> sensitiveAttributeKey ''url.full''" "\<not> sensitiveAttributeKey ''n''"
  by code_simp+

lemma plain_lower: "to_lower ''url.full'' = ''url.full''" by code_simp
lemma plain_trim: "trim_space ''n'' = ''n''"  by code_simp
lemma plain_trim2: "trim_space ''a'' = ''a''"  by code_simp

lemma plain_url: "sanitizeURLAttribute plain_urls ''url.full'' ''y'' = ''http''"
  by (simp add: sanitizeURLAttribute_def plain_lower plain_urls_def del: to_lower.simps)

lemma plain_accepted: "ValidateAndSanitize plain_urls DefaultLimits (plain_envelope [plain_span]) = Inr (plain_envelope [clean_span])"
proof -
  have "validate_attributes plain_urls DefaultLimits (Attributes plain_span) = Inr (Attributes clean_span)"
    by (simp add: plain_span_def clean_span_def DefaultLimits_def plain_keys plain_url plain_trim plain_trim2 validate_value_def is_nan_def is_inf_def)
  then have "validateSpan plain_urls DefaultLimits plain_span = Inr clean_span"
    by (simp add: validateSpan_def) (simp add: plain_span_def clean_span_def DefaultLimits_def plain_keys plain_url plain_trim plain_trim2 validKinds_def
        finiteNonNegative_def is_nan_def is_inf_def)
  then show ?thesis
    by (simp add: ValidateAndSanitize_def plain_envelope_def protocol_version_def validateSpanBatch_def Let_def plain_keys plain_url plain_trim plain_trim2 DefaultLimits_def [symmetric])
     (simp add: DefaultLimits_def)
qed

theorem accepted_envelopes_are_well_formed_witness:
  "well_formed plain_urls DefaultLimits (plain_envelope [clean_span])"
  by (rule accepted_envelopes_are_well_formed [OF plain_accepted])

text \<open>C36: (roundtrip) What the SDK encodes, the collector decodes to the same envelope: for every envelope that
  the types of the SDK allow, with byte counts that are whole and have 64 bits, the fields that its encoder writes, read by the schema, are decoded to it,
  with every field of spans, attributes and runtime metrics in its place. That \<open>proto.Unmarshal\<close> reads
  by the schema the bytes that \<open>protobufjs\<close> makes of these fields is a hypothesis.\<close>

theorem protobuf_round_trip:
  assumes "sdk_envelope e" "encodeTelemetryEnvelope e = Some fs"
    and "unmarshal data = Some (schema_envelope fs)"
  shows "DecodeProtobuf unmarshal data = Inr e"
  by (rule envelope_round_trip [OF assms(1,2), where unmarshal = unmarshal and data = data, OF assms(3)])

text \<open>For the instance: metrics of which every field differs, and bytes that stand for either of two messages.\<close>

definition plain_metrics :: runtime_metrics where
  "plain_metrics = \<lparr>rm_Timestamp = Fin 1, rm_ServiceName = ''a'', rm_RSSBytes = 2, rm_HeapUsedBytes = 3,
     rm_HeapTotalBytes = 4, rm_CPUPercent = Fin 5, rm_EventLoopUtilization = Fin 6, rm_UptimeSeconds = Fin 7\<rparr>"

definition plain_runtime :: envelope where
  "plain_runtime = \<lparr>ProtocolVersion = ''1.0'', SpanBatch = None, RuntimeMetrics = Some plain_metrics\<rparr>"

definition either_message :: "bytes \<Rightarrow> proto_envelope option" where
  "either_message data = map_option schema_envelope (encodeTelemetryEnvelope
     (if data = [] then plain_runtime else plain_envelope [clean_span]))"

theorem protobuf_round_trip_witness:
  "DecodeProtobuf either_message [] = Inr plain_runtime
    \<and> DecodeProtobuf either_message [1] = Inr (plain_envelope [clean_span])"
proof
  obtain fs where fs: "encodeTelemetryEnvelope plain_runtime = Some fs"
    by (simp add: encodeTelemetryEnvelope_def plain_runtime_def)
  show "DecodeProtobuf either_message [] = Inr plain_runtime"
    by (rule protobuf_round_trip [OF _ fs]) (simp_all add: sdk_envelope_def plain_runtime_def [abs_def] either_message_def fs [unfolded plain_runtime_def])
next
  let ?e = "plain_envelope [clean_span]"
  obtain fs where fs: "encodeTelemetryEnvelope ?e = Some fs"
    by (simp add: encodeTelemetryEnvelope_def plain_envelope_def)
  have "sdk_envelope ?e"
    by (simp add: sdk_envelope_def plain_envelope_def sdk_span_def clean_span_def plain_span_def validKinds_def scalar_def)
  then show "DecodeProtobuf either_message [1] = Inr ?e"
    by (rule protobuf_round_trip [OF _ fs]) (simp add: either_message_def fs)
qed

text \<open>A message with a kind or a status that its enumeration does not name, or whose span has none, is
  refused by the validation that follows its decoding, never stored with a default.\<close>

theorem unknown_enumerations_are_refused:
  assumes "unmarshal data = Some msg" "pe_Payload msg = Some (PayloadSpanBatch (Some batch))"
    and "ps \<in> set (pb_Spans batch)" "ps_Kind ps \<notin> {1..10} \<or> ps_Status ps \<notin> {1, 2}"
  shows "\<exists>e err. DecodeProtobuf unmarshal data = Inr e \<and> ValidateAndSanitize lib limits e = Inl err"
proof -
  obtain e where e: "DecodeProtobuf unmarshal data = Inr e" "RuntimeMetrics e = None"
    "SpanBatch e = Some (spanBatchFromProto (Some batch))"
    using assms(1,2) by (simp add: DecodeProtobuf_def)
  have "spanKindFromProto (ps_Kind ps) = [] \<or> spanStatusFromProto (ps_Status ps) = []"
  proof (cases "ps_Status ps \<in> {1, 2}")
    case True
    then have "ps_Kind ps \<notin> {1..10}" using assms(4) by blast
    moreover have "k \<in> {1..10}" if "map_of [(1, ''http-route''), (2, ''controller''), (3, ''service''), (4, ''database''),
        (5, ''redis''), (6, ''queue''), (7, ''worker''), (8, ''external-http''), (9, ''custom''),
        (10, ''internal'')] k = Some x" for k :: u32 and x
      using that by (auto split: if_splits)
    ultimately show ?thesis by (auto simp: spanKindFromProto_def split: option.split)
  qed (simp add: spanStatusFromProto_def)
  then have "\<not> acceptable_span limits (span_from_proto ps)"
    by (auto simp: acceptable_span_def span_from_proto_def validKinds_def)
  then have "\<not> acceptable limits e"
    using e assms(3) by (auto simp: acceptable_def spanBatchFromProto_def list_all_iff)
  then show ?thesis using ValidateAndSanitize_spec [of limits e lib] e(1) by simp
qed

theorem unknown_enumerations_are_refused_witness:
  "\<exists>e err. DecodeProtobuf (\<lambda>_. Some unknown_message) [] = Inr e \<and> ValidateAndSanitize plain_urls DefaultLimits e = Inl err"
  by (rule unknown_enumerations_are_refused [where ps = unknown_span and msg = unknown_message
        and batch = "\<lparr>pb_ServiceName = ''a'', pb_NodeVersion = [], pb_Spans = [unknown_span]\<rparr>"])
    (simp_all add: unknown_message_def unknown_span_def)

text \<open>A histogram counts: after any observations each bucket holds the number of those up to
  its bound, and the total their number, both modulo \<open>2 ^ 64\<close>; the bounds stay.\<close>

theorem histograms_count:
  "let h = foldl (\<lambda>h v. observe_value v h) (newHistogram bounds) vs in
     h_counts h = List.map (\<lambda>b. of_nat (length (filter (\<lambda>v. f64_le v b) vs))) bounds
    \<and> h_count h = of_nat (length vs) \<and> h_bounds h = bounds"
proof -
  have "List.map2 (\<lambda>b c. c + of_nat (length (filter (\<lambda>v. f64_le v b) vs))) bounds (replicate (length bounds) 0)
      = (List.map (\<lambda>b. of_nat (length (filter (\<lambda>v. f64_le v b) vs))) bounds :: u64 list)"
    by (auto intro!: nth_equalityI)
  then show ?thesis
    using observed_counts [of "replicate (length bounds) 0" bounds 0 "Fin 0" vs]
    by (simp add: Let_def newHistogram_def)
qed

end
