(* ===== verification/Pipeline_Timing.thy ===== *)
theory Pipeline_Timing
  imports Pipeline_Base Float_Bounds
begin

text \<open>
  The sequential parts of the pipeline: the delay before a retry stays within its bounds, and a flush
  hands every item to one worker, services whole and in order.
\<close>

section \<open>Rounding of numbers of either sign\<close>

lemma round_f64_minus: "round_f64 (- x) = f64_neg (round_f64 x)"
  by (auto simp: round_f64_def Let_def)

lemma round_f64_within:
  assumes "\<bar>x\<bar> \<le> of_int n" "n < 2 ^ 53"
  shows "\<exists>r. round_f64 x = Fin r \<and> \<bar>r\<bar> \<le> of_int n \<and> (0 \<le> x \<longrightarrow> 0 \<le> r)"
proof (cases "0 \<le> x")
  case True
  then show ?thesis using round_f64_below [of x n] assms by auto
next
  case False
  then obtain r where "round_f64 (- x) = Fin r" "0 \<le> r" "r \<le> of_int n"
    using round_f64_below [of "- x" n] assms by auto
  then show ?thesis using False round_f64_minus [of "- x"] by simp
qed

lemma round_f64_nonneg:
  assumes "0 \<le> x"
  shows "round_f64 x = PInf \<or> (\<exists>r. round_f64 x = Fin r \<and> 0 \<le> r)"
proof (cases "x = 0")
  case False
  then have x: "0 < x" using assms by simp
  let ?u = "pow2 (max (exponent x - 52) (- 1074))"
  have "0 \<le> round_even (x / ?u)" using x by (simp add: round_even_nonneg less_imp_le)
  then have "0 \<le> (of_int (round_even (x / ?u)) :: rat) * ?u" by (simp add: less_imp_le)
  then show ?thesis using x by (simp add: round_f64_def Let_def)
qed (simp add: round_f64_def)

section \<open>The delay\<close>

lemma f64_of_int_exact: "0 \<le> n \<Longrightarrow> n < 2 ^ 53 \<Longrightarrow> f64_of_int n = Fin (of_int n)"
  using round_f64_int by (simp add: f64_of_int_def)

lemma capped_delay_within:
  assumes "valid_retry rc" "rc_MaxBackoff rc < 2 ^ 53"
  shows "\<exists>d. capped_delay rc attempt = Fin d \<and> 0 \<le> d \<and> d \<le> of_int (rc_MaxBackoff rc)"
proof -
  have b: "0 < rc_InitialBackoff rc" "rc_InitialBackoff rc \<le> rc_MaxBackoff rc" using assms(1) by (auto simp: valid_retry_def)
  let ?x = "of_int (rc_InitialBackoff rc) * 2 ^ min (attempt - 1) 30 :: rat"
  have e: "f64_of_int (rc_InitialBackoff rc) = Fin (of_int (rc_InitialBackoff rc))"
    "f64_of_int (rc_MaxBackoff rc) = Fin (of_int (rc_MaxBackoff rc))"
    using f64_of_int_exact b assms(2) by simp_all
  have "0 \<le> ?x" using b by simp
  from round_f64_nonneg [OF this] show ?thesis
    using b by (auto simp: capped_delay_def Let_def e f64_lt_def)
qed

lemma jitter_factor:
  assumes "0 \<le> r" "r \<le> 1" "0 \<le> j" "j \<le> 1"
  shows "\<exists>q. f64_add (Fin 1) (f64_mul (f64_sub (f64_mul (Fin r) (Fin 2)) (Fin 1)) (Fin j)) = Fin q \<and> 0 \<le> q \<and> q \<le> 2"
proof -
  obtain a where a: "round_f64 (r * 2) = Fin a" "0 \<le> a" "a \<le> 2"
    using round_f64_below [of "r * 2" 2] assms by auto
  have "\<bar>a + - 1\<bar> \<le> 1" using a by (simp add: abs_le_iff)
  then obtain b where b: "round_f64 (a + - 1) = Fin b" "\<bar>b\<bar> \<le> 1"
    using round_f64_within [of "a + - 1" 1] by auto
  have "\<bar>b * j\<bar> \<le> 1 * 1" unfolding abs_mult by (rule mult_mono) (use b assms in auto)
  then obtain c where c: "round_f64 (b * j) = Fin c" "\<bar>c\<bar> \<le> 1"
    using round_f64_within [of "b * j" 1] by auto
  have "0 \<le> 1 + c" "c \<le> 1" using c(2) by (simp_all add: abs_le_iff)
  then obtain q where "round_f64 (1 + c) = Fin q" "0 \<le> q" "q \<le> 2"
    using round_f64_below [of "1 + c" 2] by auto
  then show ?thesis using a b c by (simp add: f64_sub_def)
qed

lemma int_of_f64_le: "q \<le> of_int n \<Longrightarrow> 0 \<le> n \<Longrightarrow> int_of_f64 (Fin q) \<le> n"
  by (auto simp: floor_le_iff ceiling_le_iff)

section \<open>Properties\<close>

text \<open>C33: (bounds) Whatever the attempts of a batch and the random number are, a retry waits at least a
  millisecond and at most twice the configured maximum (or a millisecond, if that is more); without
  jitter at most the maximum, and exactly the initial delay doubled for each attempt as long as
  that is below the maximum.\<close>

theorem retry_delay_in_range:
  assumes "valid_retry rc" "rc_MaxBackoff rc < 2 ^ 52" and "random = Fin r" "0 \<le> r" "r < 1"
  shows "1000000 \<le> retryDelay rc random batch
    \<and> retryDelay rc random batch \<le> max 1000000 (2 * rc_MaxBackoff rc)
    \<and> (rc_Jitter rc = Fin 0 \<longrightarrow> retryDelay rc random batch \<le> max 1000000 (rc_MaxBackoff rc)
        \<and> (rc_InitialBackoff rc * 2 ^ min (retry_attempt batch - 1) 30 \<le> rc_MaxBackoff rc \<longrightarrow>
             retryDelay rc random batch = max 1000000 (rc_InitialBackoff rc * 2 ^ min (retry_attempt batch - 1) 30)))"
proof -
  let ?M = "rc_MaxBackoff rc" and ?I = "rc_InitialBackoff rc" and ?a = "retry_attempt batch"
  let ?p = "2 ^ min (?a - 1) 30 :: int"
  have b: "0 < ?I" "?I \<le> ?M" "?M < 2 ^ 53" using assms(1,2) by (auto simp: valid_retry_def)
  obtain d where d: "capped_delay rc ?a = Fin d" "0 \<le> d" "d \<le> of_int ?M"
    using capped_delay_within [OF assms(1) b(3)] by blast
  have j: "rc_Jitter rc = NaN \<or> (\<exists>j. rc_Jitter rc = Fin j \<and> 0 \<le> j \<and> j \<le> 1)"
    using assms(1) by (cases "rc_Jitter rc") (auto simp: valid_retry_def f64_lt_def)
  have plain: "retryDelay rc random batch = max 1000000 (int_of_f64 (Fin d))" if "\<not> f64_lt (Fin 0) (rc_Jitter rc)"
    using that d(1) by (simp add: retryDelay_def Let_def)
  have le: "int_of_f64 (Fin d) \<le> ?M" by (rule int_of_f64_le) (use d b in auto)
  have upper: "retryDelay rc random batch \<le> max 1000000 (2 * ?M)"
  proof (cases "f64_lt (Fin 0) (rc_Jitter rc)")
    case False
    then show ?thesis using plain le b by simp
  next
    case True
    then obtain x where x: "rc_Jitter rc = Fin x" "0 \<le> x" "x \<le> 1" using j by (auto simp: f64_lt_def)
    obtain q where q: "f64_add (Fin 1) (f64_mul (f64_sub (f64_mul (Fin r) (Fin 2)) (Fin 1)) (Fin x)) = Fin q" "0 \<le> q" "q \<le> 2"
      using jitter_factor [of r x] assms(4,5) x by auto
    have "d * q \<le> of_int ?M * 2" by (rule mult_mono) (use d q b in auto)
    then obtain y where y: "round_f64 (d * q) = Fin y" "y \<le> of_int (2 * ?M)"
      using round_f64_below [of "d * q" "2 * ?M"] d q assms(2) by auto
    have "retryDelay rc random batch = max 1000000 (int_of_f64 (Fin y))"
      using True y(1) unfolding retryDelay_def Let_def d(1) assms(3) x(1) q(1) by simp
    then show ?thesis using int_of_f64_le [OF y(2)] b by simp
  qed
  have exact: "retryDelay rc random batch = max 1000000 (?I * ?p)" if "rc_Jitter rc = Fin 0" "?I * ?p \<le> ?M"
  proof -
    have "of_int ?I * 2 ^ min (?a - 1) 30 = (of_int (?I * ?p) :: rat)" by simp
    then have "f64_mul (f64_of_int ?I) (Fin (2 ^ min (?a - 1) 30)) = Fin (of_int (?I * ?p))"
      using round_f64_int [of "?I * ?p"] f64_of_int_exact [of ?I] b that(2) by simp
    then have "capped_delay rc ?a = Fin (of_int (?I * ?p))"
      using that(2) b f64_of_int_exact [of ?M] of_int_le_iff [of "?I * ?p" ?M, where 'a = rat]
      by (auto simp: capped_delay_def Let_def f64_lt_def simp del: of_int_mult)
    then have "d = of_int (?I * ?p)" using d(1) by simp
    moreover have "\<not> ?I * ?p < 0" using b by (simp add: mult_less_0_iff)
    ultimately have "int_of_f64 (Fin d) = ?I * ?p" by (simp del: of_int_mult)
    then show ?thesis using plain that(1) by (simp add: f64_lt_def)
  qed
  have "retryDelay rc random batch \<le> max 1000000 ?M" if "rc_Jitter rc = Fin 0"
    using plain that le by (simp add: f64_lt_def)
  then show ?thesis using upper exact by (simp add: retryDelay_def Let_def)
qed

theorem retry_delay_in_range_witness:
  "let rc = \<lparr>rc_InitialBackoff = 100000000, rc_MaxBackoff = 5000000000, rc_MaxAttempts = 8, rc_Jitter = Fin (1/4)\<rparr>
   in retryDelay rc (Fin (1/2)) [] \<le> 10000000000"
  using retry_delay_in_range [of "\<lparr>rc_InitialBackoff = 100000000, rc_MaxBackoff = 5000000000, rc_MaxAttempts = 8, rc_Jitter = Fin (1/4)\<rparr>"
      "Fin (1/2)" "1/2" "[]"]
  by (simp add: valid_retry_def f64_lt_def)

text \<open>C32: (functional) A flush hands every item of the pending batch to a worker, none twice; each group it sends
  holds all items of one service, in the order they came, and goes to that service's worker.\<close>

theorem flush_keeps_services_whole:
  assumes "0 < n" "n < 2 ^ 32"
  shows "mset (List.concat (List.map snd (flush_batches n batch))) = mset batch
    \<and> (\<forall>(k, g)\<in>set (flush_batches n batch). k < n \<and> g \<noteq> []
        \<and> (\<exists>key. g = filter (\<lambda>i. serviceKey (it_envelope i) = key) batch)
        \<and> (\<forall>i\<in>set g. workerIndex (it_envelope i) n = k))"
proof -
  have "k < n \<and> g \<noteq> [] \<and> (\<exists>key. g = filter (\<lambda>i. serviceKey (it_envelope i) = key) batch)
      \<and> (\<forall>i\<in>set g. workerIndex (it_envelope i) n = k)"
    if m: "(k, g) \<in> set (flush_batches n batch)" for k g
  proof -
    obtain key where key: "k < n" "g \<noteq> []" "g = group_of n k batch key" using flush_batches_member [OF m] by blast
    then obtain i where i: "i \<in> set batch" "workerIndex (it_envelope i) n = k" "serviceKey (it_envelope i) = key"
      by (auto simp: group_of_def filter_empty_conv)
    have "workerIndex (it_envelope x) n = k" if "serviceKey (it_envelope x) = key" for x
      using i that by (simp add: workerIndex_def)
    then have "g = filter (\<lambda>i. serviceKey (it_envelope i) = key) batch"
      unfolding key(3) group_of_def by (intro filter_cong) auto
    moreover have "\<forall>i\<in>set g. workerIndex (it_envelope i) n = k" using key(3) by (simp add: group_of_def)
    ultimately show ?thesis using key(1,2) by blast
  qed
  then show ?thesis using flush_batches_mset [OF assms] by blast
qed

theorem flush_keeps_services_whole_witness:
  "mset (List.concat (List.map snd (flush_batches 4 [\<lparr>it_envelope = \<lparr>ProtocolVersion = [], SpanBatch = None, RuntimeMetrics = None\<rparr>,
     it_result = None, it_record = None\<rparr>]))) \<noteq> {#}"
  using flush_keeps_services_whole [of 4] by simp

end
