(* ===== verification/Pipeline_Demo.thy ===== *)
theory Pipeline_Demo
  imports Storage_Pipeline
begin

text \<open>
  A run of the pipeline on a small log with one record on disk: the loader reads the record, and it
  goes through the queue and the dispatcher to the only worker.
\<close>

definition stored_record :: spool_record where
  "stored_record = (demo_record 1)\<lparr>Attempts := 1\<rparr>"

definition stored_files :: "fs_file gomap" where
  "stored_files =
     [(segmentFilename 1, \<lparr>contents = encodeWALSegmentHeader 1 7 @ encodeWALFrame FrameData 1 (demo_payload 1), synced = 76\<rparr>),
      (stateFilename 1, \<lparr>contents = encodeWALStateHeader 1, synced = 24\<rparr>)]"

definition stored_wal :: WAL where
  "stored_wal = demo_active\<lparr>w_world := \<lparr>disk = stored_files, script = []\<rparr>\<rparr>"

lemma stored_wal_inv: "wal_inv stored_wal"
proof -
  have "wal_inv stored_wal = wal_inv demo_active"
    unfolding wal_inv_def
    using tables_ok_cong [of stored_wal demo_active] index_ok_cong [of stored_wal demo_active] by (simp add: stored_wal_def)
  then show ?thesis using demo_active_inv by simp
qed

lemma length_segment_header: "length (encodeWALSegmentHeader i t) = 32"
  by (simp add: walSegmentHeaderSize_def)

lemma stored_read: "readRecordLocked demo_codec 1 demo_metadata stored_wal = (Some stored_record, stored_wal)"
proof -
  let ?frame = "encodeWALFrame FrameData 1 (demo_payload 1)"
  let ?h = "frame_header FrameData 1 (of_nat (length (demo_payload 1))) (crc32 (demo_payload 1))"
  have len: "length ?frame = 44" using length_demo_frame [of 1] by simp
  have slice: "slice 32 (32 + 44) (encodeWALSegmentHeader 1 7 @ ?frame) = ?frame"
    using len length_segment_header [of 1 7] by (simp add: slice_def)
  have l: "lookup_file \<lparr>disk = stored_files, script = []\<rparr> (segmentFilename 1)
      = Some \<lparr>contents = encodeWALSegmentHeader 1 7 @ ?frame, synced = 76\<rparr>"
    by (simp add: stored_files_def)
  have rd: "os_read_at (segmentFilename 1) 44 32 \<lparr>disk = stored_files, script = []\<rparr>
      = (Some ?frame, \<lparr>disk = stored_files, script = []\<rparr>)"
    using slice len l by (simp add: os_read_at_def Let_def)
  have frame: "take walFrameHeaderSize ?frame = ?h" "drop walFrameHeaderSize ?frame = demo_payload 1"
    by (simp_all add: encodeWALFrame_def walFrameHeaderSize_def)
  have op: "os_open (segmentFilename 1) \<lparr>disk = stored_files, script = []\<rparr> = (True, \<lparr>disk = stored_files, script = []\<rparr>)"
    "os_close \<lparr>disk = stored_files, script = []\<rparr> = (True, \<lparr>disk = stored_files, script = []\<rparr>)"
    using l by (simp_all add: os_open_def os_close_def)
  have w: "w_world stored_wal = \<lparr>disk = stored_files, script = []\<rparr>" "w_segments stored_wal = [1 \<mapsto> demo_segment]"
    "stored_wal\<lparr>w_world := \<lparr>disk = stored_files, script = []\<rparr>\<rparr> = stored_wal"
    by (simp_all add: stored_wal_def demo_active_def)
  have md: "md_frameSize demo_metadata = 44" "md_offset demo_metadata = 32" by (simp_all add: demo_metadata_def)
  have dec: "decodeWALFrameHeader (take walFrameHeaderSize ?frame) = Inr (FrameData, 1, of_nat (length (demo_payload 1)), crc32 (demo_payload 1))"
    unfolding frame(1) by (simp only: codec_simps)
  have size: "int walFrameHeaderSize + uint (of_nat (length (demo_payload 1)) :: u32) = 44"
    by (simp add: wal_sizes)
  show ?thesis
    using demo_payload_decodes [of 1]
    by (simp add: readRecordLocked_def w lift_io_def op md rd dec frame(2) size Let_def stored_record_def
        del: demo_prepared_sel(5))
qed

lemma stored_next: "NextAfter demo_codec 0 stored_wal = ((Some (Inr stored_record), None), stored_wal)"
proof -
  have ids: "w_ids stored_wal = [1]" "w_fault stored_wal = None" "w_active stored_wal = [1 \<mapsto> demo_metadata]"
    by (simp_all add: stored_wal_def)
  have "1 \<in> set (drop (sort_search (length [1::u64]) (\<lambda>i. [1::u64] ! i > 0)) [1::u64])"
    by (subst index_after) simp_all
  then have "drop (sort_search (length [1::u64]) (\<lambda>i. [1::u64] ! i > 0)) [1::u64] = [1]"
    by (cases "sort_search (length [1::u64]) (\<lambda>i. [1::u64] ! i > 0)") simp_all
  then show ?thesis using stored_read by (simp add: NextAfter_def ids)
qed

section \<open>The run\<close>

definition demo_settings :: pipeline_config where
  "demo_settings = \<lparr>pc_Workers = 1, pc_QueueSize = 1, pc_BatchSize = 1, pc_FlushInterval = 1, pc_Durable = True,
     pc_Retry = \<lparr>rc_InitialBackoff = 1, rc_MaxBackoff = 1, rc_MaxAttempts = 5, rc_Jitter = Fin 0\<rparr>\<rparr>"

definition stored_item :: item where
  "stored_item = \<lparr>it_envelope = demo_envelope, it_result = None, it_record = Some stored_record\<rparr>"

definition demo_pipeline :: "WAL pipeline" where
  "demo_pipeline = (new_pipeline demo_settings stored_wal)\<lparr>pp_cursor := 1, pp_inFlight := {1}\<rparr>"

abbreviation demo_step :: "WAL pipeline \<Rightarrow> WAL pipeline \<Rightarrow> bool" where
  "demo_step \<equiv> pipeline_step demo_settings (wal_storage demo_codec 7) wal_room"

lemma demo_pipeline_sel [simp]:
  "pp_storage demo_pipeline = stored_wal" "pp_loading demo_pipeline = None" "pp_queue demo_pipeline = []"
  "pp_pending demo_pipeline = []" "pp_outbox demo_pipeline = []" "pp_jobs demo_pipeline = [None]"
  "pp_work demo_pipeline = [None]" "pp_inFlight demo_pipeline = {1}" "pp_waiters demo_pipeline = Map.empty"
  "pp_results demo_pipeline = []" "pp_channels demo_pipeline = {}"
  by (simp_all add: demo_pipeline_def new_pipeline_def demo_settings_def)

lemma demo_settings_sel [simp]:
  "pc_Workers demo_settings = 1" "pc_QueueSize demo_settings = 1" "pc_BatchSize demo_settings = 1"
  "pc_Retry demo_settings = \<lparr>rc_InitialBackoff = 1, rc_MaxBackoff = 1, rc_MaxAttempts = 5, rc_Jitter = Fin 0\<rparr>"
  "pc_Durable demo_settings"
  by (simp_all add: demo_settings_def)

lemma demo_flush: "flush_batches (length [None :: item list option]) [stored_item] = [(0, [stored_item])]"
proof -
  have "workerIndex e 1 = 0" for e using workerIndex_less [of 1 e] by simp
  then show ?thesis
    by (simp add: flush_batches_def worker_groups_def add_to_group_def Let_def)
qed

lemma demo_reachable:
  "pipeline_reachable demo_settings (wal_storage demo_codec 7) wal_room stored_wal
     (demo_pipeline\<lparr>pp_work := [Some ([stored_item], False)]\<rparr>)"
proof -
  let ?reach = "pipeline_reachable demo_settings (wal_storage demo_codec 7) wal_room stored_wal"
  have "?reach (new_pipeline demo_settings stored_wal)" by (rule pipeline_reachable.initially)
  moreover have "demo_step (new_pipeline demo_settings stored_wal)
      (load (Some (Inr stored_record), None) ((new_pipeline demo_settings stored_wal)\<lparr>pp_storage := stored_wal\<rparr>))"
    by (rule pipeline_step.read) (simp_all add: new_pipeline_def wal_storage_def stored_next)
  moreover have "load (Some (Inr stored_record), None) ((new_pipeline demo_settings stored_wal)\<lparr>pp_storage := stored_wal\<rparr>)
      = demo_pipeline\<lparr>pp_loading := Some stored_item\<rparr>"
    by (simp add: load_def new_pipeline_def demo_pipeline_def stored_record_def stored_item_def demo_record_def)
  ultimately have "?reach (demo_pipeline\<lparr>pp_loading := Some stored_item\<rparr>)"
    using pipeline_reachable.later by metis
  moreover have "demo_step (demo_pipeline\<lparr>pp_loading := Some stored_item\<rparr>) (demo_pipeline\<lparr>pp_queue := [stored_item]\<rparr>)"
    using pipeline_step.send [of "demo_pipeline\<lparr>pp_loading := Some stored_item\<rparr>" stored_item demo_settings]
    by (simp add: demo_pipeline_def new_pipeline_def)
  ultimately have "?reach (demo_pipeline\<lparr>pp_queue := [stored_item]\<rparr>)" by (rule pipeline_reachable.later)
  moreover have "demo_step (demo_pipeline\<lparr>pp_queue := [stored_item]\<rparr>) (demo_pipeline\<lparr>pp_pending := [stored_item]\<rparr>)"
    using pipeline_step.take [of "demo_pipeline\<lparr>pp_queue := [stored_item]\<rparr>" stored_item "[]" demo_settings]
    by (simp add: demo_pipeline_def new_pipeline_def batchEventCount_def)
  ultimately have "?reach (demo_pipeline\<lparr>pp_pending := [stored_item]\<rparr>)" by (rule pipeline_reachable.later)
  moreover have "demo_step (demo_pipeline\<lparr>pp_pending := [stored_item]\<rparr>) (demo_pipeline\<lparr>pp_outbox := [(0, [stored_item])]\<rparr>)"
    using pipeline_step.flush [of "demo_pipeline\<lparr>pp_pending := [stored_item]\<rparr>" demo_settings] demo_flush
    by (simp add: demo_pipeline_def new_pipeline_def)
  ultimately have "?reach (demo_pipeline\<lparr>pp_outbox := [(0, [stored_item])]\<rparr>)" by (rule pipeline_reachable.later)
  moreover have "demo_step (demo_pipeline\<lparr>pp_outbox := [(0, [stored_item])]\<rparr>) (demo_pipeline\<lparr>pp_jobs := [Some [stored_item]]\<rparr>)"
    using pipeline_step.dispatch [of "demo_pipeline\<lparr>pp_outbox := [(0, [stored_item])]\<rparr>" 0 "[stored_item]" "[]" demo_settings]
    by (simp add: demo_pipeline_def new_pipeline_def)
  ultimately have "?reach (demo_pipeline\<lparr>pp_jobs := [Some [stored_item]]\<rparr>)" by (rule pipeline_reachable.later)
  moreover have "demo_step (demo_pipeline\<lparr>pp_jobs := [Some [stored_item]]\<rparr>)
      (demo_pipeline\<lparr>pp_work := [Some ([stored_item], False)]\<rparr>)"
    using pipeline_step.start [of 0 "demo_pipeline\<lparr>pp_jobs := [Some [stored_item]]\<rparr>" "[stored_item]" demo_settings]
    by (simp add: demo_pipeline_def new_pipeline_def)
  ultimately show ?thesis by (rule pipeline_reachable.later)
qed

end
