(* ===== verification/Pipeline_Properties.thy ===== *)
theory Pipeline_Properties
  imports Pipeline_Demo
begin

text \<open>
  The properties of the pipeline, with the write-ahead log as its storage.
\<close>

section \<open>What the properties rest on\<close>

text \<open>A durable pipeline over a log: its settings passed their validation and it retries no more often
  than the log has room for.\<close>

definition durable_setup :: "pipeline_config \<Rightarrow> WAL \<Rightarrow> bool" where
  "durable_setup c w \<longleftrightarrow> valid_pipeline c \<and> pc_Workers c < 2 ^ 32 \<and> wal_inv w
     \<and> rc_MaxAttempts (pc_Retry c) \<le> cfg_MaxRecordAttempts (w_config w)"

lemma setup_ok:
  assumes "pipeline_reachable c (wal_storage js now) wal_room w0 p" "durable_setup c w0"
  shows "pipeline_ok (wal_ready (cfg_MaxRecordAttempts (w_config w0))) wal_attempts wal_known p"
    "length (pp_jobs p) = nat (pc_Workers c)"
  using wal_pipeline.pipeline_reachable_ok [OF assms(1), of "cfg_MaxRecordAttempts (w_config w0)"] assms(2)
  by (simp_all add: durable_setup_def wal_ready_def)

definition batch_of :: "(item list \<times> bool) option \<Rightarrow> item list" where
  "batch_of x = (case x of Some (batch, _) \<Rightarrow> batch | None \<Rightarrow> [])"

lemma items_of_worked: "items_of (worked_on False) xs + items_of (worked_on True) xs = items_of batch_of xs"
proof (induction xs)
  case (Cons x xs)
  then show ?case by (cases x) (auto simp: batch_of_def ac_simps)
qed simp

lemma items_of_member: "k < length xs \<Longrightarrow> mset (f (xs ! k)) \<subseteq># items_of f xs"
proof (induction xs arbitrary: k)
  case (Cons x xs)
  then show ?case by (cases k) (auto intro: subset_mset.add_increasing)
qed simp

lemma held_items: "items_of batch_of (pp_work p) \<subseteq># resting p + settling p"
proof -
  have "resting p + settling p = (resting p - items_of (worked_on False) (pp_work p)) + items_of batch_of (pp_work p)"
    by (simp add: items_of_worked [symmetric] resting_def settling_def ac_simps)
  then show ?thesis by (metis mset_subset_eq_add_right)
qed

lemma reachable_batch:
  assumes "pipeline_ok ok active known p" "k < length (pp_work p)" "pp_work p ! k = Some (batch, False)"
  shows "held active (pp_storage p) (durableRecords batch) \<and> durable_batch batch \<and> ok (pp_storage p)"
proof -
  have sub: "mset batch \<subseteq># resting p"
    using items_of_member [OF assms(2), of "worked_on False"] assms(3)
    by (simp add: resting_def subset_mset.add_increasing)
  note b = core_batch [OF pipeline_ok_core [OF assms(1)]]
  have "mset batch \<subseteq># resting p + settling p" using sub by (simp add: subset_mset.add_increasing2)
  then have "\<forall>x\<in>set batch. it_record x \<noteq> None" using b(1) by blast
  moreover have "batch \<noteq> []"
    using batches_at [of p k] assms unfolding pipeline_ok_def batch_at_def by (metis batches_ok_def)
  ultimately have "durable_batch batch" by (simp add: durable_batch_def list_all_iff)
  moreover have "ok (pp_storage p)" using pipeline_ok_core [OF assms(1)] by (simp add: core_ok_def)
  ultimately show ?thesis using b(3) [OF _ sub] \<open>mset batch \<subseteq># resting p + settling p\<close> by blast
qed

text \<open>The demonstration has a durable setup.\<close>

lemma demo_setup: "durable_setup demo_settings stored_wal"
  using stored_wal_inv
  by (simp add: durable_setup_def valid_pipeline_def valid_retry_def stored_wal_def demo_config_def demo_settings_def f64_lt_def)

abbreviation demo_holding :: "WAL pipeline" where
  "demo_holding \<equiv> demo_pipeline\<lparr>pp_work := [Some ([stored_item], False)]\<rparr>"

lemma demo_places: "resting demo_holding = {#stored_item#}" "settling demo_holding = {#}"
  by (simp_all add: resting_def settling_def)

section \<open>Properties\<close>

text \<open>C3: (invariant) In every reachable state of clients, loader, dispatcher and workers over the log, the
  records in flight are exactly those of the items the pipeline holds, each in one place: no record
  is in two queues, two batches or two workers, none is in flight that nobody has. And as long as
  nobody has begun to settle an item, the log still has its record, with the attempts it carries.\<close>

theorem records_are_in_one_place:
  assumes "pipeline_reachable c (wal_storage js now) wal_room w0 p" "durable_setup c w0"
  shows "wal_inv (pp_storage p) \<and> image_mset item_id (resting p + settling p) = mset_set (pp_inFlight p)
    \<and> finite (pp_inFlight p)
    \<and> (\<forall>x. x \<in># resting p \<longrightarrow> wal_attempts (pp_storage p) (item_id x) = Some (Attempts (the (it_record x))))"
proof -
  note core = pipeline_ok_core [OF setup_ok(1) [OF assms]]
  then have "wal_inv (pp_storage p)" by (simp add: core_ok_def wal_ready_def)
  moreover have "image_mset item_id (resting p + settling p) = mset_set (pp_inFlight p)" "finite (pp_inFlight p)"
    using core unfolding core_ok_def by blast+
  moreover have "\<forall>x. x \<in># resting p \<longrightarrow> item_held wal_attempts (pp_storage p) x" using core unfolding core_ok_def by blast
  ultimately show ?thesis by (simp add: item_held_def)
qed

theorem records_are_in_one_place_witness:
  "image_mset item_id (resting demo_holding + settling demo_holding) = mset_set {1}
    \<and> wal_attempts stored_wal 1 = Some 1"
proof -
  have "item_id stored_item = 1" "Attempts (the (it_record stored_item)) = 1"
    by (simp_all add: item_id_def stored_item_def stored_record_def)
  then show ?thesis
    using records_are_in_one_place [OF demo_reachable demo_setup] unfolding demo_places by simp
qed

text \<open>C27: (safety) At most one result is ever sent to a client, on a channel it made; and a client whose
  result was sent is in no item any more, so nothing will be sent to it later.\<close>

theorem results_are_sent_once:
  assumes "pipeline_reachable c (wal_storage js now) wal_room w0 p" "durable_setup c w0"
  shows "count (mset (List.map fst (pp_results p))) ch \<le> (if ch \<in> pp_channels p then 1 else 0)
    \<and> (ch \<in> set (List.map fst (pp_results p)) \<longrightarrow> (\<forall>x. x \<in># resting p + settling p \<longrightarrow> it_result x \<noteq> Some ch))"
proof -
  let ?sent = "mset (List.map fst (pp_results p))" and ?open = "channels_of (resting p + settling p)"
  have c: "count ?sent ch + count ?open ch + count (waiting (pp_waiters p) (pp_inFlight p)) ch \<le> (if ch \<in> pp_channels p then 1 else 0)"
    using pipeline_ok_core [OF setup_ok(1) [OF assms]] unfolding core_ok_def plus_multiset.rep_eq by blast
  have "it_result x \<noteq> Some ch" if s: "ch \<in> set (List.map fst (pp_results p))" and x: "x \<in># resting p + settling p" for x
  proof
    assume "it_result x = Some ch"
    then have "ch \<in># ?open" using x by (force simp: channels_of_def)
    moreover have "ch \<in># ?sent" using s by simp
    ultimately have "1 \<le> count ?open ch" "1 \<le> count ?sent ch" by (simp_all add: Suc_le_eq del: mset_map)
    moreover have "count ?sent ch + count ?open ch \<le> 1" using c by (simp split: if_splits)
    ultimately show False by linarith
  qed
  moreover have "count ?sent ch \<le> (if ch \<in> pp_channels p then 1 else 0)" using c by linarith
  ultimately show ?thesis by blast
qed

theorem results_are_sent_once_witness:
  "count (mset (List.map fst (pp_results demo_holding))) 0 = 0"
  using results_are_sent_once [OF demo_reachable demo_setup, of 0] by simp

text \<open>C31: (safety) Two workers never hold the same record, nor items of the same service: what a service
  sends is delivered by one worker, in order.\<close>

theorem workers_share_nothing:
  assumes "pipeline_reachable c (wal_storage js now) wal_room w0 p" "durable_setup c w0"
  shows "distinct (item_ids (concat (List.map batch_of (pp_work p))))
    \<and> (\<forall>j<length (pp_work p). \<forall>k<length (pp_work p). \<forall>x\<in>set (batch_of (pp_work p ! j)).
         \<forall>y\<in>set (batch_of (pp_work p ! k)). serviceKey (it_envelope x) = serviceKey (it_envelope y) \<longrightarrow> j = k)"
proof -
  note ok = setup_ok(1) [OF assms(1,2)]
  have batches: "batches_ok p" using ok by (simp add: pipeline_ok_def)
  then have len: "length (pp_work p) = length (pp_jobs p)" by (simp add: batches_ok_def)
  have "mset (concat (List.map batch_of (pp_work p))) \<subseteq># resting p + settling p"
    using held_items [of p] by (simp only: items_of_def)
  from core_batch(2) [OF pipeline_ok_core [OF ok] this]
  have ids: "distinct (item_ids (concat (List.map batch_of (pp_work p))))" .
  have at: "workerIndex (it_envelope x) (length (pp_jobs p)) = k"
    if k: "k < length (pp_work p)" and x: "x \<in> set (batch_of (pp_work p ! k))" for k x
  proof -
    obtain b begun where "pp_work p ! k = Some (b, begun)" "x \<in> set b"
      using x by (cases "pp_work p ! k") (auto simp: batch_of_def)
    then show ?thesis using batches_at(2) [OF batches] k len unfolding batch_at_def by metis
  qed
  have "j = k" if "j < length (pp_work p)" "k < length (pp_work p)" "x \<in> set (batch_of (pp_work p ! j))"
    "y \<in> set (batch_of (pp_work p ! k))" "serviceKey (it_envelope x) = serviceKey (it_envelope y)" for j k x y
    using at [OF that(1,3)] at [OF that(2,4)] that(5) by (simp add: workerIndex_def)
  then show ?thesis using ids by blast
qed

theorem workers_share_nothing_witness:
  "distinct (item_ids (concat (List.map batch_of (pp_work demo_holding)))) \<and> batch_of (pp_work demo_holding ! 0) = [stored_item]"
  using workers_share_nothing [OF demo_reachable demo_setup] by (simp add: batch_of_def)

section \<open>A worker at the log\<close>

text \<open>A worker of a reachable pipeline runs its batch on the log as it stands.\<close>

lemma worker_run:
  assumes "pipeline_reachable c (wal_storage js now) wal_room w0 p" "durable_setup c w0"
    and "k < length (pp_work p)" "pp_work p ! k = Some (batch, False)" "w_storage w = pp_storage p"
  shows "worked (wal_ready (cfg_MaxRecordAttempts (w_config w0))) wal_attempts (pc_Retry c) batch w
      (work_loop True (pc_Retry c) (wal_storage js now) sink batch w)"
    "held wal_attempts (w_storage w) (durableRecords batch)" "durable_batch batch"
    "wal_ready (cfg_MaxRecordAttempts (w_config w0)) (w_storage w)"
proof -
  note b = reachable_batch [OF setup_ok(1) [OF assms(1,2)] assms(3,4)]
  show h: "held wal_attempts (w_storage w) (durableRecords batch)" "durable_batch batch"
    "wal_ready (cfg_MaxRecordAttempts (w_config w0)) (w_storage w)"
    using b assms(5) by simp_all
  show "worked (wal_ready (cfg_MaxRecordAttempts (w_config w0))) wal_attempts (pc_Retry c) batch w
      (work_loop True (pc_Retry c) (wal_storage js now) sink batch w)"
    by (rule wal.work_loop_worked [OF h(3,1,2)]) (use assms(2) in \<open>simp add: durable_setup_def\<close>)
qed

definition new_calls :: "('s, 'k) work_state \<Rightarrow> ('s, 'k) work_state \<Rightarrow> work_call list" where
  "new_calls w w' = drop (length (w_calls w)) (w_calls w')"

lemma new_calls_append: "w_calls w' = w_calls w @ cs \<Longrightarrow> new_calls w w' = cs"
  by (simp add: new_calls_def)

definition demo_work :: "(WAL, unit) work_state" where
  "demo_work = \<lparr>w_storage = stored_wal, w_sink = (), w_running = 9, w_metrics = new_collector, w_results = [],
     w_released = [], w_calls = [], w_elapsed = (\<lambda>_. Fin 0)\<rparr>"

text \<open>A sink that refuses everything for good.\<close>

definition refusing :: "unit sink_op" where
  "refusing es k = (Inl (HTTPStatusError 400 []), k)"

definition demo_worked :: "(WAL, unit) work_state" where
  "demo_worked = work_loop True (pc_Retry demo_settings) (wal_storage demo_codec 7) refusing [stored_item] demo_work"

lemma demo_quarantine: "\<exists>w'. Quarantine [stored_record] ''permanent'' stored_wal = (None, w')"
proof -
  have "fst (writeRecordStates [stored_record] StateQuarantine sr False stored_wal) = None" for sr
    by (simp add: writeRecordStates_def write_batch_def add_entry_def Let_def stored_wal_def stored_record_def
        os_write_def lift_io_def os_sync_def)
  then show ?thesis unfolding Quarantine_def Let_def by (metis (no_types, lifting) case_prod_beta' fst_conv surj_pair)
qed

lemma demo_sound: "sound_calls demo_worked"
proof -
  obtain wa where q: "Quarantine [stored_record] ''permanent'' stored_wal = (None, wa)" using demo_quarantine by blast
  have i: "it_envelope stored_item = demo_envelope" "durableRecords [stored_item] = [stored_record]" "item_ids [stored_item] = [1]"
    by (simp_all add: stored_item_def item_ids_def stored_record_def)
  let ?e = "HTTPStatusError 400 []"
  obtain w1 where d: "deliver refusing [stored_item] demo_work = (Inl ?e, w1)" "w_storage w1 = stored_wal"
    "w_running w1 = 9" "w_calls w1 = [Delivered [demo_envelope] (Some ?e)]"
    by (simp add: deliver_def Let_def i refusing_def tally_def log_call_def demo_work_def)
  obtain w2 where c: "consult (tally RecordError w1) = (True, w2)" "w_storage w2 = stored_wal" "w_calls w2 = w_calls w1"
    using d by (simp add: consult_def tally_def)
  have p: "isPermanentSinkError ?e" by (simp add: isPermanentSinkError_def Permanent_def)
  have k: "quarantineDurableBatch (wal_storage demo_codec 7) [stored_item] ?e w2
      = (None, log_call (Quarantined [1] ''permanent'' None) (w2\<lparr>w_storage := wa\<rparr>))"
    using q by (subst quarantineDurableBatch.simps) (simp only: i c(2) wal_storage_def storage_ops.simps, simp add: quarantine_reason_def p Let_def)
  have dw: "demo_worked = finish [stored_item] [] (Some (SinkFailed ?e))
      (tally (RecordSpoolPermanent (of_nat (length [stored_item]))) (log_call (Quarantined [1] ''permanent'' None) (w2\<lparr>w_storage := wa\<rparr>)))"
    unfolding demo_worked_def
    by (subst work_loop.simps) (simp only: d(1) prod.case sum.case Let_def not_True_eq_False if_False after_failure_def c(1) p k
        option.case simp_thms if_True bool.case)
  have "sound_calls w2" using c(3) d(4) by (simp add: sound_calls_def)
  then show ?thesis unfolding dw by simp
qed

text \<open>C2: (safety) No record is lost: whatever the sink answers, whatever of the log's writes fails, and
  whenever the context is cancelled, a record that a worker of the running pipeline leaves inactive in
  the log was delivered or quarantined before, and every other record of the log is as it was.\<close>

theorem no_record_is_lost:
  assumes "pipeline_reachable c (wal_storage js now) wal_room w0 p" "durable_setup c w0"
    and "k < length (pp_work p)" "pp_work p ! k = Some (batch, False)" "w_storage w = pp_storage p"
    and "w' = work_loop True (pc_Retry c) (wal_storage js now) sink batch w"
  shows "wal_inv (w_storage w')
    \<and> (\<forall>i. i \<notin> set (item_ids batch) \<longrightarrow> wal_attempts (w_storage w') i = wal_attempts (w_storage w) i)
    \<and> (\<forall>i\<in>set (item_ids batch). wal_attempts (w_storage w') i \<noteq> None
        \<or> Delivered (List.map it_envelope batch) None \<in> set (new_calls w w')
        \<or> (\<exists>reason r. Quarantined (item_ids batch) reason r \<in> set (new_calls w w')))"
proof -
  obtain cs where c: "w_calls w' = w_calls w @ cs" and k: "wal_inv (w_storage w')"
    "\<forall>i. i \<notin> set (item_ids batch) \<longrightarrow> wal_attempts (w_storage w') i = wal_attempts (w_storage w) i"
    "(\<exists>i\<in>set (item_ids batch). wal_attempts (w_storage w') i = None) \<longrightarrow>
       Delivered (List.map it_envelope batch) None \<in> set cs \<or> (\<exists>reason r. Quarantined (item_ids batch) reason r \<in> set cs)"
    using worker_run(1) [OF assms(1-5), of sink, folded assms(6)] unfolding worked_def wal_ready_def by (elim exE conjE) (rule that)
  show ?thesis unfolding new_calls_append [OF c] using k by (intro conjI ballI) auto
qed

lemma demo_holding_worker:
  "0 < length (pp_work demo_holding)" "pp_work demo_holding ! 0 = Some ([stored_item], False)"
  "w_storage demo_work = pp_storage demo_holding"
  by (simp_all add: demo_work_def)

theorem no_record_is_lost_witness:
  "wal_inv (w_storage demo_worked)"
  using no_record_is_lost [OF demo_reachable demo_setup demo_holding_worker demo_worked_def] by blast

text \<open>C28: (functional) A worker answers everybody who waits for an item of its batch exactly once, and
  releases exactly its records; success is answered only when the sink took the whole batch and the
  log has settled every record.\<close>

theorem worker_answers_everybody:
  assumes "pipeline_reachable c (wal_storage js now) wal_room w0 p" "durable_setup c w0"
    and "k < length (pp_work p)" "pp_work p ! k = Some (batch, False)" "w_storage w = pp_storage p"
    and "w' = work_loop True (pc_Retry c) (wal_storage js now) sink batch w"
  shows "w_released w' = w_released w @ item_ids batch
    \<and> (\<exists>outcomes err. w_results w' = w_results w @ batch_results 0 batch outcomes err
        \<and> mset (List.map fst (batch_results 0 batch outcomes err)) = channels_of (mset batch)
        \<and> (err = None \<longrightarrow> Delivered (List.map it_envelope batch) None \<in> set (new_calls w w')
             \<and> (\<forall>i\<in>set (item_ids batch). wal_attempts (w_storage w') i = None)))"
  using worker_run(1) [OF assms(1-5), of sink, folded assms(6)] new_calls_append [of w' w]
  unfolding worked_def by (metis batch_results_channels)

theorem worker_answers_everybody_witness:
  "w_released demo_worked = w_released demo_work @ [1]"
  using worker_answers_everybody [OF demo_reachable demo_setup demo_holding_worker demo_worked_def]
  by (simp add: item_ids_def stored_item_def stored_record_def)

text \<open>C10: (bounds) A worker delivers a batch at least once, always as a whole, and never more often than
  the attempts the configuration leaves its most tried record, nor ever after a success: its calls
  follow the protocol.\<close>

theorem deliveries_are_bounded:
  assumes "pipeline_reachable c (wal_storage js now) wal_room w0 p" "durable_setup c w0"
    and "k < length (pp_work p)" "pp_work p ! k = Some (batch, False)" "w_storage w = pp_storage p"
    and "w' = work_loop True (pc_Retry c) (wal_storage js now) sink batch w"
  shows "protocol (attempts_left (pc_Retry c) batch) (List.map it_envelope batch) (item_ids batch) (new_calls w w')
    \<and> 0 < length (filter is_delivery (new_calls w w'))
    \<and> int (length (filter is_delivery (new_calls w w'))) \<le> max 1 (attempts_left (pc_Retry c) batch)"
proof -
  have "protocol (attempts_left (pc_Retry c) batch) (List.map it_envelope batch) (item_ids batch) (new_calls w w')"
    using worker_run(1) [OF assms(1-5), of sink, folded assms(6)] new_calls_append [of w' w]
    unfolding worked_def by auto
  then show ?thesis using protocol_deliveries by blast
qed

theorem deliveries_are_bounded_witness:
  "int (length (filter is_delivery (new_calls demo_work demo_worked))) \<le> 4"
  using deliveries_are_bounded [OF demo_reachable demo_setup demo_holding_worker demo_worked_def]
  by (simp add: attempts_left_def stored_item_def stored_record_def)

text \<open>C29: (liveness) A worker settles its batch: if the context is found running often enough for the
  attempts that are left and no call of the storage fails, every record is acknowledged or
  quarantined in the end, however often the sink fails.\<close>

theorem worker_settles_its_batch:
  assumes "pipeline_reachable c (wal_storage js now) wal_room w0 p" "durable_setup c w0"
    and "k < length (pp_work p)" "pp_work p ! k = Some (batch, False)" "w_storage w = pp_storage p"
    and "w' = work_loop True (pc_Retry c) (wal_storage js now) sink batch w"
    and "sound_calls w'" "2 * max 1 (attempts_left (pc_Retry c) batch) - 1 \<le> int (w_running w)"
  shows "\<forall>i\<in>set (item_ids batch). wal_attempts (w_storage w') i = None"
  unfolding assms(6)
  by (rule wal.work_loop_settles [OF worker_run(4,2,3) [OF assms(1-5)] _ assms(7) [unfolded assms(6)] assms(8)])
    (use assms(2) in \<open>simp add: durable_setup_def\<close>)


theorem worker_settles_its_batch_witness:
  "wal_attempts (w_storage demo_worked) 1 = None"
  using worker_settles_its_batch [OF demo_reachable demo_setup demo_holding_worker demo_worked_def demo_sound]
  by (simp add: attempts_left_def stored_item_def stored_record_def item_ids_def demo_work_def)

end
