(* ===== verification/Pipeline_Returns.thy ===== *)
theory Pipeline_Returns
  imports Pipeline_Liveness
begin

text \<open>
  The worker's loops over a context that need not end: \<open>ctx k\<close> says whether the context is still running
  when it is consulted for the \<open>k\<close>-th time from now. The loops of \<open>ackDurableBatch\<close> and
  \<open>quarantineDurableBatch\<close> go on while the storage fails and the context is running, so their models are
  partial: \<open>None\<close> is a run that never returns. The functions of theory \<open>Pipeline_Worker\<close>, which count the
  consultations that are left, are shown to have exactly the returning runs.
\<close>

section \<open>The loops\<close>

type_synonym context_answers = "nat \<Rightarrow> bool"

text \<open>The loop that \<open>ackDurableBatch\<close> and \<open>quarantineDurableBatch\<close> share: a call is repeated until it succeeds or
  the wait for its repetition finds the context cancelled.\<close>

partial_function (option) insist :: "(('s, 'k) work_state \<Rightarrow> bool \<times> ('s, 'k) work_state) \<Rightarrow> context_answers
    \<Rightarrow> ('s, 'k) work_state \<Rightarrow> (pipeline_error option \<times> context_answers \<times> ('s, 'k) work_state) option" where
  "insist call ctx w =
     (case call w of (ok, w1) \<Rightarrow>
        if ok then Some (None, ctx, w1)
        else if ctx 0 then insist call (\<lambda>k. ctx (Suc k)) w1
        else Some (Some ContextCanceled, ctx, w1))"

definition ack_once :: "'s storage_ops \<Rightarrow> item list \<Rightarrow> ('s, 'k) work_state \<Rightarrow> bool \<times> ('s, 'k) work_state" where
  "ack_once st batch w =
     (case op_Ack st (durableRecords batch) (w_storage w) of
        (None, s') \<Rightarrow> (True, log_call (Acked (item_ids batch) None) (w\<lparr>w_storage := s'\<rparr>))
      | (Some e, s') \<Rightarrow> (False, tally RecordError (log_call (Acked (item_ids batch) (Some e)) (w\<lparr>w_storage := s'\<rparr>))))"

definition quarantine_once :: "'s storage_ops \<Rightarrow> item list \<Rightarrow> sink_error \<Rightarrow> ('s, 'k) work_state
    \<Rightarrow> bool \<times> ('s, 'k) work_state" where
  "quarantine_once st batch e w =
     (let reason = quarantine_reason e
      in case op_Quarantine st (durableRecords batch) reason (w_storage w) of
        (None, s') \<Rightarrow> (True, log_call (Quarantined (item_ids batch) reason None) (w\<lparr>w_storage := s'\<rparr>))
      | (Some err, s') \<Rightarrow>
          (False, tally RecordError (log_call (Quarantined (item_ids batch) reason (Some err)) (w\<lparr>w_storage := s'\<rparr>))))"

text \<open>After a failed delivery: the batch to go on with, if the loop goes on.\<close>

definition after_failure_until :: "retry_config \<Rightarrow> 's storage_ops \<Rightarrow> item list \<Rightarrow> sink_error \<Rightarrow> context_answers
    \<Rightarrow> ('s, 'k) work_state \<Rightarrow> (item list option \<times> context_answers \<times> ('s, 'k) work_state) option" where
  "after_failure_until rc st batch e ctx w =
     (if \<not> ctx 0 then Some (None, ctx, finish batch [] (Some ContextCanceled) w)
      else let ctx1 = (\<lambda>k. ctx (Suc k))
      in if isPermanentSinkError e \<or> retryExhausted rc batch
      then (case insist (quarantine_once st batch e) ctx1 w of
              None \<Rightarrow> None
            | Some (Some qe, ctx2, w2) \<Rightarrow> Some (None, ctx2, finish batch [] (Some qe) w2)
            | Some (None, ctx2, w2) \<Rightarrow>
                Some (None, ctx2, finish batch [] (Some (SinkFailed e))
                  (tally (RecordSpoolPermanent (of_nat (length batch))) w2)))
      else (case retryDurableBatch st batch w of
              (Some se, _, w2) \<Rightarrow> Some (None, ctx1, finish batch [] (Some (StorageFailed se)) w2)
            | (None, batch', w2) \<Rightarrow>
                if ctx1 0 then Some (Some batch', \<lambda>k. ctx1 (Suc k), w2)
                else Some (None, ctx1, finish batch' [] (Some ContextCanceled) w2)))"

partial_function (option) work_until :: "bool \<Rightarrow> retry_config \<Rightarrow> 's storage_ops \<Rightarrow> 'k sink_op \<Rightarrow> item list
    \<Rightarrow> context_answers \<Rightarrow> ('s, 'k) work_state \<Rightarrow> ('s, 'k) work_state option" where
  "work_until durable rc st sink batch ctx w =
     (case deliver sink batch w of
        (Inr outcomes, w1) \<Rightarrow>
          if durable
          then (case insist (ack_once st batch) ctx w1 of
                  None \<Rightarrow> None
                | Some (Some err, _, w2) \<Rightarrow> Some (finish batch [] (Some err) w2)
                | Some (None, _, w2) \<Rightarrow> Some (finish batch outcomes None (tally (RecordProcessed (batchEventCount batch)) w2)))
          else Some (complete batch outcomes None (tally (RecordProcessed (batchEventCount batch)) w1))
      | (Inl e, w1) \<Rightarrow>
          if \<not> durable then Some (complete batch [] (Some (SinkFailed e)) (tally RecordError w1))
          else Option.bind (after_failure_until rc st batch e ctx (tally RecordError w1))
                 (\<lambda>(next, ctx', w3). case next of
                    None \<Rightarrow> Some w3
                  | Some batch' \<Rightarrow> work_until durable rc st sink batch' ctx' w3))"

section \<open>Counting consultations\<close>

text \<open>The context ends at its \<open>n\<close>-th consultation.\<close>

definition ends_at :: "nat \<Rightarrow> context_answers \<Rightarrow> bool" where
  "ends_at n ctx \<longleftrightarrow> (\<forall>k<n. ctx k) \<and> \<not> ctx n"

lemma ends_at_0 [simp]: "ends_at 0 ctx \<longleftrightarrow> \<not> ctx 0"
  by (simp add: ends_at_def)

lemma ends_at_Suc [simp]: "ends_at (Suc n) ctx \<longleftrightarrow> ctx 0 \<and> ends_at n (\<lambda>k. ctx (Suc k))"
  by (auto simp: ends_at_def less_Suc_eq_0_disj)

lemma ends_at_Least: "\<exists>n. \<not> ctx n \<Longrightarrow> ends_at (LEAST n. \<not> ctx n) ctx"
  by (metis (mono_tags, lifting) LeastI_ex ends_at_def not_less_Least)

abbreviation running :: "nat \<Rightarrow> ('s, 'k) work_state \<Rightarrow> ('s, 'k) work_state" where
  "running n w \<equiv> w\<lparr>w_running := n\<rparr>"

lemma running_ops [simp]:
  "(running n w)\<lparr>w_storage := s\<rparr> = running n (w\<lparr>w_storage := s\<rparr>)"
  "tally f (running n w) = running n (tally f w)" "log_call c (running n w) = running n (log_call c w)"
  "complete b os err (running n w) = running n (complete b os err w)"
  "finish b os err (running n w) = running n (finish b os err w)"
  "consult (running 0 w) = (False, running 0 w)" "consult (running (Suc n) w) = (True, running n w)"
  by (simp_all add: tally_def log_call_def complete_def finish_def releaseRecords_def consult_def)

lemma deliver_run [simp]:
  "deliver sink batch (running n w) = map_prod id (running n) (deliver sink batch w)"
  by (simp add: deliver_def tally_def log_call_def Let_def split: prod.split)

lemma retry_run [simp]:
  "retryDurableBatch st batch (running n w) = map_prod id (map_prod id (running n)) (retryDurableBatch st batch w)"
  by (simp add: retryDurableBatch_def tally_def log_call_def split: prod.split option.split)

section \<open>A context that ends\<close>

text \<open>The functions of theory \<open>Pipeline_Worker\<close> are this loop with the context as a number.\<close>

definition counts :: "(('s, 'k) work_state \<Rightarrow> bool \<times> ('s, 'k) work_state)
    \<Rightarrow> (('s, 'k) work_state \<Rightarrow> pipeline_error option \<times> ('s, 'k) work_state) \<Rightarrow> bool" where
  "counts call f \<longleftrightarrow> (\<forall>n w w1.
     (call w = (True, w1) \<longrightarrow> f (running n w) = (None, running n w1))
     \<and> (call w = (False, w1) \<longrightarrow> f (running 0 w) = (Some ContextCanceled, running 0 w1))
     \<and> (call w = (False, w1) \<longrightarrow> f (running (Suc n) w) = f (running n w1)))"

lemma counts_ack: "counts (ack_once st batch) (ackDurableBatch st batch)"
proof (unfold counts_def, intro allI conjI impI)
  fix n :: nat and w w1 :: "('a, 'b) work_state"
  obtain x s' where a: "op_Ack st (durableRecords batch) (w_storage w) = (x, s')" by fastforce
  show "ackDurableBatch st batch (running n w) = (None, running n w1)" if "ack_once st batch w = (True, w1)"
    using that a by (cases x; subst ackDurableBatch.simps) (auto simp: ack_once_def Let_def)
  show "ackDurableBatch st batch (running 0 w) = (Some ContextCanceled, running 0 w1)" if "ack_once st batch w = (False, w1)"
    using that a by (cases x; subst ackDurableBatch.simps) (auto simp: ack_once_def Let_def)
  show "ackDurableBatch st batch (running (Suc n) w) = ackDurableBatch st batch (running n w1)" if "ack_once st batch w = (False, w1)"
    using that a by (cases x; subst (1) ackDurableBatch.simps) (auto simp: ack_once_def Let_def)
qed

lemma counts_quarantine: "counts (quarantine_once st batch e) (quarantineDurableBatch st batch e)"
proof (unfold counts_def, intro allI conjI impI)
  fix n :: nat and w w1 :: "('a, 'b) work_state"
  obtain x s' where a: "op_Quarantine st (durableRecords batch) (quarantine_reason e) (w_storage w) = (x, s')" by fastforce
  show "quarantineDurableBatch st batch e (running n w) = (None, running n w1)" if "quarantine_once st batch e w = (True, w1)"
    using that a by (cases x; subst quarantineDurableBatch.simps) (auto simp: quarantine_once_def Let_def)
  show "quarantineDurableBatch st batch e (running 0 w) = (Some ContextCanceled, running 0 w1)" if "quarantine_once st batch e w = (False, w1)"
    using that a by (cases x; subst quarantineDurableBatch.simps) (auto simp: quarantine_once_def Let_def)
  show "quarantineDurableBatch st batch e (running (Suc n) w) = quarantineDurableBatch st batch e (running n w1)" if "quarantine_once st batch e w = (False, w1)"
    using that a by (cases x; subst (1) quarantineDurableBatch.simps) (auto simp: quarantine_once_def Let_def)
qed

lemma counts_simps:
  assumes "counts call f"
  shows "call w = (True, w1) \<Longrightarrow> f (running n w) = (None, running n w1)"
    "call w = (False, w1) \<Longrightarrow> f (running 0 w) = (Some ContextCanceled, running 0 w1)"
    "call w = (False, w1) \<Longrightarrow> f (running (Suc n) w) = f (running n w1)"
  using assms unfolding counts_def by blast+

lemma insist_ends:
  assumes "counts call f" "ends_at n ctx"
  shows "\<exists>r ctx' w' n'. insist call ctx w = Some (r, ctx', w') \<and> ends_at n' ctx' \<and> f (running n w) = (r, running n' w')"
  using assms(2)
proof (induction n arbitrary: ctx w)
  case 0
  obtain b w1 where c: "call w = (b, w1)" by fastforce
  show ?case
    using 0 c counts_simps(1,2) [OF assms(1)] by (cases b; subst insist.simps) (auto intro!: exI [of _ 0])
next
  case (Suc n)
  obtain b w1 where c: "call w = (b, w1)" by fastforce
  show ?case
  proof (cases b)
    case True
    then show ?thesis using Suc.prems c counts_simps(1) [OF assms(1)]
      by (subst insist.simps) (auto intro!: exI [of _ "Suc n"])
  next
    case False
    have "ends_at n (\<lambda>k. ctx (Suc k))" "ctx 0" using Suc.prems by simp_all
    moreover obtain r ctx' w' n' where "insist call (\<lambda>k. ctx (Suc k)) w1 = Some (r, ctx', w')"
      "ends_at n' ctx'" "f (running n w1) = (r, running n' w')"
      using Suc.IH [OF calculation(1), of w1] by blast
    ultimately show ?thesis using c False counts_simps(3) [OF assms(1)]
      by (subst insist.simps) (auto intro!: exI [of _ n'])
  qed
qed

lemma after_failure_until_ends:
  assumes "ends_at n ctx"
  shows "\<exists>next ctx' w' n'. after_failure_until rc st batch e ctx w = Some (next, ctx', w') \<and> ends_at n' ctx'
    \<and> after_failure rc st batch e (running n w)
      = (map_option (\<lambda>batch'. (batch', running n' w')) next, running n' w')
    \<and> (next \<noteq> None \<longrightarrow> n' < n)"
proof (cases n)
  case 0
  then show ?thesis using assms by (auto simp: after_failure_until_def after_failure_def intro!: exI [of _ 0])
next
  case (Suc n1)
  then have ctx: "ctx 0" "ends_at n1 (\<lambda>k. ctx (Suc k))" using assms by simp_all
  show ?thesis
  proof (cases "isPermanentSinkError e \<or> retryExhausted rc batch")
    case True
    obtain r ctx' w' n' where q: "insist (quarantine_once st batch e) (\<lambda>k. ctx (Suc k)) w = Some (r, ctx', w')" "ends_at n' ctx'"
      "quarantineDurableBatch st batch e (running n1 w) = (r, running n' w')"
      using insist_ends [OF counts_quarantine ctx(2), of st batch e w] by blast
    show ?thesis
    proof (cases r)
      case None
      then show ?thesis using True q Suc ctx(1)
        by (auto simp: after_failure_until_def after_failure_def Let_def intro!: exI [of _ n'])
    next
      case (Some qe)
      then show ?thesis using True q Suc ctx(1)
        by (auto simp: after_failure_until_def after_failure_def Let_def intro!: exI [of _ n'])
    qed
  next
    case False
    obtain se b w2 where r: "retryDurableBatch st batch w = (se, b, w2)" by (metis prod.exhaust)
    show ?thesis
    proof (cases se)
      case (Some err)
      then show ?thesis using False r Suc ctx
        by (auto simp: after_failure_until_def after_failure_def Let_def intro!: exI [of _ n1])
    next
      case None
      show ?thesis
      proof (cases n1)
        case 0
        then show ?thesis using False None r Suc ctx
          by (auto simp: after_failure_until_def after_failure_def Let_def intro!: exI [of _ 0])
      next
        case (Suc n2)
        then show ?thesis using False None r \<open>n = Suc n1\<close> ctx
          by (auto simp: after_failure_until_def after_failure_def Let_def intro!: exI [of _ n2])
      qed
    qed
  qed
qed

lemma work_until_ends:
  assumes "ends_at n ctx"
  shows "\<exists>w' n'. work_until durable rc st sink batch ctx w = Some w'
    \<and> work_loop durable rc st sink batch (running n w) = running n' w'"
  using assms
proof (induction n arbitrary: ctx w batch rule: less_induct)
  case (less n)
  obtain d w1 where d: "deliver sink batch w = (d, w1)" by fastforce
  show ?case
  proof (cases d)
    case (Inr outcomes)
    obtain r ctx' w2 n' where a: "insist (ack_once st batch) ctx w1 = Some (r, ctx', w2)"
      "ackDurableBatch st batch (running n w1) = (r, running n' w2)"
      using insist_ends [OF counts_ack less.prems, of st batch w1] by blast
    show ?thesis
    proof (cases r)
      case None
      then show ?thesis using d Inr a
        by (subst work_until.simps, subst work_loop.simps) auto
    next
      case (Some err)
      then show ?thesis using d Inr a
        by (subst work_until.simps, subst work_loop.simps) auto
    qed
  next
    case (Inl e)
    let ?w = "tally RecordError w1"
    obtain go ctx' w2 n' where f: "after_failure_until rc st batch e ctx ?w = Some (go, ctx', w2)" "ends_at n' ctx'"
      "after_failure rc st batch e (running n ?w) = (map_option (\<lambda>batch'. (batch', running n' w2)) go, running n' w2)"
      "go \<noteq> None \<longrightarrow> n' < n"
      using after_failure_until_ends [OF less.prems, of rc st batch e ?w] by blast
    show ?thesis
    proof (cases go)
      case None
      then show ?thesis using d Inl f
        by (subst work_until.simps, subst work_loop.simps) (auto simp: Let_def)
    next
      case (Some batch')
      obtain w' n'' where "work_until durable rc st sink batch' ctx' w2 = Some w'"
        "work_loop durable rc st sink batch' (running n' w2) = running n'' w'"
        using less.IH [OF _ f(2), of batch' w2] f(4) Some by blast
      then show ?thesis using d Inl f Some
        by (subst work_until.simps, subst work_loop.simps) (auto simp: Let_def)
    qed
  qed
qed

section \<open>A context that does not end\<close>

text \<open>A run that returns although the context never ends is a run of the counting functions, with as many
  consultations as it makes.\<close>

definition spends :: "(('s, 'k) work_state \<Rightarrow> 'r \<times> ('s, 'k) work_state) \<Rightarrow> ('s, 'k) work_state \<Rightarrow> 'r
    \<Rightarrow> ('s, 'k) work_state \<Rightarrow> bool" where
  "spends f w r w' \<longleftrightarrow> (\<exists>j. \<forall>m. f (running (j + m) w) = (r, running m w'))"

lemma spends_now: "(\<And>m. f (running m w) = (r, running m w')) \<Longrightarrow> spends f w r w'"
  unfolding spends_def by (rule exI [of _ 0]) simp

lemma spends_later:
  assumes "spends f w1 r w'" "\<And>m. f (running (Suc m) w) = f (running m w1)"
  shows "spends f w r w'"
proof -
  obtain j where "\<forall>m. f (running (j + m) w1) = (r, running m w')" using assms(1) by (auto simp: spends_def)
  then have "\<forall>m. f (running (Suc j + m) w) = (r, running m w')" using assms(2) by simp
  then show ?thesis unfolding spends_def by blast
qed

lemma insist_endless:
  assumes "counts call f" "insist call ctx w = Some y" "\<forall>k. ctx k"
  shows "(\<forall>k. fst (snd y) k) \<and> spends f w (fst y) (snd (snd y))"
proof -
  let ?P = "\<lambda>call' (ctx :: context_answers) w (y :: _ \<times> context_answers \<times> _). call' = call \<longrightarrow> (\<forall>k. ctx k) \<longrightarrow> (\<forall>k. fst (snd y) k) \<and> spends f w (fst y) (snd (snd y))"
  have "?P call ctx w y"
  proof (rule insist.raw_induct [where P = ?P, OF _ assms(2)])
    fix g call' w y and ctx :: context_answers
    assume IH: "\<And>call' ctx w y. g call' ctx w = Some y \<Longrightarrow> ?P call' ctx w y"
    assume eq: "(case call' w of (ok, w1) \<Rightarrow>
        if ok then Some (None, ctx, w1)
        else if ctx 0 then g call' (\<lambda>k. ctx (Suc k)) w1
        else Some (Some ContextCanceled, ctx, w1)) = Some y"
    obtain b w1 where c: "call' w = (b, w1)" by fastforce
    show "?P call' ctx w y"
    proof (intro impI, cases b)
      assume same: "call' = call" "\<forall>k. ctx k" and "b"
      then have "y = (None, ctx, w1)" using eq c by simp
      then show "(\<forall>k. fst (snd y) k) \<and> spends f w (fst y) (snd (snd y))"
        using same c \<open>b\<close> counts_simps(1) [OF assms(1)] by (auto intro: spends_now)
    next
      assume same: "call' = call" "\<forall>k. ctx k" and "\<not> b"
      then have "g call' (\<lambda>k. ctx (Suc k)) w1 = Some y" using eq c by simp
      from IH [OF this] have "(\<forall>k. fst (snd y) k) \<and> spends f w1 (fst y) (snd (snd y))" using same by simp
      then show "(\<forall>k. fst (snd y) k) \<and> spends f w (fst y) (snd (snd y))"
        using same c \<open>\<not> b\<close> counts_simps(3) [OF assms(1)] by (auto intro: spends_later)
    qed
  qed
  then show ?thesis using assms(3) by simp
qed

lemma after_failure_endless:
  assumes "after_failure_until rc st batch e ctx w = Some (go, ctx', w')" "\<forall>k. ctx k"
  shows "(\<forall>k. ctx' k) \<and> (\<exists>j. \<forall>m. after_failure rc st batch e (running (j + m) w)
    = (map_option (\<lambda>batch'. (batch', running m w')) go, running m w'))"
proof -
  have shift: "\<forall>k. ctx (Suc k)" using assms(2) by simp
  show ?thesis
  proof (cases "isPermanentSinkError e \<or> retryExhausted rc batch")
    case True
    obtain r ctx1 w1 where q: "insist (quarantine_once st batch e) (\<lambda>k. ctx (Suc k)) w = Some (r, ctx1, w1)"
      using assms True by (auto simp: after_failure_until_def Let_def split: option.splits prod.splits)
    obtain j where j: "\<forall>k. ctx1 k" "\<And>m. quarantineDurableBatch st batch e (running (j + m) w) = (r, running m w1)"
      using insist_endless [OF counts_quarantine q shift] by (auto simp: spends_def)
    have "after_failure rc st batch e (running (Suc j + m) w)
        = (map_option (\<lambda>batch'. (batch', running m w')) go, running m w')" for m
      using assms True q j(2) [of m] by (auto simp: after_failure_until_def after_failure_def Let_def split: option.splits)
    moreover have "ctx' = ctx1" using assms True q by (auto simp: after_failure_until_def Let_def split: option.splits)
    ultimately show ?thesis using j(1) by blast
  next
    case False
    obtain se b w2 where r: "retryDurableBatch st batch w = (se, b, w2)" by (metis prod.exhaust)
    show ?thesis
    proof (cases se)
      case (Some err)
      have "after_failure rc st batch e (running (1 + m) w)
          = (map_option (\<lambda>batch'. (batch', running m w')) go, running m w')" for m
        using assms False r Some by (auto simp: after_failure_until_def after_failure_def Let_def)
      moreover have "\<forall>k. ctx' k" using assms False r Some by (auto simp: after_failure_until_def Let_def)
      ultimately show ?thesis by blast
    next
      case None
      have "after_failure rc st batch e (running (2 + m) w)
          = (map_option (\<lambda>batch'. (batch', running m w')) go, running m w')" for m
        using assms False r None by (auto simp: after_failure_until_def after_failure_def Let_def)
      moreover have "\<forall>k. ctx' k" using assms False r None by (auto simp: after_failure_until_def Let_def)
      ultimately show ?thesis by blast
    qed
  qed
qed

lemma work_until_endless:
  assumes "work_until durable rc st sink batch ctx w = Some w'" "\<forall>k. ctx k"
  shows "\<exists>j. \<forall>m. work_loop durable rc st sink batch (running (j + m) w) = running m w'"
proof -
  let ?run = "\<lambda>durable rc st sink batch w w'. \<exists>j. \<forall>m. work_loop durable rc st sink batch (running (j + m) w) = running m w'"
  let ?P = "\<lambda>durable rc st sink batch (ctx :: context_answers) w w'. (\<forall>k. ctx k) \<longrightarrow> ?run durable rc st sink batch w w'"
  have "?P durable rc st sink batch ctx w w'"
  proof (rule work_until.raw_induct [where P = ?P, OF _ assms(1)])
    fix g durable rc st sink batch w w' and ctx :: context_answers
    assume IH: "\<And>durable rc st sink batch ctx w w'. g durable rc st sink batch ctx w = Some w' \<Longrightarrow> ?P durable rc st sink batch ctx w w'"
    assume eq: "(case deliver sink batch w of
        (Inr outcomes, w1) \<Rightarrow>
          if durable
          then (case insist (ack_once st batch) ctx w1 of
                  None \<Rightarrow> None
                | Some (Some err, _, w2) \<Rightarrow> Some (finish batch [] (Some err) w2)
                | Some (None, _, w2) \<Rightarrow> Some (finish batch outcomes None (tally (RecordProcessed (batchEventCount batch)) w2)))
          else Some (complete batch outcomes None (tally (RecordProcessed (batchEventCount batch)) w1))
      | (Inl e, w1) \<Rightarrow>
          if \<not> durable then Some (complete batch [] (Some (SinkFailed e)) (tally RecordError w1))
          else Option.bind (after_failure_until rc st batch e ctx (tally RecordError w1))
                 (\<lambda>(next, ctx', w3). case next of
                    None \<Rightarrow> Some w3
                  | Some batch' \<Rightarrow> g durable rc st sink batch' ctx' w3)) = Some w'"
    show "?P durable rc st sink batch ctx w w'"
    proof
      assume ctx: "\<forall>k. ctx k"
      obtain d w1 where d: "deliver sink batch w = (d, w1)" by fastforce
      show "?run durable rc st sink batch w w'"
      proof (cases d)
        case (Inr outcomes)
        show ?thesis
        proof (cases durable)
          case False
          then have "work_loop durable rc st sink batch (running (0 + m) w) = running m w'" for m
            using eq d Inr by (subst work_loop.simps) auto
          then show ?thesis by blast
        next
          case True
          obtain r ctx1 w2 where a: "insist (ack_once st batch) ctx w1 = Some (r, ctx1, w2)"
            using eq d Inr True by (auto split: option.splits prod.splits)
          obtain j where j: "\<And>m. ackDurableBatch st batch (running (j + m) w1) = (r, running m w2)"
            using insist_endless [OF counts_ack a ctx] by (auto simp: spends_def)
          have "work_loop durable rc st sink batch (running (j + m) w) = running m w'" for m
            using eq d Inr True a j [of m] by (subst work_loop.simps) (auto split: option.splits)
          then show ?thesis by blast
        qed
      next
        case (Inl e)
        show ?thesis
        proof (cases durable)
          case False
          then have "work_loop durable rc st sink batch (running (0 + m) w) = running m w'" for m
            using eq d Inl by (subst work_loop.simps) (auto simp: Let_def)
          then show ?thesis by blast
        next
          case True
          let ?w = "tally RecordError w1"
          obtain go ctx1 w2 where a: "after_failure_until rc st batch e ctx ?w = Some (go, ctx1, w2)"
            using eq d Inl True by (auto simp: bind_eq_Some_conv)
          obtain j where j: "\<forall>k. ctx1 k" "\<And>m. after_failure rc st batch e (running (j + m) ?w)
              = (map_option (\<lambda>batch'. (batch', running m w2)) go, running m w2)"
            using after_failure_endless [OF a ctx] by blast
          show ?thesis
          proof (cases go)
            case None
            then have "work_loop durable rc st sink batch (running (j + m) w) = running m w'" for m
              using eq d Inl True a j(2) [of m] by (subst work_loop.simps) (auto simp: Let_def)
            then show ?thesis by blast
          next
            case (Some batch')
            then have "g durable rc st sink batch' ctx1 w2 = Some w'" using eq d Inl True a by simp
            from IH [OF this] obtain i where i: "\<And>m. work_loop durable rc st sink batch' (running (i + m) w2) = running m w'"
              using j(1) by blast
            have "work_loop durable rc st sink batch (running (j + i + m) w) = running m w'" for m
              using d Inl True Some j(2) [of "i + m"] i [of m] by (subst work_loop.simps) (auto simp: Let_def add.assoc)
            then show ?thesis by blast
          qed
        qed
      qed
    qed
  qed
  then show ?thesis using assms(2) by blast
qed

text \<open>A call that never succeeds is repeated as long as the context is running.\<close>

lemma insist_never:
  fixes call :: "('a, 'b) work_state \<Rightarrow> bool \<times> ('a, 'b) work_state"
  assumes "\<And>w. \<not> fst (call w)" "\<forall>k. ctx k"
  shows "insist call ctx w = None"
proof (rule ccontr)
  assume "insist call ctx w \<noteq> None"
  then obtain y where y: "insist call ctx w = Some y" by blast
  let ?P = "\<lambda>call' (ctx :: context_answers) (w :: ('a, 'b) work_state) (y :: pipeline_error option \<times> context_answers \<times> ('a, 'b) work_state).
    call' = call \<longrightarrow> (\<forall>k. ctx k) \<longrightarrow> False"
  have "?P call ctx w y"
  proof (rule insist.raw_induct [where P = ?P, OF _ y])
    fix g call' w y and ctx :: context_answers
    assume IH: "\<And>call' ctx w y. g call' ctx w = Some y \<Longrightarrow> ?P call' ctx w y"
    assume eq: "(case call' w of (ok, w1) \<Rightarrow>
        if ok then Some (None, ctx, w1)
        else if ctx 0 then g call' (\<lambda>k. ctx (Suc k)) w1
        else Some (Some ContextCanceled, ctx, w1)) = Some y"
    show "?P call' ctx w y"
    proof (intro impI)
      assume same: "call' = call" "\<forall>k. ctx k"
      obtain b w1 where c: "call w = (b, w1)" by fastforce
      then have "g call' (\<lambda>k. ctx (Suc k)) w1 = Some y" using eq same assms(1) [of w] by simp
      from IH [OF this] show False using same by simp
    qed
  qed
  then show False using assms(2) by simp
qed

lemma work_until_never:
  assumes "\<forall>k. ctx k" "\<forall>s. fst (op_Ack st (durableRecords batch) s) \<noteq> None"
    and "sink (List.map it_envelope batch) (w_sink w) = (Inr outcomes, k)"
  shows "work_until True rc st sink batch ctx w = None"
proof -
  have "\<not> fst (ack_once st batch w1)" for w1 :: "('a, 'b) work_state"
    using assms(2) [rule_format, of "w_storage w1"] by (auto simp: ack_once_def split: prod.split option.split)
  then have "insist (ack_once st batch) ctx w1 = None" for w1 :: "('a, 'b) work_state"
    using insist_never [OF _ assms(1)] by blast
  moreover obtain w1 where "deliver sink batch w = (Inr outcomes, w1)"
    using assms(3) by (simp add: deliver_def tally_def Let_def)
  ultimately show ?thesis by (subst work_until.simps) simp
qed

section \<open>The property\<close>

text \<open>C30: (termination) When a worker comes to an end: its loop returns, whatever the storage and the sink do, if
  the context is cancelled at some time, and it has then made at most two calls more than the context
  was found running; every run that returns, also under a context that is never cancelled, is a run of
  the loop that the other properties speak of. And it does not return at all if the sink has taken the
  batch, no acknowledgement of it ever succeeds, and the context is never cancelled.\<close>

theorem worker_returns:
  fixes st :: "'s storage_ops" and sink :: "'k sink_op"
  shows "(\<forall>n. \<not> ctx n \<longrightarrow> (\<exists>w'. work_until True rc st sink batch ctx w = Some w'
      \<and> length (w_calls w') \<le> length (w_calls w) + n + 2))
    \<and> (\<forall>w'. work_until True rc st sink batch ctx w = Some w' \<longrightarrow>
        (\<exists>n n'. work_loop True rc st sink batch (w\<lparr>w_running := n\<rparr>) = w'\<lparr>w_running := n'\<rparr>))
    \<and> ((\<forall>n. ctx n) \<and> (\<forall>s. fst (op_Ack st (durableRecords batch) s) \<noteq> None)
        \<and> (\<exists>outcomes k. sink (List.map it_envelope batch) (w_sink w) = (Inr outcomes, k)) \<longrightarrow>
        work_until True rc st sink batch ctx w = None)"
proof (intro conjI allI impI)
  fix n
  assume "\<not> ctx n"
  let ?n = "LEAST n. \<not> ctx n"
  have "?n \<le> n" using \<open>\<not> ctx n\<close> by (rule Least_le)
  obtain w' n' where w': "work_until True rc st sink batch ctx w = Some w'"
    "work_loop True rc st sink batch (running ?n w) = running n' w'"
    using work_until_ends [OF ends_at_Least, of ctx] \<open>\<not> ctx n\<close> by blast
  then show "\<exists>w'. work_until True rc st sink batch ctx w = Some w' \<and> length (w_calls w') \<le> length (w_calls w) + n + 2"
    using work_loop_spent [of True rc st sink batch "running ?n w"] \<open>?n \<le> n\<close> by (auto simp: spent_def)
next
  fix w'
  assume run: "work_until True rc st sink batch ctx w = Some w'"
  show "\<exists>n n'. work_loop True rc st sink batch (running n w) = running n' w'"
  proof (cases "\<forall>k. ctx k")
    case True
    then show ?thesis using work_until_endless [OF run] by blast
  next
    case False
    then have "\<exists>n. \<not> ctx n" by blast
    from work_until_ends [OF ends_at_Least [OF this], of True rc st sink batch w] show ?thesis using run by auto
  qed
next
  assume never: "(\<forall>n. ctx n) \<and> (\<forall>s. fst (op_Ack st (durableRecords batch) s) \<noteq> None)
    \<and> (\<exists>outcomes k. sink (List.map it_envelope batch) (w_sink w) = (Inr outcomes, k))"
  then obtain outcomes k where "sink (List.map it_envelope batch) (w_sink w) = (Inr outcomes, k)" by (elim conjE exE)
  then show "work_until True rc st sink batch ctx w = None"
    by (rule work_until_never [OF conjunct1 [OF never] conjunct1 [OF conjunct2 [OF never]]])
qed

text \<open>A storage that is always busy, under a context that ends and one that does not.\<close>

definition busy_storage :: "unit storage_ops" where
  "busy_storage = \<lparr>op_Append = (\<lambda>e s. (Inl ErrBusy, s)), op_NextAfter = (\<lambda>i s. ((None, None), s)),
     op_Ack = (\<lambda>rs s. (Some ErrBusy, s)), op_MarkRetry = (\<lambda>rs s. (Some ErrBusy, rs, s)),
     op_Quarantine = (\<lambda>rs reason s. (Some ErrBusy, s))\<rparr>"

definition taking_sink :: "unit sink_op" where
  "taking_sink es k = (Inr [], k)"

definition idle_work :: "(unit, unit) work_state" where
  "idle_work = \<lparr>w_storage = (), w_sink = (), w_running = 0, w_metrics = new_collector, w_results = [],
     w_released = [], w_calls = [], w_elapsed = (\<lambda>_. Fin 0)\<rparr>"

definition some_retry :: retry_config where
  "some_retry = \<lparr>rc_InitialBackoff = 1, rc_MaxBackoff = 1, rc_MaxAttempts = 3, rc_Jitter = Fin 0\<rparr>"

theorem worker_returns_witness:
  "(\<exists>w'. work_until True some_retry busy_storage taking_sink [] (\<lambda>n. n < 3) idle_work = Some w'
      \<and> length (w_calls w') \<le> 5
      \<and> (\<exists>n n'. work_loop True some_retry busy_storage taking_sink [] (idle_work\<lparr>w_running := n\<rparr>) = w'\<lparr>w_running := n'\<rparr>))
    \<and> work_until True some_retry busy_storage taking_sink [] (\<lambda>n. True) idle_work = None"
proof
  note r = worker_returns [of "\<lambda>n. n < 3" some_retry busy_storage taking_sink "[]" idle_work]
  obtain w' where w': "work_until True some_retry busy_storage taking_sink [] (\<lambda>n. n < 3) idle_work = Some w'"
    "length (w_calls w') \<le> length (w_calls idle_work) + 3 + 2"
    using conjunct1 [OF r, rule_format, of 3] by auto
  moreover have "length (w_calls idle_work) = 0" by (simp add: idle_work_def)
  ultimately show "\<exists>w'. work_until True some_retry busy_storage taking_sink [] (\<lambda>n. n < 3) idle_work = Some w'
      \<and> length (w_calls w') \<le> 5
      \<and> (\<exists>n n'. work_loop True some_retry busy_storage taking_sink [] (idle_work\<lparr>w_running := n\<rparr>) = w'\<lparr>w_running := n'\<rparr>)"
    using conjunct1 [OF conjunct2 [OF r], rule_format, OF w'(1)] by (intro exI [of _ w'] conjI) simp_all
next
  note r = worker_returns [of "\<lambda>n. True" some_retry busy_storage taking_sink "[]" idle_work]
  show "work_until True some_retry busy_storage taking_sink [] (\<lambda>n. True) idle_work = None"
    by (rule mp [OF conjunct2 [OF conjunct2 [OF r]]]) (simp add: busy_storage_def taking_sink_def)
qed

end
