(* ===== verification/Sink_Topology.thy ===== *)
theory Sink_Topology
  imports Pipeline_Base Topo_Properties
begin

text \<open>
  The sinks: the topology adapter (\<open>runtime/go/internal/sink/topology.go\<close>) and what it shares with the HTTP
  sink, the grouping of a batch by application. One call of \<open>ConsumeBatch\<close> is modelled as if it
  were alone; calls of other workers on other services can fall between its calls of the engine.

  What the environment decides is in the state: the number of further looks at the context that
  find it running, the random part of the temporary files' names, the durations of checkpoints.
\<close>

section \<open>Grouping\<close>

record span_group =
  gr_serviceName :: string
  gr_nodeVersion :: string
  gr_spans :: "span list"
  gr_indexes :: "nat list"

definition group_key :: "span_batch \<Rightarrow> string" where
  "group_key b = sb_ServiceName b @ [char_of (0 :: nat)] @ sb_NodeVersion b"

definition add_span_batch :: "nat \<Rightarrow> span_batch \<Rightarrow> span_group gomap \<Rightarrow> span_group gomap" where
  "add_span_batch index b groups =
     (let group = (case map_of groups (group_key b) of
            Some g \<Rightarrow> g
          | None \<Rightarrow> \<lparr>gr_serviceName = sb_ServiceName b, gr_nodeVersion = sb_NodeVersion b, gr_spans = [], gr_indexes = []\<rparr>)
      in AList.update (group_key b)
           (group\<lparr>gr_spans := gr_spans group @ sb_Spans b, gr_indexes := gr_indexes group @ [index]\<rparr>) groups)"

definition add_runtime :: "runtime_metrics \<Rightarrow> runtime_metrics gomap \<Rightarrow> runtime_metrics gomap" where
  "add_runtime m runtimes =
     (case map_of runtimes (rm_ServiceName m) of
        None \<Rightarrow> AList.update (rm_ServiceName m) m runtimes
      | Some current \<Rightarrow>
          if f64_le (rm_Timestamp current) (rm_Timestamp m) then AList.update (rm_ServiceName m) m runtimes else runtimes)"

fun group_envelopes :: "nat \<Rightarrow> envelope list \<Rightarrow> span_group gomap \<Rightarrow> runtime_metrics gomap
    \<Rightarrow> span_group gomap \<times> runtime_metrics gomap" where
  "group_envelopes index [] groups runtimes = (groups, runtimes)"
| "group_envelopes index (e # es) groups runtimes =
     group_envelopes (index + 1) es
       (case SpanBatch e of Some b \<Rightarrow> add_span_batch index b groups | None \<Rightarrow> groups)
       (case RuntimeMetrics e of Some m \<Rightarrow> add_runtime m runtimes | None \<Rightarrow> runtimes)"

definition sortedKeys :: "'v gomap \<Rightarrow> string list" where
  "sortedKeys m = sort (keys m)"

definition set_outcomes :: "nat list \<Rightarrow> u64 \<Rightarrow> outcome list \<Rightarrow> outcome list" where
  "set_outcomes indexes revision outcomes = foldl (\<lambda>os i. os[i := Some revision]) outcomes indexes"

section \<open>The topology sink\<close>

record topology_sink =
  ts_engine :: engine
  ts_metrics :: collector
  ts_publishes :: bool
  ts_published :: "liveSnapshot list"
  ts_store :: "(state_codec \<times> string) option"
  ts_world :: world
  ts_running :: nat
  ts_suffix :: "nat \<Rightarrow> string"
  ts_seconds :: "nat \<Rightarrow> f64"
  ts_saves :: nat

definition sink_running :: "topology_sink \<Rightarrow> bool \<times> topology_sink" where
  "sink_running s = (if ts_running s = 0 then (False, s) else (True, s\<lparr>ts_running := ts_running s - 1\<rparr>))"

definition sink_checkpoint :: "topology_sink \<Rightarrow> sink_error option \<times> topology_sink" where
  "sink_checkpoint s =
     (case ts_store s of
        None \<Rightarrow> (None, s)
      | Some (js, path) \<Rightarrow>
          let n = ts_saves s; s1 = s\<lparr>ts_saves := n + 1\<rparr>
          in (case Save js path (ts_suffix s n) (ts_engine s) (ts_world s) of
                (Inl e, w) \<Rightarrow> (Some (SinkCheckpoint e), s1\<lparr>ts_world := w\<rparr>)
              | (Inr bytes, w) \<Rightarrow>
                  (None, s1\<lparr>ts_world := w,
                     ts_metrics := ObserveTopologyCheckpoint (ts_seconds s n) (int bytes) (ts_metrics s)\<rparr>)))"

definition sink_publish :: "liveSnapshot \<Rightarrow> topology_sink \<Rightarrow> topology_sink" where
  "sink_publish v s = (if ts_publishes s then s\<lparr>ts_published := ts_published s @ [v]\<rparr> else s)"

fun consume_groups :: "span_group gomap \<Rightarrow> string list \<Rightarrow> outcome list \<Rightarrow> topology_sink
    \<Rightarrow> (sink_error + outcome list) \<times> topology_sink" where
  "consume_groups groups [] outcomes s = (Inr outcomes, s)"
| "consume_groups groups (key # ks) outcomes s =
     (case sink_running s of
        (False, s1) \<Rightarrow> (Inl SinkCancelled, s1)
      | (True, s1) \<Rightarrow>
          (case map_of groups key of
             None \<Rightarrow> (Inr outcomes, s1)
           | Some g \<Rightarrow>
               let e1 = RegisterApplication (gr_serviceName g) (gr_nodeVersion g) (ts_engine s1);
                   e2 = Ingest (gr_spans g) e1;
                   snapshot = liveSnapshotLocked e2
               in (case sink_checkpoint (s1\<lparr>ts_engine := e2\<rparr>) of
                     (Some err, s2) \<Rightarrow> (Inl err, s2)
                   | (None, s2) \<Rightarrow>
                       consume_groups groups ks (set_outcomes (gr_indexes g) (lv_Revision snapshot) outcomes)
                         (sink_publish snapshot
                           (s2\<lparr>ts_metrics := RecordTopologyUpdate (SetTopology (int (length (lv_Nodes snapshot)))
                              (int (length (lv_Edges snapshot))) (ts_metrics s2))\<rparr>)))))"

fun consume_runtimes :: "runtime_metrics gomap \<Rightarrow> string list \<Rightarrow> topology_sink \<Rightarrow> sink_error option \<times> topology_sink" where
  "consume_runtimes runtimes [] s = (None, s)"
| "consume_runtimes runtimes (name # ks) s =
     (case sink_running s of
        (False, s1) \<Rightarrow> (Some SinkCancelled, s1)
      | (True, s1) \<Rightarrow>
          (case map_of runtimes name of
             None \<Rightarrow> (None, s1)
           | Some m \<Rightarrow>
               let e1 = UpdateRuntime m (ts_engine s1); snapshot = liveSnapshotLocked e1
               in (case sink_checkpoint (s1\<lparr>ts_engine := e1\<rparr>) of
                     (Some err, s2) \<Rightarrow> (Some err, s2)
                   | (None, s2) \<Rightarrow>
                       let s3 = sink_publish snapshot s2
                       in consume_runtimes runtimes ks (s3\<lparr>ts_metrics := RecordTopologyUpdate (ts_metrics s3)\<rparr>))))"

definition ConsumeBatch :: "envelope list \<Rightarrow> topology_sink \<Rightarrow> (sink_error + outcome list) \<times> topology_sink" where
  "ConsumeBatch envelopes s =
     (case sink_running s of
        (False, s1) \<Rightarrow> (Inl SinkCancelled, s1)
      | (True, s1) \<Rightarrow>
          (case group_envelopes 0 envelopes [] [] of
             (groups, runtimes) \<Rightarrow>
               (case consume_groups groups (sortedKeys groups) (replicate (length envelopes) None) s1 of
                  (Inl err, s2) \<Rightarrow> (Inl err, s2)
                | (Inr outcomes, s2) \<Rightarrow>
                    (case consume_runtimes runtimes (sortedKeys runtimes) s2 of
                       (Some err, s3) \<Rightarrow> (Inl err, s3)
                     | (None, s3) \<Rightarrow> (Inr outcomes, s3)))))"

end
