(* ===== verification/Sink_Effects.thy ===== *)
theory Sink_Effects
  imports Sink_Topology
begin

text \<open>
  What a batch does to the topology: how it is grouped, which calls of the engine it comes to, and
  what is on disk when the sink reports success or an error.
\<close>

section \<open>Groups\<close>

fun indexed_batches :: "nat \<Rightarrow> envelope list \<Rightarrow> (nat \<times> span_batch) list" where
  "indexed_batches n [] = []"
| "indexed_batches n (e # es) =
     (case SpanBatch e of Some b \<Rightarrow> [(n, b)] | None \<Rightarrow> []) @ indexed_batches (n + 1) es"

definition batch_runtimes :: "envelope list \<Rightarrow> runtime_metrics list" where
  "batch_runtimes es = List.concat (List.map (\<lambda>e. case RuntimeMetrics e of Some m \<Rightarrow> [m] | None \<Rightarrow> []) es)"

lemma group_envelopes_folds:
  "group_envelopes n es groups runtimes =
     (foldl (\<lambda>g (i, b). add_span_batch i b g) groups (indexed_batches n es),
      foldl (\<lambda>r m. add_runtime m r) runtimes (batch_runtimes es))"
  by (induction n es groups runtimes rule: group_envelopes.induct) (auto simp: batch_runtimes_def split: option.splits)

text \<open>The group of a key: the spans of the batches with that key in order, under the names of the
  first.\<close>

definition group_for :: "(nat \<times> span_batch) list \<Rightarrow> span_group option" where
  "group_for ibs = (case ibs of
     [] \<Rightarrow> None
   | (_, b) # _ \<Rightarrow> Some \<lparr>gr_serviceName = sb_ServiceName b, gr_nodeVersion = sb_NodeVersion b,
       gr_spans = List.concat (List.map (\<lambda>(_, b). sb_Spans b) ibs), gr_indexes = List.map fst ibs\<rparr>)"

definition span_groups :: "envelope list \<Rightarrow> span_group gomap" where
  "span_groups es = fst (group_envelopes 0 es [] [])"

definition latest_runtimes :: "envelope list \<Rightarrow> runtime_metrics gomap" where
  "latest_runtimes es = snd (group_envelopes 0 es [] [])"

lemma map_of_add_span_batch:
  "map_of (add_span_batch i b m) k =
     (if k = group_key b
      then Some (case map_of m k of
             Some g \<Rightarrow> g\<lparr>gr_spans := gr_spans g @ sb_Spans b, gr_indexes := gr_indexes g @ [i]\<rparr>
           | None \<Rightarrow> \<lparr>gr_serviceName = sb_ServiceName b, gr_nodeVersion = sb_NodeVersion b, gr_spans = sb_Spans b, gr_indexes = [i]\<rparr>)
      else map_of m k)"
  by (auto simp: add_span_batch_def Let_def split: option.split)

lemma group_for_snoc:
  "group_for (ibs @ [(i, b)]) = Some (case group_for ibs of
     Some g \<Rightarrow> g\<lparr>gr_spans := gr_spans g @ sb_Spans b, gr_indexes := gr_indexes g @ [i]\<rparr>
   | None \<Rightarrow> \<lparr>gr_serviceName = sb_ServiceName b, gr_nodeVersion = sb_NodeVersion b, gr_spans = sb_Spans b, gr_indexes = [i]\<rparr>)"
  by (cases ibs) (auto simp: group_for_def)

lemma groups_fold:
  "distinct (keys (foldl (\<lambda>g (i, b). add_span_batch i b g) [] ibs))
   \<and> (\<forall>k. map_of (foldl (\<lambda>g (i, b). add_span_batch i b g) [] ibs) k
        = group_for (filter (\<lambda>(_, b). group_key b = k) ibs))"
proof (induction ibs rule: rev_induct)
  case Nil
  then show ?case by (simp add: group_for_def)
next
  case (snoc ib ibs)
  obtain i b where ib: "ib = (i, b)" by fastforce
  let ?m = "foldl (\<lambda>g (i, b). add_span_batch i b g) [] ibs"
  have "distinct (keys (add_span_batch i b ?m))"
    using snoc by (simp add: add_span_batch_def Let_def)
  moreover have "map_of (add_span_batch i b ?m) k = group_for (filter (\<lambda>(_, b). group_key b = k) (ibs @ [(i, b)]))" for k
    using snoc by (simp add: map_of_add_span_batch group_for_snoc del: map_of_eq_Some_iff)
  ultimately show ?case by (simp add: ib del: map_of_eq_Some_iff)
qed

lemma span_groups_spec:
  "distinct (keys (span_groups es))"
  "map_of (span_groups es) k = group_for (filter (\<lambda>(_, b). group_key b = k) (indexed_batches 0 es))"
  using groups_fold [of "indexed_batches 0 es"] by (simp_all add: span_groups_def group_envelopes_folds)

text \<open>The runtime metrics of a service: among those with the latest timestamp the last.\<close>

definition latest_of :: "runtime_metrics list \<Rightarrow> runtime_metrics \<Rightarrow> bool" where
  "latest_of ms m \<longleftrightarrow> (\<exists>pre post. ms = pre @ m # post
     \<and> (\<forall>x\<in>set pre. f64_le (rm_Timestamp x) (rm_Timestamp m))
     \<and> (\<forall>x\<in>set post. \<not> f64_le (rm_Timestamp m) (rm_Timestamp x)))"

lemma f64_le_trans: "f64_le a b \<Longrightarrow> f64_le b c \<Longrightarrow> f64_le a c"
  by (cases a; cases b; cases c) auto

lemma f64_le_total: "finite_f64 a \<Longrightarrow> finite_f64 b \<Longrightarrow> \<not> f64_le a b \<Longrightarrow> f64_le b a"
  by (auto simp: finite_f64_Fin)

lemma latest_of_snoc:
  assumes "latest_of ms c" "\<forall>x\<in>set ms \<union> {m}. finite_f64 (rm_Timestamp x)"
  shows "latest_of (ms @ [m]) (if f64_le (rm_Timestamp c) (rm_Timestamp m) then m else c)"
proof -
  obtain pre post where p: "ms = pre @ c # post" "\<forall>x\<in>set pre. f64_le (rm_Timestamp x) (rm_Timestamp c)"
    "\<forall>x\<in>set post. \<not> f64_le (rm_Timestamp c) (rm_Timestamp x)"
    using assms(1) by (auto simp: latest_of_def)
  show ?thesis
  proof (cases "f64_le (rm_Timestamp c) (rm_Timestamp m)")
    case True
    have "f64_le (rm_Timestamp x) (rm_Timestamp m)" if "x \<in> set ms" for x
    proof (cases "x \<in> set post")
      case True
      then have "f64_le (rm_Timestamp x) (rm_Timestamp c)" using p assms(2) f64_le_total by auto
      then show ?thesis using \<open>f64_le (rm_Timestamp c) (rm_Timestamp m)\<close> f64_le_trans by blast
    next
      case False
      then show ?thesis using that p True f64_le_trans by auto
    qed
    then show ?thesis using True unfolding latest_of_def
      by (intro exI [of _ ms] exI [of _ "[]"]) simp
  next
    case False
    then show ?thesis using p unfolding latest_of_def
      by (intro exI [of _ pre] exI [of _ "post @ [m]"]) auto
  qed
qed

lemma map_of_add_runtime:
  "map_of (add_runtime m r) k =
     (if k = rm_ServiceName m
      then Some (case map_of r k of None \<Rightarrow> m
        | Some c \<Rightarrow> if f64_le (rm_Timestamp c) (rm_Timestamp m) then m else c)
      else map_of r k)"
  by (auto simp: add_runtime_def simp del: map_of_eq_Some_iff split: option.split)

lemma runtimes_fold:
  assumes "\<forall>m\<in>set ms. finite_f64 (rm_Timestamp m)"
  shows "distinct (keys (foldl (\<lambda>r m. add_runtime m r) [] ms))
    \<and> (\<forall>k. case map_of (foldl (\<lambda>r m. add_runtime m r) [] ms) k of
          None \<Rightarrow> filter (\<lambda>m. rm_ServiceName m = k) ms = []
        | Some m \<Rightarrow> latest_of (filter (\<lambda>m. rm_ServiceName m = k) ms) m)"
  using assms
proof (induction ms rule: rev_induct)
  case (snoc m ms)
  let ?r = "foldl (\<lambda>r m. add_runtime m r) [] ms"
  have "distinct (keys (add_runtime m ?r))"
    using snoc by (auto simp: add_runtime_def split: option.split)
  moreover have "case map_of (add_runtime m ?r) k of
      None \<Rightarrow> filter (\<lambda>m. rm_ServiceName m = k) (ms @ [m]) = []
    | Some x \<Rightarrow> latest_of (filter (\<lambda>m. rm_ServiceName m = k) (ms @ [m])) x" for k
  proof (cases "map_of ?r k")
    case None
    then have "filter (\<lambda>m. rm_ServiceName m = k) ms = []" using snoc by (auto dest: spec [of _ k])
    moreover have "latest_of [m] m" unfolding latest_of_def by (intro exI [of _ "[]"]) simp
    ultimately show ?thesis using None
      by (cases "k = rm_ServiceName m") (simp_all add: map_of_add_runtime del: map_of_eq_Some_iff map_of_eq_None_iff)
  next
    case (Some c)
    then have "latest_of (filter (\<lambda>m. rm_ServiceName m = k) ms) c" using snoc by (auto dest: spec [of _ k])
    then show ?thesis
      using Some latest_of_snoc [of "filter (\<lambda>m. rm_ServiceName m = k) ms" c m] snoc.prems
      by (cases "k = rm_ServiceName m") (simp_all add: map_of_add_runtime del: map_of_eq_Some_iff)
  qed
  ultimately show ?case by simp
qed simp

lemma latest_runtimes_spec:
  assumes "\<forall>m\<in>set (batch_runtimes es). finite_f64 (rm_Timestamp m)" "map_of (latest_runtimes es) k = Some m"
  shows "latest_of (filter (\<lambda>m. rm_ServiceName m = k) (batch_runtimes es)) m"
  using runtimes_fold [OF assms(1)] assms(2)
  by (auto simp: latest_runtimes_def group_envelopes_folds simp del: map_of_eq_Some_iff dest: spec [of _ k])

section \<open>The calls of the engine\<close>

definition group_calls :: "span_group \<Rightarrow> topo_call list" where
  "group_calls g = [CallRegister (gr_serviceName g) (gr_nodeVersion g), CallIngest (gr_spans g)]"

definition calls_at :: "('v \<Rightarrow> topo_call list) \<Rightarrow> 'v gomap \<Rightarrow> string list \<Rightarrow> topo_call list" where
  "calls_at f m ks = List.concat (List.map (\<lambda>k. case map_of m k of Some v \<Rightarrow> f v | None \<Rightarrow> []) ks)"

lemma calls_at_simps [simp]:
  "calls_at f m [] = []"
  "calls_at f m (k # ks) = (case map_of m k of Some v \<Rightarrow> f v | None \<Rightarrow> []) @ calls_at f m ks"
  by (simp_all add: calls_at_def)

definition batch_calls :: "envelope list \<Rightarrow> topo_call list" where
  "batch_calls es =
     calls_at group_calls (span_groups es) (sortedKeys (span_groups es))
     @ calls_at (\<lambda>m. [CallRuntime m]) (latest_runtimes es) (sortedKeys (latest_runtimes es))"

section \<open>The disk\<close>

definition on_disk :: "state_codec \<Rightarrow> string \<Rightarrow> engine \<Rightarrow> world \<Rightarrow> bool" where
  "on_disk js path e w \<longleftrightarrow> (\<exists>data. checkpoint_bytes js e = Some data \<and> installed data path w)"

text \<open>The sink has served the calls: the checkpoint on disk is the one before, or that of its engine
  after some of the calls.\<close>

definition served :: "topology_sink \<Rightarrow> topo_call list \<Rightarrow> topology_sink \<Rightarrow> bool" where
  "served s calls s' \<longleftrightarrow> ts_store s' = ts_store s \<and> ts_engine s' = foldl topo_step (ts_engine s) calls
     \<and> (\<forall>js path. ts_store s = Some (js, path) \<longrightarrow> \<not> has_prefix path temporaryPrefix \<longrightarrow>
          lookup_file (ts_world s') path = lookup_file (ts_world s) path
          \<or> (\<exists>n. on_disk js path (foldl topo_step (ts_engine s) (take n calls)) (ts_world s')))"

definition checkpointed :: "topology_sink \<Rightarrow> bool" where
  "checkpointed s \<longleftrightarrow> (\<forall>js path. ts_store s = Some (js, path) \<longrightarrow> \<not> has_prefix path temporaryPrefix \<longrightarrow>
     on_disk js path (ts_engine s) (ts_world s))"

lemma served_refl: "ts_store s' = ts_store s \<Longrightarrow> ts_engine s' = ts_engine s \<Longrightarrow> ts_world s' = ts_world s \<Longrightarrow> served s [] s'"
  by (simp add: served_def)

lemma served_trans:
  assumes "served s c1 s1" "served s1 c2 s2"
  shows "served s (c1 @ c2) s2"
proof -
  have "lookup_file (ts_world s2) path = lookup_file (ts_world s) path
      \<or> (\<exists>n. on_disk js path (foldl topo_step (ts_engine s) (take n (c1 @ c2))) (ts_world s2))"
    if st: "ts_store s = Some (js, path)" and p: "\<not> has_prefix path temporaryPrefix" for js path
  proof -
    consider (new) n where "on_disk js path (foldl topo_step (ts_engine s1) (take n c2)) (ts_world s2)"
      | (same) "lookup_file (ts_world s2) path = lookup_file (ts_world s1) path"
      using assms st p unfolding served_def by metis
    then show ?thesis
    proof cases
      case new
      then have "on_disk js path (foldl topo_step (ts_engine s) (take (length c1 + n) (c1 @ c2))) (ts_world s2)"
        using assms(1) by (simp add: served_def)
      then show ?thesis by blast
    next
      case same
      then have d: "on_disk js path e (ts_world s2) = on_disk js path e (ts_world s1)" for e
        by (simp add: on_disk_def installed_def)
      show ?thesis
      proof (cases "lookup_file (ts_world s1) path = lookup_file (ts_world s) path")
        case False
        then obtain n where "on_disk js path (foldl topo_step (ts_engine s) (take n c1)) (ts_world s1)"
          using assms(1) st p by (auto simp: served_def)
        then have "on_disk js path (foldl topo_step (ts_engine s) (take (min n (length c1)) (c1 @ c2))) (ts_world s2)"
          by (cases "n \<le> length c1") (simp_all add: d min_def)
        then show ?thesis by blast
      qed (simp add: same)
    qed
  qed
  then show ?thesis using assms by (simp add: served_def)
qed

lemma sink_checkpoint_effect:
  assumes "sink_checkpoint s1 = (r, s2)" "ts_store s1 = ts_store s" "ts_world s1 = ts_world s"
    and "ts_engine s1 = foldl topo_step (ts_engine s) calls"
  shows "served s calls s2 \<and> (r = None \<longrightarrow> checkpointed s2)"
proof (cases "ts_store s1")
  case None
  then show ?thesis using assms by (simp add: sink_checkpoint_def served_def checkpointed_def)
next
  case (Some jp)
  obtain js path where jp: "jp = (js, path)" by fastforce
  obtain x w where sv: "Save js path (ts_suffix s1 (ts_saves s1)) (ts_engine s1) (ts_world s1) = (x, w)" by fastforce
  have s2: "ts_store s2 = ts_store s1" "ts_engine s2 = ts_engine s1" "ts_world s2 = w" "r = None \<longleftrightarrow> (\<exists>n. x = Inr n)"
    using assms(1) Some jp sv by (auto simp: sink_checkpoint_def Let_def split: sum.splits)
  have all: "\<exists>n. on_disk js path (foldl topo_step (ts_engine s) (take n calls)) w" if "on_disk js path (ts_engine s1) w"
    using that assms(4) by (intro exI [of _ "length calls"]) simp
  have "(lookup_file w path = lookup_file (ts_world s) path \<or> on_disk js path (ts_engine s1) w)
      \<and> (\<forall>n. x = Inr n \<longrightarrow> on_disk js path (ts_engine s1) w)" if p: "\<not> has_prefix path temporaryPrefix"
  proof (cases "checkpoint_bytes js (ts_engine s1)")
    case None
    then have "x = Inl EncodeState \<and> w = ts_world s1"
      using sv by (auto simp: Save_def Let_def checkpoint_bytes_def split: option.splits)
    then show ?thesis using assms(3) by simp
  next
    case (Some data)
    have "temporaryPrefix @ ts_suffix s1 (ts_saves s1) \<noteq> path" using p by auto
    from Save_outcome [OF Some this, of "ts_world s1"] show ?thesis
      using sv Some assms(3) by (auto simp: save_outcome_def on_disk_def)
  qed
  then show ?thesis
    using Some jp s2 assms all unfolding served_def checkpointed_def by (metis option.inject prod.inject)
qed

section \<open>The loops\<close>

lemma sink_fields [simp]:
  "ts_store (sink_publish v s) = ts_store s" "ts_engine (sink_publish v s) = ts_engine s"
  "ts_world (sink_publish v s) = ts_world s"
  by (simp_all add: sink_publish_def)

lemma sink_running_fields:
  "sink_running s = (b, s1) \<Longrightarrow> ts_store s1 = ts_store s \<and> ts_engine s1 = ts_engine s \<and> ts_world s1 = ts_world s"
  by (auto simp: sink_running_def split: if_splits)

lemma served_cong:
  "ts_store a = ts_store s \<Longrightarrow> ts_engine a = ts_engine s \<Longrightarrow> ts_world a = ts_world s \<Longrightarrow> served a c s' = served s c s'"
  "ts_store a = ts_store s' \<Longrightarrow> ts_engine a = ts_engine s' \<Longrightarrow> ts_world a = ts_world s' \<Longrightarrow> served s c a = served s c s'"
  "ts_store a = ts_store s \<Longrightarrow> ts_engine a = ts_engine s \<Longrightarrow> ts_world a = ts_world s \<Longrightarrow> checkpointed a = checkpointed s"
  by (simp_all add: served_def checkpointed_def)

text \<open>A loop that may stop early has served a prefix of its calls; one that comes to its end all of
  them, and has checkpointed the last.\<close>

definition loop_effect :: "topology_sink \<Rightarrow> topo_call list \<Rightarrow> bool \<Rightarrow> topology_sink \<Rightarrow> bool" where
  "loop_effect s calls ended s' \<longleftrightarrow>
     (\<exists>n. served s (take n calls) s' \<and> (ended \<longrightarrow> take n calls = calls)) \<and> (ended \<and> (calls \<noteq> [] \<or> checkpointed s) \<longrightarrow> checkpointed s')"

lemma loop_effect_stop:
  "served s (take n calls) s' \<Longrightarrow> loop_effect s calls False s'"
  by (auto simp: loop_effect_def)

lemma loop_effect_step:
  assumes "served s c s1" "checkpointed s1" "loop_effect s1 calls ended s'"
  shows "loop_effect s (c @ calls) ended s'"
proof -
  obtain n where n: "served s1 (take n calls) s'" "ended \<longrightarrow> take n calls = calls"
    using assms(3) by (auto simp: loop_effect_def)
  have "served s (take (length c + n) (c @ calls)) s'"
    using served_trans [OF assms(1) n(1)] by simp
  moreover have "ended \<longrightarrow> take (length c + n) (c @ calls) = c @ calls" using n(2) by simp
  moreover have "ended \<longrightarrow> checkpointed s'" using assms(2,3) by (simp add: loop_effect_def)
  ultimately show ?thesis unfolding loop_effect_def by blast
qed

lemma loop_effect_end: "ts_store s' = ts_store s \<Longrightarrow> ts_engine s' = ts_engine s \<Longrightarrow> ts_world s' = ts_world s \<Longrightarrow>
    loop_effect s [] True s'"
  by (auto simp: loop_effect_def served_refl served_cong(3) [of s' s])

lemma consume_groups_effect:
  assumes "consume_groups groups ks os s = (r, s')" "set ks \<subseteq> set (keys groups)"
  shows "loop_effect s (calls_at group_calls groups ks) (\<exists>os'. r = Inr os') s'"
  using assms
proof (induction ks arbitrary: os s)
  case Nil
  then show ?case using loop_effect_end by auto
next
  case (Cons k ks)
  obtain b s1 where run: "sink_running s = (b, s1)" by fastforce
  note f = sink_running_fields [OF run]
  obtain g where g: "map_of groups k = Some g" using Cons.prems(2) by (auto simp: keys_iff simp del: set_map)
  show ?case
  proof (cases b)
    case False
    then have "r = Inl SinkCancelled" "s' = s1" using Cons.prems(1) run by simp_all
    then show ?thesis using served_refl [of s1 s] f loop_effect_stop [of s 0] by simp
  next
    case True
    define e2 where "e2 = Ingest (gr_spans g) (RegisterApplication (gr_serviceName g) (gr_nodeVersion g) (ts_engine s1))"
    obtain x s2 where c: "sink_checkpoint (s1\<lparr>ts_engine := e2\<rparr>) = (x, s2)" by fastforce
    have eff: "served s (group_calls g) s2 \<and> (x = None \<longrightarrow> checkpointed s2)"
      by (rule sink_checkpoint_effect [OF c]) (simp_all add: f e2_def group_calls_def topo_step_def)
    have calls: "calls_at group_calls groups (k # ks) = group_calls g @ calls_at group_calls groups ks"
      by (simp add: g)
    show ?thesis
    proof (cases x)
      case (Some err)
      then have "r = Inl err" "s' = s2"
        using Cons.prems(1) run True g c by (simp_all add: e2_def Let_def)
      then show ?thesis
        using eff loop_effect_stop [of s "length (group_calls g)" "group_calls g @ calls_at group_calls groups ks" s2]
        unfolding calls by simp
    next
      case None
      obtain os2 s3 where 3: "consume_groups groups ks os2 s3 = (r, s')" "ts_store s3 = ts_store s2"
        "ts_engine s3 = ts_engine s2" "ts_world s3 = ts_world s2"
        using Cons.prems(1) run True g c None by (auto simp: e2_def Let_def)
      have "loop_effect s3 (calls_at group_calls groups ks) (\<exists>os'. r = Inr os') s'"
        using Cons.IH [OF 3(1)] Cons.prems(2) by simp
      then show ?thesis
        unfolding calls using eff None 3 served_cong(2) [of s3 s2] served_cong(3) [of s3 s2]
        by (intro loop_effect_step [of s _ s3]) simp_all
    qed
  qed
qed

lemma consume_runtimes_effect:
  assumes "consume_runtimes runtimes ks s = (r, s')" "set ks \<subseteq> set (keys runtimes)"
  shows "loop_effect s (calls_at (\<lambda>m. [CallRuntime m]) runtimes ks) (r = None) s'"
  using assms
proof (induction ks arbitrary: s)
  case Nil
  then show ?case using loop_effect_end by auto
next
  case (Cons k ks)
  obtain b s1 where run: "sink_running s = (b, s1)" by fastforce
  note f = sink_running_fields [OF run]
  obtain m where m: "map_of runtimes k = Some m" using Cons.prems(2) by (auto simp: keys_iff simp del: set_map)
  show ?case
  proof (cases b)
    case False
    then have "r = Some SinkCancelled" "s' = s1" using Cons.prems(1) run by simp_all
    then show ?thesis using served_refl [of s1 s] f loop_effect_stop [of s 0] by simp
  next
    case True
    obtain x s2 where c: "sink_checkpoint (s1\<lparr>ts_engine := UpdateRuntime m (ts_engine s1)\<rparr>) = (x, s2)" by fastforce
    have eff: "served s [CallRuntime m] s2 \<and> (x = None \<longrightarrow> checkpointed s2)"
      by (rule sink_checkpoint_effect [OF c]) (simp_all add: f topo_step_def)
    have calls: "calls_at (\<lambda>m. [CallRuntime m]) runtimes (k # ks) = [CallRuntime m] @ calls_at (\<lambda>m. [CallRuntime m]) runtimes ks"
      by (simp add: m)
    show ?thesis
    proof (cases x)
      case (Some err)
      then have "r = Some err" "s' = s2"
        using Cons.prems(1) run True m c by (simp_all add: Let_def)
      then show ?thesis
        using eff loop_effect_stop [of s 1 "[CallRuntime m] @ calls_at (\<lambda>m. [CallRuntime m]) runtimes ks" s2]
        unfolding calls by simp
    next
      case None
      obtain s3 where 3: "consume_runtimes runtimes ks s3 = (r, s')" "ts_store s3 = ts_store s2"
        "ts_engine s3 = ts_engine s2" "ts_world s3 = ts_world s2"
        using Cons.prems(1) run True m c None by (auto simp: Let_def)
      have "loop_effect s3 (calls_at (\<lambda>m. [CallRuntime m]) runtimes ks) (r = None) s'"
        using Cons.IH [OF 3(1)] Cons.prems(2) by simp
      then show ?thesis
        unfolding calls using eff None 3 served_cong(2) [of s3 s2] served_cong(3) [of s3 s2]
        by (intro loop_effect_step [of s _ s3]) simp_all
    qed
  qed
qed

lemma loop_effect_seq:
  assumes "loop_effect s c1 True s1" "loop_effect s1 c2 ended s2"
  shows "loop_effect s (c1 @ c2) ended s2"
proof -
  obtain n where n: "served s1 (take n c2) s2" "ended \<longrightarrow> take n c2 = c2"
    using assms(2) by (auto simp: loop_effect_def)
  have "served s c1 s1" using assms(1) unfolding loop_effect_def by metis
  from served_trans [OF this n(1)] have "served s (take (length c1 + n) (c1 @ c2)) s2" by simp
  moreover have "ended \<longrightarrow> take (length c1 + n) (c1 @ c2) = c1 @ c2" using n(2) by simp
  moreover have "ended \<and> (c1 @ c2 \<noteq> [] \<or> checkpointed s) \<longrightarrow> checkpointed s2"
    using assms by (auto simp: loop_effect_def)
  ultimately show ?thesis unfolding loop_effect_def by blast
qed

lemma loop_effect_more:
  assumes "loop_effect s c1 False s1"
  shows "loop_effect s (c1 @ c2) False s1"
proof -
  obtain n where n: "served s (take n c1) s1" using assms by (auto simp: loop_effect_def)
  then have "served s (take (min n (length c1)) (c1 @ c2)) s1" by (cases "n \<le> length c1") (simp_all add: min_def)
  then show ?thesis by (rule loop_effect_stop)
qed

lemma ConsumeBatch_cases:
  assumes "ConsumeBatch es s = (r, s')"
  obtains (cancelled) "r = Inl SinkCancelled" "ts_store s' = ts_store s" "ts_engine s' = ts_engine s" "ts_world s' = ts_world s"
    | (groups) err s1 where "ts_store s1 = ts_store s" "ts_engine s1 = ts_engine s" "ts_world s1 = ts_world s" "r = Inl err"
        "consume_groups (span_groups es) (sortedKeys (span_groups es)) (replicate (length es) None) s1 = (Inl err, s')"
    | (runtimes) os s1 s2 x where "ts_store s1 = ts_store s" "ts_engine s1 = ts_engine s" "ts_world s1 = ts_world s"
        "consume_groups (span_groups es) (sortedKeys (span_groups es)) (replicate (length es) None) s1 = (Inr os, s2)"
        "consume_runtimes (latest_runtimes es) (sortedKeys (latest_runtimes es)) s2 = (x, s')"
        "r = (case x of None \<Rightarrow> Inr os | Some err \<Rightarrow> Inl err)"
proof -
  obtain b s1 where run: "sink_running s = (b, s1)" by fastforce
  note f = sink_running_fields [OF run]
  obtain y s2 where g: "consume_groups (span_groups es) (sortedKeys (span_groups es)) (replicate (length es) None) s1 = (y, s2)"
    by fastforce
  show ?thesis
  proof (cases b)
    case False
    then show ?thesis using assms run f cancelled by (simp add: ConsumeBatch_def)
  next
    case True
    have ge: "group_envelopes 0 es [] [] = (span_groups es, latest_runtimes es)"
      by (simp add: span_groups_def latest_runtimes_def)
    show ?thesis
    proof (cases y)
      case (Inl err)
      then show ?thesis using assms run f True g groups [of s1 err] by (simp add: ConsumeBatch_def ge)
    next
      case (Inr os)
      obtain x s3 where x: "consume_runtimes (latest_runtimes es) (sortedKeys (latest_runtimes es)) s2 = (x, s3)" by fastforce
      show ?thesis
        using assms run f True g Inr x runtimes [of s1 os s2 x] by (simp add: ConsumeBatch_def ge split: option.splits)
    qed
  qed
qed

lemma sortedKeys_keys: "set (sortedKeys m) \<subseteq> set (keys m)"
  by (simp add: sortedKeys_def)

lemma ConsumeBatch_effect:
  assumes "ConsumeBatch es s = (r, s')"
  shows "loop_effect s (batch_calls es) (\<exists>os. r = Inr os) s'"
  using assms
proof (cases rule: ConsumeBatch_cases)
  case cancelled
  then show ?thesis using loop_effect_stop [of s 0 "batch_calls es" s'] by (simp add: served_refl)
next
  case (groups err s1)
  have "loop_effect s1 (calls_at group_calls (span_groups es) (sortedKeys (span_groups es))) False s'"
    using consume_groups_effect [OF groups(5) sortedKeys_keys] by simp
  then show ?thesis
    using groups(1-4) loop_effect_more unfolding batch_calls_def
    by (simp add: loop_effect_def served_cong(1) [of s1 s])
next
  case (runtimes os s1 s2 x)
  have "loop_effect s1 (calls_at group_calls (span_groups es) (sortedKeys (span_groups es))) True s2"
    using consume_groups_effect [OF runtimes(4) sortedKeys_keys] by simp
  then have "loop_effect s (calls_at group_calls (span_groups es) (sortedKeys (span_groups es))) True s2"
    using runtimes(1-3) by (simp add: loop_effect_def served_cong [of s1 s])
  from loop_effect_seq [OF this consume_runtimes_effect [OF runtimes(5) sortedKeys_keys]]
  show ?thesis using runtimes(6) by (cases x) (simp_all add: batch_calls_def)
qed

section \<open>Outcomes\<close>

text \<open>\<open>acknowledged i\<close>: the outcome of the envelope is the revision of the engine right after the
  call that ingested its spans.\<close>

definition acknowledged_at :: "engine \<Rightarrow> topo_call list \<Rightarrow> span list \<Rightarrow> outcome \<Rightarrow> bool" where
  "acknowledged_at e calls spans oc \<longleftrightarrow> (\<exists>n all. n < length calls \<and> calls ! n = CallIngest all \<and> set spans \<subseteq> set all
     \<and> oc = Some (g_revision (foldl topo_step e (take (Suc n) calls))))"

lemma set_outcomes_nth:
  "i < length os \<Longrightarrow> set_outcomes is rv os ! i = (if i \<in> set is then Some rv else os ! i)"
  "length (set_outcomes is rv os) = length os"
proof (induction "is" arbitrary: os)
  case Nil
  { case 1 then show ?case by (simp add: set_outcomes_def) }
  { case 2 then show ?case by (simp add: set_outcomes_def) }
next
  case (Cons j js)
  have u: "set_outcomes (j # js) rv os = set_outcomes js rv (os[j := Some rv])" for os by (simp add: set_outcomes_def)
  { case 1 then show ?case using Cons(1) [of "os[j := Some rv]"] unfolding u by (auto simp: nth_list_update) }
  { case 2 then show ?case using Cons(2) [of "os[j := Some rv]"] unfolding u by simp }
qed

definition disjoint_groups :: "span_group gomap \<Rightarrow> bool" where
  "disjoint_groups m \<longleftrightarrow> (\<forall>k k' g g'. map_of m k = Some g \<longrightarrow> map_of m k' = Some g' \<longrightarrow> k \<noteq> k' \<longrightarrow>
     set (gr_indexes g) \<inter> set (gr_indexes g') = {})"

lemma consume_groups_outcomes:
  assumes "consume_groups groups ks os s = (Inr os', s')" "set ks \<subseteq> set (keys groups)" "distinct ks" "disjoint_groups groups"
  shows "length os' = length os
    \<and> (\<forall>i<length os. (\<forall>k\<in>set ks. \<forall>g. map_of groups k = Some g \<longrightarrow> i \<notin> set (gr_indexes g)) \<longrightarrow> os' ! i = os ! i)
    \<and> (\<forall>i<length os. \<forall>k\<in>set ks. \<forall>g. map_of groups k = Some g \<and> i \<in> set (gr_indexes g) \<longrightarrow>
         acknowledged_at (ts_engine s) (calls_at group_calls groups ks) (gr_spans g) (os' ! i))"
  using assms
proof (induction ks arbitrary: os s)
  case (Cons k ks)
  obtain s1 where run: "sink_running s = (True, s1)" using Cons.prems(1)
    by (cases "sink_running s") (auto split: if_splits bool.splits)
  note f = sink_running_fields [OF run]
  obtain g where g: "map_of groups k = Some g" using Cons.prems(2) by (auto simp: keys_iff simp del: set_map)
  define e2 where "e2 = Ingest (gr_spans g) (RegisterApplication (gr_serviceName g) (gr_nodeVersion g) (ts_engine s))"
  obtain x s2 where c: "sink_checkpoint (s1\<lparr>ts_engine := e2\<rparr>) = (x, s2)" by fastforce
  have eng: "e2 = foldl topo_step (ts_engine s) (group_calls g)" by (simp add: e2_def group_calls_def topo_step_def)
  have x: "x = None" using Cons.prems(1) run g c f by (cases x) (simp_all add: e2_def Let_def)
  let ?os = "set_outcomes (gr_indexes g) (g_revision e2) os"
  obtain s3 where 3: "consume_groups groups ks ?os s3 = (Inr os', s')" "ts_engine s3 = ts_engine s2"
    using Cons.prems(1) run g c f x by (auto simp: e2_def Let_def liveSnapshotLocked_def)
  have e3: "ts_engine s3 = e2"
    using 3(2) sink_checkpoint_effect [OF c, of s "group_calls g"] f eng by (simp add: served_def)
  note IH = Cons.IH [OF 3(1)] Cons.prems(2-4)
  have calls: "calls_at group_calls groups (k # ks) = group_calls g @ calls_at group_calls groups ks" by (simp add: g)
  have later: "acknowledged_at (ts_engine s) (group_calls g @ cs) spans oc" if "acknowledged_at e2 cs spans oc" for cs spans oc
  proof -
    obtain n all where n: "n < length cs" "cs ! n = CallIngest all" "set spans \<subseteq> set all"
      "oc = Some (g_revision (foldl topo_step e2 (take (Suc n) cs)))"
      using \<open>acknowledged_at e2 cs spans oc\<close> by (auto simp: acknowledged_at_def)
    then show ?thesis unfolding acknowledged_at_def
      by (intro exI [of _ "length (group_calls g) + n"] exI [of _ all]) (simp add: nth_append eng)
  qed
  have now: "acknowledged_at (ts_engine s) (group_calls g @ cs) (gr_spans g) (Some (g_revision e2))" for cs
    unfolding acknowledged_at_def
    by (intro exI [of _ 1] exI [of _ "gr_spans g"]) (simp add: group_calls_def eng)
  have len: "length ?os = length os" by (simp add: set_outcomes_nth)
  show ?case
  proof (intro conjI allI ballI impI)
    show "length os' = length os" using IH len by simp
  next
    fix i
    assume i: "i < length os" "\<forall>k\<in>set (k # ks). \<forall>g. map_of groups k = Some g \<longrightarrow> i \<notin> set (gr_indexes g)"
    then show "os' ! i = os ! i" using IH len g by (simp add: set_outcomes_nth(1))
  next
    fix i k' g'
    assume i: "i < length os" "k' \<in> set (k # ks)" "map_of groups k' = Some g' \<and> i \<in> set (gr_indexes g')"
    show "acknowledged_at (ts_engine s) (calls_at group_calls groups (k # ks)) (gr_spans g') (os' ! i)"
    proof (cases "k' = k")
      case True
      have "\<forall>k'\<in>set ks. \<forall>g. map_of groups k' = Some g \<longrightarrow> i \<notin> set (gr_indexes g)"
        using i True Cons.prems(3,4) unfolding disjoint_groups_def by (metis IntI distinct.simps(2) empty_iff)
      then have "os' ! i = ?os ! i" using IH len i(1) by (simp del: map_of_eq_Some_iff)
      then show ?thesis using i True g now calls by (simp add: set_outcomes_nth(1))
    next
      case False
      then have "acknowledged_at e2 (calls_at group_calls groups ks) (gr_spans g') (os' ! i)"
        using IH len i e3 by (simp del: map_of_eq_Some_iff)
      then show ?thesis unfolding calls by (rule later)
    qed
  qed
qed simp

lemma indexed_batches_iff:
  "(i, b) \<in> set (indexed_batches n es) \<longleftrightarrow> n \<le> i \<and> i < n + length es \<and> SpanBatch (es ! (i - n)) = Some b"
proof (induction n es rule: indexed_batches.induct)
  case (2 n e es)
  show ?case
  proof (cases "i = n")
    case True
    then show ?thesis using "2.IH" by (auto split: option.split)
  next
    case False
    then have "es ! (i - Suc n) = (e # es) ! (i - n)" if "n \<le> i" using that by (simp add: nth_Cons' Suc_diff_Suc)
    then show ?thesis using "2.IH" False by (auto split: option.split simp: Suc_le_eq)
  qed
qed simp

lemma group_for_members:
  assumes "group_for ibs = Some g"
  shows "set (gr_indexes g) = fst ` set ibs" "(i, b) \<in> set ibs \<Longrightarrow> set (sb_Spans b) \<subseteq> set (gr_spans g)"
  using assms by (force simp: group_for_def split: list.splits prod.splits)+

lemma span_groups_at:
  assumes "map_of (span_groups es) k = Some g"
  shows "set (gr_indexes g) = {i. i < length es \<and> (\<exists>b. SpanBatch (es ! i) = Some b \<and> group_key b = k)}"
    "i < length es \<Longrightarrow> SpanBatch (es ! i) = Some b \<Longrightarrow> group_key b = k \<Longrightarrow> set (sb_Spans b) \<subseteq> set (gr_spans g)"
proof -
  have g: "group_for (filter (\<lambda>(_, b). group_key b = k) (indexed_batches 0 es)) = Some g"
    using assms by (simp only: span_groups_spec)
  show "set (gr_indexes g) = {i. i < length es \<and> (\<exists>b. SpanBatch (es ! i) = Some b \<and> group_key b = k)}"
    unfolding group_for_members(1) [OF g]
  proof (intro set_eqI iffI)
    fix i
    assume "i \<in> {i. i < length es \<and> (\<exists>b. SpanBatch (es ! i) = Some b \<and> group_key b = k)}"
    then obtain b where "(i, b) \<in> set (indexed_batches 0 es)" "group_key b = k" by (auto simp: indexed_batches_iff)
    then show "i \<in> fst ` set (filter (\<lambda>(_, b). group_key b = k) (indexed_batches 0 es))" by (force simp: image_iff)
  qed (auto simp: indexed_batches_iff)
  show "set (sb_Spans b) \<subseteq> set (gr_spans g)" if "i < length es" "SpanBatch (es ! i) = Some b" "group_key b = k"
    using that by (intro group_for_members(2) [OF g, of i]) (simp add: indexed_batches_iff)
qed

lemma disjoint_span_groups: "disjoint_groups (span_groups es)"
  unfolding disjoint_groups_def using span_groups_at(1) by fastforce

lemma span_groups_cover:
  assumes "i < length es" "SpanBatch (es ! i) = Some b"
  shows "\<exists>g. map_of (span_groups es) (group_key b) = Some g \<and> i \<in> set (gr_indexes g)"
proof -
  have "(i, b) \<in> set (filter (\<lambda>(_, b'). group_key b' = group_key b) (indexed_batches 0 es))"
    using assms by (simp add: indexed_batches_iff)
  then have "group_for (filter (\<lambda>(_, b'). group_key b' = group_key b) (indexed_batches 0 es)) \<noteq> None"
    by (cases "filter (\<lambda>(_, b'). group_key b' = group_key b) (indexed_batches 0 es)") (auto simp: group_for_def)
  then obtain g where g: "map_of (span_groups es) (group_key b) = Some g" by (auto simp only: span_groups_spec)
  then show ?thesis using span_groups_at(1) [OF g] assms by auto
qed

lemma acknowledged_more: "acknowledged_at e calls spans oc \<Longrightarrow> acknowledged_at e (calls @ calls') spans oc"
  unfolding acknowledged_at_def by (metis (no_types, lifting) Suc_leI append.right_neutral append_take_drop_id
      diff_is_0_eq length_append nth_append take_0 take_append trans_less_add1)

lemma ConsumeBatch_outcomes:
  assumes "ConsumeBatch es s = (Inr os, s')"
  shows "length os = length es \<and> (\<forall>i<length es. case SpanBatch (es ! i) of
      None \<Rightarrow> os ! i = None
    | Some b \<Rightarrow> acknowledged_at (ts_engine s) (batch_calls es) (sb_Spans b) (os ! i))"
  using assms
proof (cases rule: ConsumeBatch_cases)
  case (runtimes os' s1 s2 x)
  then have os: "os' = os" by (simp split: option.splits)
  have "distinct (sortedKeys (span_groups es))" by (simp add: sortedKeys_def span_groups_spec)
  note c = consume_groups_outcomes [OF runtimes(4)[unfolded os] sortedKeys_keys this disjoint_span_groups, simplified]
  show ?thesis
  proof (intro conjI allI impI)
    show "length os = length es" using c by simp
  next
    fix i
    assume i: "i < length es"
    show "case SpanBatch (es ! i) of None \<Rightarrow> os ! i = None
      | Some b \<Rightarrow> acknowledged_at (ts_engine s) (batch_calls es) (sb_Spans b) (os ! i)"
    proof (cases "SpanBatch (es ! i)")
      case None
      then have "i \<notin> set (gr_indexes g)" if "map_of (span_groups es) k = Some g" for k g
        using span_groups_at(1) [OF that] by simp
      then show ?thesis using c i None by simp
    next
      case (Some b)
      obtain g where g: "map_of (span_groups es) (group_key b) = Some g" "i \<in> set (gr_indexes g)"
        using span_groups_cover [OF i Some] by blast
      have "group_key b \<in> set (sortedKeys (span_groups es))"
        using g(1) keys_iff [of "group_key b" "span_groups es"] by (simp add: sortedKeys_def del: map_of_eq_Some_iff)
      then have "acknowledged_at (ts_engine s) (calls_at group_calls (span_groups es) (sortedKeys (span_groups es))) (gr_spans g) (os ! i)"
        using c i g runtimes(2) by auto
      then have "acknowledged_at (ts_engine s) (batch_calls es) (gr_spans g) (os ! i)"
        unfolding batch_calls_def by (rule acknowledged_more)
      then show ?thesis using span_groups_at(2) [OF g(1) i Some] Some unfolding acknowledged_at_def by fastforce
    qed
  qed
qed simp_all

end
