(* ===== verification/Topo_Identified.thy ===== *)
theory Topo_Identified
  imports Topo_Persist
begin

text \<open>
  Every identifier in an engine that has served only named spans is non-empty, which is what
  restoring its checkpoint asks for.
\<close>

definition named_span :: "span \<Rightarrow> bool" where
  "named_span s \<longleftrightarrow> TraceID s \<noteq> [] \<and> SpanID s \<noteq> []"

definition named_trace :: "string \<Rightarrow> traceState \<Rightarrow> bool" where
  "named_trace i t \<longleftrightarrow> i \<noteq> [] \<and> t_traceID t \<noteq> [] \<and> [] \<notin> set (t_spanOrder t)"

definition named :: "engine \<Rightarrow> bool" where
  "named e \<longleftrightarrow> [] \<notin> set (keys (g_nodes e)) \<and> [] \<notin> set (keys (g_paths e))
     \<and> (\<forall>i t. map_of (g_traces e) i = Some t \<longrightarrow> named_trace i t)
     \<and> all_entries (\<lambda>_ b. b) (g_seenSpanIDs e) \<and> all_entries (\<lambda>_ b. b) (g_seenEdgeSpanIDs e)
     \<and> all_entries (\<lambda>_ b. b) (g_applicationNames e)
     \<and> g_nodeVersion e \<noteq> [] \<and> 0 < g_maxRecentTraces e"

lemma named_identified: "named e \<Longrightarrow> identified e"
  unfolding named_def identified_def named_trace_def by (metis keys_iff not_Some_eq)

lemma not_key_update [simp]: "[] \<notin> set (keys (AList.update k v m)) \<longleftrightarrow> k \<noteq> [] \<and> [] \<notin> set (keys m)"
  unfolding keys_iff by auto

lemma not_key_delete [simp]: "[] \<notin> set (keys m) \<Longrightarrow> [] \<notin> set (keys (AList.delete k m))"
  unfolding keys_iff by simp

lemma named_traces_update:
  assumes "\<forall>i t. map_of ts i = Some t \<longrightarrow> named_trace i t" "named_trace k u"
  shows "\<forall>i t. map_of (AList.update k u ts) i = Some t \<longrightarrow> named_trace i t"
  using assms by (simp del: map_of_eq_Some_iff)

section \<open>Admission\<close>

lemma topology_kind_normal: "k \<in> set topologyKinds \<Longrightarrow> NormalizeSemanticIdentity k = k \<and> k \<noteq> []"
proof -
  assume "k \<in> set topologyKinds"
  then have "normal_part k"
    by (auto simp: topologyKinds_def normal_part_def identity_char_def Let_def)
  then have "normal_identity k" "k \<noteq> []"
    by (auto simp: normal_identity_def normal_part_def intro: exI [of _ "[k]"])
  then show ?thesis using normalize_normal by blast
qed

lemma span_node_id_nonempty: "Kind s \<in> set topologyKinds \<Longrightarrow> span_node_id s \<noteq> []"
  using StableNodeID_normal topology_kind_normal unfolding span_node_id_def by metis

lemma store_span_named:
  assumes "named e" "named_span s"
  shows "named (store_span s e)"
proof -
  let ?t = "case map_of (g_traces e) (TraceID s) of Some t \<Rightarrow> t | None \<Rightarrow> new_trace (TraceID s)"
  have t: "named_trace (TraceID s) ?t"
    using assms by (auto simp: named_def named_trace_def named_span_def new_trace_def simp del: map_of_eq_Some_iff
        split: option.split)
  let ?u = "?t\<lparr>t_spanOrder := (if map_of (t_spans ?t) (SpanID s) = None then t_spanOrder ?t @ [SpanID s] else t_spanOrder ?t),
      t_spans := AList.update (SpanID s) s (t_spans ?t), t_lastUpdatedAt := g_clock e + 1\<rparr>"
  have "named_trace (TraceID s) ?u" using t assms(2) by (simp add: named_trace_def named_span_def)
  then have "\<forall>i t. map_of (AList.update (TraceID s) ?u (g_traces e)) i = Some t \<longrightarrow> named_trace i t"
    using assms(1) by (intro named_traces_update) (simp_all add: named_def del: map_of_eq_Some_iff)
  moreover have "all_entries (\<lambda>_ b. b) (AList.update (SpanID s) True (g_seenSpanIDs e))"
    using assms(1) by (intro entries_update) (simp_all add: named_def)
  ultimately show ?thesis
    using assms(1) unfolding named_def store_span_def Let_def by (simp del: map_of_eq_Some_iff)
qed

lemma admit_span_named:
  assumes "named (fst a)" "named_span s"
  shows "named (fst (admit_span s a))"
proof -
  obtain e touched active where a: "a = (e, touched, active)" by (cases a)
  have st: "named (store_span s e)" using store_span_named assms by (simp add: a)
  have "g_nodes (store_span s e) = g_nodes e" by (simp add: store_span_def Let_def)
  then have "named ((store_span s e)\<lparr>g_nodes := AList.update i n (g_nodes e)\<rparr>)" if "i \<noteq> []" for i n
    using st that by (simp add: named_def del: set_map map_of_eq_Some_iff)
  then show ?thesis
    using st assms(1) span_node_id_nonempty [of s] by (simp add: a admit_span_run)
qed

section \<open>Edges, paths, trimming\<close>

lemma reconcile_trace_named: "named (fst a) \<Longrightarrow> named (fst (reconcile_trace i a))"
proof -
  have edge: "named (fst (reconcile_edge t k a))" if "named (fst a)" for t k and a :: "engine \<times> string list"
  proof (cases "edge_ends t (span_at t k) (fst a)")
    case (Some pc)
    have "all_entries (\<lambda>_ b. b) (AList.update (edge_key (span_at t k)) True (g_seenEdgeSpanIDs (fst a)))"
      using that by (intro entries_update) (simp_all add: named_def)
    then show ?thesis
      using that Some by (cases pc) (simp add: reconcile_edge_def record_edge_def Let_def named_def del: map_of_eq_Some_iff)
  qed (use that in \<open>simp add: reconcile_edge_def\<close>)
  assume "named (fst a)"
  then show ?thesis
    using foldl_inv [where P = "\<lambda>a. named (fst a)" and f = "\<lambda>a k. reconcile_edge _ k a"] edge
    by (auto simp: reconcile_trace_def split: option.split)
qed

lemma stablePathID_nonempty: "stablePathID entrypoint nodes \<noteq> []"
  by (simp add: stablePathID_def stableHash_def)

lemma desired_nonempty: "[] \<notin> set (keys (desired_paths roots))"
  unfolding desired_paths_def
  by (rule foldl_inv [where P = "\<lambda>d. [] \<notin> set (keys d)"])
    (use stablePathID_nonempty in \<open>auto simp del: set_map split: prod.split\<close>)

lemma named_paths:
  "named (e\<lparr>g_paths := ps, g_clock := c\<rparr>) \<longleftrightarrow> named (e\<lparr>g_paths := ps\<rparr>)"
  by (simp add: named_def)

lemma drop_contribution_named:
  assumes "named e"
  shows "named (drop_contribution desired d failed e entry)"
proof -
  have "map_of (g_paths e) [] = None" using assms keys_iff [of "[]" "g_paths e"] by (simp add: named_def del: set_map)
  then have "i \<noteq> []" if "map_of (g_paths e) i = Some p" for i p using that by (metis option.distinct(1))
  then show ?thesis
    using assms by (auto simp: drop_contribution_def named_def Let_def simp del: set_map map_of_eq_Some_iff
        split: prod.split option.split)
qed

lemma removeLeast_named: "named e \<Longrightarrow> named (removeLeastUsefulPath e)"
  by (auto simp: removeLeastUsefulPath_def named_def simp del: set_map map_of_eq_Some_iff split: option.split)

lemma add_contribution_named:
  assumes "named e" "fst entry \<noteq> []"
  shows "named (add_contribution previous d failed e entry)"
proof -
  obtain i entrypoint nodes where entry: "entry = (i, entrypoint, nodes)" by (cases entry)
  have up: "named (e1\<lparr>g_paths := AList.update i p (g_paths e1), g_clock := c\<rparr>)" if "named e1" for e1 p c
    using that assms(2) by (simp add: named_def entry del: set_map map_of_eq_Some_iff)
  show ?thesis
    using assms(1) removeLeast_named [OF assms(1)] up
    by (simp add: add_contribution_def entry Let_def)
qed

lemma aggregate_trace_named:
  assumes "named e"
  shows "named (aggregate_trace e i)"
proof (cases "map_of (g_traces e) i")
  case (Some t)
  show ?thesis
  proof (cases "b_roots (buildTrace t) = []")
    case False
    let ?d = "b_durationMS (buildTrace t)" and ?f = "b_failed (buildTrace t)"
    let ?desired = "desired_paths (b_roots (buildTrace t))"
    define e1 where "e1 = foldl (drop_contribution ?desired ?d ?f) e (t_pathContributions t)"
    define e2 where "e2 = foldl (add_contribution (t_pathContributions t) ?d ?f) e1 ?desired"
    have "named e1" unfolding e1_def
      by (rule foldl_inv [where P = named]) (use assms drop_contribution_named in auto)
    then have e2: "named e2" unfolding e2_def
    proof (rule foldl_inv [where P = named])
      fix e entry
      assume "named e" "entry \<in> set ?desired"
      moreover from this(2) have "fst entry \<in> set (keys ?desired)" by simp
      then have "fst entry \<noteq> []" using desired_nonempty by metis
      ultimately show "named (add_contribution (t_pathContributions t) ?d ?f e entry)"
        by (intro add_contribution_named)
    qed
    have "named_trace i t" using assms Some by (simp add: named_def del: map_of_eq_Some_iff)
    then have "named_trace (t_traceID t) (t\<lparr>t_pathContributions := cs\<rparr>)" for cs by (simp add: named_trace_def)
    then have "named (e2\<lparr>g_traces := AList.update (t_traceID t) (t\<lparr>t_pathContributions := cs\<rparr>) (g_traces e2)\<rparr>)" for cs
      using e2 named_traces_update unfolding named_def by (simp del: map_of_eq_Some_iff)
    then show ?thesis
      using Some False
      by (simp add: aggregate_trace_def aggregateRuntimePaths_def Let_def e1_def e2_def del: map_of_eq_Some_iff)
  qed (use assms Some in \<open>simp add: aggregate_trace_def aggregateRuntimePaths_def Let_def\<close>)
qed (use assms in \<open>simp add: aggregate_trace_def\<close>)

lemma all_entries_deletes: "all_entries P m \<Longrightarrow> all_entries P (foldl (\<lambda>m i. AList.delete (f i) m) m is)"
  by (rule foldl_inv [where P = "all_entries P"]) (simp_all add: entries_delete)

lemma trimTraces_named:
  assumes "named e"
  shows "named (trimTraces e)"
proof -
  have "named (forget_trace e t)" if "named e" for e t
    using that all_entries_deletes [of "\<lambda>_ b. b" "g_seenSpanIDs e" "\<lambda>i. i" "t_spanOrder t"]
      all_entries_deletes [of "\<lambda>_ b. b" "g_seenEdgeSpanIDs e" "\<lambda>i. t_traceID t @ '':'' @ i" "t_spanOrder t"]
    by (simp add: named_def forget_trace_def del: map_of_eq_Some_iff)
  then show ?thesis
    using assms foldl_inv [where P = named and f = forget_trace] by (simp add: trimTraces_def Let_def)
qed

lemma Ingest_named:
  assumes "named e" "\<forall>s\<in>set spans. named_span s"
  shows "named (Ingest spans e)"
proof -
  obtain e1 touched act where 1: "foldl (\<lambda>a s. admit_span s a) (e, [], []) spans = (e1, touched, act)"
    by (metis prod.exhaust)
  obtain e2 act' where 2: "foldl (\<lambda>a i. reconcile_trace i a) (e1, []) touched = (e2, act')" by fastforce
  have "named (fst (foldl (\<lambda>a s. admit_span s a) (e, [], []) spans))"
    by (rule foldl_inv [where P = "\<lambda>a. named (fst a)"]) (use assms admit_span_named in auto)
  then have e1: "named e1" by (simp add: 1)
  have "named (fst (foldl (\<lambda>a i. reconcile_trace i a) (e1, []) touched))"
    by (rule foldl_inv [where P = "\<lambda>a. named (fst a)"]) (use e1 reconcile_trace_named in auto)
  then have e2: "named e2" by (simp add: 2)
  have "named (foldl aggregate_trace e2 touched)"
    by (rule foldl_inv [where P = named]) (use e2 aggregate_trace_named in auto)
  then have "named (trimTraces (foldl aggregate_trace e2 touched))" by (rule trimTraces_named)
  then show ?thesis by (simp add: Ingest_def 1 2 Let_def named_def)
qed

end
