(* ===== verification/Sink_Properties.thy ===== *)
theory Sink_Properties
  imports Sink_Effects Telemetry_Validate Topo_Identified
begin

text \<open>
  The properties of the topology sink, for batches of envelopes that passed validation.
\<close>

section \<open>Admitted envelopes\<close>

definition admitted :: "'r url_library \<Rightarrow> limits \<Rightarrow> envelope \<Rightarrow> bool" where
  "admitted lib limits e \<longleftrightarrow> (\<exists>raw. ValidateAndSanitize lib limits raw = Inr e)"

lemma admitted_cases:
  assumes "admitted lib limits e"
  obtains raw where "acceptable limits raw" "e = sanitized lib raw"
  using assms ValidateAndSanitize_spec unfolding admitted_def by (metis Inl_Inr_False sum.inject(2))

definition good_span :: "span \<Rightarrow> bool" where
  "good_span s \<longleftrightarrow> finite_span s \<and> named_span s"

definition good_call :: "topo_call \<Rightarrow> bool" where
  "good_call c = (case c of CallIngest spans \<Rightarrow> list_all good_span spans | _ \<Rightarrow> True)"

lemma sanitized_span_good: "acceptable_span limits s \<Longrightarrow> good_span (sanitized_span lib s)"
  by (auto simp: acceptable_span_def good_span_def finite_span_def named_span_def sanitized_span_def
      good_identifier_def finiteNonNegative_def finite_f64_def)

lemma admitted_spans:
  assumes "admitted lib limits e" "SpanBatch e = Some b"
  shows "list_all good_span (sb_Spans b)"
proof -
  obtain raw where raw: "acceptable limits raw" "e = sanitized lib raw" using assms(1) by (rule admitted_cases)
  then obtain b' where "SpanBatch raw = Some b'" "sb_Spans b = List.map (sanitized_span lib) (sb_Spans b')"
    using assms(2) by (auto simp: sanitized_def)
  then show ?thesis
    using raw(1) sanitized_span_good by (auto simp: acceptable_def list_all_iff split: option.splits)
qed

lemma admitted_payload:
  assumes "admitted lib limits e"
  shows "(SpanBatch e \<noteq> None) \<noteq> (RuntimeMetrics e \<noteq> None)"
proof -
  obtain raw where raw: "acceptable limits raw" "e = sanitized lib raw" using assms by (rule admitted_cases)
  then show ?thesis by (auto simp: acceptable_def sanitized_def split: option.splits)
qed

section \<open>Histories of good calls\<close>

lemma calls_at_member:
  "c \<in> set (calls_at f m ks) \<Longrightarrow> \<exists>k v. map_of m k = Some v \<and> c \<in> set (f v)"
proof -
  assume "c \<in> set (calls_at f m ks)"
  then obtain k where "c \<in> set (case map_of m k of Some v \<Rightarrow> f v | None \<Rightarrow> [])" by (auto simp: calls_at_def)
  then show ?thesis by (cases "map_of m k") auto
qed

lemma group_spans_from:
  assumes "map_of (span_groups es) k = Some g" "s \<in> set (gr_spans g)"
  shows "\<exists>e\<in>set es. \<exists>b. SpanBatch e = Some b \<and> s \<in> set (sb_Spans b)"
proof -
  have "group_for (filter (\<lambda>(_, b). group_key b = k) (indexed_batches 0 es)) = Some g"
    using assms(1) by (simp only: span_groups_spec)
  then have "gr_spans g = List.concat (List.map (\<lambda>(_, b). sb_Spans b) (filter (\<lambda>(_, b). group_key b = k) (indexed_batches 0 es)))"
    by (auto simp: group_for_def split: list.splits prod.splits)
  then obtain i b where "(i, b) \<in> set (indexed_batches 0 es)" "s \<in> set (sb_Spans b)"
    using assms(2) by (force simp: set_concat)
  then show ?thesis by (auto simp: indexed_batches_iff)
qed

lemma batch_calls_good:
  assumes "list_all (admitted lib limits) es"
  shows "list_all good_call (batch_calls es)"
  unfolding list_all_iff
proof
  fix c
  assume "c \<in> set (batch_calls es)"
  then consider "c \<in> set (calls_at group_calls (span_groups es) (sortedKeys (span_groups es)))"
    | "c \<in> set (calls_at (\<lambda>m. [CallRuntime m]) (latest_runtimes es) (sortedKeys (latest_runtimes es)))"
    unfolding batch_calls_def by auto
  then show "good_call c"
  proof cases
    case 1
    then obtain k g where g: "map_of (span_groups es) k = Some g" "c \<in> set (group_calls g)"
      using calls_at_member by fast
    have "good_span s" if s: "s \<in> set (gr_spans g)" for s
    proof -
      obtain e b where "e \<in> set es" "SpanBatch e = Some b" "s \<in> set (sb_Spans b)"
        using group_spans_from [OF g(1) s] by blast
      then show ?thesis using admitted_spans assms unfolding list_all_iff by blast
    qed
    then show ?thesis using g(2) by (auto simp: group_calls_def good_call_def list_all_iff)
  next
    case 2
    then obtain m where "c = CallRuntime m" using calls_at_member by fastforce
    then show ?thesis by (simp add: good_call_def)
  qed
qed

lemma good_call_finite: "good_call c \<Longrightarrow> finite_call c"
  by (auto simp: good_call_def finite_call_def good_span_def list_all_iff split: topo_call.splits)

lemma new_engine_named: "named (new_engine options)"
  by (simp add: named_def new_engine_def Let_def all_entries_def)

lemma good_call_named:
  assumes "named e" "good_call c"
  shows "named (topo_step e c)"
proof (cases c)
  case (CallIngest spans)
  then show ?thesis
    using assms Ingest_named by (simp add: topo_step_def good_call_def good_span_def list_all_iff)
next
  case (CallRegister name version)
  have "all_entries (\<lambda>_ b. b) (AList.update n True (g_applicationNames e))" for n
    by (rule entries_update) (use assms(1) in \<open>simp_all add: named_def\<close>)
  then show ?thesis using assms(1) CallRegister
    by (auto simp: topo_step_def RegisterApplication_def Let_def named_def)
qed (use assms in \<open>simp add: topo_step_def UpdateRuntime_def named_def\<close>)

lemma good_history:
  assumes "list_all good_call cs"
  shows "engine_ok (foldl topo_step (new_engine options) cs) \<and> identified (foldl topo_step (new_engine options) cs)"
proof -
  have "list_all finite_call cs" using assms good_call_finite by (auto simp: list_all_iff)
  moreover have "named (foldl topo_step (new_engine options) cs)"
    by (rule foldl_inv [where P = named]) (use assms good_call_named new_engine_named in \<open>auto simp: list_all_iff\<close>)
  ultimately show ?thesis using topo_run_ok named_identified by blast
qed

lemma batch_calls_nonempty:
  assumes "e \<in> set es" "SpanBatch e \<noteq> None \<or> RuntimeMetrics e \<noteq> None"
  shows "batch_calls es \<noteq> []"
proof (cases "\<exists>e\<in>set es. SpanBatch e \<noteq> None")
  case True
  then obtain i b where i: "i < length es" "SpanBatch (es ! i) = Some b" by (auto simp: in_set_conv_nth)
  obtain g where g: "map_of (span_groups es) (group_key b) = Some g" using span_groups_cover [OF i] by blast
  then have "group_key b \<in> set (sortedKeys (span_groups es))"
    using keys_iff [of "group_key b" "span_groups es"] by (simp add: sortedKeys_def del: map_of_eq_Some_iff)
  then have "group_calls g \<in> set (List.map (\<lambda>k. case map_of (span_groups es) k of Some v \<Rightarrow> group_calls v | None \<Rightarrow> [])
      (sortedKeys (span_groups es)))"
    using g by (force simp del: map_of_eq_Some_iff)
  then show ?thesis by (auto simp: batch_calls_def calls_at_def group_calls_def simp del: set_map)
next
  case False
  then obtain m where m: "m \<in> set (batch_runtimes es)" using assms by (fastforce simp: batch_runtimes_def)
  have grow: "set (keys r) \<subseteq> set (keys (add_runtime m r))" "rm_ServiceName m \<in> set (keys (add_runtime m r))" for m r
    by (auto simp: keys_iff map_of_add_runtime simp del: set_map map_of_eq_Some_iff)
  have "rm_ServiceName m \<in> set (keys (foldl (\<lambda>r m. add_runtime m r) r ms))" if "m \<in> set ms \<or> rm_ServiceName m \<in> set (keys r)" for r ms
    using that
  proof (induction ms arbitrary: r)
    case (Cons x ms)
    have "m \<in> set ms \<or> rm_ServiceName m \<in> set (keys (add_runtime x r))"
      using Cons.prems grow(1) [of r x] grow(2) [of x r] by (auto simp del: set_map)
    from Cons.IH [OF this] show ?case by (simp del: set_map)
  qed simp
  then have "rm_ServiceName m \<in> set (sortedKeys (latest_runtimes es))"
    using m by (simp add: sortedKeys_def latest_runtimes_def group_envelopes_folds)
  moreover from this obtain x where "map_of (latest_runtimes es) (rm_ServiceName m) = Some x"
    by (auto simp: sortedKeys_def keys_iff simp del: set_map)
  ultimately have "[CallRuntime x] \<in> set (List.map (\<lambda>k. case map_of (latest_runtimes es) k of Some v \<Rightarrow> [CallRuntime v] | None \<Rightarrow> [])
      (sortedKeys (latest_runtimes es)))"
    by (force simp del: map_of_eq_Some_iff)
  then show ?thesis by (auto simp: batch_calls_def calls_at_def simp del: set_map)
qed

text \<open>A delivered batch survives a crash.\<close>

lemma batch_survives:
  assumes "list_all good_call cs" "ts_engine s = foldl topo_step (new_engine options) cs"
    and "list_all (admitted lib limits) es" "es \<noteq> []"
    and "ConsumeBatch es s = (Inr os, s')"
    and "ts_store s = Some (js, path)" "\<not> has_prefix path temporaryPrefix"
    and "state_codec_ok js" "checksum_present js (ts_engine s')"
    and "crash (ts_world s') w" "script w = []"
  shows "\<exists>e' w'. OpenStateStore js path options' w = (Inr e', w')
    \<and> restores options' (foldl topo_step (new_engine options) (cs @ batch_calls es)) e'"
proof -
  have "hd es \<in> set es" using assms(4) by simp
  moreover have "admitted lib limits (hd es)" using assms(3) calculation by (auto simp: list_all_iff)
  ultimately have ne: "batch_calls es \<noteq> []" using batch_calls_nonempty admitted_payload by blast
  have eff: "loop_effect s (batch_calls es) True s'" using ConsumeBatch_effect [OF assms(5)] by simp
  then have e: "ts_engine s' = foldl topo_step (new_engine options) (cs @ batch_calls es)" "ts_store s' = ts_store s"
    using assms(2) unfolding loop_effect_def served_def by (metis foldl_append)+
  have "checkpointed s'" using eff ne by (simp add: loop_effect_def)
  then obtain data where data: "checkpoint_bytes js (ts_engine s') = Some data" "installed data path (ts_world s')"
    using assms(6,7) e(2) by (auto simp: checkpointed_def on_disk_def)
  have "list_all good_call (cs @ batch_calls es)" using assms(1) batch_calls_good [OF assms(3)] by simp
  from good_history [OF this, of options] have ok: "engine_ok (ts_engine s')" "identified (ts_engine s')"
    by (simp_all add: e(1))
  show ?thesis
    using reopen_after_crash [OF assms(10,11,7) data(2), of js options']
      load_checkpoint [OF data(1) assms(8,9) ok, of options'] e(1) by auto
qed

section \<open>A demonstration\<close>

definition demo_runtime :: runtime_metrics where
  "demo_runtime = \<lparr>rm_Timestamp = Fin 1, rm_ServiceName = ''a'', rm_RSSBytes = 1, rm_HeapUsedBytes = 1,
     rm_HeapTotalBytes = 1, rm_CPUPercent = Fin 1, rm_EventLoopUtilization = Fin 1, rm_UptimeSeconds = Fin 1\<rparr>"

definition metrics_envelope :: envelope where
  "metrics_envelope = \<lparr>ProtocolVersion = ''1.0'', SpanBatch = None, RuntimeMetrics = Some demo_runtime\<rparr>"

definition demo_urls :: "nat url_library" where
  "demo_urls = \<lparr>url_parse = (\<lambda>_. None), url_string = (\<lambda>_. [])\<rparr>"

definition demo_engine :: engine where
  "demo_engine = UpdateRuntime demo_runtime (new_engine demo_options)"

definition demo_sink :: "topology_sink" where
  "demo_sink = \<lparr>ts_engine = new_engine demo_options, ts_metrics = new_collector, ts_publishes = True,
     ts_published = [], ts_store = Some (topo_codec demo_engine, ''topology.json''), ts_world = demo_disk,
     ts_running = 9, ts_suffix = (\<lambda>_. ''1''), ts_seconds = (\<lambda>_. Fin 0), ts_saves = 0\<rparr>"

lemma demo_admitted: "admitted demo_urls DefaultLimits metrics_envelope"
proof -
  have "trim_space ''a'' = ''a''" by code_simp
  then have "ValidateAndSanitize demo_urls DefaultLimits metrics_envelope = Inr metrics_envelope"
    by (simp add: ValidateAndSanitize_def metrics_envelope_def demo_runtime_def validateRuntime_def Let_def
        DefaultLimits_def finiteNonNegative_def is_nan_def is_inf_def f64_lt_def protocol_version_def)
  then show ?thesis by (auto simp: admitted_def)
qed

lemma demo_save: "Save (topo_codec demo_engine) ''topology.json'' ''1'' demo_engine demo_disk = (Inr 1, demo_disk)"
proof -
  obtain canonical where c: "marshal_state (topo_codec demo_engine) (persisted_state demo_engine) = Some canonical"
    "marshal_state (topo_codec demo_engine) (persisted_state demo_engine\<lparr>st_Checksum := crc32 canonical\<rparr>) = Some [2]"
    using topo_codec_ok(3) [of demo_engine] by (auto simp: checkpoint_bytes_def bind_eq_Some_conv)
  show ?thesis
    by (simp add: Save_def Let_def c) (simp add: demo_disk_def os_call_def os_close_def os_create_excl_def
        os_write_def os_sync_def os_rename_def temporaryPrefix_def append_file_def put_file_def drop_file_def)
qed

lemma demo_consume:
  "\<exists>s'. ConsumeBatch [metrics_envelope] demo_sink = (Inr [None], s') \<and> ts_engine s' = demo_engine \<and> ts_world s' = demo_disk"
proof -
  have e: "SpanBatch metrics_envelope = None" "RuntimeMetrics metrics_envelope = Some demo_runtime"
    "add_runtime demo_runtime [] = [(''a'', demo_runtime)]"
    by (simp_all add: metrics_envelope_def demo_runtime_def add_runtime_def)
  have k: "sortedKeys [(''a'', demo_runtime)] = [''a'']" "sortedKeys [] = []" by (simp_all add: sortedKeys_def)
  have f: "ts_store demo_sink = Some (topo_codec demo_engine, ''topology.json'')" "ts_world demo_sink = demo_disk"
    "ts_saves demo_sink = 0" "ts_suffix demo_sink 0 = ''1''" "ts_seconds demo_sink 0 = Fin 0" "ts_running demo_sink = 9"
    "UpdateRuntime demo_runtime (ts_engine demo_sink) = demo_engine"
    by (simp_all add: demo_sink_def demo_engine_def)
  have c: "sink_checkpoint (demo_sink\<lparr>ts_running := 7, ts_engine := demo_engine\<rparr>) = (None, demo_sink\<lparr>ts_running := 7,
      ts_engine := demo_engine, ts_saves := 1, ts_world := demo_disk,
      ts_metrics := ObserveTopologyCheckpoint (Fin 0) 1 (ts_metrics demo_sink)\<rparr>)"
    using demo_save by (simp add: sink_checkpoint_def Let_def f)
  show ?thesis
    by (simp add: ConsumeBatch_def e k sink_running_def Let_def f c)
qed

section \<open>Properties\<close>

text \<open>C25: (safety) A batch that the topology sink reports as delivered survives a crash: the engine that is
  restored from disk is the one that has served every call of the history and of the batch.
  The history is any sequence of registrations, runtime metrics and ingested spans that passed
  validation, complete or cut off by earlier failures. One worker is in the sink, and the checksum of its last
  checkpoint is not 0, which the store would refuse.\<close>

theorem delivered_batch_survives:
  assumes "list_all good_call cs" "ts_engine s = foldl topo_step (new_engine options) cs"
    and "list_all (admitted lib limits) es" "es \<noteq> []"
    and "ConsumeBatch es s = (Inr os, s')"
    and "ts_store s = Some (js, path)" "\<not> has_prefix path temporaryPrefix"
    and "state_codec_ok js" "checksum_present js (ts_engine s')"
    and "crash (ts_world s') w" "script w = []"
  shows "\<exists>e' w'. OpenStateStore js path options' w = (Inr e', w')
    \<and> restores options' (foldl topo_step (new_engine options) (cs @ batch_calls es)) e'"
  by (rule batch_survives [OF assms])

theorem delivered_batch_survives_witness:
  "\<exists>e' w'. OpenStateStore (topo_codec demo_engine) ''topology.json'' demo_options demo_disk = (Inr e', w')
     \<and> restores demo_options (foldl topo_step (new_engine demo_options) (batch_calls [metrics_envelope])) e'"
proof -
  obtain s' where s': "ConsumeBatch [metrics_envelope] demo_sink = (Inr [None], s')" "ts_engine s' = demo_engine"
    "ts_world s' = demo_disk" using demo_consume by blast
  have k: "crash demo_disk demo_disk" by (auto simp: crash_def demo_disk_def cut_file_def)
  have p: "\<not> has_prefix ''topology.json'' temporaryPrefix" by (simp add: has_prefix_def temporaryPrefix_def)
  show ?thesis
    using delivered_batch_survives [of "[]" demo_sink demo_options demo_urls DefaultLimits "[metrics_envelope]" "[None]" s'
        "topo_codec demo_engine" "''topology.json''" demo_disk demo_options] s' k p topo_codec_ok demo_admitted
    by (simp add: demo_sink_def demo_disk_def)
qed

text \<open>C26: (error) Whatever stops the sink in the middle of a batch (the context, a failed checkpoint), the
  engine has served a prefix of the batch's calls, and the checkpoint on disk is the one from
  before the batch or that of the engine after some prefix of its calls.\<close>

theorem sink_failure_is_partial:
  assumes "ConsumeBatch es s = (r, s')" "ts_store s = Some (js, path)" "\<not> has_prefix path temporaryPrefix"
  shows "\<exists>n. ts_engine s' = foldl topo_step (ts_engine s) (take n (batch_calls es))
    \<and> (lookup_file (ts_world s') path = lookup_file (ts_world s) path
       \<or> (\<exists>k\<le>n. on_disk js path (foldl topo_step (ts_engine s) (take k (batch_calls es))) (ts_world s')))
    \<and> (\<forall>os. r = Inr os \<longrightarrow> take n (batch_calls es) = batch_calls es)"
proof -
  obtain n where n: "served s (take n (batch_calls es)) s'" "(\<exists>os. r = Inr os) \<longrightarrow> take n (batch_calls es) = batch_calls es"
    using ConsumeBatch_effect [OF assms(1)] by (auto simp: loop_effect_def)
  have "\<exists>k\<le>n. on_disk js path (foldl topo_step (ts_engine s) (take k (batch_calls es))) (ts_world s')"
    if "on_disk js path (foldl topo_step (ts_engine s) (take m (take n (batch_calls es)))) (ts_world s')" for m
    using that by (intro exI [of _ "min m n"]) simp
  then show ?thesis using n assms(2,3) unfolding served_def by blast
qed

theorem sink_failure_is_partial_witness:
  "\<exists>n. ts_engine (snd (ConsumeBatch [metrics_envelope] demo_sink))
     = foldl topo_step (ts_engine demo_sink) (take n (batch_calls [metrics_envelope]))"
  using sink_failure_is_partial [of "[metrics_envelope]" demo_sink _ _ "topo_codec demo_engine" "''topology.json''"]
  by (cases "ConsumeBatch [metrics_envelope] demo_sink")
    (auto simp: demo_sink_def has_prefix_def temporaryPrefix_def)

text \<open>The outcomes of a delivered batch: one per envelope, none for runtime metrics, and for
  spans the revision of the engine right after the call that ingested them.\<close>

theorem outcomes_acknowledge_spans:
  assumes "ConsumeBatch es s = (Inr os, s')" "i < length es"
  shows "length os = length es \<and> (case SpanBatch (es ! i) of
      None \<Rightarrow> os ! i = None
    | Some b \<Rightarrow> acknowledged_at (ts_engine s) (batch_calls es) (sb_Spans b) (os ! i))"
  using ConsumeBatch_outcomes [OF assms(1)] assms(2) by blast

theorem outcomes_acknowledge_spans_witness:
  "\<exists>os. fst (ConsumeBatch [metrics_envelope] demo_sink) = Inr os \<and> os ! 0 = None"
proof -
  obtain s' where s': "ConsumeBatch [metrics_envelope] demo_sink = (Inr [None], s')" using demo_consume by blast
  show ?thesis
    using outcomes_acknowledge_spans [OF s', of 0] s' by (simp add: metrics_envelope_def)
qed

text \<open>How a batch is grouped: the group of a service and version has the spans of exactly its
  batches, in the order of the envelopes, and their indexes; for each service the runtime
  metrics with the latest timestamp are kept, the last of them if there are several.\<close>

theorem batch_is_grouped:
  assumes "\<forall>m\<in>set (batch_runtimes es). finite_f64 (rm_Timestamp m)"
  shows "map_of (span_groups es) k = group_for (filter (\<lambda>(_, b). group_key b = k) (indexed_batches 0 es))
    \<and> (\<forall>m. map_of (latest_runtimes es) name = Some m \<longrightarrow>
         latest_of (filter (\<lambda>m. rm_ServiceName m = name) (batch_runtimes es)) m)"
  using span_groups_spec(2) latest_runtimes_spec [OF assms] by blast

theorem batch_is_grouped_witness:
  "latest_of (filter (\<lambda>m. rm_ServiceName m = ''a'') (batch_runtimes [metrics_envelope])) demo_runtime"
proof -
  have l: "map_of (latest_runtimes [metrics_envelope]) ''a'' = Some demo_runtime"
    by (simp add: latest_runtimes_def metrics_envelope_def demo_runtime_def add_runtime_def)
  have "\<forall>m\<in>set (batch_runtimes [metrics_envelope]). finite_f64 (rm_Timestamp m)"
    by (simp add: batch_runtimes_def metrics_envelope_def demo_runtime_def finite_f64_Fin)
  from batch_is_grouped [OF this] l show ?thesis by blast
qed

end
