(* ===== verification/Pipeline_Delivery.thy ===== *)
theory Pipeline_Delivery
  imports Pipeline_Liveness Storage_Pipeline Sink_Properties
begin

text \<open>
  The worker between the write-ahead log and the topology sink: what the log forgets, the checkpoint
  of the topology has.
\<close>

section \<open>The sink during a run\<close>

lemma sink_simps [simp]: "w_sink (tally f w) = w_sink w" "w_sink (log_call c w) = w_sink w"
  "w_sink (finish batch os err w) = w_sink w"
  by (simp_all add: tally_def log_call_def finish_def releaseRecords_def complete_def)

lemma ack_sink: "ackDurableBatch st batch w = (r, w') \<Longrightarrow> w_sink w' = w_sink w"
proof (induction st batch w arbitrary: r w' rule: ackDurableBatch.induct)
  case (1 st batch w)
  obtain e s' where a: "op_Ack st (durableRecords batch) (w_storage w) = (e, s')" by fastforce
  show ?case
  proof (cases e)
    case None
    then show ?thesis using 1(2) a by (subst (asm) ackDurableBatch.simps) auto
  next
    case (Some err)
    obtain b w2 where c: "consult (tally RecordError (log_call (Acked (item_ids batch) (Some err)) (w\<lparr>w_storage := s'\<rparr>))) = (b, w2)"
      by fastforce
    note f = consult_fields [OF c]
    show ?thesis
    proof (cases b)
      case False
      then show ?thesis using 1(2) a Some c f by (subst (asm) ackDurableBatch.simps) auto
    next
      case True
      then have "ackDurableBatch st batch w2 = (r, w')"
        using 1(2) a Some c by (subst (asm) ackDurableBatch.simps) simp
      from 1(1) [OF a [symmetric] Some c [symmetric] _ this] True f show ?thesis by simp
    qed
  qed
qed

lemma quarantine_sink: "quarantineDurableBatch st batch e w = (r, w') \<Longrightarrow> w_sink w' = w_sink w"
proof (induction st batch e w arbitrary: r w' rule: quarantineDurableBatch.induct)
  case (1 st batch e w)
  let ?reason = "quarantine_reason e"
  obtain q s' where a: "op_Quarantine st (durableRecords batch) ?reason (w_storage w) = (q, s')" by fastforce
  show ?case
  proof (cases q)
    case None
    then show ?thesis using 1(2) a by (subst (asm) quarantineDurableBatch.simps) (auto simp: Let_def)
  next
    case (Some err)
    obtain b w2 where c: "consult (tally RecordError (log_call (Quarantined (item_ids batch) ?reason (Some err)) (w\<lparr>w_storage := s'\<rparr>))) = (b, w2)"
      by fastforce
    note f = consult_fields [OF c]
    show ?thesis
    proof (cases b)
      case False
      then show ?thesis using 1(2) a Some c f by (subst (asm) quarantineDurableBatch.simps) (auto simp: Let_def)
    next
      case True
      then have "quarantineDurableBatch st batch e w2 = (r, w')"
        using 1(2) a Some c by (subst (asm) quarantineDurableBatch.simps) (simp add: Let_def)
      from 1(1) [OF refl a [symmetric] Some c [symmetric] _ this] True f show ?thesis by simp
    qed
  qed
qed

lemma retry_sink: "retryDurableBatch st batch w = (e, b, w') \<Longrightarrow> w_sink w' = w_sink w"
  by (auto simp: retryDurableBatch_def split: prod.splits option.splits)

lemma deliver_sink:
  assumes "deliver sink batch w = (r, w1)"
  shows "sink (List.map it_envelope batch) (w_sink w) = (r, w_sink w1)"
  using assms by (auto simp: deliver_def Let_def split: prod.splits)

lemma failure_sink:
  assumes "after_failure rc st batch e w = (r, w')"
  shows "(r = None \<longrightarrow> w_sink w' = w_sink w \<and> (\<exists>cs. w_calls w' = w_calls w @ cs \<and> filter is_delivery cs = []))
    \<and> (\<forall>b w1. r = Some (b, w1) \<longrightarrow> w_sink w1 = w_sink w \<and> (\<exists>cs. w_calls w1 = w_calls w @ cs \<and> filter is_delivery cs = [])
         \<and> List.map it_envelope b = List.map it_envelope batch)"
proof -
  obtain b1 w1 where c1: "consult w = (b1, w1)" by fastforce
  note f1 = consult_fields [OF c1]
  obtain q w2 where q: "quarantineDurableBatch st batch e w1 = (q, w2)" by fastforce
  obtain cs where cs: "w_calls w2 = w_calls w1 @ cs" "list_all (quarantining (item_ids batch) (quarantine_reason e)) cs"
    using quarantine_calls [OF q] by blast
  then have nq: "filter is_delivery cs = []" using no_delivery by blast
  obtain se b w3 where m: "retryDurableBatch st batch w1 = (se, b, w3)" by (metis prod.exhaust)
  have wr: "List.map it_envelope (with_records batch rs) = List.map it_envelope batch" for rs
    by (induction batch rs rule: with_records.induct) simp_all
  have f3: "w_sink w3 = w_sink w1" "\<exists>cs. w_calls w3 = w_calls w1 @ cs \<and> filter is_delivery cs = []"
    "List.map it_envelope b = List.map it_envelope batch"
    using m retry_sink [OF m] wr by (auto simp: retryDurableBatch_def split: prod.splits option.splits)
  obtain b4 w4 where c4: "consult w3 = (b4, w4)" by fastforce
  note f4 = consult_fields [OF c4]
  show ?thesis
    using assms c1 f1 q quarantine_sink [OF q] cs(1) nq m f3 c4 f4
    by (auto simp: after_failure_def split: bool.splits if_splits option.splits)
qed

text \<open>A property \<open>P\<close> of the sink that deliveries of the batch keep holds in the end, and what a
  successful delivery brings about holds when one succeeded: it was the last.\<close>

lemma work_loop_sink:
  assumes keep: "\<And>k r k'. P k \<Longrightarrow> sink (List.map it_envelope batch) k = (r, k') \<Longrightarrow> P k' \<and> (\<forall>os. r = Inr os \<longrightarrow> Q k')"
    and "P (w_sink w)"
  shows "\<exists>cs. w_calls (work_loop True rc st sink batch w) = w_calls w @ cs
    \<and> P (w_sink (work_loop True rc st sink batch w))
    \<and> (\<forall>es. Delivered es None \<in> set cs \<longrightarrow> Q (w_sink (work_loop True rc st sink batch w)))"
  using assms
proof (induction "w_running w" arbitrary: w batch rule: less_induct)
  case less
  obtain r w1 where d: "deliver sink batch w = (r, w1)" by fastforce
  note df = deliver_fields [OF d] and k = less.prems(1) [OF less.prems(2) deliver_sink [OF d]]
  show ?case
  proof (cases r)
    case (Inr outcomes)
    obtain a w2 where a: "ackDurableBatch st batch w1 = (a, w2)" by fastforce
    obtain cs where "w_calls w2 = w_calls w1 @ cs" using ack_calls [OF a] by blast
    then show ?thesis
      using d Inr a df k ack_sink [OF a]
      by (subst (1 2 3) work_loop.simps) (simp split: option.split)
  next
    case (Inl e)
    obtain x w3 where f: "after_failure rc st batch e (tally RecordError w1) = (x, w3)" by fastforce
    note ff = failure_sink [OF f]
    have nd: "Delivered es None \<notin> set (Delivered es' (Some e) # cs)" if "filter is_delivery cs = []" for es es' cs
    proof
      assume "Delivered es None \<in> set (Delivered es' (Some e) # cs)"
      then have "Delivered es None \<in> set (filter is_delivery cs)" by simp
      then show False using that by simp
    qed
    show ?thesis
    proof (cases x)
      case None
      then have loop: "work_loop True rc st sink batch w = w3"
        using d Inl f by (simp add: work_loop.simps [of True rc st sink batch w])
      obtain cs where cs: "w_calls w3 = w_calls w1 @ cs" "filter is_delivery cs = []" "w_sink w3 = w_sink w1"
        using ff None by auto
      show ?thesis
        unfolding loop using cs df Inl k nd [OF cs(2)]
        by (intro exI [of _ "Delivered (List.map it_envelope batch) (Some e) # cs"]) simp
    next
      case (Some y)
      then obtain batch' w4 where y: "x = Some (batch', w4)" by fastforce
      then have loop: "work_loop True rc st sink batch w = work_loop True rc st sink batch' w4"
        using d Inl f by (simp add: work_loop.simps [of True rc st sink batch w])
      obtain cs where cs: "w_calls w4 = w_calls w1 @ cs" "filter is_delivery cs = []" "w_sink w4 = w_sink w1"
        "List.map it_envelope batch' = List.map it_envelope batch"
        using ff y by auto
      have n: "w_running w4 < w_running w"
        using after_failure_running [OF f [unfolded y]] deliver_running [OF d] by simp
      have "P (w_sink w4)" using k cs by simp
      from less.hyps [OF n _ this, of batch'] less.prems(1) cs(4)
      obtain cs' where "w_calls (work_loop True rc st sink batch' w4) = w_calls w4 @ cs'"
        "P (w_sink (work_loop True rc st sink batch' w4))"
        "\<forall>es. Delivered es None \<in> set cs' \<longrightarrow> Q (w_sink (work_loop True rc st sink batch' w4))"
        by auto
      then show ?thesis
        unfolding loop using cs df Inl nd [OF cs(2)]
        by (intro exI [of _ "Delivered (List.map it_envelope batch) (Some e) # cs @ cs'"]) auto
    qed
  qed
qed

section \<open>The topology sink over a history\<close>

definition history_sink :: "topo_options \<Rightarrow> topo_call list \<Rightarrow> state_codec \<times> string \<Rightarrow> topology_sink \<Rightarrow> bool" where
  "history_sink options cs store s \<longleftrightarrow> list_all good_call cs \<and> ts_store s = Some store
     \<and> ts_engine s = foldl topo_step (new_engine options) cs"

lemma consume_history:
  assumes "ConsumeBatch es s = (r, s')" "history_sink options cs store s" "list_all (admitted lib limits) es"
  shows "\<exists>n. history_sink options (cs @ take n (batch_calls es)) store s'"
proof -
  obtain n where n: "served s (take n (batch_calls es)) s'"
    using ConsumeBatch_effect [OF assms(1)] by (auto simp: loop_effect_def)
  have "list_all good_call (take n (batch_calls es))"
    using batch_calls_good [OF assms(3)] by (meson in_set_takeD list_all_iff)
  then show ?thesis using assms(2) n unfolding history_sink_def served_def by (metis foldl_append list_all_append)
qed

text \<open>The sink after a delivery of the batch that succeeded.\<close>

definition delivered_sink :: "topo_options \<Rightarrow> topo_call list \<Rightarrow> state_codec \<times> string \<Rightarrow> envelope list \<Rightarrow> topology_sink \<Rightarrow> bool" where
  "delivered_sink options cs store es s' \<longleftrightarrow>
     (\<exists>cs' s os. history_sink options (cs @ cs') store s \<and> ConsumeBatch es s = (Inr os, s'))"

lemma worker_sink:
  assumes "history_sink options cs store (w_sink w)" "list_all (admitted lib limits) (List.map it_envelope batch)"
  shows "\<exists>calls. w_calls (work_loop True rc st ConsumeBatch batch w) = w_calls w @ calls
    \<and> (\<forall>es. Delivered es None \<in> set calls \<longrightarrow>
         delivered_sink options cs store (List.map it_envelope batch) (w_sink (work_loop True rc st ConsumeBatch batch w)))"
proof -
  let ?es = "List.map it_envelope batch"
  let ?P = "\<lambda>s. \<exists>cs'. history_sink options (cs @ cs') store s"
  have "?P s' \<and> (\<forall>os. r = Inr os \<longrightarrow> delivered_sink options cs store ?es s')"
    if P: "?P s" and run: "ConsumeBatch ?es s = (r, s')" for s r s'
  proof -
    obtain cs' where h: "history_sink options (cs @ cs') store s" using P by blast
    then have "?P s'" using consume_history [OF run h assms(2)] by (metis append_assoc)
    then show ?thesis using h run unfolding delivered_sink_def by blast
  qed
  moreover have "?P (w_sink w)" using assms(1) by (metis append_Nil2)
  ultimately show ?thesis
    using work_loop_sink [of ?P ConsumeBatch batch "delivered_sink options cs store ?es" w rc st] by blast
qed

section \<open>The composition\<close>

text \<open>The topology restored from disk has served a history that ends with the batch.\<close>

definition batch_on_disk :: "topo_options \<Rightarrow> topo_call list \<Rightarrow> envelope list \<Rightarrow> state_codec \<times> string \<Rightarrow> world \<Rightarrow> bool" where
  "batch_on_disk options cs es store w \<longleftrightarrow> (\<forall>w1 options'. crash w w1 \<and> script w1 = [] \<longrightarrow>
     (\<exists>e w2 cs'. OpenStateStore (fst store) (snd store) options' w1 = (Inr e, w2)
        \<and> restores options' (foldl topo_step (new_engine options) (cs @ cs' @ batch_calls es)) e))"

lemma delivered_sink_on_disk:
  assumes "delivered_sink options cs store es s'" "list_all (admitted lib limits) es" "es \<noteq> []"
    and "state_codec_ok (fst store)" "checksum_present (fst store) (ts_engine s')" "\<not> has_prefix (snd store) temporaryPrefix"
  shows "batch_on_disk options cs es store (ts_world s')"
proof -
  obtain cs' s os where h: "history_sink options (cs @ cs') store s" "ConsumeBatch es s = (Inr os, s')"
    using assms(1) unfolding delivered_sink_def by blast
  have "\<exists>e w2. OpenStateStore (fst store) (snd store) options' w1 = (Inr e, w2)
      \<and> restores options' (foldl topo_step (new_engine options) ((cs @ cs') @ batch_calls es)) e"
    if "crash (ts_world s') w1" "script w1 = []" for w1 options'
    by (rule batch_survives [OF _ _ assms(2,3) h(2) _ assms(6,4,5) that])
      (use h(1) in \<open>simp_all add: history_sink_def\<close>)
  then show ?thesis unfolding batch_on_disk_def append_assoc by blast
qed

section \<open>A demonstration\<close>

definition demo_telemetry_item :: item where
  "demo_telemetry_item = \<lparr>it_envelope = metrics_envelope, it_result = None,
     it_record = Some \<lparr>RecordID = 1, Attempts = 1, EnqueuedAt = 7, Envelope = metrics_envelope\<rparr>\<rparr>"

definition delivery_work :: "(WAL, topology_sink) work_state" where
  "delivery_work = \<lparr>w_storage = demo_active, w_sink = demo_sink, w_running = 9, w_metrics = new_collector, w_results = [],
     w_released = [], w_calls = [], w_elapsed = (\<lambda>_. Fin 0)\<rparr>"

definition demo_retry :: retry_config where
  "demo_retry = \<lparr>rc_InitialBackoff = 1, rc_MaxBackoff = 1, rc_MaxAttempts = 5, rc_Jitter = Fin 0\<rparr>"

lemma demo_ack:
  assumes "RecordID r = 1"
  shows "\<exists>w'. Ack [r] demo_active = (None, w')"
proof -
  have "fst (writeRecordStates [r] StateAck walReasonNone False demo_active) = None"
    using assms by (simp add: writeRecordStates_def write_batch_def add_entry_def Let_def
        os_write_def lift_io_def os_sync_def)
  then show ?thesis unfolding Ack_def by (cases "writeRecordStates [r] StateAck walReasonNone False demo_active") auto
qed

lemma demo_telemetry_run:
  obtains w' s' where "work_loop True demo_retry (wal_storage demo_codec 7) ConsumeBatch [demo_telemetry_item] delivery_work = w'"
    "Ack [the (it_record demo_telemetry_item)] demo_active = (None, w_storage w')"
    "ConsumeBatch [metrics_envelope] demo_sink = (Inr [None], s')" "w_sink w' = s'" "ts_engine s' = demo_engine"
    "ts_world s' = demo_disk" "w_calls w' = [Delivered [metrics_envelope] None, Acked [1] None]"
proof -
  let ?r = "the (it_record demo_telemetry_item)"
  obtain wa where a: "Ack [?r] demo_active = (None, wa)" using demo_ack [of ?r] by (auto simp: demo_telemetry_item_def)
  obtain s' where s: "ConsumeBatch [metrics_envelope] demo_sink = (Inr [None], s')" "ts_engine s' = demo_engine"
    "ts_world s' = demo_disk" using demo_consume by blast
  let ?w1 = "tally WorkerStopped (log_call (Delivered [metrics_envelope] None) ((tally WorkerStarted delivery_work)\<lparr>w_sink := s'\<rparr>))"
  have i: "it_envelope demo_telemetry_item = metrics_envelope" "durableRecords [demo_telemetry_item] = [?r]"
    "item_ids [demo_telemetry_item] = [1]"
    by (simp_all add: demo_telemetry_item_def item_ids_def)
  have d: "deliver ConsumeBatch [demo_telemetry_item] delivery_work = (Inr [None], ?w1)"
    using s by (simp add: deliver_def Let_def i) (simp add: delivery_work_def tally_def)
  have st: "w_storage ?w1 = demo_active" by (simp add: delivery_work_def tally_def log_call_def)
  have k: "ackDurableBatch (wal_storage demo_codec 7) [demo_telemetry_item] ?w1
      = (None, log_call (Acked [1] None) (?w1\<lparr>w_storage := wa\<rparr>))"
    using a by (subst ackDurableBatch.simps) (simp only: i st wal_storage_def storage_ops.simps, simp)
  let ?w' = "work_loop True demo_retry (wal_storage demo_codec 7) ConsumeBatch [demo_telemetry_item] delivery_work"
  have w': "?w' = finish [demo_telemetry_item] [None] None
      (tally (RecordProcessed (batchEventCount [demo_telemetry_item])) (log_call (Acked [1] None) (?w1\<lparr>w_storage := wa\<rparr>)))"
    by (subst work_loop.simps) (simp only: d k prod.case sum.case option.case if_True)
  show ?thesis
    by (rule that [of ?w' s', OF refl]) (use a s w' in \<open>simp_all add: delivery_work_def log_call_def tally_def\<close>)
qed

section \<open>The property\<close>

text \<open>C1: (safety) What leaves the log without being quarantined is in the topology: when the worker is done with a
  batch, every record that the write-ahead log would not deliver again either was quarantined, or
  the checkpoint of the topology on disk, whatever a crash loses, restores an engine that has
  served the whole batch. The worker is alone with log and sink, and the checksum of its last checkpoint
  is not 0, which the store would refuse.\<close>

theorem settled_telemetry_is_in_the_topology:
  assumes "wal_inv (w_storage w)" "held wal_attempts (w_storage w) (durableRecords batch)" "durable_batch batch"
    and "rc_MaxAttempts rc \<le> cfg_MaxRecordAttempts (w_config (w_storage w))"
    and "w' = work_loop True rc (wal_storage js now) ConsumeBatch batch w"
    and "history_sink options cs store (w_sink w)" "list_all (admitted lib limits) (List.map it_envelope batch)"
    and "state_codec_ok (fst store)" "checksum_present (fst store) (ts_engine (w_sink w'))"
    and "\<not> has_prefix (snd store) temporaryPrefix"
    and "i \<in> set (item_ids batch)" "wal_attempts (w_storage w') i = None"
  shows "(\<exists>reason r. Quarantined (item_ids batch) reason r \<in> set (drop (length (w_calls w)) (w_calls w')))
    \<or> batch_on_disk options cs (List.map it_envelope batch) store (ts_world (w_sink w'))"
proof -
  let ?m = "cfg_MaxRecordAttempts (w_config (w_storage w))"
  have "wal_ready ?m (w_storage w)" using assms(1) by (simp add: wal_ready_def)
  from wal.work_loop_worked [OF this assms(2-4), where js = js and now = now and sink = ConsumeBatch]
  obtain calls where c: "w_calls w' = w_calls w @ calls"
    "Delivered (List.map it_envelope batch) None \<in> set calls
       \<or> (\<exists>reason r. Quarantined (item_ids batch) reason r \<in> set calls)"
    using assms(11,12) unfolding worked_def assms(5) [symmetric] by blast
  have "delivered_sink options cs store (List.map it_envelope batch) (w_sink w')"
    if "Delivered (List.map it_envelope batch) None \<in> set calls"
    using worker_sink [OF assms(6,7), of rc "wal_storage js now"] c(1) that unfolding assms(5) by auto
  moreover have "List.map it_envelope batch \<noteq> []" using assms(3) by (simp add: durable_batch_def)
  ultimately show ?thesis
    using delivered_sink_on_disk [OF _ assms(7) _ assms(8-10)] c by auto
qed

theorem settled_telemetry_is_in_the_topology_witness:
  "\<exists>w'. w' = work_loop True demo_retry (wal_storage demo_codec 7) ConsumeBatch [demo_telemetry_item] delivery_work
    \<and> batch_on_disk demo_options [] [metrics_envelope] (topo_codec demo_engine, ''topology.json'') (ts_world (w_sink w'))"
proof -
  obtain w' s' where run: "work_loop True demo_retry (wal_storage demo_codec 7) ConsumeBatch [demo_telemetry_item] delivery_work = w'"
    "Ack [the (it_record demo_telemetry_item)] demo_active = (None, w_storage w')"
    "w_sink w' = s'" "ts_engine s' = demo_engine" "w_calls w' = [Delivered [metrics_envelope] None, Acked [1] None]"
    by (rule demo_telemetry_run)
  have sel: "w_storage delivery_work = demo_active" "w_sink delivery_work = demo_sink" "w_calls delivery_work = []"
    "List.map it_envelope [demo_telemetry_item] = [metrics_envelope]" "item_ids [demo_telemetry_item] = [1]"
    "durableRecords [demo_telemetry_item] = [the (it_record demo_telemetry_item)]" "durable_batch [demo_telemetry_item]"
    by (simp_all add: delivery_work_def demo_telemetry_item_def item_ids_def durable_batch_def)
  have h: "held wal_attempts demo_active [the (it_record demo_telemetry_item)]"
    by (simp add: held_def wal_attempts_def demo_telemetry_item_def)
  have "wal_attempts (w_storage w') 1 = None"
    using wal.ack [of 5 demo_active "[the (it_record demo_telemetry_item)]" "demo_codec" 7 None "w_storage w'"]
      run(2) demo_active_inv
    by (simp add: wal_ready_def demo_config_def wal_storage_def demo_telemetry_item_def)
  moreover have "history_sink demo_options [] (topo_codec demo_engine, ''topology.json'') demo_sink"
    by (simp add: history_sink_def demo_sink_def)
  moreover have "\<not> has_prefix ''topology.json'' temporaryPrefix" by (simp add: has_prefix_def temporaryPrefix_def)
  ultimately have "batch_on_disk demo_options [] [metrics_envelope] (topo_codec demo_engine, ''topology.json'') (ts_world (w_sink w'))"
    using settled_telemetry_is_in_the_topology [of delivery_work "[demo_telemetry_item]" demo_retry w' demo_codec 7 demo_options "[]"
        "(topo_codec demo_engine, ''topology.json'')" demo_urls DefaultLimits 1]
      run(1) [symmetric] run(3-5) h sel demo_active_inv demo_admitted topo_codec_ok
    by (simp add: demo_retry_def demo_config_def)
  then show ?thesis using run(1) by metis
qed

end
