(* ===== verification/Collector_Config.thy ===== *)
theory Collector_Config
  imports Go_Strings Pipeline_Base Wal_Recovery
begin

text \<open>
  The collector's settings (\<open>runtime/go/internal/config/config.go\<close>) and what
  \<open>cmd/nodeflow-collector/main.go\<close> makes of them for the log and the pipeline. The environment is a
  function from names to values, empty where a variable is not set. \<open>strconv.ParseFloat\<close> is a
  parameter; \<open>strconv.ParseInt\<close>, \<open>time.ParseDuration\<close> and \<open>filepath.Join\<close> are those of Go on a 64-bit
  Unix.
\<close>

section \<open>Numbers and durations\<close>

definition wrap64 :: "int \<Rightarrow> int" where
  "wrap64 i = (i + 2 ^ 63) mod 2 ^ 64 - 2 ^ 63"

lemma wrap64_id: "- (2 ^ 63) \<le> i \<Longrightarrow> i < 2 ^ 63 \<Longrightarrow> wrap64 i = i"
  by (simp add: wrap64_def)

text \<open>\<open>strconv.ParseInt(s, 10, 64)\<close>.\<close>

definition parse_int :: "string \<Rightarrow> int option" where
  "parse_int s =
     (let neg = (s \<noteq> [] \<and> hd s = CHR ''-'');
          digits = (if s \<noteq> [] \<and> (hd s = CHR ''-'' \<or> hd s = CHR ''+'') then tl s else s)
      in case parse_uint digits of
           None \<Rightarrow> None
         | Some n \<Rightarrow> if neg then (if n \<le> 2 ^ 63 then Some (- int n) else None)
             else if n < 2 ^ 63 then Some (int n) else None)"

text \<open>\<open>leadingInt\<close> and \<open>leadingFraction\<close> of package \<open>time\<close>.\<close>

fun leading_int :: "nat \<Rightarrow> string \<Rightarrow> (nat \<times> string) option" where
  "leading_int x [] = Some (x, [])"
| "leading_int x (c # s) =
     (if \<not> is_digit c then Some (x, c # s)
      else if x > 2 ^ 63 div 10 \<or> x * 10 + digit_val c > 2 ^ 63 then None
      else leading_int (x * 10 + digit_val c) s)"

fun leading_fraction :: "nat \<Rightarrow> f64 \<Rightarrow> bool \<Rightarrow> string \<Rightarrow> nat \<times> f64 \<times> string" where
  "leading_fraction x scale overflow [] = (x, scale, [])"
| "leading_fraction x scale overflow (c # s) =
     (if \<not> is_digit c then (x, scale, c # s)
      else if overflow \<or> x > (2 ^ 63 - 1) div 10 \<or> x * 10 + digit_val c > 2 ^ 63
      then leading_fraction x scale True s
      else leading_fraction (x * 10 + digit_val c) (f64_mul scale (Fin 10)) False s)"

definition unit_nanoseconds :: "string \<Rightarrow> nat option" where
  "unit_nanoseconds u = map_of [(''ns'', 1), (''us'', 1000), (bytes_of [0xC2, 0xB5] @ ''s'', 1000),
     (bytes_of [0xCE, 0xBC] @ ''s'', 1000), (''ms'', 1000000), (''s'', 1000000000),
     (''m'', 60000000000), (''h'', 3600000000000)] u"

definition in_number :: "char \<Rightarrow> bool" where
  "in_number c \<longleftrightarrow> c = CHR ''.'' \<or> is_digit c"

text \<open>The digits after a point, if there is a point: their value, its scale, whether there was any,
  and the rest.\<close>

definition fraction_part :: "string \<Rightarrow> nat \<times> f64 \<times> bool \<times> string" where
  "fraction_part s =
     (if s \<noteq> [] \<and> hd s = CHR ''.''
      then (case leading_fraction 0 (Fin 1) False (tl s) of (f, scale, rest) \<Rightarrow> (f, scale, rest \<noteq> tl s, rest))
      else (0, Fin 1, False, s))"

text \<open>One number with its unit, in nanoseconds.\<close>

definition duration_part :: "string \<Rightarrow> (nat \<times> string) option" where
  "duration_part s =
     (if s = [] \<or> \<not> in_number (hd s) then None
      else case leading_int 0 s of
        None \<Rightarrow> None
      | Some (v, s1) \<Rightarrow>
          (case fraction_part s1 of (f, scale, post, s2) \<Rightarrow>
            let u = takeWhile (\<lambda>c. \<not> in_number c) s2; s3 = dropWhile (\<lambda>c. \<not> in_number c) s2
            in if s1 = s \<and> \<not> post then None
               else if u = [] then None
               else (case unit_nanoseconds u of
                       None \<Rightarrow> None
                     | Some unit \<Rightarrow>
                         if v > 2 ^ 63 div unit then None
                         else let w = v * unit + (if f > 0
                                then nat (int_of_f64 (f64_mul (f64_of_int (int f)) (f64_div (f64_of_int (int unit)) scale)))
                                else 0)
                              in if f > 0 \<and> w > 2 ^ 63 then None else Some (w, s3))))"

lemma leading_int_length: "leading_int x s = Some (v, r) \<Longrightarrow> length r \<le> length s"
  by (induction x s rule: leading_int.induct) (auto split: if_splits)

lemma leading_fraction_length: "leading_fraction x sc b s = (v, sc', r) \<Longrightarrow> length r \<le> length s"
  by (induction x sc b s rule: leading_fraction.induct) (auto split: if_splits)

lemma fraction_part_length: "fraction_part s = (f, sc, p, r) \<Longrightarrow> length r \<le> length s"
  by (auto simp: fraction_part_def split: if_splits prod.splits dest!: leading_fraction_length)

lemma duration_part_shorter:
  assumes "duration_part s = Some (w, r)"
  shows "length r < length s"
proof -
  obtain v s1 where 1: "leading_int 0 s = Some (v, s1)"
    using assms by (auto simp: duration_part_def split: if_splits option.splits)
  obtain f sc p s2 where 2: "fraction_part s1 = (f, sc, p, s2)" by (metis prod.exhaust)
  have "takeWhile (\<lambda>c. \<not> in_number c) s2 \<noteq> []" "r = dropWhile (\<lambda>c. \<not> in_number c) s2"
    using assms 1 2 by (auto simp: duration_part_def Let_def split: if_splits option.splits)
  then have "length r < length s2"
    by (metis append_Nil length_dropWhile_le le_neq_implies_less takeWhile_dropWhile_id
        append_eq_append_conv)
  then show ?thesis using leading_int_length [OF 1] fraction_part_length [OF 2] by simp
qed

function duration_sum :: "nat \<Rightarrow> string \<Rightarrow> nat option" where
  "duration_sum d s =
     (if s = [] then Some d
      else case duration_part s of
        None \<Rightarrow> None
      | Some (w, r) \<Rightarrow> if d + w > 2 ^ 63 then None else duration_sum (d + w) r)"
  by pat_completeness auto

termination
  by (relation "measure (\<lambda>(d, s). length s)") (auto dest: duration_part_shorter)

declare duration_sum.simps [simp del]

text \<open>\<open>time.ParseDuration\<close>, in nanoseconds. The sums of the code are below \<open>2 ^ 64\<close>.\<close>

definition parse_duration :: "string \<Rightarrow> int option" where
  "parse_duration s =
     (let neg = (s \<noteq> [] \<and> hd s = CHR ''-'');
          t = (if s \<noteq> [] \<and> (hd s = CHR ''-'' \<or> hd s = CHR ''+'') then tl s else s)
      in if t = ''0'' then Some 0
         else if t = [] then None
         else case duration_sum 0 t of
           None \<Rightarrow> None
         | Some d \<Rightarrow> if neg then Some (- int d) else if d > 2 ^ 63 - 1 then None else Some (int d))"

section \<open>filepath.Join\<close>

definition clean_step :: "bool \<Rightarrow> string list \<Rightarrow> string \<Rightarrow> string list" where
  "clean_step rooted out e =
     (if e = [] \<or> e = ''.'' then out
      else if e = ''..''
      then (if out \<noteq> [] \<and> last out \<noteq> ''..'' then butlast out else if rooted then out else out @ [e])
      else out @ [e])"

definition path_clean :: "string \<Rightarrow> string" where
  "path_clean p =
     (let rooted = (p \<noteq> [] \<and> hd p = CHR ''/'');
          out = foldl (clean_step rooted) [] (split_on (CHR ''/'') p);
          r = (if rooted then ''/'' else []) @ join ''/'' out
      in if r = [] then ''.'' else r)"

definition path_join :: "string \<Rightarrow> string \<Rightarrow> string" where
  "path_join a b = path_clean (a @ ''/'' @ b)"

section \<open>Load\<close>

record settings =
  se_ListenAddress :: string
  se_TopologyURL :: string
  se_TopologyEngine :: string
  se_TopologyStatePath :: string
  se_DashboardDir :: string
  se_Sink :: string
  se_Workers :: int
  se_QueueSize :: int
  se_BatchSize :: int
  se_FlushInterval :: int
  se_MaxBodyBytes :: int
  se_SinkTimeout :: int
  se_ShutdownTimeout :: int
  se_LogLevel :: string
  se_SpoolMode :: string
  se_SpoolDirectory :: string
  se_SpoolMaxBytes :: int
  se_WALSegmentBytes :: int
  se_WALBatchRecords :: int
  se_WALFlushInterval :: int
  se_WALAppendQueue :: int
  se_RetryInitial :: int
  se_RetryMax :: int
  se_RetryAttempts :: int
  se_RetryJitter :: f64

datatype config_error =
    NotInteger string
  | NotDuration string
  | NotDecimal string
  | BadLimits
  | BadTopologyEngine
  | BadSink
  | SinkNeedsTypeScript
  | BadLogLevel
  | BadSpoolMode
  | BadRetry
  | BadWAL

type_synonym environment = "string \<Rightarrow> string"

definition env_value :: "environment \<Rightarrow> string \<Rightarrow> string \<Rightarrow> string" where
  "env_value os name fallback = (let v = trim_space (os name) in if v \<noteq> [] then v else fallback)"

definition env_integer :: "environment \<Rightarrow> string \<Rightarrow> int \<Rightarrow> config_error + int" where
  "env_integer os name fallback =
     (let raw = trim_space (os name)
      in if raw = [] then Inr fallback
         else case parse_int raw of None \<Rightarrow> Inl (NotInteger name) | Some v \<Rightarrow> Inr v)"

definition env_duration :: "environment \<Rightarrow> string \<Rightarrow> int \<Rightarrow> config_error + int" where
  "env_duration os name fallback =
     (let raw = trim_space (os name)
      in if raw = [] then Inr fallback
         else case parse_duration raw of
           None \<Rightarrow> Inl (NotDuration name)
         | Some v \<Rightarrow> if v \<le> 0 then Inl (NotDuration name) else Inr v)"

definition env_decimal :: "(string \<Rightarrow> f64 option) \<Rightarrow> environment \<Rightarrow> string \<Rightarrow> f64 \<Rightarrow> config_error + f64" where
  "env_decimal parse_float os name fallback =
     (let raw = trim_space (os name)
      in if raw = [] then Inr fallback
         else case parse_float raw of None \<Rightarrow> Inl (NotDecimal name) | Some v \<Rightarrow> Inr v)"

text \<open>\<open>procs\<close> is \<open>runtime.GOMAXPROCS(0)\<close>.\<close>

definition default_settings :: "environment \<Rightarrow> int \<Rightarrow> settings" where
  "default_settings os procs =
     (let directory = env_value os ''NODEFLOW_SPOOL_DIR'' ''.nodeflow/spool''
      in \<lparr>se_ListenAddress = env_value os ''NODEFLOW_GO_LISTEN_ADDR'' '':7331'',
          se_TopologyURL = env_value os ''NODEFLOW_TOPOLOGY_URL'' ''http://127.0.0.1:7331'',
          se_TopologyEngine = to_lower (env_value os ''NODEFLOW_TOPOLOGY_ENGINE'' ''go''),
          se_TopologyStatePath = env_value os ''NODEFLOW_TOPOLOGY_STATE_PATH'' (path_join directory ''topology-state.json''),
          se_DashboardDir = env_value os ''NODEFLOW_DASHBOARD_DIR'' [],
          se_Sink = to_lower (env_value os ''NODEFLOW_SINK'' ''topology''),
          se_Workers = (if procs > 32 then 32 else procs),
          se_QueueSize = 10000, se_BatchSize = 250, se_FlushInterval = 500000000,
          se_MaxBodyBytes = 2097152, se_SinkTimeout = 5000000000, se_ShutdownTimeout = 15000000000,
          se_LogLevel = to_lower (env_value os ''NODEFLOW_LOG_LEVEL'' ''info''),
          se_SpoolMode = to_lower (env_value os ''NODEFLOW_SPOOL_MODE'' ''group-commit''),
          se_SpoolDirectory = directory, se_SpoolMaxBytes = 536870912, se_WALSegmentBytes = 16777216,
          se_WALBatchRecords = 64, se_WALFlushInterval = 2000000, se_WALAppendQueue = 2048,
          se_RetryInitial = 100000000, se_RetryMax = 30000000000, se_RetryAttempts = 10,
          se_RetryJitter = round_f64 (1 / 5)\<rparr>)"

text \<open>Each setting is read in turn, the first that is malformed ends the loading.\<close>

definition setting :: "config_error + 'v \<Rightarrow> (('v \<Rightarrow> 'v) \<Rightarrow> settings \<Rightarrow> settings) \<Rightarrow> config_error + settings
    \<Rightarrow> config_error + settings" where
  "setting value update r =
     (case r of Inl e \<Rightarrow> Inl e
      | Inr c \<Rightarrow> (case value of Inl e \<Rightarrow> Inl e | Inr v \<Rightarrow> Inr (update (\<lambda>_. v) c)))"

definition read_settings :: "(string \<Rightarrow> f64 option) \<Rightarrow> environment \<Rightarrow> settings \<Rightarrow> config_error + settings" where
  "read_settings parse_float os c =
     (setting (env_decimal parse_float os ''NODEFLOW_RETRY_JITTER'' (se_RetryJitter c)) se_RetryJitter_update
     (setting (env_integer os ''NODEFLOW_RETRY_MAX_ATTEMPTS'' (se_RetryAttempts c)) se_RetryAttempts_update
     (setting (env_duration os ''NODEFLOW_RETRY_MAX_BACKOFF'' (se_RetryMax c)) se_RetryMax_update
     (setting (env_duration os ''NODEFLOW_RETRY_INITIAL_BACKOFF'' (se_RetryInitial c)) se_RetryInitial_update
     (setting (env_integer os ''NODEFLOW_WAL_APPEND_QUEUE_SIZE'' (se_WALAppendQueue c)) se_WALAppendQueue_update
     (setting (env_duration os ''NODEFLOW_WAL_GROUP_MAX_DELAY'' (se_WALFlushInterval c)) se_WALFlushInterval_update
     (setting (env_integer os ''NODEFLOW_WAL_GROUP_MAX_RECORDS'' (se_WALBatchRecords c)) se_WALBatchRecords_update
     (setting (env_integer os ''NODEFLOW_WAL_SEGMENT_BYTES'' (se_WALSegmentBytes c)) se_WALSegmentBytes_update
     (setting (env_integer os ''NODEFLOW_SPOOL_MAX_BYTES'' (se_SpoolMaxBytes c)) se_SpoolMaxBytes_update
     (setting (env_duration os ''NODEFLOW_SHUTDOWN_TIMEOUT'' (se_ShutdownTimeout c)) se_ShutdownTimeout_update
     (setting (env_duration os ''NODEFLOW_SINK_TIMEOUT'' (se_SinkTimeout c)) se_SinkTimeout_update
     (setting (env_duration os ''NODEFLOW_FLUSH_INTERVAL'' (se_FlushInterval c)) se_FlushInterval_update
     (setting (env_integer os ''NODEFLOW_MAX_BODY_BYTES'' (se_MaxBodyBytes c)) se_MaxBodyBytes_update
     (setting (env_integer os ''NODEFLOW_BATCH_SIZE'' (se_BatchSize c)) se_BatchSize_update
     (setting (env_integer os ''NODEFLOW_QUEUE_SIZE'' (se_QueueSize c)) se_QueueSize_update
     (setting (env_integer os ''NODEFLOW_WORKERS'' (se_Workers c)) se_Workers_update
       (Inr c)))))))))))))))))"

text \<open>The checks of the loaded settings, in their order.\<close>

definition limits_ok :: "settings \<Rightarrow> bool" where
  "limits_ok c \<longleftrightarrow> \<not> (se_Workers c < 1 \<or> se_QueueSize c < 1 \<or> se_BatchSize c < 1
     \<or> se_BatchSize c > se_QueueSize c \<or> se_MaxBodyBytes c < 1)"

definition authority_ok :: "settings \<Rightarrow> bool" where
  "authority_ok c \<longleftrightarrow> se_TopologyEngine c \<in> {''go'', ''typescript''}"

definition sink_ok :: "settings \<Rightarrow> bool" where
  "sink_ok c \<longleftrightarrow> se_Sink c \<in> {''topology'', ''http'', ''discard''}"

definition sink_fits_engine :: "settings \<Rightarrow> bool" where
  "sink_fits_engine c \<longleftrightarrow> \<not> (se_Sink c = ''http'' \<and> se_TopologyEngine c \<noteq> ''typescript'')"

definition level_ok :: "settings \<Rightarrow> bool" where
  "level_ok c \<longleftrightarrow> se_LogLevel c \<in> {''debug'', ''info'', ''warn'', ''error''}"

definition resolved_mode :: "settings \<Rightarrow> settings" where
  "resolved_mode c = (if se_SpoolMode c = ''durable'' then c\<lparr>se_SpoolMode := ''group-commit''\<rparr> else c)"

definition mode_ok :: "settings \<Rightarrow> bool" where
  "mode_ok c \<longleftrightarrow> se_SpoolMode c \<in> {''group-commit'', ''sync'', ''legacy'', ''memory''}"

definition retry_ok :: "settings \<Rightarrow> bool" where
  "retry_ok c \<longleftrightarrow> \<not> (se_SpoolMaxBytes c < 1 \<or> se_RetryAttempts c < 1 \<or> se_RetryAttempts c > 99999
     \<or> se_RetryMax c < se_RetryInitial c \<or> f64_lt (se_RetryJitter c) (Fin 0) \<or> f64_lt (Fin 1) (se_RetryJitter c))"

definition uses_wal :: "settings \<Rightarrow> bool" where
  "uses_wal c \<longleftrightarrow> se_SpoolMode c = ''group-commit'' \<or> se_SpoolMode c = ''sync''"

definition wal_ok :: "settings \<Rightarrow> bool" where
  "wal_ok c \<longleftrightarrow> \<not> (uses_wal c
     \<and> (se_WALSegmentBytes c < wrap64 (se_MaxBodyBytes c + 4096) \<or> se_WALSegmentBytes c > 4294967295
        \<or> se_WALBatchRecords c < 1 \<or> se_WALAppendQueue c < 1))"

definition check_settings :: "settings \<Rightarrow> config_error + settings" where
  "check_settings c =
     (if \<not> limits_ok c then Inl BadLimits
      else if \<not> authority_ok c then Inl BadTopologyEngine
      else if \<not> sink_ok c then Inl BadSink
      else if \<not> sink_fits_engine c then Inl SinkNeedsTypeScript
      else if \<not> level_ok c then Inl BadLogLevel
      else let c = resolved_mode c
           in if \<not> mode_ok c then Inl BadSpoolMode
              else if \<not> retry_ok c then Inl BadRetry
              else if \<not> wal_ok c then Inl BadWAL
              else Inr c)"

definition LoadConfig :: "(string \<Rightarrow> f64 option) \<Rightarrow> environment \<Rightarrow> int \<Rightarrow> config_error + settings" where
  "LoadConfig parse_float os procs =
     (case read_settings parse_float os (default_settings os procs) of
        Inl e \<Rightarrow> Inl e | Inr c \<Rightarrow> check_settings c)"

section \<open>What main makes of the settings\<close>

definition wal_config_of :: "settings \<Rightarrow> walConfig" where
  "wal_config_of c =
     \<lparr>cfg_Directory = se_SpoolDirectory c, cfg_MaxBytes = se_SpoolMaxBytes c, cfg_SegmentBytes = se_WALSegmentBytes c,
      cfg_MaxBatchRecords = (if se_SpoolMode c = ''sync'' then 1 else se_WALBatchRecords c),
      cfg_MaxFlushInterval = (if se_SpoolMode c = ''sync'' then 1 else se_WALFlushInterval c),
      cfg_AppendQueueSize = se_WALAppendQueue c, cfg_MaxRecordAttempts = se_RetryAttempts c\<rparr>"

definition pipeline_config_of :: "settings \<Rightarrow> pipeline_config" where
  "pipeline_config_of c =
     \<lparr>pc_Workers = se_Workers c, pc_QueueSize = se_QueueSize c, pc_BatchSize = se_BatchSize c,
      pc_FlushInterval = se_FlushInterval c, pc_Durable = (uses_wal c \<or> se_SpoolMode c = ''legacy''),
      pc_Retry = \<lparr>rc_InitialBackoff = se_RetryInitial c, rc_MaxBackoff = se_RetryMax c,
        rc_MaxAttempts = se_RetryAttempts c, rc_Jitter = se_RetryJitter c\<rparr>\<rparr>"

end
