(* ===== verification/Collector_Startup.thy ===== *)
theory Collector_Startup
  imports Collector_Config Float_Bounds
begin

text \<open>
  What loaded settings guarantee: the log and the pipeline accept the configurations made of them,
  and the log reserves room for as many attempts as the pipeline makes.
\<close>

section \<open>What the settings are after loading\<close>

lemma setting_Inr:
  assumes "setting value update r = Inr c'"
  obtains c v where "r = Inr c" "value = Inr v" "c' = update (\<lambda>_. v) c"
  using assms by (auto simp: setting_def split: sum.splits)

lemma env_duration_positive: "env_duration os name d = Inr v \<Longrightarrow> 0 < d \<Longrightarrow> 0 < v"
  by (auto simp: env_duration_def Let_def split: if_splits option.splits)

lemma read_settings_positive:
  assumes "read_settings parse_float os c = Inr c'" "0 < se_FlushInterval c" "0 < se_WALFlushInterval c" "0 < se_RetryInitial c"
  shows "0 < se_FlushInterval c' \<and> 0 < se_WALFlushInterval c' \<and> 0 < se_RetryInitial c'"
  using assms unfolding read_settings_def
  by (auto elim!: setting_Inr intro: env_duration_positive)

lemma default_settings_positive:
  "0 < se_FlushInterval (default_settings os procs)" "0 < se_WALFlushInterval (default_settings os procs)"
  "0 < se_RetryInitial (default_settings os procs)"
  by (simp_all add: default_settings_def Let_def)

definition checked_settings :: "settings \<Rightarrow> bool" where
  "checked_settings c \<longleftrightarrow> limits_ok c \<and> authority_ok c \<and> sink_ok c \<and> sink_fits_engine c \<and> level_ok c
     \<and> mode_ok c \<and> retry_ok c \<and> wal_ok c"

lemma resolved_same: "resolved_mode c = c\<lparr>se_SpoolMode := se_SpoolMode (resolved_mode c)\<rparr>"
  by (simp add: resolved_mode_def)

lemma checks_of_mode [simp]:
  "limits_ok (c\<lparr>se_SpoolMode := m\<rparr>) = limits_ok c" "authority_ok (c\<lparr>se_SpoolMode := m\<rparr>) = authority_ok c"
  "sink_ok (c\<lparr>se_SpoolMode := m\<rparr>) = sink_ok c" "sink_fits_engine (c\<lparr>se_SpoolMode := m\<rparr>) = sink_fits_engine c"
  "level_ok (c\<lparr>se_SpoolMode := m\<rparr>) = level_ok c"
  by (simp_all add: limits_ok_def authority_ok_def sink_ok_def sink_fits_engine_def level_ok_def)

lemma check_settings_Inr:
  assumes "check_settings c = Inr c'"
  shows "checked_settings c' \<and> c' = c\<lparr>se_SpoolMode := se_SpoolMode c'\<rparr>"
proof -
  have c': "c' = resolved_mode c" and ok: "limits_ok c" "authority_ok c" "sink_ok c" "sink_fits_engine c" "level_ok c"
    "mode_ok c'" "retry_ok c'" "wal_ok c'"
    using assms by (auto simp: check_settings_def Let_def split: if_splits)
  have "limits_ok c' \<and> authority_ok c' \<and> sink_ok c' \<and> sink_fits_engine c' \<and> level_ok c'"
    unfolding c' by (subst (1 2 3 4 5) resolved_same) (simp add: ok)
  then show ?thesis using ok resolved_same [of c] c' by (simp add: checked_settings_def)
qed

lemma LoadConfig_checked:
  assumes "LoadConfig parse_float os procs = Inr c"
  shows "checked_settings c \<and> 0 < se_FlushInterval c \<and> 0 < se_WALFlushInterval c \<and> 0 < se_RetryInitial c"
proof -
  obtain d where d: "read_settings parse_float os (default_settings os procs) = Inr d" and c: "check_settings d = Inr c"
    using assms by (auto simp: LoadConfig_def split: sum.splits)
  have "0 < se_FlushInterval d \<and> 0 < se_WALFlushInterval d \<and> 0 < se_RetryInitial d"
    using read_settings_positive [OF d] default_settings_positive by simp
  moreover have same: "c = d\<lparr>se_SpoolMode := se_SpoolMode c\<rparr>" using check_settings_Inr [OF c] by blast
  have "se_FlushInterval c = se_FlushInterval d" "se_WALFlushInterval c = se_WALFlushInterval d"
    "se_RetryInitial c = se_RetryInitial d"
    by (subst same, simp)+
  ultimately show ?thesis using check_settings_Inr [OF c] by simp
qed

text \<open>A jitter that is not a number passes every check.\<close>

lemma NaN_jitter_is_checked: "retry_ok c \<Longrightarrow> retry_ok (c\<lparr>se_RetryJitter := NaN\<rparr>)"
  by (simp add: retry_ok_def f64_lt_def)

text \<open>The size check of a segment compares with a sum that wraps around.\<close>

lemma wrapped_segment_check: "wrap64 (9223372036854775807 + 4096) < 0"
  by (simp add: wrap64_def)

section \<open>The property\<close>

text \<open>C39: (type) Settings that \<open>Load\<close> returns are accepted by the pipeline, and, for bodies whose limit does not
  overflow, by the log; a segment then has room for a body of the largest size with 4096 bytes to spare,
  and the log reserves as many attempts as the pipeline makes. The sink over HTTP is only used
  with the TypeScript engine.\<close>

theorem loaded_settings_fit:
  assumes "LoadConfig parse_float os procs = Inr c"
  shows "valid_pipeline (pipeline_config_of c)
    \<and> (uses_wal c \<longrightarrow> se_MaxBodyBytes c + 4096 < 2 ^ 63 \<longrightarrow> valid_config (wal_config_of c)
         \<and> se_MaxBodyBytes c + 4096 \<le> cfg_SegmentBytes (wal_config_of c))
    \<and> rc_MaxAttempts (pc_Retry (pipeline_config_of c)) = cfg_MaxRecordAttempts (wal_config_of c)
    \<and> (se_Sink c = ''http'' \<longrightarrow> se_TopologyEngine c = ''typescript'')"
proof -
  note ok = LoadConfig_checked [OF assms, unfolded checked_settings_def]
  have "valid_pipeline (pipeline_config_of c)"
    using ok by (simp add: limits_ok_def retry_ok_def pipeline_config_of_def valid_pipeline_def valid_retry_def)
  moreover have "valid_config (wal_config_of c) \<and> se_MaxBodyBytes c + 4096 \<le> cfg_SegmentBytes (wal_config_of c)"
    if "uses_wal c" "se_MaxBodyBytes c + 4096 < 2 ^ 63"
  proof -
    have "1 \<le> se_MaxBodyBytes c" using ok by (simp add: limits_ok_def)
    then have "wrap64 (se_MaxBodyBytes c + 4096) = se_MaxBodyBytes c + 4096" using that(2) by (intro wrap64_id) simp_all
    then show ?thesis
      using ok that by (simp add: limits_ok_def retry_ok_def wal_ok_def wal_config_of_def valid_config_def
          walSegmentHeaderSize_def walFrameHeaderSize_def)
  qed
  ultimately show ?thesis
    using ok by (simp add: sink_fits_engine_def pipeline_config_of_def wal_config_of_def)
qed

text \<open>An environment without any setting.\<close>

lemma no_environment [simp]:
  "env_value (\<lambda>_. []) name d = d" "env_integer (\<lambda>_. []) name i = Inr i" "env_duration (\<lambda>_. []) name i = Inr i"
  "env_decimal pf (\<lambda>_. []) name x = Inr x"
proof -
  have "trim_space [] = []" by code_simp
  then show "env_value (\<lambda>_. []) name d = d" "env_integer (\<lambda>_. []) name i = Inr i" "env_duration (\<lambda>_. []) name i = Inr i"
    "env_decimal pf (\<lambda>_. []) name x = Inr x"
    by (simp_all add: env_value_def env_integer_def env_duration_def env_decimal_def)
qed

definition plain_settings :: settings where
  "plain_settings = default_settings (\<lambda>_. []) 8"

lemma plain_words: "to_lower ''go'' = ''go''" "to_lower ''topology'' = ''topology''" "to_lower ''info'' = ''info''"
  "to_lower ''group-commit'' = ''group-commit''"
  by code_simp+

lemma plain_checks: "limits_ok plain_settings" "authority_ok plain_settings" "sink_ok plain_settings"
  "sink_fits_engine plain_settings" "level_ok plain_settings" "mode_ok plain_settings" "retry_ok plain_settings"
  "wal_ok plain_settings"
proof -
  obtain q where "round_f64 (1 / 5) = Fin q" "0 \<le> q" "q \<le> 1" using round_f64_below [of "1 / 5" 1] by auto
  then show "retry_ok plain_settings"
    by (simp add: plain_settings_def default_settings_def retry_ok_def Let_def f64_lt_def)
qed (simp_all add: plain_settings_def default_settings_def Let_def limits_ok_def authority_ok_def sink_ok_def
    sink_fits_engine_def level_ok_def mode_ok_def wal_ok_def wrap64_def plain_words del: to_lower.simps)

lemma defaults_load: "LoadConfig (\<lambda>_. None) (\<lambda>_. []) 8 = Inr plain_settings"
proof -
  have "read_settings (\<lambda>_. None) (\<lambda>_. []) c = Inr c" for c
    by (simp add: read_settings_def setting_def)
  moreover have "resolved_mode plain_settings = plain_settings"
    by (simp add: resolved_mode_def plain_settings_def default_settings_def Let_def plain_words del: to_lower.simps)
  ultimately show ?thesis
    by (simp add: LoadConfig_def check_settings_def plain_checks flip: plain_settings_def)
qed

theorem loaded_settings_fit_witness:
  "valid_config (wal_config_of plain_settings) \<and> valid_pipeline (pipeline_config_of plain_settings)"
proof -
  have "uses_wal plain_settings" "se_MaxBodyBytes plain_settings + 4096 < 2 ^ 63"
    by (simp_all add: uses_wal_def plain_settings_def default_settings_def Let_def plain_words del: to_lower.simps)
  then show ?thesis using loaded_settings_fit [OF defaults_load] by simp
qed

end
