(* ===== verification/Collector_Server.thy ===== *)
theory Collector_Server
  imports Pipeline_System Telemetry_Codec
begin

text \<open>
  Admission: the handlers of the HTTP API (\<open>runtime/go/internal/server/server.go\<close>) with \<open>enqueue\<close> and
  \<open>Ready\<close> of the pipeline. A request is what a handler looks at: the content type, the bytes of the
  body, whether they end in an error, and whether its context is done. The reply is what the handler
  writes, if it writes anything.
\<close>

section \<open>Admission to the pipeline\<close>

record 's service =
  sv_pipeline :: "'s pipeline"
  sv_metrics :: collector

definition count_on :: "(collector \<Rightarrow> collector) \<Rightarrow> 's service \<Rightarrow> 's service" where
  "count_on f s = s\<lparr>sv_metrics := f (sv_metrics s)\<rparr>"

text \<open>\<open>enqueue\<close> with a storage. \<open>ch\<close> is the result channel, if somebody waits.\<close>

definition enqueue_durable :: "'s storage_ops \<Rightarrow> nat option \<Rightarrow> envelope \<Rightarrow> 's service
    \<Rightarrow> (pipeline_error + item) \<times> 's service" where
  "enqueue_durable st ch e s =
     (let n = of_nat (EventCount e); s = count_on (RecordReceived n) s; p = sv_pipeline s
      in if \<not> pp_accepting p then (Inl ErrClosed, count_on (RecordRejected ''closed'' n) s)
         else case op_Append st e (pp_storage p) of
           (Inr r, t) \<Rightarrow>
             (Inr \<lparr>it_envelope = e, it_result = ch, it_record = Some r\<rparr>,
              s\<lparr>sv_pipeline := register ch (RecordID r) (p\<lparr>pp_storage := t\<rparr>)\<rparr>)
         | (Inl err, t) \<Rightarrow>
             let s = s\<lparr>sv_pipeline := p\<lparr>pp_storage := t\<rparr>\<rparr>
             in if err = ErrBusy then (Inl ErrQueueFull, count_on (RecordRejected ''queue_full'' n) s)
                else if err = ErrFull then (Inl ErrSpoolFull, count_on (RecordRejected ''spool_full'' n) s)
                else (Inl (StorageFailed err), count_on RecordError s))"

text \<open>\<open>enqueue\<close> without a storage: the channel takes the item if it has room, and if the context is
  done at the same time, \<open>select\<close> takes either.\<close>

definition enqueue_memory :: "pipeline_config \<Rightarrow> bool \<Rightarrow> bool \<Rightarrow> nat option \<Rightarrow> envelope \<Rightarrow> 's service
    \<Rightarrow> (pipeline_error + item) \<times> 's service" where
  "enqueue_memory c ctx_done prefer_send ch e s =
     (let n = of_nat (EventCount e); s = count_on (RecordReceived n) s; p = sv_pipeline s;
          entry = \<lparr>it_envelope = e, it_result = ch, it_record = None\<rparr>;
          room = int (length (pp_queue p)) < pc_QueueSize c
      in if \<not> pp_accepting p then (Inl ErrClosed, count_on (RecordRejected ''closed'' n) s)
         else if room \<and> (\<not> ctx_done \<or> prefer_send)
         then (Inr entry, count_on (SetQueueDepth (int (length (pp_queue p) + 1)))
                 (s\<lparr>sv_pipeline := p\<lparr>pp_queue := pp_queue p @ [entry]\<rparr>\<rparr>))
         else if ctx_done then (Inl ContextCanceled, s)
         else (Inl ErrQueueFull, count_on (RecordRejected ''queue_full'' n) s))"

record request =
  hr_ContentType :: string
  hr_Body :: bytes
  hr_BodyOK :: bool
  hr_Done :: bool

definition enqueue :: "pipeline_config \<Rightarrow> 's storage_ops \<Rightarrow> bool \<Rightarrow> request \<Rightarrow> nat option \<Rightarrow> envelope \<Rightarrow> 's service
    \<Rightarrow> (pipeline_error + item) \<times> 's service" where
  "enqueue c st prefer_send req ch e s =
     (if pc_Durable c then enqueue_durable st ch e s else enqueue_memory c (hr_Done req) prefer_send ch e s)"

text \<open>\<open>Submit\<close> after its item was admitted: the result that a worker sends, or the end of the request.\<close>

definition await :: "item_result option \<Rightarrow> pipeline_error + outcome" where
  "await answer = (case answer of
     None \<Rightarrow> Inl ContextCanceled
   | Some (outcome, None) \<Rightarrow> Inr outcome
   | Some (outcome, Some e) \<Rightarrow> Inl e)"

text \<open>\<open>Ready\<close>: \<open>storage_ready\<close> and \<open>sink_ready\<close> are the errors of the storage's and the sink's \<open>Ready\<close>.\<close>

definition pipeline_ready :: "pipeline_config \<Rightarrow> ('s \<Rightarrow> spool_error option) \<Rightarrow> sink_error option \<Rightarrow> 's pipeline
    \<Rightarrow> pipeline_error option" where
  "pipeline_ready c storage_ready sink_ready p =
     (if \<not> pp_accepting p then Some ErrClosed
      else if pc_Durable c then map_option StorageFailed (storage_ready (pp_storage p))
      else map_option SinkFailed sink_ready)"

section \<open>Replies\<close>

datatype request_error =
    BodyTooLarge
  | BodyUnreadable
  | BodyMissing
  | Undecodable decode_error
  | Unacceptable validation_error

datatype reply_body =
    UnsupportedMedia
  | RequestError request_error
  | PipelineError pipeline_error
  | AdmissionFailed
  | NotReady
  | IsReady
  | AcceptedSpans nat "u64 option"
  | NoBody

record reply =
  rp_Status :: int
  rp_RetryAfter :: "string option"
  rp_Body :: reply_body

definition plain_reply :: "int \<Rightarrow> reply_body \<Rightarrow> reply" where
  "plain_reply status body = \<lparr>rp_Status = status, rp_RetryAfter = None, rp_Body = body\<rparr>"

definition rejectInvalid :: "request_error \<Rightarrow> 's service \<Rightarrow> reply option \<times> 's service" where
  "rejectInvalid e s =
     (Some (plain_reply (if e = BodyTooLarge then 413 else 400) (RequestError e)),
      count_on (RecordRejected ''invalid'' 1) s)"

text \<open>\<open>http.MaxBytesReader\<close> reads one byte more than the limit before it gives up.\<close>

definition readBody :: "int \<Rightarrow> request \<Rightarrow> request_error + bytes" where
  "readBody limit req =
     (if int (length (hr_Body req)) > limit then Inl BodyTooLarge
      else if \<not> hr_BodyOK req then Inl BodyUnreadable
      else if hr_Body req = [] then Inl BodyMissing
      else Inr (hr_Body req))"

definition decodeJSON :: "(bytes \<Rightarrow> 'a json_result) \<Rightarrow> (bytes \<Rightarrow> unit json_result) \<Rightarrow> int \<Rightarrow> request \<Rightarrow> request_error + 'a" where
  "decodeJSON decode decode_empty limit req =
     (case readBody limit req of
        Inl e \<Rightarrow> Inl e
      | Inr data \<Rightarrow> (case DecodeJSON decode decode_empty data of Inl e \<Rightarrow> Inl (Undecodable e) | Inr v \<Rightarrow> Inr v))"

section \<open>Handlers\<close>

record ('s, 'r) api =
  api_Config :: pipeline_config
  api_Storage :: "'s storage_ops"
  api_Limits :: limits
  api_MaxBodyBytes :: int
  api_Authority :: string
  api_URLs :: "'r url_library"
  api_MediaType :: "string \<Rightarrow> string option"
  api_Unmarshal :: "bytes \<Rightarrow> proto_envelope option"

definition admission_error :: "pipeline_error \<Rightarrow> reply option" where
  "admission_error e = (case e of
     ErrQueueFull \<Rightarrow> Some \<lparr>rp_Status = 429, rp_RetryAfter = Some ''1'', rp_Body = PipelineError e\<rparr>
   | ErrSpoolFull \<Rightarrow> Some \<lparr>rp_Status = 507, rp_RetryAfter = Some ''5'', rp_Body = PipelineError e\<rparr>
   | ErrClosed \<Rightarrow> Some (plain_reply 503 (PipelineError e))
   | ContextCanceled \<Rightarrow> None
   | StorageFailed ErrContext \<Rightarrow> None
   | StorageFailed ErrBusy \<Rightarrow> Some (plain_reply 503 AdmissionFailed)
   | StorageFailed ErrFull \<Rightarrow> Some \<lparr>rp_Status = 507, rp_RetryAfter = Some ''5'', rp_Body = PipelineError e\<rparr>
   | SinkFailed SinkCancelled \<Rightarrow> None
   | _ \<Rightarrow> Some (plain_reply 503 AdmissionFailed))"

definition accepted :: "envelope \<Rightarrow> outcome \<Rightarrow> reply option" where
  "accepted e outcome =
     Some (plain_reply 202 (case SpanBatch e of
       Some b \<Rightarrow> AcceptedSpans (length (sb_Spans b)) outcome | None \<Rightarrow> NoBody))"

text \<open>\<open>accept\<close>. Where the handler waits for the topology, \<open>ch\<close> is the channel it makes and \<open>answer\<close> what
  comes of it; the state is that after the admission.\<close>

definition accept :: "('s, 'r) api \<Rightarrow> bool \<Rightarrow> request \<Rightarrow> nat option \<Rightarrow> item_result option \<Rightarrow> envelope \<Rightarrow> 's service
    \<Rightarrow> reply option \<times> 's service" where
  "accept api prefer_send req ch answer e s =
     (case ValidateAndSanitize (api_URLs api) (api_Limits api) e of
        Inl err \<Rightarrow> rejectInvalid (Unacceptable err) s
      | Inr e' \<Rightarrow>
          (case enqueue (api_Config api) (api_Storage api) prefer_send req ch e' s of
             (Inl err, s') \<Rightarrow> (admission_error err, s')
           | (Inr entry, s') \<Rightarrow>
               (case (if ch = None then Inr None else await answer) of
                  Inl err \<Rightarrow> (admission_error err, s')
                | Inr outcome \<Rightarrow> (accepted e' outcome, s'))))"

definition protobuf_media :: "string option \<Rightarrow> bool" where
  "protobuf_media media \<longleftrightarrow> media = Some ''application/x-protobuf'' \<or> media = Some ''application/octet-stream''"

definition protobufTelemetry :: "('s, 'r) api \<Rightarrow> bool \<Rightarrow> request \<Rightarrow> 's service \<Rightarrow> reply option \<times> 's service" where
  "protobufTelemetry api prefer_send req s =
     (if \<not> protobuf_media (api_MediaType api (hr_ContentType req))
      then (Some (plain_reply 415 UnsupportedMedia), count_on (RecordRejected ''invalid'' 1) s)
      else (case readBody (api_MaxBodyBytes api) req of
              Inl err \<Rightarrow> rejectInvalid err s
            | Inr data \<Rightarrow>
                (case DecodeProtobuf (api_Unmarshal api) data of
                   Inl err \<Rightarrow> rejectInvalid (Undecodable err) s
                 | Inr e \<Rightarrow> accept api prefer_send req None None e s)))"

text \<open>The JSON handlers wait for the topology if there is one; \<open>fresh\<close> is the channel \<open>Submit\<close> makes.\<close>

definition waiting_channel :: "('s, 'r) api \<Rightarrow> nat \<Rightarrow> nat option" where
  "waiting_channel api fresh = (if api_Authority api \<noteq> [] then Some fresh else None)"

definition legacySpans :: "('s, 'r) api \<Rightarrow> (bytes \<Rightarrow> span_batch json_result) \<Rightarrow> (bytes \<Rightarrow> unit json_result)
    \<Rightarrow> bool \<Rightarrow> nat \<Rightarrow> item_result option \<Rightarrow> request \<Rightarrow> 's service \<Rightarrow> reply option \<times> 's service" where
  "legacySpans api decode decode_empty prefer_send fresh answer req s =
     (case decodeJSON decode decode_empty (api_MaxBodyBytes api) req of
        Inl err \<Rightarrow> rejectInvalid err s
      | Inr b \<Rightarrow> accept api prefer_send req (waiting_channel api fresh) answer
          \<lparr>ProtocolVersion = protocol_version, SpanBatch = Some b, RuntimeMetrics = None\<rparr> s)"

definition legacyRuntime :: "('s, 'r) api \<Rightarrow> (bytes \<Rightarrow> runtime_metrics json_result) \<Rightarrow> (bytes \<Rightarrow> unit json_result)
    \<Rightarrow> bool \<Rightarrow> nat \<Rightarrow> item_result option \<Rightarrow> request \<Rightarrow> 's service \<Rightarrow> reply option \<times> 's service" where
  "legacyRuntime api decode decode_empty prefer_send fresh answer req s =
     (case decodeJSON decode decode_empty (api_MaxBodyBytes api) req of
        Inl err \<Rightarrow> rejectInvalid err s
      | Inr m \<Rightarrow> accept api prefer_send req (waiting_channel api fresh) answer
          \<lparr>ProtocolVersion = protocol_version, SpanBatch = None, RuntimeMetrics = Some m\<rparr> s)"

text \<open>The routes of \<open>Handler\<close> that admit telemetry.\<close>

datatype endpoint = TelemetryEndpoint | SpansEndpoint | RuntimeEndpoint

record json_library =
  jl_Spans :: "bytes \<Rightarrow> span_batch json_result"
  jl_Runtime :: "bytes \<Rightarrow> runtime_metrics json_result"
  jl_Empty :: "bytes \<Rightarrow> unit json_result"

definition handle :: "('s, 'r) api \<Rightarrow> json_library \<Rightarrow> bool \<Rightarrow> nat \<Rightarrow> item_result option \<Rightarrow> endpoint \<Rightarrow> request
    \<Rightarrow> 's service \<Rightarrow> reply option \<times> 's service" where
  "handle api js prefer_send fresh answer endpoint req s =
     (case endpoint of
        TelemetryEndpoint \<Rightarrow> protobufTelemetry api prefer_send req s
      | SpansEndpoint \<Rightarrow> legacySpans api (jl_Spans js) (jl_Empty js) prefer_send fresh answer req s
      | RuntimeEndpoint \<Rightarrow> legacyRuntime api (jl_Runtime js) (jl_Empty js) prefer_send fresh answer req s)"

definition api_ready :: "('s, 'r) api \<Rightarrow> ('s \<Rightarrow> spool_error option) \<Rightarrow> sink_error option \<Rightarrow> 's pipeline \<Rightarrow> reply" where
  "api_ready api storage_ready sink_ready p =
     (case pipeline_ready (api_Config api) storage_ready sink_ready p of
        Some _ \<Rightarrow> plain_reply 503 NotReady
      | None \<Rightarrow> plain_reply 200 IsReady)"

end
