(* ===== verification/Collector_Admission.thy ===== *)
theory Collector_Admission
  imports Collector_Server Storage_Queue Pipeline_Properties Telemetry_Properties
begin

text \<open>
  What a reply of the collector promises: telemetry that is accepted is in the log, telemetry that is
  not is not, and the counters say which it was.
\<close>

section \<open>Admission as a step of the pipeline\<close>

lemma count_on_sel [simp]:
  "sv_pipeline (count_on f s) = sv_pipeline s" "sv_metrics (count_on f s) = f (sv_metrics s)"
  by (simp_all add: count_on_def)

text \<open>The outcomes of \<open>enqueue\<close> with a storage.\<close>

lemma enqueue_durable_cases:
  assumes "enqueue_durable st ch e s = (r, s')"
  obtains (closed) "\<not> pp_accepting (sv_pipeline s)" "r = Inl ErrClosed" "sv_pipeline s' = sv_pipeline s"
    "sv_metrics s' = RecordRejected ''closed'' (of_nat (EventCount e)) (RecordReceived (of_nat (EventCount e)) (sv_metrics s))"
  | (stored) rec t where "pp_accepting (sv_pipeline s)" "op_Append st e (pp_storage (sv_pipeline s)) = (Inr rec, t)"
    "r = Inr \<lparr>it_envelope = e, it_result = ch, it_record = Some rec\<rparr>"
    "sv_pipeline s' = register ch (RecordID rec) ((sv_pipeline s)\<lparr>pp_storage := t\<rparr>)"
    "sv_metrics s' = RecordReceived (of_nat (EventCount e)) (sv_metrics s)"
  | (refused) err t where "pp_accepting (sv_pipeline s)" "op_Append st e (pp_storage (sv_pipeline s)) = (Inl err, t)"
    "sv_pipeline s' = (sv_pipeline s)\<lparr>pp_storage := t\<rparr>"
    "(r, sv_metrics s') = (let m = RecordReceived (of_nat (EventCount e)) (sv_metrics s); n = of_nat (EventCount e)
       in if err = ErrBusy then (Inl ErrQueueFull, RecordRejected ''queue_full'' n m)
          else if err = ErrFull then (Inl ErrSpoolFull, RecordRejected ''spool_full'' n m)
          else (Inl (StorageFailed err), RecordError m))"
proof (cases "pp_accepting (sv_pipeline s)")
  case False
  then show ?thesis using assms closed by (auto simp: enqueue_durable_def Let_def)
next
  case True
  obtain x t where a: "op_Append st e (pp_storage (sv_pipeline s)) = (x, t)" by fastforce
  show ?thesis
  proof (cases x)
    case (Inl err)
    then have "sv_pipeline s' = (sv_pipeline s)\<lparr>pp_storage := t\<rparr>"
      "(r, sv_metrics s') = (let m = RecordReceived (of_nat (EventCount e)) (sv_metrics s); n = of_nat (EventCount e)
       in if err = ErrBusy then (Inl ErrQueueFull, RecordRejected ''queue_full'' n m)
          else if err = ErrFull then (Inl ErrSpoolFull, RecordRejected ''spool_full'' n m)
          else (Inl (StorageFailed err), RecordError m))"
      using assms True a by (auto simp: enqueue_durable_def Let_def split: if_splits)
    then show ?thesis using refused True a Inl by blast
  next
    case (Inr rec)
    then show ?thesis using assms stored True a by (auto simp: enqueue_durable_def Let_def)
  qed
qed

lemma enqueue_durable_step:
  assumes "enqueue_durable st ch e s = (r, s')" "room (pp_storage (sv_pipeline s))"
    and "\<forall>x. ch = Some x \<longrightarrow> x \<notin> pp_channels (sv_pipeline s)"
  shows "sv_pipeline s' = sv_pipeline s \<or> pipeline_step c st room (sv_pipeline s) (sv_pipeline s')"
  using assms(1)
proof (cases rule: enqueue_durable_cases)
  case (stored rec t)
  then show ?thesis using pipeline_step.submit [of "sv_pipeline s" room st e rec t ch c] assms(2,3) by simp
next
  case (refused err t)
  then show ?thesis using pipeline_step.refuse [of "sv_pipeline s" room st e err t c] assms(2) by simp
qed simp

lemma enqueue_durable_reachable:
  assumes "enqueue_durable st ch e s = (r, s')" "room (pp_storage (sv_pipeline s))"
    and "\<forall>x. ch = Some x \<longrightarrow> x \<notin> pp_channels (sv_pipeline s)" "pipeline_reachable c st room s0 (sv_pipeline s)"
  shows "pipeline_reachable c st room s0 (sv_pipeline s')"
  using enqueue_durable_step [where room = room, where c = c, OF assms(1-3)] assms(4) pipeline_reachable.later by metis

lemma register_storage [simp]: "pp_storage (register ch i p) = pp_storage p"
  by (simp add: register_def split: option.split)

text \<open>With the log as the storage: an item is the log's new record, an error leaves the records.\<close>

definition stored_as :: "WAL \<Rightarrow> envelope \<Rightarrow> spool_record \<Rightarrow> WAL \<Rightarrow> bool" where
  "stored_as w e r w' \<longleftrightarrow> Envelope r = e \<and> Attempts r = 0 \<and> RecordID r = w_nextID w
     \<and> wal_attempts w' = (wal_attempts w)(w_nextID w \<mapsto> 0) \<and> w_nextID w' = w_nextID w + 1"

lemma enqueue_log:
  assumes "enqueue_durable (wal_storage js now) ch e s = (r, s')" "wal_inv (pp_storage (sv_pipeline s))"
    and "wal_room (pp_storage (sv_pipeline s))"
  shows "case r of
      Inl _ \<Rightarrow> wal_attempts (pp_storage (sv_pipeline s')) = wal_attempts (pp_storage (sv_pipeline s))
    | Inr entry \<Rightarrow> (\<exists>rec. it_record entry = Some rec
        \<and> stored_as (pp_storage (sv_pipeline s)) e rec (pp_storage (sv_pipeline s')))"
  using assms(1)
proof (cases rule: enqueue_durable_cases)
  case closed
  then show ?thesis by simp
next
  case (stored rec t)
  then have "queue_spec (queue_of (pp_storage (sv_pipeline s))) (QAppend e) (RAppend (Inr rec)) (queue_of t)"
    by (intro append_queue [OF assms(2,3), where js = js and now = now]) (simp add: wal_storage_def)
  then show ?thesis using stored by (simp add: queue_of_def stored_as_def)
next
  case (refused err t)
  then have "queue_spec (queue_of (pp_storage (sv_pipeline s))) (QAppend e) (RAppend (Inl err)) (queue_of t)"
    by (intro append_queue [OF assms(2,3), where js = js and now = now]) (simp add: wal_storage_def)
  then have "wal_attempts t = wal_attempts (pp_storage (sv_pipeline s))" by (auto simp: queue_of_def)
  moreover have "\<exists>x. r = Inl x" using refused(4) by (auto simp: Let_def split: if_splits)
  ultimately show ?thesis using refused(3) by auto
qed

section \<open>The handlers\<close>

definition replied :: "int \<Rightarrow> reply option \<Rightarrow> bool" where
  "replied status r \<longleftrightarrow> map_option rp_Status r = Some status"

lemma admission_error_status: "admission_error e \<noteq> None \<Longrightarrow> \<not> replied 202 (admission_error e)"
  by (cases e) (auto simp: admission_error_def replied_def plain_reply_def split: spool_error.splits sink_error.splits)

lemma admission_error_not_accepted [simp]: "\<not> replied 202 (admission_error e)"
  by (cases "admission_error e") (use admission_error_status in \<open>auto simp: replied_def\<close>)

lemma replied_simps [simp]:
  "replied k (Some (plain_reply k' b)) \<longleftrightarrow> k' = k" "\<not> replied k None" "replied k (accepted e x) \<longleftrightarrow> k = 202"
  by (auto simp: replied_def plain_reply_def accepted_def)

lemma rejectInvalid_cases:
  assumes "rejectInvalid e s = (reply, s')"
  shows "\<not> replied 202 reply \<and> sv_pipeline s' = sv_pipeline s
    \<and> sv_metrics s' = RecordRejected ''invalid'' 1 (sv_metrics s) \<and> (replied 400 reply \<or> replied 413 reply)"
  using assms by (auto simp: rejectInvalid_def split: if_splits)

text \<open>What the body of a request decodes to, and the channel of a handler that waits for the topology.\<close>

definition decoded :: "('s, 'r) api \<Rightarrow> json_library \<Rightarrow> endpoint \<Rightarrow> bytes \<Rightarrow> envelope option" where
  "decoded api js endpoint body =
     (case endpoint of
        TelemetryEndpoint \<Rightarrow> (case DecodeProtobuf (api_Unmarshal api) body of Inr e \<Rightarrow> Some e | Inl _ \<Rightarrow> None)
      | SpansEndpoint \<Rightarrow> (case DecodeJSON (jl_Spans js) (jl_Empty js) body of
            Inr b \<Rightarrow> Some \<lparr>ProtocolVersion = protocol_version, SpanBatch = Some b, RuntimeMetrics = None\<rparr> | Inl _ \<Rightarrow> None)
      | RuntimeEndpoint \<Rightarrow> (case DecodeJSON (jl_Runtime js) (jl_Empty js) body of
            Inr m \<Rightarrow> Some \<lparr>ProtocolVersion = protocol_version, SpanBatch = None, RuntimeMetrics = Some m\<rparr> | Inl _ \<Rightarrow> None))"

definition channel_of :: "('s, 'r) api \<Rightarrow> nat \<Rightarrow> endpoint \<Rightarrow> nat option" where
  "channel_of api fresh endpoint = (if endpoint = TelemetryEndpoint then None else waiting_channel api fresh)"

text \<open>The reply once the item is admitted: that of a worker, where the handler waits.\<close>

definition admitted_reply :: "nat option \<Rightarrow> item_result option \<Rightarrow> envelope \<Rightarrow> reply option" where
  "admitted_reply ch answer e =
     (case (if ch = None then Inr None else await answer) of
        Inl err \<Rightarrow> admission_error err | Inr outcome \<Rightarrow> accepted e outcome)"

lemma readBody_body: "readBody limit req = Inr data \<Longrightarrow> data = hr_Body req"
  by (simp add: readBody_def split: if_splits)

text \<open>Either the request is rejected before the pipeline sees it, or its envelope is handed to \<open>accept\<close>.\<close>

lemma handle_split:
  assumes "handle api js pf fresh answer ep req s = (reply, s')"
  obtains (media) "(reply, s') = (Some (plain_reply 415 UnsupportedMedia), count_on (RecordRejected ''invalid'' 1) s)"
  | (bad) err where "rejectInvalid err s = (reply, s')"
  | (good) raw ans where "decoded api js ep (hr_Body req) = Some raw"
    "accept api pf req (channel_of api fresh ep) ans raw s = (reply, s')"
    "channel_of api fresh ep = None \<or> ans = answer"
proof (cases ep)
  case TelemetryEndpoint
  show ?thesis
  proof (cases "readBody (api_MaxBodyBytes api) req")
    case (Inl err)
    then show ?thesis using assms TelemetryEndpoint media bad
      by (cases "protobuf_media (api_MediaType api (hr_ContentType req))") (simp_all add: handle_def protobufTelemetry_def)
  next
    case (Inr data)
    then show ?thesis using assms TelemetryEndpoint media bad good readBody_body [OF Inr]
      by (cases "protobuf_media (api_MediaType api (hr_ContentType req))"; cases "DecodeProtobuf (api_Unmarshal api) data")
        (simp_all add: handle_def protobufTelemetry_def decoded_def channel_of_def)
  qed
next
  case SpansEndpoint
  show ?thesis
  proof (cases "readBody (api_MaxBodyBytes api) req")
    case (Inl err)
    then show ?thesis using assms SpansEndpoint bad by (simp add: handle_def legacySpans_def decodeJSON_def)
  next
    case (Inr data)
    then show ?thesis using assms SpansEndpoint bad good readBody_body [OF Inr]
      by (cases "DecodeJSON (jl_Spans js) (jl_Empty js) data")
        (simp_all add: handle_def legacySpans_def decodeJSON_def decoded_def channel_of_def)
  qed
next
  case RuntimeEndpoint
  show ?thesis
  proof (cases "readBody (api_MaxBodyBytes api) req")
    case (Inl err)
    then show ?thesis using assms RuntimeEndpoint bad by (simp add: handle_def legacyRuntime_def decodeJSON_def)
  next
    case (Inr data)
    then show ?thesis using assms RuntimeEndpoint bad good readBody_body [OF Inr]
      by (cases "DecodeJSON (jl_Runtime js) (jl_Empty js) data")
        (simp_all add: handle_def legacyRuntime_def decodeJSON_def decoded_def channel_of_def)
  qed
qed

lemma handle_cases:
  assumes "handle api js pf fresh answer ep req s = (reply, s')"
  obtains (rejected) "sv_pipeline s' = sv_pipeline s" "sv_metrics s' = RecordRejected ''invalid'' 1 (sv_metrics s)"
    "replied 400 reply \<or> replied 413 reply \<or> replied 415 reply"
  | (offered) raw e r where "decoded api js ep (hr_Body req) = Some raw"
    "ValidateAndSanitize (api_URLs api) (api_Limits api) raw = Inr e"
    "enqueue (api_Config api) (api_Storage api) pf req (channel_of api fresh ep) e s = (r, s')"
    "reply = (case r of Inl err \<Rightarrow> admission_error err | Inr _ \<Rightarrow> admitted_reply (channel_of api fresh ep) answer e)"
  using assms
proof (cases rule: handle_split)
  case media
  then show ?thesis using rejected by simp
next
  case (bad err)
  then show ?thesis using rejected rejectInvalid_cases by blast
next
  case (good raw ans)
  show ?thesis
  proof (cases "ValidateAndSanitize (api_URLs api) (api_Limits api) raw")
    case (Inl err)
    then have "rejectInvalid (Unacceptable err) s = (reply, s')" using good(2) by (simp add: accept_def)
    then show ?thesis using rejected rejectInvalid_cases by blast
  next
    case (Inr e)
    let ?ch = "channel_of api fresh ep"
    obtain r s1 where r: "enqueue (api_Config api) (api_Storage api) pf req ?ch e s = (r, s1)" by fastforce
    have "admitted_reply ?ch ans e = admitted_reply ?ch answer e" using good(3) by (auto simp: admitted_reply_def)
    then have "s1 = s'" "reply = (case r of Inl err \<Rightarrow> admission_error err | Inr _ \<Rightarrow> admitted_reply ?ch answer e)"
      using good(2) Inr r by (auto simp: accept_def admitted_reply_def split: sum.splits)
    then show ?thesis using offered good(1) Inr r by simp
  qed
qed

section \<open>A request\<close>

text \<open>A request whose body decodes to the envelope of \<open>Telemetry_Properties\<close>, for a collector over a log that
  has just started up in an empty directory.\<close>

definition plain_codec :: codec where
  "plain_codec = \<lparr>marshal = (\<lambda>_. Some (replicate 16 0)), unmarshal = (\<lambda>_. None)\<rparr>"

definition plain_request :: request where
  "plain_request = \<lparr>hr_ContentType = [], hr_Body = [0], hr_BodyOK = True, hr_Done = False\<rparr>"

definition plain_api :: "(WAL, string) api" where
  "plain_api = \<lparr>api_Config = demo_settings, api_Storage = wal_storage plain_codec 7, api_Limits = DefaultLimits,
     api_MaxBodyBytes = 10, api_Authority = ''go'', api_URLs = plain_urls,
     api_MediaType = (\<lambda>_. Some ''application/x-protobuf''),
     api_Unmarshal = (\<lambda>_. map_option schema_envelope (encodeTelemetryEnvelope (plain_envelope [plain_span])))\<rparr>"

definition plain_service :: "WAL service" where
  "plain_service = \<lparr>sv_pipeline = new_pipeline demo_settings demo_wal, sv_metrics = new_collector\<rparr>"

lemma plain_round_trip:
  "DecodeProtobuf (\<lambda>_. map_option schema_envelope (encodeTelemetryEnvelope (plain_envelope [plain_span]))) data
    = Inr (plain_envelope [plain_span])"
proof -
  let ?e = "plain_envelope [plain_span]"
  obtain fs where fs: "encodeTelemetryEnvelope ?e = Some fs"
    by (simp add: encodeTelemetryEnvelope_def plain_envelope_def)
  have "sdk_envelope ?e"
    by (simp add: sdk_envelope_def plain_envelope_def sdk_span_def plain_span_def validKinds_def scalar_def)
  then show ?thesis by (rule envelope_round_trip [OF _ fs]) (simp add: fs)
qed

lemma plain_append: "\<exists>r w'. wal_append plain_codec 7 e demo_wal = (Inr r, w')"
proof -
  let ?rq = "\<lparr>rq_tag = 0, rq_envelope = e, rq_now = 7\<rparr>"
  let ?r = "\<lparr>RecordID = 3, Attempts = 0, EnqueuedAt = 7, Envelope = e\<rparr>"
  let ?p = "\<lparr>pr_tag = 0, pr_record = ?r, pr_frame = encodeWALFrame FrameData 3 (replicate 16 0)\<rparr>"
  let ?w = "demo_wal\<lparr>w_nextID := 4\<rparr>"
  have len: "length (encode_group [?p]) = 100"
    by (simp add: encode_group_def group_data_def)
  have "needs_rotation n (fresh_segment 1) ?w = False" for n
    by (simp add: needs_rotation_def wal_sizes)
  moreover have "\<not> projected_bytes (length [?p]) 100 (fresh_segment 1) ?w > cfg_MaxBytes (w_config ?w)"
    by (simp add: projected_bytes_def needs_rotation_def wal_sizes demo_config_def)
  ultimately have "commitGroup [?p] ?w = write_group [?p] (encode_group [?p]) ?w"
    by (simp add: commitGroup_def len)
  then have "fst (commitGroup [?p] ?w) = None"
    by (simp add: write_group_def lift_io_def os_write_def os_sync_def Let_def append_file_def demo_files_def put_file_def)
  then obtain w2 where c: "commitGroup [?p] ?w = (None, w2)" by (metis prod.collapse)
  have "encodeWALDataFrame plain_codec ?r = Inr (pr_frame ?p)"
    by (simp add: encodeWALDataFrame_def plain_codec_def)
  then have "process_loop plain_codec [?rq] [] 0 demo_wal = ([(0, \<lparr>ar_record = Some ?r, ar_err = None\<rparr>)], w2)"
    using c by (simp add: flush_group_def Let_def)
  moreover have "append_admit False False ?rq demo_wal = (None, demo_wal\<lparr>w_appendQueue := [?rq]\<rparr>)"
    by (simp add: append_admit_def demo_config_def)
  moreover have same: "demo_wal\<lparr>w_appendQueue := []\<rparr> = demo_wal" by (simp add: demo_wal_def)
  ultimately show ?thesis
    by (simp add: wal_append_def processAppendRequests_def Let_def same del: process_loop.simps)
qed

text \<open>The JSON library of the instance finds the batch of that envelope, and nothing behind it.\<close>

definition plain_json :: json_library where
  "plain_json = \<lparr>jl_Spans = (\<lambda>_. JsonValue (the (SpanBatch (plain_envelope [plain_span]))) []),
     jl_Runtime = (\<lambda>_. JsonError), jl_Empty = (\<lambda>_. JsonEOF)\<rparr>"

lemma plain_decoded: "decoded plain_api plain_json SpansEndpoint body = Some (plain_envelope [plain_span])"
  by (simp add: decoded_def plain_json_def DecodeJSON_def plain_envelope_def protocol_version_def)

lemma plain_answer:
  "\<exists>s'. handle plain_api plain_json False 5 None TelemetryEndpoint plain_request plain_service
      = (accepted (plain_envelope [clean_span]) None, s')"
proof -
  obtain r w' where "wal_append plain_codec 7 (plain_envelope [clean_span]) demo_wal = (Inr r, w')"
    using plain_append by blast
  then show ?thesis
    by (simp add: handle_def protobufTelemetry_def plain_api_def plain_request_def plain_service_def readBody_def
        protobuf_media_def plain_round_trip accept_def plain_accepted enqueue_def enqueue_durable_def Let_def
        wal_storage_def new_pipeline_def count_on_def)
qed

text \<open>The handler of spans waits, and a worker has delivered the batch.\<close>

lemma plain_json_answer:
  "\<exists>s'. handle plain_api plain_json False 5 (Some (None, None)) SpansEndpoint plain_request plain_service
      = (accepted (plain_envelope [clean_span]) None, s')"
proof -
  let ?e = "plain_envelope [plain_span]"
  obtain r w' where a: "wal_append plain_codec 7 (plain_envelope [clean_span]) demo_wal = (Inr r, w')"
    using plain_append by blast
  have e: "\<lparr>ProtocolVersion = protocol_version, SpanBatch = Some (the (SpanBatch ?e)), RuntimeMetrics = None\<rparr> = ?e"
    by (simp add: plain_envelope_def protocol_version_def)
  show ?thesis using a
    by (simp add: handle_def legacySpans_def decodeJSON_def plain_json_def DecodeJSON_def plain_api_def plain_request_def
        plain_service_def readBody_def e accept_def plain_accepted enqueue_def enqueue_durable_def Let_def
        wal_storage_def new_pipeline_def count_on_def waiting_channel_def await_def)
qed

lemma plain_start: "durable_setup demo_settings demo_wal" "wal_room demo_wal"
  using demo_inv
  by (simp_all add: durable_setup_def valid_pipeline_def valid_retry_def demo_settings_def demo_config_def f64_lt_def
      wal_room_def room_for_def)

lemma admitted_accepted:
  "replied 202 (admitted_reply ch answer e) \<longleftrightarrow> (ch = None \<or> (\<exists>outcome. answer = Some (outcome, None)))"
  by (auto simp: admitted_reply_def await_def split: option.splits prod.splits)

section \<open>Properties\<close>

text \<open>C6: (safety) A request to store telemetry, to any of the three handlers, is answered with 202 only if its
  body decodes to an envelope that passes validation and the sanitised envelope is a new record of the
  log, to be delivered; a handler that waits for the topology does so only after a worker has reported
  its delivery. After any other answer, or none, the records of the log are what they were, except
  that a handler that waits may have stored the record and then heard of a failure, or nothing,
  from the worker. In all cases the pipeline is in one of the states that its invariants speak of.\<close>

theorem accepted_telemetry_is_stored:
  assumes "handle api json pf fresh answer endpoint req s = (reply, s')"
    and "api_Storage api = wal_storage js now" "pc_Durable (api_Config api)"
    and "pipeline_reachable (api_Config api) (wal_storage js now) wal_room w0 (sv_pipeline s)"
    and "durable_setup (api_Config api) w0" "wal_room (pp_storage (sv_pipeline s))"
    and "fresh \<notin> pp_channels (sv_pipeline s)"
  shows "pipeline_reachable (api_Config api) (wal_storage js now) wal_room w0 (sv_pipeline s')
    \<and> (let stored = (\<exists>raw e r. decoded api json endpoint (hr_Body req) = Some raw
              \<and> ValidateAndSanitize (api_URLs api) (api_Limits api) raw = Inr e
              \<and> stored_as (pp_storage (sv_pipeline s)) e r (pp_storage (sv_pipeline s')));
            waits = (channel_of api fresh endpoint \<noteq> None);
            delivered = (\<exists>outcome. answer = Some (outcome, None))
       in if replied 202 reply then stored \<and> (waits \<longrightarrow> delivered)
          else wal_attempts (pp_storage (sv_pipeline s')) = wal_attempts (pp_storage (sv_pipeline s))
            \<or> stored \<and> waits \<and> \<not> delivered)"
  using assms(1)
proof (cases rule: handle_cases)
  case rejected
  then show ?thesis using assms(4) by (auto simp: replied_def Let_def)
next
  case (offered raw e r)
  let ?ch = "channel_of api fresh endpoint"
  have q: "enqueue_durable (wal_storage js now) ?ch e s = (r, s')"
    using offered(3) assms(2,3) by (simp add: enqueue_def)
  have new: "\<forall>x. ?ch = Some x \<longrightarrow> x \<notin> pp_channels (sv_pipeline s)"
    using assms(7) by (auto simp: channel_of_def waiting_channel_def split: if_splits)
  have reach: "pipeline_reachable (api_Config api) (wal_storage js now) wal_room w0 (sv_pipeline s')"
    by (rule enqueue_durable_reachable [OF q assms(6) new assms(4)])
  have "wal_inv (pp_storage (sv_pipeline s))"
    using pipeline_ok_core [OF setup_ok(1) [OF assms(4,5)]] by (simp add: core_ok_def wal_ready_def)
  note log = enqueue_log [OF q this assms(6)]
  show ?thesis
  proof (cases r)
    case (Inl err)
    then show ?thesis using log reach offered(4) by simp
  next
    case (Inr entry)
    then have "reply = admitted_reply ?ch answer e" using offered(4) by simp
    then have "replied 202 reply \<longleftrightarrow> ?ch = None \<or> (\<exists>outcome. answer = Some (outcome, None))"
      using admitted_accepted [of ?ch answer e] by simp
    then show ?thesis using log Inr reach offered(1,2) by (auto simp: Let_def)
  qed
qed

theorem accepted_telemetry_is_stored_witness:
  "\<exists>s' r. handle plain_api plain_json False 5 (Some (None, None)) SpansEndpoint plain_request plain_service
       = (accepted (plain_envelope [clean_span]) None, s')
     \<and> stored_as demo_wal (plain_envelope [clean_span]) r (pp_storage (sv_pipeline s'))"
proof -
  obtain s' where s': "handle plain_api plain_json False 5 (Some (None, None)) SpansEndpoint plain_request plain_service
      = (accepted (plain_envelope [clean_span]) None, s')"
    using plain_json_answer by blast
  have "pipeline_reachable demo_settings (wal_storage plain_codec 7) wal_room demo_wal (sv_pipeline plain_service)"
    by (simp add: plain_service_def pipeline_reachable.initially)
  then have "\<exists>raw e r. decoded plain_api plain_json SpansEndpoint (hr_Body plain_request) = Some raw
      \<and> ValidateAndSanitize (api_URLs plain_api) (api_Limits plain_api) raw = Inr e
      \<and> stored_as (pp_storage (sv_pipeline plain_service)) e r (pp_storage (sv_pipeline s'))"
    using accepted_telemetry_is_stored [OF s', of plain_codec 7 demo_wal] plain_start
    by (simp add: plain_api_def plain_service_def new_pipeline_def Let_def)
  then show ?thesis
    using s' plain_accepted plain_decoded by (auto simp: plain_api_def plain_service_def new_pipeline_def)
qed

text \<open>The counters of what became of requests, and how an answer with \<open>n\<close> events changes them.\<close>

definition tallies :: "collector \<Rightarrow> u64 list" where
  "tallies m = [mc_received m, mc_rejectedFull m, mc_rejectedSpool m, mc_rejectedClosed m, mc_rejectedInvalid m, mc_errors m]"

definition counted :: "collector \<Rightarrow> u64 list \<Rightarrow> collector \<Rightarrow> bool" where
  "counted m ds m' \<longleftrightarrow> tallies m' = List.map2 (+) (tallies m) ds"

lemma counted_refl [simp]: "counted m [0, 0, 0, 0, 0, 0] m"
  by (simp add: counted_def tallies_def)

lemma tallies_received: "tallies (RecordReceived n m) = List.map2 (+) (tallies m) [n, 0, 0, 0, 0, 0]"
  by (simp add: tallies_def RecordReceived_def)

lemma tallies_error: "tallies (RecordError m) = List.map2 (+) (tallies m) [0, 0, 0, 0, 0, 1]"
  by (simp add: tallies_def RecordError_def)

lemma tallies_rejected:
  "tallies (RecordRejected ''queue_full'' n m) = List.map2 (+) (tallies m) [0, n, 0, 0, 0, 0]"
  "tallies (RecordRejected ''spool_full'' n m) = List.map2 (+) (tallies m) [0, 0, n, 0, 0, 0]"
  "tallies (RecordRejected ''closed'' n m) = List.map2 (+) (tallies m) [0, 0, 0, n, 0, 0]"
  "tallies (RecordRejected ''invalid'' n m) = List.map2 (+) (tallies m) [0, 0, 0, 0, n, 0]"
  by (simp_all add: tallies_def RecordRejected_def)

lemma tallies_depth: "tallies (SetQueueDepth d m) = tallies m"
  by (simp add: tallies_def SetQueueDepth_def)

lemma map2_tallies: "List.map2 (+) (List.map2 (+) (tallies m) [a, b, c, d, e, f]) [a', b', c', d', e', f']
    = List.map2 (+) (tallies m) [a + a', b + b', c + c', d + d', e + e', f + f']"
  by (simp add: tallies_def ac_simps)

lemmas tallies_of = tallies_received tallies_error tallies_rejected tallies_depth map2_tallies

text \<open>What \<open>enqueue\<close> counts, for each of its results.\<close>

definition admission_counts :: "pipeline_error + item \<Rightarrow> u64 \<Rightarrow> collector \<Rightarrow> collector \<Rightarrow> bool" where
  "admission_counts r n m m' \<longleftrightarrow> (case r of
     Inr _ \<Rightarrow> counted m [n, 0, 0, 0, 0, 0] m'
   | Inl ErrQueueFull \<Rightarrow> counted m [n, n, 0, 0, 0, 0] m'
   | Inl ErrSpoolFull \<Rightarrow> counted m [n, 0, n, 0, 0, 0] m'
   | Inl ErrClosed \<Rightarrow> counted m [n, 0, 0, n, 0, 0] m'
   | Inl ContextCanceled \<Rightarrow> counted m [n, 0, 0, 0, 0, 0] m'
   | Inl (StorageFailed err) \<Rightarrow> err \<noteq> ErrFull \<and> counted m [n, 0, 0, 0, 0, 1] m'
   | Inl (SinkFailed _) \<Rightarrow> False)"

lemma enqueue_counts:
  assumes "enqueue c st pf req ch e s = (r, s')"
  shows "admission_counts r (of_nat (EventCount e)) (sv_metrics s) (sv_metrics s')"
proof (cases "pc_Durable c")
  case True
  then have "enqueue_durable st ch e s = (r, s')" using assms by (simp add: enqueue_def)
  then show ?thesis
  proof (cases rule: enqueue_durable_cases)
    case (refused err t)
    then show ?thesis
      by (auto simp: admission_counts_def counted_def Let_def tallies_of split: if_splits)
  qed (simp_all add: admission_counts_def counted_def tallies_of)
next
  case False
  then show ?thesis using assms
    by (auto simp: enqueue_def enqueue_memory_def Let_def admission_counts_def counted_def tallies_of split: if_splits)
qed

definition answered :: "u64 \<Rightarrow> reply option \<Rightarrow> collector \<Rightarrow> collector \<Rightarrow> bool" where
  "answered n reply m m' \<longleftrightarrow>
     replied 202 reply \<and> counted m [n, 0, 0, 0, 0, 0] m'
     \<or> replied 429 reply \<and> counted m [n, n, 0, 0, 0, 0] m'
     \<or> replied 507 reply \<and> counted m [n, 0, n, 0, 0, 0] m'
     \<or> replied 503 reply \<and> (counted m [n, 0, 0, n, 0, 0] m' \<or> counted m [n, 0, 0, 0, 0, 1] m')
     \<or> reply = None \<and> (counted m [n, 0, 0, 0, 0, 0] m' \<or> counted m [n, 0, 0, 0, 0, 1] m')"

lemma storage_failure_reply:
  "err \<noteq> ErrFull \<Longrightarrow> admission_error (StorageFailed err) = None \<or> replied 503 (admission_error (StorageFailed err))"
  by (cases err) (simp_all add: admission_error_def)

lemma admission_answered:
  assumes "admission_counts r n m m'"
  shows "answered n (case r of Inl err \<Rightarrow> admission_error err | Inr _ \<Rightarrow> accepted e None) m m'"
proof (cases r)
  case (Inl err)
  then show ?thesis
  proof (cases err)
    case (StorageFailed x)
    then show ?thesis
      using assms Inl storage_failure_reply [of x] by (auto simp: admission_counts_def answered_def)
  qed (use assms in \<open>simp_all add: admission_counts_def answered_def admission_error_def replied_def plain_reply_def\<close>)
qed (use assms in \<open>simp add: admission_counts_def answered_def\<close>)

text \<open>C37: (functional) A request, to any of the three handlers, is accounted for once: one that is invalid is
  counted as such, one refused by a full queue, a full log or a collector that shuts down as received
  and rejected for that reason, with the number of its events, and a failure of the storage as an
  error, in agreement with the answer; one that is admitted is counted as received and nothing else,
  whatever a handler that waits then answers.\<close>

theorem requests_are_accounted:
  assumes "handle api json pf fresh answer endpoint req s = (reply, s')"
  shows "(replied 400 reply \<or> replied 413 reply \<or> replied 415 reply)
      \<and> counted (sv_metrics s) [0, 0, 0, 0, 1, 0] (sv_metrics s') \<and> sv_pipeline s' = sv_pipeline s
    \<or> (\<exists>raw e. decoded api json endpoint (hr_Body req) = Some raw
        \<and> ValidateAndSanitize (api_URLs api) (api_Limits api) raw = Inr e
        \<and> (answered (of_nat (EventCount e)) reply (sv_metrics s) (sv_metrics s')
           \<or> reply = admitted_reply (channel_of api fresh endpoint) answer e
             \<and> counted (sv_metrics s) [of_nat (EventCount e), 0, 0, 0, 0, 0] (sv_metrics s')))"
  using assms
proof (cases rule: handle_cases)
  case rejected
  then show ?thesis by (simp add: counted_def tallies_of)
next
  case (offered raw e r)
  note c = enqueue_counts [OF offered(3)]
  show ?thesis
  proof (cases r)
    case (Inl err)
    then show ?thesis using offered admission_answered [OF c, of e] by auto
  next
    case (Inr entry)
    then show ?thesis using offered c by (auto simp: admission_counts_def)
  qed
qed

theorem requests_are_accounted_witness:
  "\<exists>s'. handle plain_api plain_json False 5 None TelemetryEndpoint plain_request plain_service
       = (accepted (plain_envelope [clean_span]) None, s')
     \<and> counted new_collector [1, 0, 0, 0, 0, 0] (sv_metrics s')"
proof -
  obtain s' where s': "handle plain_api plain_json False 5 None TelemetryEndpoint plain_request plain_service
      = (accepted (plain_envelope [clean_span]) None, s')"
    using plain_answer by blast
  have some: "(accepted e x = None) = False" for e x by (simp add: accepted_def)
  have d: "decoded plain_api plain_json TelemetryEndpoint (hr_Body plain_request) = Some (plain_envelope [plain_span])"
    by (simp add: decoded_def plain_api_def plain_round_trip)
  then have "counted (sv_metrics plain_service) [of_nat (EventCount (plain_envelope [clean_span])), 0, 0, 0, 0, 0] (sv_metrics s')"
    using requests_are_accounted [OF s'] plain_accepted
    by (auto simp: answered_def some) (auto simp: plain_api_def)
  then show ?thesis using s' by (simp add: plain_service_def EventCount_def plain_envelope_def)
qed

end
