(* ===== verification/Sink_Http.thy ===== *)
theory Sink_Http
  imports Sink_Topology Pipeline_Worker Telemetry_Codec
begin

text \<open>
  The sinks that do not feed the engine of this process: the HTTP sink
  (\<open>runtime/go/internal/sink/http.go\<close>), which posts a batch to another topology service, and the discarding
  sink of benchmarks (\<open>discard.go\<close>). The network is a parameter: what the client's \<open>Do\<close> returns for a
  request, on a state of its own. Its errors are told apart only as far as the callers do, which ask
  whether the context or a deadline ended the request. Encoding and decoding of JSON are parameters.
\<close>

section \<open>The client\<close>

datatype http_request = HttpGet string | HttpPost string bytes

record http_response =
  re_Status :: int
  re_Body :: string
  re_Complete :: bool

datatype net_error = NetCancelled | NetFailed string

type_synonym 'k http_do = "http_request \<Rightarrow> 'k \<Rightarrow> (net_error + http_response) \<times> 'k"

text \<open>\<open>hl_DecodeAck\<close> and \<open>hl_DecodeSnapshot\<close> read the first value of a body that is complete or ends in an
  error: the revision of an acknowledgement, the numbers of nodes and edges of a snapshot.
  \<open>hl_URL\<close> says whether \<open>http.NewRequestWithContext\<close> takes a URL.\<close>

record http_library =
  hl_URL :: "string \<Rightarrow> bool"
  hl_MarshalBatch :: "span_batch \<Rightarrow> bytes option"
  hl_MarshalRuntime :: "runtime_metrics \<Rightarrow> bytes option"
  hl_DecodeAck :: "string \<Rightarrow> bool \<Rightarrow> u64 json_result"
  hl_DecodeSnapshot :: "string \<Rightarrow> bool \<Rightarrow> (nat \<times> nat) json_result"

record 'k http_sink =
  hs_BaseURL :: string
  hs_Net :: 'k
  hs_Metrics :: collector

definition success_status :: "int \<Rightarrow> bool" where
  "success_status status \<longleftrightarrow> \<not> (status < 200 \<or> status \<ge> 300)"

text \<open>\<open>io.LimitReader\<close>: the bytes up to a limit; what ends at the limit ends there without an error.\<close>

definition limited :: "nat \<Rightarrow> http_response \<Rightarrow> string \<times> bool" where
  "limited n r = (take n (re_Body r), re_Complete r \<or> n \<le> length (re_Body r))"

definition net_failure :: "string \<Rightarrow> net_error \<Rightarrow> sink_error" where
  "net_failure what e = (case e of NetCancelled \<Rightarrow> SinkCancelled | NetFailed _ \<Rightarrow> SinkFailure what)"

text \<open>\<open>NewHTTP\<close>; \<open>strings.TrimRight(s, "/")\<close> drops every slash at the end.\<close>

definition http_base_url :: "'r url_library \<Rightarrow> string \<Rightarrow> string option" where
  "http_base_url lib raw =
     (case url_parse lib raw of
        None \<Rightarrow> None
      | Some u \<Rightarrow>
          if url_Scheme u \<noteq> ''http'' \<and> url_Scheme u \<noteq> ''https'' \<or> url_Host u = [] then None
          else Some (rev (dropWhile (\<lambda>c. c = CHR ''/'') (rev (url_string lib u)))))"

text \<open>\<open>postJSON\<close>. With \<open>ack\<close>, the reply's acknowledgement is decoded; an empty reply stands for revision 0.\<close>

definition postJSON :: "http_library \<Rightarrow> 'k http_do \<Rightarrow> string \<Rightarrow> bytes option \<Rightarrow> bool \<Rightarrow> 'k http_sink
    \<Rightarrow> (sink_error + u64) \<times> 'k http_sink" where
  "postJSON lib perform path body ack s =
     (case body of
        None \<Rightarrow> (Inl (SinkFailure ''encode topology payload''), s)
      | Some data \<Rightarrow>
          let url = hs_BaseURL s @ path
          in if \<not> hl_URL lib url then (Inl (SinkFailure ''request''), s)
             else case perform (HttpPost url data) (hs_Net s) of
               (Inl e, k) \<Rightarrow> (Inl (net_failure ''deliver telemetry to topology service'' e), s\<lparr>hs_Net := k\<rparr>)
             | (Inr r, k) \<Rightarrow>
                 let s = s\<lparr>hs_Net := k\<rparr>
                 in if \<not> success_status (re_Status r)
                    then (Inl (HTTPStatusError (re_Status r) (trim_space (fst (limited 4096 r)))), s)
                    else if ack
                    then (case limited 65536 r of (txt, whole) \<Rightarrow>
                            (case hl_DecodeAck lib txt whole of
                               JsonValue revision _ \<Rightarrow> (Inr revision, s)
                             | JsonEOF \<Rightarrow> (Inr 0, s)
                             | JsonError \<Rightarrow> (Inl (SinkFailure ''decode topology acknowledgement''), s)))
                    else (Inr 0, s))"

definition observeTopology :: "http_library \<Rightarrow> 'k http_do \<Rightarrow> 'k http_sink \<Rightarrow> 'k http_sink" where
  "observeTopology lib perform s =
     (let url = hs_BaseURL s @ ''/api/snapshot''
      in if \<not> hl_URL lib url then s
         else case perform (HttpGet url) (hs_Net s) of
           (Inl e, k) \<Rightarrow> s\<lparr>hs_Net := k\<rparr>
         | (Inr r, k) \<Rightarrow>
             let s = s\<lparr>hs_Net := k\<rparr>
             in if \<not> success_status (re_Status r) then s
                else (case limited 8388608 r of (txt, whole) \<Rightarrow>
                        (case hl_DecodeSnapshot lib txt whole of
                           JsonValue (nodes, edges) _ \<Rightarrow>
                             s\<lparr>hs_Metrics := SetTopology (int nodes) (int edges) (hs_Metrics s)\<rparr>
                         | _ \<Rightarrow> s)))"

section \<open>Delivering a batch\<close>

definition group_batch :: "span_group \<Rightarrow> span_batch" where
  "group_batch g = \<lparr>sb_ServiceName = gr_serviceName g, sb_NodeVersion = gr_nodeVersion g, sb_Spans = gr_spans g\<rparr>"

definition topology_updated :: "'k http_sink \<Rightarrow> 'k http_sink" where
  "topology_updated s = s\<lparr>hs_Metrics := RecordTopologyUpdate (hs_Metrics s)\<rparr>"

fun post_groups :: "http_library \<Rightarrow> 'k http_do \<Rightarrow> span_group gomap \<Rightarrow> string list \<Rightarrow> outcome list \<Rightarrow> 'k http_sink
    \<Rightarrow> (sink_error + outcome list) \<times> 'k http_sink" where
  "post_groups lib perform groups [] outcomes s = (Inr outcomes, s)"
| "post_groups lib perform groups (key # ks) outcomes s =
     (case map_of groups key of
        None \<Rightarrow> (Inr outcomes, s)
      | Some g \<Rightarrow>
          (case postJSON lib perform ''/api/spans'' (hl_MarshalBatch lib (group_batch g)) True s of
             (Inl e, s1) \<Rightarrow> (Inl e, s1)
           | (Inr revision, s1) \<Rightarrow>
               post_groups lib perform groups ks (set_outcomes (gr_indexes g) revision outcomes) (topology_updated s1)))"

fun post_runtimes :: "http_library \<Rightarrow> 'k http_do \<Rightarrow> runtime_metrics gomap \<Rightarrow> string list \<Rightarrow> 'k http_sink
    \<Rightarrow> sink_error option \<times> 'k http_sink" where
  "post_runtimes lib perform runtimes [] s = (None, s)"
| "post_runtimes lib perform runtimes (name # ks) s =
     (case map_of runtimes name of
        None \<Rightarrow> (None, s)
      | Some m \<Rightarrow>
          (case postJSON lib perform ''/api/runtime'' (hl_MarshalRuntime lib m) False s of
             (Inl e, s1) \<Rightarrow> (Some e, s1)
           | (Inr _, s1) \<Rightarrow> post_runtimes lib perform runtimes ks (topology_updated s1)))"

definition http_consume :: "http_library \<Rightarrow> 'k http_do \<Rightarrow> envelope list \<Rightarrow> 'k http_sink
    \<Rightarrow> (sink_error + outcome list) \<times> 'k http_sink" where
  "http_consume lib perform envelopes s =
     (case group_envelopes 0 envelopes [] [] of
        (groups, runtimes) \<Rightarrow>
          (case post_groups lib perform groups (sortedKeys groups) (replicate (length envelopes) None) s of
             (Inl e, s1) \<Rightarrow> (Inl e, s1)
           | (Inr outcomes, s1) \<Rightarrow>
               (case post_runtimes lib perform runtimes (sortedKeys runtimes) s1 of
                  (Some e, s2) \<Rightarrow> (Inl e, s2)
                | (None, s2) \<Rightarrow>
                    (Inr outcomes, if sortedKeys groups \<noteq> [] then observeTopology lib perform s2 else s2))))"

definition http_ready :: "http_library \<Rightarrow> 'k http_do \<Rightarrow> 'k http_sink \<Rightarrow> sink_error option \<times> 'k http_sink" where
  "http_ready lib perform s =
     (let url = hs_BaseURL s @ ''/api/health''
      in if \<not> hl_URL lib url then (Some (SinkFailure ''request''), s)
         else case perform (HttpGet url) (hs_Net s) of
           (Inl e, k) \<Rightarrow> (Some (net_failure ''topology health request'' e), s\<lparr>hs_Net := k\<rparr>)
         | (Inr r, k) \<Rightarrow>
             (if success_status (re_Status r) then None else Some (SinkFailure ''topology health''), s\<lparr>hs_Net := k\<rparr>))"

text \<open>The discarding sink takes everything.\<close>

definition discard_consume :: "'k sink_op" where
  "discard_consume envelopes s = (Inr (replicate (length envelopes) None), s)"

end
