(* ===== verification/Sink_Http_Properties.thy ===== *)
theory Sink_Http_Properties
  imports Sink_Http Sink_Properties "HOL-Library.Sublist"
begin

text \<open>
  What the HTTP sink has asked of the network when it reports a batch as delivered, or fails.
\<close>

section \<open>What is sent\<close>

text \<open>A network that remembers what was asked of it and what came back.\<close>

definition logged :: "'k http_do \<Rightarrow> ('k \<times> (http_request \<times> (net_error + http_response)) list) http_do" where
  "logged perform req kl = (case perform req (fst kl) of (x, k) \<Rightarrow> (x, (k, snd kl @ [(req, x)])))"

definition sent :: "('k \<times> (http_request \<times> (net_error + http_response)) list) http_sink
    \<Rightarrow> (http_request \<times> (net_error + http_response)) list" where
  "sent s = snd (hs_Net s)"

definition arrived :: "http_request \<times> (net_error + http_response) \<Rightarrow> bool" where
  "arrived x = (case snd x of Inl _ \<Rightarrow> False | Inr r \<Rightarrow> success_status (re_Status r))"

text \<open>The posts that a batch comes to: its groups in the order of their keys, then the runtime metrics.\<close>

definition group_posts :: "http_library \<Rightarrow> string \<Rightarrow> span_group gomap \<Rightarrow> string list \<Rightarrow> http_request option list" where
  "group_posts lib base groups ks = List.map (\<lambda>key. map_option (HttpPost (base @ ''/api/spans''))
     (Option.bind (map_of groups key) (\<lambda>g. hl_MarshalBatch lib (group_batch g)))) ks"

definition runtime_posts :: "http_library \<Rightarrow> string \<Rightarrow> runtime_metrics gomap \<Rightarrow> string list \<Rightarrow> http_request option list" where
  "runtime_posts lib base runtimes ks = List.map (\<lambda>name. map_option (HttpPost (base @ ''/api/runtime''))
     (Option.bind (map_of runtimes name) (hl_MarshalRuntime lib))) ks"

definition batch_posts :: "http_library \<Rightarrow> string \<Rightarrow> envelope list \<Rightarrow> http_request option list" where
  "batch_posts lib base es = group_posts lib base (span_groups es) (sortedKeys (span_groups es))
     @ runtime_posts lib base (latest_runtimes es) (sortedKeys (latest_runtimes es))"

text \<open>The calls of the network are the posts, all of them answered with success; or a first part of them, all
  but the last answered with success, and an error that names a status is that of the last answer.\<close>

definition answer_named :: "sink_error option \<Rightarrow> (http_request \<times> (net_error + http_response)) list \<Rightarrow> bool" where
  "answer_named e cs \<longleftrightarrow> (case e of
     Some (HTTPStatusError status m) \<Rightarrow>
       cs \<noteq> [] \<and> (\<exists>r. snd (last cs) = Inr r \<and> re_Status r = status \<and> \<not> success_status status)
   | _ \<Rightarrow> True)"

definition posted :: "http_request option list \<Rightarrow> bool \<Rightarrow> sink_error option
    \<Rightarrow> (http_request \<times> (net_error + http_response)) list \<Rightarrow> bool" where
  "posted posts whole e cs \<longleftrightarrow>
     (if whole then List.map (Some \<circ> fst) cs = posts \<and> list_all arrived cs
      else prefix (List.map (Some \<circ> fst) cs) posts \<and> list_all arrived (butlast cs) \<and> answer_named e cs)"

lemma postJSON_sent:
  assumes "postJSON lib (logged perform) path body ack s = (r, s')"
  shows "hs_BaseURL s' = hs_BaseURL s \<and> hs_Metrics s' = hs_Metrics s
    \<and> (\<exists>cs. sent s' = sent s @ cs \<and> (case r of
         Inr _ \<Rightarrow> (\<exists>d x. body = Some d \<and> cs = [(HttpPost (hs_BaseURL s @ path) d, x)]) \<and> list_all arrived cs
       | Inl e \<Rightarrow> posted [map_option (HttpPost (hs_BaseURL s @ path)) body] False (Some e) cs))"
proof (cases body)
  case None
  then show ?thesis using assms by (auto simp: postJSON_def posted_def answer_named_def)
next
  case (Some d)
  let ?req = "HttpPost (hs_BaseURL s @ path) d"
  show ?thesis
  proof (cases "hl_URL lib (hs_BaseURL s @ path)")
    case False
    then show ?thesis using assms Some by (auto simp: postJSON_def posted_def answer_named_def)
  next
    case True
    obtain x k where p: "perform ?req (fst (hs_Net s)) = (x, k)" by fastforce
    show ?thesis
    proof (cases x)
      case (Inl e)
      then have "r = Inl (net_failure ''deliver telemetry to topology service'' e)" "sent s' = sent s @ [(?req, x)]"
        "hs_BaseURL s' = hs_BaseURL s" "hs_Metrics s' = hs_Metrics s"
        using assms Some True p by (auto simp: postJSON_def logged_def sent_def Let_def)
      then show ?thesis using Some by (cases e) (auto simp: posted_def net_failure_def answer_named_def)
    next
      case (Inr re)
      have s': "sent s' = sent s @ [(?req, x)]" "hs_BaseURL s' = hs_BaseURL s" "hs_Metrics s' = hs_Metrics s"
        using assms Some True p Inr
        by (auto simp: postJSON_def logged_def sent_def Let_def split: if_splits prod.splits json_result.splits)
      have r: "if success_status (re_Status re)
          then (\<exists>v. r = Inr v) \<or> r = Inl (SinkFailure ''decode topology acknowledgement'')
          else \<exists>m. r = Inl (HTTPStatusError (re_Status re) m)"
        using assms Some True p Inr
        by (auto simp: postJSON_def logged_def Let_def split: if_splits prod.splits json_result.splits)
      show ?thesis using s' r Some Inr
        by (auto simp: posted_def arrived_def answer_named_def split: if_splits)
    qed
  qed
qed

lemma answer_named_append: "answer_named e ds \<Longrightarrow> answer_named e (cs @ ds)"
  by (auto simp: answer_named_def split: option.splits sink_error.splits)

lemma posted_append:
  assumes "posted ps True e' cs" "posted qs whole e ds"
  shows "posted (ps @ qs) whole e (cs @ ds)"
proof (cases whole)
  case True
  then show ?thesis using assms by (auto simp: posted_def)
next
  case False
  have cs: "List.map (Some \<circ> fst) cs = ps" "list_all arrived cs" using assms(1) by (simp_all add: posted_def)
  have "list_all arrived (butlast (cs @ ds))"
  proof (cases "ds = []")
    case True
    then show ?thesis using cs(2) by (auto simp: list_all_iff dest: in_set_butlastD)
  qed (use assms(2) False cs(2) in \<open>simp add: butlast_append posted_def\<close>)
  then show ?thesis using assms(2) False cs answer_named_append by (simp add: posted_def)
qed

lemma posted_more: "posted ps False e cs \<Longrightarrow> posted (ps @ qs) False e cs"
  by (simp add: posted_def prefix_prefix)

definition sends :: "('k \<times> (http_request \<times> (net_error + http_response)) list) http_sink \<Rightarrow> http_request option list
    \<Rightarrow> bool \<Rightarrow> sink_error option \<Rightarrow> ('k \<times> (http_request \<times> (net_error + http_response)) list) http_sink \<Rightarrow> bool" where
  "sends s posts whole e s' \<longleftrightarrow> hs_BaseURL s' = hs_BaseURL s
     \<and> (\<exists>cs. sent s' = sent s @ cs \<and> posted posts whole e cs)"

lemma sends_append: "sends s ps True e' s1 \<Longrightarrow> sends s1 qs whole e s2 \<Longrightarrow> sends s (ps @ qs) whole e s2"
  unfolding sends_def using posted_append by fastforce

lemma sends_more: "sends s ps False e s' \<Longrightarrow> sends s (ps @ qs) False e s'"
  unfolding sends_def using posted_more by blast

lemma sends_none [simp]: "sends s [] True e s"
  by (simp add: sends_def posted_def)

lemma sends_update [simp]: "sends s ps whole e (topology_updated s') = sends s ps whole e s'"
  by (simp add: sends_def topology_updated_def sent_def)

lemma postJSON_sends:
  assumes "postJSON lib (logged perform) path body ack s = (r, s')"
  shows "sends s [map_option (HttpPost (hs_BaseURL s @ path)) body] (\<exists>v. r = Inr v) (case r of Inl e \<Rightarrow> Some e | Inr _ \<Rightarrow> None) s'"
  using postJSON_sent [OF assms] by (cases r) (auto simp: sends_def posted_def)

lemma post_groups_sends:
  assumes "post_groups lib (logged perform) groups ks os s = (r, s')" "set ks \<subseteq> set (keys groups)"
  shows "sends s (group_posts lib (hs_BaseURL s) groups ks) (\<exists>v. r = Inr v) (case r of Inl e \<Rightarrow> Some e | Inr _ \<Rightarrow> None) s'
    \<and> (\<forall>os'. r = Inr os' \<longrightarrow> length os' = length os)"
  using assms
proof (induction ks arbitrary: os s)
  case Nil
  then show ?case by (auto simp: group_posts_def)
next
  case (Cons key ks)
  obtain g where g: "map_of groups key = Some g" using Cons.prems(2) keys_iff [of key groups] by auto
  let ?post = "map_option (HttpPost (hs_BaseURL s @ ''/api/spans'')) (hl_MarshalBatch lib (group_batch g))"
  have gp: "group_posts lib base groups (key # ks) = map_option (HttpPost (base @ ''/api/spans'')) (hl_MarshalBatch lib (group_batch g))
      # group_posts lib base groups ks" for base
    using g by (simp add: group_posts_def)
  obtain x s1 where p: "postJSON lib (logged perform) ''/api/spans'' (hl_MarshalBatch lib (group_batch g)) True s = (x, s1)" by fastforce
  note one = postJSON_sends [OF p]
  show ?case
  proof (cases x)
    case (Inl e)
    then have "r = Inl e" "s' = s1" using Cons.prems(1) g p by auto
    then show ?thesis using one Inl sends_more [of s "[?post]"] gp by simp
  next
    case (Inr v)
    then have rest: "post_groups lib (logged perform) groups ks (set_outcomes (gr_indexes g) v os) (topology_updated s1) = (r, s')"
      using Cons.prems(1) g p by simp
    have base: "hs_BaseURL (topology_updated s1) = hs_BaseURL s"
      using one by (simp add: sends_def topology_updated_def)
    have "sends s [?post] True None (topology_updated s1)" using one Inr by simp
    then show ?thesis
      using Cons.IH [OF rest] Cons.prems(2) sends_append [of s "[?post]" None "topology_updated s1"] gp base
      by (auto simp: set_outcomes_nth(2))
  qed
qed

lemma post_runtimes_sends:
  assumes "post_runtimes lib (logged perform) runtimes ks s = (e, s')" "set ks \<subseteq> set (keys runtimes)"
  shows "sends s (runtime_posts lib (hs_BaseURL s) runtimes ks) (e = None) e s'"
  using assms
proof (induction ks arbitrary: s)
  case Nil
  then show ?case by (auto simp: runtime_posts_def)
next
  case (Cons name ks)
  obtain m where m: "map_of runtimes name = Some m" using Cons.prems(2) keys_iff [of name runtimes] by auto
  let ?post = "map_option (HttpPost (hs_BaseURL s @ ''/api/runtime'')) (hl_MarshalRuntime lib m)"
  have rp: "runtime_posts lib base runtimes (name # ks) = map_option (HttpPost (base @ ''/api/runtime'')) (hl_MarshalRuntime lib m)
      # runtime_posts lib base runtimes ks" for base
    using m by (simp add: runtime_posts_def)
  obtain x s1 where p: "postJSON lib (logged perform) ''/api/runtime'' (hl_MarshalRuntime lib m) False s = (x, s1)" by fastforce
  note one = postJSON_sends [OF p]
  show ?case
  proof (cases x)
    case (Inl err)
    then have "e = Some err" "s' = s1" using Cons.prems(1) m p by auto
    then show ?thesis using one Inl sends_more [of s "[?post]"] rp by simp
  next
    case (Inr v)
    then have rest: "post_runtimes lib (logged perform) runtimes ks (topology_updated s1) = (e, s')"
      using Cons.prems(1) m p by simp
    have base: "hs_BaseURL (topology_updated s1) = hs_BaseURL s"
      using one by (simp add: sends_def topology_updated_def)
    have "sends s [?post] True None (topology_updated s1)" using one Inr by simp
    then show ?thesis
      using Cons.IH [OF rest] Cons.prems(2) sends_append [of s "[?post]" None "topology_updated s1"] rp base by auto
  qed
qed

lemma observe_sent:
  "\<exists>xs. sent (observeTopology lib (logged perform) s) = sent s @ xs \<and> length xs \<le> 1
     \<and> (\<forall>x\<in>set xs. fst x = HttpGet (hs_BaseURL s @ ''/api/snapshot''))"
proof (cases "hl_URL lib (hs_BaseURL s @ ''/api/snapshot'')")
  case True
  obtain x k where p: "perform (HttpGet (hs_BaseURL s @ ''/api/snapshot'')) (fst (hs_Net s)) = (x, k)" by fastforce
  show ?thesis
    using True p
    by (intro exI [of _ "[(HttpGet (hs_BaseURL s @ ''/api/snapshot''), x)]"])
      (auto simp: observeTopology_def logged_def sent_def Let_def split: sum.splits if_splits prod.splits json_result.splits)
qed (auto simp: observeTopology_def Let_def)

section \<open>The property\<close>

text \<open>C38: (functional) The HTTP sink reports a batch as delivered only after it has posted every group of spans and
  then the latest runtime metrics of every service, each once, in order, and each was answered
  with success; the sample of the topology that may follow does not matter. On an error a first
  part of these posts was made, all but the last of them with success, and an error that names a
  status, by which the pipeline decides to give up, is the answer to the last one.\<close>

theorem http_sink_delivers:
  assumes "http_consume lib (logged perform) es s = (r, s')" "sent s = []"
  shows "case r of
      Inr outcomes \<Rightarrow> length outcomes = length es \<and> (\<exists>cs xs. sent s' = cs @ xs
        \<and> List.map (Some \<circ> fst) cs = batch_posts lib (hs_BaseURL s) es \<and> list_all arrived cs
        \<and> length xs \<le> 1 \<and> (\<forall>x\<in>set xs. fst x = HttpGet (hs_BaseURL s @ ''/api/snapshot'')))
    | Inl e \<Rightarrow> posted (batch_posts lib (hs_BaseURL s) es) False (Some e) (sent s')"
proof -
  let ?G = "span_groups es" and ?R = "latest_runtimes es"
  have ge: "group_envelopes 0 es [] [] = (?G, ?R)" by (simp add: span_groups_def latest_runtimes_def)
  obtain x s1 where p: "post_groups lib (logged perform) ?G (sortedKeys ?G) (replicate (length es) None) s = (x, s1)"
    by fastforce
  note g = post_groups_sends [OF p sortedKeys_keys]
  show ?thesis
  proof (cases x)
    case (Inl e)
    then have "r = Inl e" "s' = s1" using assms(1) ge p by (auto simp: http_consume_def)
    moreover have "sends s (batch_posts lib (hs_BaseURL s) es) False (Some e) s1"
      using g Inl sends_more by (simp add: batch_posts_def)
    ultimately show ?thesis using assms(2) by (auto simp: sends_def)
  next
    case (Inr os)
    obtain y s2 where q: "post_runtimes lib (logged perform) ?R (sortedKeys ?R) s1 = (y, s2)" by fastforce
    have base: "hs_BaseURL s1 = hs_BaseURL s" using g by (simp add: sends_def)
    have "sends s (group_posts lib (hs_BaseURL s) ?G (sortedKeys ?G)) True None s1" using g Inr by simp
    from sends_append [OF this post_runtimes_sends [OF q sortedKeys_keys]]
    have both: "sends s (batch_posts lib (hs_BaseURL s) es) (y = None) y s2" by (simp add: batch_posts_def base)
    show ?thesis
    proof (cases y)
      case (Some e)
      then have "r = Inl e" "s' = s2" using assms(1) ge p q Inr by (auto simp: http_consume_def)
      then show ?thesis using both Some assms(2) by (auto simp: sends_def)
    next
      case None
      then have r: "r = Inr os" "s' = (if sortedKeys ?G \<noteq> [] then observeTopology lib (logged perform) s2 else s2)"
        using assms(1) ge p q Inr by (auto simp: http_consume_def)
      obtain xs where "sent s' = sent s2 @ xs" "length xs \<le> 1"
        "\<forall>x\<in>set xs. fst x = HttpGet (hs_BaseURL s2 @ ''/api/snapshot'')"
        using r(2) observe_sent [of lib perform s2] by (cases "sortedKeys ?G = []") auto
      moreover obtain cs where "sent s2 = cs" "posted (batch_posts lib (hs_BaseURL s) es) True None cs"
        using both None assms(2) by (auto simp: sends_def)
      moreover have "length os = length es" "hs_BaseURL s2 = hs_BaseURL s" using g Inr both by (simp_all add: sends_def)
      ultimately show ?thesis using r(1) by (auto simp: posted_def)
    qed
  qed
qed

definition demo_http :: http_library where
  "demo_http = \<lparr>hl_URL = (\<lambda>_. True), hl_MarshalBatch = (\<lambda>_. None), hl_MarshalRuntime = (\<lambda>_. Some [0]),
     hl_DecodeAck = (\<lambda>_ _. JsonEOF), hl_DecodeSnapshot = (\<lambda>_ _. JsonEOF)\<rparr>"

definition demo_net :: "unit http_do" where
  "demo_net req k = (Inr \<lparr>re_Status = 202, re_Body = [], re_Complete = True\<rparr>, k)"

definition demo_http_sink :: "(unit \<times> (http_request \<times> (net_error + http_response)) list) http_sink" where
  "demo_http_sink = \<lparr>hs_BaseURL = ''t'', hs_Net = ((), []), hs_Metrics = new_collector\<rparr>"

theorem http_sink_delivers_witness:
  "\<exists>s' cs. http_consume demo_http (logged demo_net) [metrics_envelope] demo_http_sink = (Inr [None], s')
     \<and> (\<exists>xs. sent s' = cs @ xs) \<and> List.map fst cs = [HttpPost ''t/api/runtime'' [0]]"
proof -
  have g: "span_groups [metrics_envelope] = []" "latest_runtimes [metrics_envelope] = [(''a'', demo_runtime)]"
    by (simp_all add: span_groups_def latest_runtimes_def metrics_envelope_def demo_runtime_def add_runtime_def)
  have ge: "group_envelopes 0 [metrics_envelope] [] [] = ([], [(''a'', demo_runtime)])"
    using g by (simp add: span_groups_def latest_runtimes_def prod_eq_iff)
  have k: "sortedKeys ([] :: span_group gomap) = []" "sortedKeys [(''a'', demo_runtime)] = [''a'']"
    by (simp_all add: sortedKeys_def)
  obtain s1 where "postJSON demo_http (logged demo_net) ''/api/runtime'' (hl_MarshalRuntime demo_http demo_runtime) False demo_http_sink
      = (Inr 0, s1)"
    by (simp add: postJSON_def demo_http_def demo_net_def logged_def demo_http_sink_def success_status_def Let_def)
  then obtain s' where r: "http_consume demo_http (logged demo_net) [metrics_envelope] demo_http_sink = (Inr [None], s')"
    by (simp add: http_consume_def ge k del: group_envelopes.simps)
  have "sent demo_http_sink = []" by (simp add: sent_def demo_http_sink_def)
  from http_sink_delivers [OF r this] obtain cs xs where c: "sent s' = cs @ xs"
    "List.map (Some \<circ> fst) cs = batch_posts demo_http (hs_BaseURL demo_http_sink) [metrics_envelope]"
    by auto
  have "batch_posts demo_http (hs_BaseURL demo_http_sink) [metrics_envelope] = [Some (HttpPost ''t/api/runtime'' [0])]"
    by (simp only: batch_posts_def g k group_posts_def runtime_posts_def) (simp add: demo_http_def demo_http_sink_def)
  then have "List.map Some (List.map fst cs) = List.map Some [HttpPost ''t/api/runtime'' [0]]"
    using c(2) by (simp only: List.map_map list.map)
  then have posts: "List.map fst cs = [HttpPost ''t/api/runtime'' [0]]" by (simp only: inj_map_eq_map [OF inj_Some])
  show ?thesis
  proof (intro exI conjI)
    show "http_consume demo_http (logged demo_net) [metrics_envelope] demo_http_sink = (Inr [None], s')" by (rule r)
    show "sent s' = cs @ xs" by (rule c(1))
    show "List.map fst cs = [HttpPost ''t/api/runtime'' [0]]" by (rule posts)
  qed
qed

end
