(* ===== verification/Server_Views.thy ===== *)
theory Server_Views
  imports Collector_Config Topo_Snapshot Telemetry_Validate
begin

text \<open>
  The views that the server offers: the hub that sends snapshots to websocket clients
  (\<open>runtime/go/internal/server/websocket.go\<close>) and the choice of a file of the dashboard (\<open>dashboard.go\<close>).
  The connections, the upgrade and the JSON of a message are left out; a client is its channel of
  two messages. A call of \<open>offer\<close> is one step.
\<close>

section \<open>The hub\<close>

record snapshot_client =
  sc_Messages :: "bytes list"
  sc_Done :: bool

record hub =
  hub_Clients :: "nat \<rightharpoonup> snapshot_client"

definition new_client :: snapshot_client where
  "new_client = \<lparr>sc_Messages = [], sc_Done = False\<rparr>"

text \<open>\<open>offer\<close>: a full channel loses its oldest message.\<close>

definition send_message :: "bytes \<Rightarrow> bytes list \<Rightarrow> bytes list" where
  "send_message payload ms = (if length ms < 2 then ms @ [payload] else ms)"

definition offer :: "bytes \<Rightarrow> snapshot_client \<Rightarrow> snapshot_client" where
  "offer payload c =
     (if sc_Done c then c
      else if length (sc_Messages c) < 2 then c\<lparr>sc_Messages := sc_Messages c @ [payload]\<rparr>
      else c\<lparr>sc_Messages := send_message payload (tl (sc_Messages c))\<rparr>)"

definition close_client :: "snapshot_client \<Rightarrow> snapshot_client" where
  "close_client c = c\<lparr>sc_Done := True\<rparr>"

text \<open>\<open>Publish\<close>; \<open>message\<close> is \<open>json.Marshal\<close> of the message of a snapshot.\<close>

definition publish :: "(liveSnapshot \<Rightarrow> bytes option) \<Rightarrow> liveSnapshot \<Rightarrow> hub \<Rightarrow> hub" where
  "publish message snapshot h =
     (case message snapshot of
        None \<Rightarrow> h
      | Some payload \<Rightarrow> h\<lparr>hub_Clients := (\<lambda>i. map_option (offer payload) (hub_Clients h i))\<rparr>)"

text \<open>\<open>ServeHTTP\<close> up to its loop: the client is registered, then greeted, then sent the current snapshot. What
  is marshalled for it may be nothing.\<close>

definition connect :: "nat \<Rightarrow> hub \<Rightarrow> hub" where
  "connect i h = h\<lparr>hub_Clients := (hub_Clients h)(i \<mapsto> new_client)\<rparr>"

definition greet :: "(liveSnapshot \<Rightarrow> bytes option) \<Rightarrow> bytes \<Rightarrow> engine \<Rightarrow> nat \<Rightarrow> hub \<Rightarrow> hub" where
  "greet message hello e i h =
     h\<lparr>hub_Clients := (hub_Clients h)(i := map_option
        (\<lambda>c. offer (case message (liveSnapshotLocked e) of Some p \<Rightarrow> p | None \<Rightarrow> []) (offer hello c)) (hub_Clients h i))\<rparr>"

definition remove_client :: "nat \<Rightarrow> hub \<Rightarrow> hub" where
  "remove_client i h = h\<lparr>hub_Clients := (hub_Clients h)(i := None)\<rparr>"

definition close_hub :: "hub \<Rightarrow> hub" where
  "close_hub h = h\<lparr>hub_Clients := Map.empty\<rparr>"

text \<open>\<open>sameOrigin\<close>, for the header \<open>Origin\<close> and the host of the request.\<close>

definition sameOrigin :: "'r url_library \<Rightarrow> string \<Rightarrow> string \<Rightarrow> bool" where
  "sameOrigin lib origin host \<longleftrightarrow>
     origin = [] \<or> (case url_parse lib origin of None \<Rightarrow> False | Some u \<Rightarrow> url_Host u = host)"

text \<open>A client that does not read has the last two messages it was offered.\<close>

definition newest :: "bytes list \<Rightarrow> bytes list" where
  "newest ms = drop (length ms - 2) ms"

lemma newest_snoc: "newest (ms @ [p]) = (if length ms < 2 then ms @ [p] else tl (newest ms) @ [p])"
proof (cases "length ms < 2")
  case True
  then show ?thesis by (simp add: newest_def)
next
  case False
  then have "drop (length ms - 1) ms = tl (drop (length ms - 2) ms)"
    by (simp add: tl_drop drop_Suc flip: drop_Suc) (metis Suc_1 Suc_diff_Suc drop_Suc not_less_eq tl_drop numeral_2_eq_2 le_simps(3) not_less)
  then show ?thesis using False by (simp add: newest_def)
qed

lemma offers_keep_the_newest:
  assumes "\<not> sc_Done c" "length (sc_Messages c) \<le> 2"
  shows "foldl (\<lambda>c p. offer p c) c ps = c\<lparr>sc_Messages := newest (sc_Messages c @ ps)\<rparr>"
proof (induction ps rule: rev_induct)
  case Nil
  then show ?case using assms(2) by (simp add: newest_def)
next
  case (snoc p ps)
  let ?ms = "sc_Messages c @ ps"
  have len: "length (newest ?ms) = min 2 (length ?ms)" by (simp add: newest_def)
  have n: "newest (sc_Messages c @ ps @ [p]) = (if length ?ms < 2 then ?ms @ [p] else tl (newest ?ms) @ [p])"
    using newest_snoc [of ?ms p] by simp
  show ?case
  proof (cases "length ?ms < 2")
    case True
    then have "newest ?ms = ?ms" by (simp add: newest_def)
    then show ?thesis using True n snoc assms(1) by (simp add: offer_def)
  next
    case False
    then show ?thesis using len n snoc assms(1) by (simp add: offer_def send_message_def)
  qed
qed

text \<open>\<open>NewTopologyProxy\<close>: the target of the reverse proxy, which is that of the standard library.\<close>

definition NewTopologyProxy :: "'r url_library \<Rightarrow> string \<Rightarrow> 'r parsed_url option" where
  "NewTopologyProxy lib raw =
     (case url_parse lib raw of
        None \<Rightarrow> None
      | Some u \<Rightarrow>
          if url_Scheme u \<noteq> ''http'' \<and> url_Scheme u \<noteq> ''https'' \<or> url_Host u = [] then None else Some u)"

section \<open>The dashboard\<close>

datatype file_info = IsFile | IsDirectory | DoesNotExist | CannotStat

datatype dashboard_reply = ServeFile string | DashboardUnavailable | DashboardNotBuilt

definition dashboard_name :: "string \<Rightarrow> string" where
  "dashboard_name path =
     (let name = trim_prefix (path_clean path) ''/''
      in if name = ''.'' \<or> name = [] then ''index.html'' else name)"

definition dashboard :: "(string \<Rightarrow> file_info) \<Rightarrow> string \<Rightarrow> dashboard_reply" where
  "dashboard stat path =
     (if stat (dashboard_name path) = IsFile then ServeFile (dashboard_name path)
      else case stat ''index.html'' of
        DoesNotExist \<Rightarrow> DashboardNotBuilt
      | CannotStat \<Rightarrow> DashboardUnavailable
      | _ \<Rightarrow> ServeFile ''index.html'')"

text \<open>A path from the root cannot lead above the directory.\<close>

lemma clean_rooted: "''..'' \<notin> set out \<Longrightarrow> ''..'' \<notin> set (foldl (clean_step True) out es)"
proof (induction es arbitrary: out)
  case (Cons e es)
  have "''..'' \<notin> set (clean_step True out e)"
    using Cons.prems by (auto simp: clean_step_def dest: in_set_butlastD)
  then show ?case using Cons.IH by simp
qed simp

end
