(* ===== verification/Spool_Store.thy ===== *)
theory Spool_Store
  imports Wal_Ops Go_Strings
begin

text \<open>
  The older storage (\<open>Store\<close> of \<open>runtime/go/internal/spool/spool.go\<close>): one file per record, whose name has
  the identifier and the number of attempts. A record is acknowledged by removing its file, retried
  by renaming it, and quarantined by moving it to a subdirectory; a file of the subdirectory is
  named by its path, as in theory \<open>Disk\<close>. What a file takes on disk is a function of its size, a
  parameter of the operations (\<open>allocatedFileBytes\<close>).
\<close>

section \<open>State\<close>

record stored_file =
  sf_filename :: string
  sf_attempts :: nat
  sf_allocated :: int

datatype store_event = SetSpoolUsageEvent int nat int | SpoolCorruptionEvent

record store =
  ss_maxBytes :: int
  ss_nextID :: u64
  ss_usedBytes :: int
  ss_active :: "u64 \<rightharpoonup> stored_file"
  ss_ids :: "u64 list"
  ss_quarantined :: int
  ss_events :: "store_event list"
  ss_now :: int
  ss_world :: world

definition on_disk :: "(world \<Rightarrow> 'a \<times> world) \<Rightarrow> store \<Rightarrow> 'a \<times> store" where
  "on_disk f s = (let (r, w) = f (ss_world s) in (r, s\<lparr>ss_world := w\<rparr>))"

definition store_observe :: "store \<Rightarrow> store" where
  "store_observe s = s\<lparr>ss_events := ss_events s
     @ [SetSpoolUsageEvent (ss_usedBytes s) (card (dom (ss_active s))) (ss_quarantined s)]\<rparr>"

definition compactIndex :: "store \<Rightarrow> store" where
  "compactIndex s =
     (if length (ss_ids s) < 1024 \<or> length (ss_ids s) \<le> card (dom (ss_active s)) * 2 then s
      else s\<lparr>ss_ids := filter (\<lambda>i. ss_active s i \<noteq> None) (ss_ids s)\<rparr>)"

section \<open>The format of a record\<close>

definition recordMagic :: bytes where "recordMagic = ascii ''NFW1''"

definition encodeRecord :: "codec \<Rightarrow> spool_record \<Rightarrow> format_error + bytes" where
  "encodeRecord js r =
     (case marshal js \<lparr>dr_ID = RecordID r, dr_EnqueuedAtUnixNano = EnqueuedAt r, dr_Envelope = Envelope r\<rparr> of
        None \<Rightarrow> Inl EncodeError
      | Some payload \<Rightarrow>
          Inr (recordMagic @ put_uint 4 (of_nat (length payload) :: u32) @ payload @ put_uint 4 (crc32 payload)))"

definition decodeRecord :: "codec \<Rightarrow> bytes \<Rightarrow> format_error + spool_record" where
  "decodeRecord js data =
     (if length data < 12 \<or> take 4 data \<noteq> recordMagic then Inl InvalidHeader
      else
        let size = unat (get_uint (slice 4 8 data) :: u32); payload = slice 8 (8 + size) data
        in if size < 1 \<or> size \<noteq> length data - 12 then Inl InvalidHeader
           else if crc32 payload \<noteq> get_uint (drop (8 + size) data) then Inl ChecksumMismatch
           else (case unmarshal js payload of
                   None \<Rightarrow> Inl DecodeError
                 | Some (stored, rest) \<Rightarrow>
                     if \<not> list_all json_space rest then Inl MultipleValues
                     else if dr_ID stored = 0 \<or> dr_EnqueuedAtUnixNano stored \<le> 0 then Inl InvalidMetadata
                     else Inr \<lparr>RecordID = dr_ID stored, Attempts = 0, EnqueuedAt = dr_EnqueuedAtUnixNano stored,
                               Envelope = dr_Envelope stored\<rparr>))"

section \<open>Appending\<close>

definition temporaryFilename :: "u64 \<Rightarrow> string" where
  "temporaryFilename i = ''.'' @ padded 20 (unat i) @ ''.tmp''"

text \<open>What is deferred when an append fails: the file is closed, unless that is what failed, and removed.\<close>

definition discard :: "bool \<Rightarrow> string \<Rightarrow> store \<Rightarrow> store" where
  "discard opened temporary s =
     (let s = (if opened then snd (on_disk os_close s) else s) in snd (on_disk (os_remove temporary) s))"

definition store_append :: "codec \<Rightarrow> (nat \<Rightarrow> int) \<Rightarrow> bool \<Rightarrow> envelope \<Rightarrow> store \<Rightarrow> (spool_error + spool_record) \<times> store" where
  "store_append js alloc cancelled e s =
     (if cancelled then (Inl ErrContext, s)
      else let i = ss_nextID s; s = s\<lparr>ss_nextID := i + 1\<rparr>;
               r = \<lparr>RecordID = i, Attempts = 0, EnqueuedAt = ss_now s, Envelope = e\<rparr>;
               temporary = temporaryFilename i; filename = activeFilename i 0
      in case encodeRecord js r of
        Inl err \<Rightarrow> (Inl (ErrFormat err), s)
      | Inr encoded \<Rightarrow>
          let (created, s) = on_disk (os_create_excl temporary) s
          in if \<not> created then (Inl (ErrIO ''create spool record''), s)
          else let ((n, written), s) = on_disk (os_write temporary encoded) s
          in if \<not> written then (Inl (ErrIO ''write spool record''), discard True temporary s)
          else let (synced, s) = on_disk (os_sync temporary) s
          in if \<not> synced then (Inl (ErrIO ''sync spool record''), discard True temporary s)
          else (case on_disk (os_stat_size temporary) s of
             (None, s) \<Rightarrow> (Inl (ErrIO ''stat spool record''), discard True temporary s)
           | (Some len, s) \<Rightarrow>
               if ss_usedBytes s + alloc len > ss_maxBytes s then (Inl ErrFull, discard True temporary s)
               else let (closed, s) = on_disk os_close s
               in if \<not> closed then (Inl (ErrIO ''close spool record''), discard False temporary s)
               else let (renamed, s) = on_disk (os_rename temporary filename) s
               in if \<not> renamed then (Inl (ErrIO ''commit spool record''), discard False temporary s)
               else let s = store_observe (s\<lparr>ss_active := (ss_active s)(i \<mapsto> \<lparr>sf_filename = filename, sf_attempts = 0,
                          sf_allocated = alloc len\<rparr>), ss_ids := ss_ids s @ [i],
                          ss_usedBytes := ss_usedBytes s + alloc len\<rparr>);
                        (synced, s) = on_disk sync_directory s
                    in (if synced then Inr r else Inl (ErrIO ''sync spool directory''), s)))"

section \<open>Quarantine\<close>

definition safe_char :: "nat \<Rightarrow> char" where
  "safe_char r = (if 97 \<le> r \<and> r \<le> 122 \<or> 48 \<le> r \<and> r \<le> 57 \<or> r = 45 then char_of r else CHR ''-'')"

definition safe_reason :: "string \<Rightarrow> string" where
  "safe_reason reason = List.map safe_char (runes (List.map of_char (to_lower reason)))"

definition quarantine_path :: "string \<Rightarrow> string \<Rightarrow> string" where
  "quarantine_path filename reason = ''quarantine/'' @ filename @ ''.'' @ safe_reason reason @ ''.dead''"

definition quarantinePathLocked :: "string \<Rightarrow> string \<Rightarrow> store \<Rightarrow> spool_error option \<times> store" where
  "quarantinePathLocked filename reason s =
     (case on_disk (os_rename filename (quarantine_path filename reason)) s of
        (False, s1) \<Rightarrow> (Some (ErrIO ''quarantine spool record''), s1)
      | (True, s1) \<Rightarrow> (None, s1\<lparr>ss_quarantined := ss_quarantined s1 + 1\<rparr>))"

definition quarantineLocked :: "u64 \<Rightarrow> string \<Rightarrow> store \<Rightarrow> spool_error option \<times> store" where
  "quarantineLocked i reason s =
     (case ss_active s i of
        None \<Rightarrow> (None, s)
      | Some entry \<Rightarrow>
          (case quarantinePathLocked (sf_filename entry) reason s of
             (Some e, s1) \<Rightarrow> (Some e, s1)
           | (None, s1) \<Rightarrow> (None, s1\<lparr>ss_active := (ss_active s1)(i := None)\<rparr>)))"

definition syncQuarantineMove :: "store \<Rightarrow> spool_error option \<times> store" where
  "syncQuarantineMove s =
     (let (ok, s) = on_disk sync_directory s
      in if \<not> ok then (Some (ErrIO ''sync spool after quarantine''), s)
      else let (ok, s) = on_disk sync_directory s
      in (if ok then None else Some (ErrIO ''sync quarantine directory''), s))"

section \<open>Reading\<close>

text \<open>\<open>read\<close>: a record that does not decode is corrupt, other errors are those of the file system.\<close>

definition store_read :: "codec \<Rightarrow> u64 \<Rightarrow> stored_file \<Rightarrow> store \<Rightarrow> (spool_error + spool_record) \<times> store" where
  "store_read js i entry s =
     (case on_disk (os_read_file (sf_filename entry)) s of
        (ReadOk data, s1) \<Rightarrow>
          (case decodeRecord js data of
             Inl e \<Rightarrow> (Inl ErrCorruptRecord, s1)
           | Inr r \<Rightarrow> if RecordID r \<noteq> i then (Inl ErrCorruptRecord, s1)
               else (Inr (r\<lparr>Attempts := sf_attempts entry\<rparr>), s1))
      | (_, s1) \<Rightarrow> (Inl (ErrIO ''read record''), s1))"

fun store_next_active :: "codec \<Rightarrow> u64 list \<Rightarrow> store \<Rightarrow> ((u64 + spool_record) option \<times> spool_error option) \<times> store" where
  "store_next_active js [] s = ((None, None), s)"
| "store_next_active js (i # is) s =
     (case ss_active s i of
        None \<Rightarrow> store_next_active js is s
      | Some entry \<Rightarrow>
          (case store_read js i entry s of
             (Inr r, s1) \<Rightarrow> ((Some (Inr r), None), s1)
           | (Inl e, s1) \<Rightarrow>
               if e \<noteq> ErrCorruptRecord then ((Some (Inl i), Some e), s1)
               else (case quarantineLocked i ''corrupt'' s1 of
                       (Some qe, s2) \<Rightarrow> ((None, Some qe), s2)
                     | (None, s2) \<Rightarrow>
                         let s3 = store_observe (compactIndex (s2\<lparr>ss_events := ss_events s2 @ [SpoolCorruptionEvent]\<rparr>))
                         in (case syncQuarantineMove s3 of (_, s4) \<Rightarrow> ((Some (Inl i), Some ErrCorruptRecord), s4)))))"

definition store_next_after :: "codec \<Rightarrow> u64 \<Rightarrow> store \<Rightarrow> ((u64 + spool_record) option \<times> spool_error option) \<times> store" where
  "store_next_after js after s =
     (let index = sort_search (length (ss_ids s)) (\<lambda>k. ss_ids s ! k > after)
      in store_next_active js (drop index (ss_ids s)) s)"

section \<open>Settling\<close>

text \<open>The records that are active are removed in turn; the flag says whether there was any.\<close>

fun remove_records :: "spool_record list \<Rightarrow> bool \<Rightarrow> store \<Rightarrow> (spool_error + bool) \<times> store" where
  "remove_records [] changed s = (Inr changed, s)"
| "remove_records (r # rs) changed s =
     (case ss_active s (RecordID r) of
        None \<Rightarrow> remove_records rs changed s
      | Some entry \<Rightarrow>
          (case on_disk (os_remove (sf_filename entry)) s of
             (RemoveError, s1) \<Rightarrow> (Inl (ErrIO ''remove acknowledged spool record''), s1)
           | (_, s1) \<Rightarrow>
               remove_records rs True (s1\<lparr>ss_active := (ss_active s1)(RecordID r := None),
                 ss_usedBytes := ss_usedBytes s1 - sf_allocated entry\<rparr>)))"

definition sync_result :: "store \<Rightarrow> spool_error option \<times> store" where
  "sync_result s = (case on_disk sync_directory s of
     (ok, s1) \<Rightarrow> (if ok then None else Some (ErrIO ''sync directory''), s1))"

definition store_ack :: "spool_record list \<Rightarrow> store \<Rightarrow> spool_error option \<times> store" where
  "store_ack rs s =
     (case remove_records rs False s of
        (Inl e, s1) \<Rightarrow> (Some e, s1)
      | (Inr changed, s1) \<Rightarrow>
          if \<not> changed then (None, s1) else sync_result (store_observe (compactIndex s1)))"

fun rename_records :: "spool_record list \<Rightarrow> bool \<Rightarrow> store \<Rightarrow> (spool_error + bool) \<times> spool_record list \<times> store" where
  "rename_records [] changed s = (Inr changed, [], s)"
| "rename_records (r # rs) changed s =
     (case ss_active s (RecordID r) of
        None \<Rightarrow> (case rename_records rs changed s of (x, rs', s') \<Rightarrow> (x, r # rs', s'))
      | Some entry \<Rightarrow>
          let n = sf_attempts entry + 1; filename = activeFilename (RecordID r) n
          in if n > 99999 then (Inl (ErrRetryCount (RecordID r)), r # rs, s)
             else (case on_disk (os_rename (sf_filename entry) filename) s of
               (False, s1) \<Rightarrow> (Inl (ErrIO ''checkpoint retry''), r # rs, s1)
             | (True, s1) \<Rightarrow>
                 (case rename_records rs True
                    (s1\<lparr>ss_active := (ss_active s1)(RecordID r \<mapsto> entry\<lparr>sf_filename := filename, sf_attempts := n\<rparr>)\<rparr>) of
                  (x, rs', s') \<Rightarrow> (x, r\<lparr>Attempts := n\<rparr> # rs', s'))))"

definition store_mark_retry :: "spool_record list \<Rightarrow> store \<Rightarrow> spool_error option \<times> spool_record list \<times> store" where
  "store_mark_retry rs s =
     (case rename_records rs False s of
        (Inl e, rs', s1) \<Rightarrow> (Some e, rs', s1)
      | (Inr changed, rs', s1) \<Rightarrow>
          if changed then (case sync_result s1 of (e, s2) \<Rightarrow> (e, rs', s2)) else (None, rs', s1))"

fun quarantine_records :: "spool_record list \<Rightarrow> string \<Rightarrow> store \<Rightarrow> spool_error option \<times> store" where
  "quarantine_records [] reason s = (None, s)"
| "quarantine_records (r # rs) reason s =
     (case quarantineLocked (RecordID r) reason s of
        (Some e, s1) \<Rightarrow> (Some e, s1)
      | (None, s1) \<Rightarrow> quarantine_records rs reason s1)"

definition store_quarantine :: "spool_record list \<Rightarrow> string \<Rightarrow> store \<Rightarrow> spool_error option \<times> store" where
  "store_quarantine rs reason s =
     (case quarantine_records rs reason s of
        (Some e, s1) \<Rightarrow> (Some e, s1)
      | (None, s1) \<Rightarrow>
          (case sync_result (store_observe (compactIndex s1)) of
             (Some e, s2) \<Rightarrow> (Some e, s2)
           | (None, s2) \<Rightarrow> sync_result s2))"

definition store_stats :: "store \<Rightarrow> wal_stats" where
  "store_stats s = \<lparr>st_Bytes = ss_usedBytes s, st_ReservedBytes = 0,
     st_ActiveRecords = int (card (dom (ss_active s))), st_QuarantinedRecords = ss_quarantined s, st_Segments = 0\<rparr>"

definition store_ready :: "store \<Rightarrow> spool_error option" where
  "store_ready s = (if ss_usedBytes s \<ge> ss_maxBytes s then Some ErrFull else None)"

definition store_close :: "store \<Rightarrow> spool_error option \<times> store" where
  "store_close s = sync_result s"

section \<open>Start-up\<close>

definition bumpSequence :: "string \<Rightarrow> store \<Rightarrow> store" where
  "bumpSequence name s =
     (case parse_uint (dropWhile (\<lambda>c. c = CHR ''0'') (takeWhile (\<lambda>c. c \<noteq> CHR ''-'') name)) of
        None \<Rightarrow> s
      | Some n \<Rightarrow> if (of_nat n :: u64) \<ge> ss_nextID s then s\<lparr>ss_nextID := of_nat n + 1\<rparr> else s)"

fun count_quarantined :: "(nat \<Rightarrow> int) \<Rightarrow> string list \<Rightarrow> store \<Rightarrow> spool_error option \<times> store" where
  "count_quarantined alloc [] s = (None, s)"
| "count_quarantined alloc (name # names) s =
     (if CHR ''/'' \<in> set name then count_quarantined alloc names s
      else case on_disk (os_stat_size (''quarantine/'' @ name)) s of
        (None, s1) \<Rightarrow> (Some (ErrIO ''stat''), s1)
      | (Some len, s1) \<Rightarrow>
          count_quarantined alloc names (bumpSequence name
            (s1\<lparr>ss_usedBytes := ss_usedBytes s1 + alloc len, ss_quarantined := ss_quarantined s1 + 1\<rparr>)))"

text \<open>A file that is not the record its name says is moved to the quarantine.\<close>

definition set_aside :: "string \<Rightarrow> string \<Rightarrow> store \<Rightarrow> spool_error option \<times> store" where
  "set_aside name reason s =
     (case quarantinePathLocked name reason s of
        (Some e, s1) \<Rightarrow> (Some e, s1)
      | (None, s1) \<Rightarrow> syncQuarantineMove s1)"

definition recover_file :: "codec \<Rightarrow> (nat \<Rightarrow> int) \<Rightarrow> string \<Rightarrow> recovery \<Rightarrow> store \<Rightarrow> spool_error option \<times> recovery \<times> store" where
  "recover_file js alloc name rc s =
     (let corrupted = rc\<lparr>rc_Corruptions := rc_Corruptions rc + 1\<rparr>
      in case on_disk (os_stat_size name) s of
        (None, s) \<Rightarrow> (Some (ErrIO ''stat''), rc, s)
      | (Some len, s) \<Rightarrow>
          let s = s\<lparr>ss_usedBytes := ss_usedBytes s + alloc len\<rparr>
          in case parseActiveFilename name of
               None \<Rightarrow>
                 (case set_aside name ''corrupt'' s of
                    (Some e, s) \<Rightarrow> (Some e, rc, s) | (None, s) \<Rightarrow> (None, corrupted, s))
             | Some (i, attempts) \<Rightarrow>
                 let s = bumpSequence name s;
                     entry = \<lparr>sf_filename = name, sf_attempts = nat attempts, sf_allocated = alloc len\<rparr>
                 in if ss_active s i \<noteq> None
                    then (case set_aside name ''duplicate-id'' s of
                            (Some e, s) \<Rightarrow> (Some e, rc, s) | (None, s) \<Rightarrow> (None, corrupted, s))
                    else (case store_read js i entry s of
                            (Inl e, s) \<Rightarrow>
                              if e \<noteq> ErrCorruptRecord then (Some e, rc, s)
                              else (case set_aside name ''corrupt'' s of
                                      (Some e, s) \<Rightarrow> (Some e, rc, s) | (None, s) \<Rightarrow> (None, corrupted, s))
                          | (Inr r, s) \<Rightarrow>
                              (None, rc\<lparr>rc_Records := rc_Records rc + 1\<rparr>,
                               s\<lparr>ss_active := (ss_active s)(i \<mapsto> entry), ss_ids := ss_ids s @ [i]\<rparr>)))"

fun recover_files :: "codec \<Rightarrow> (nat \<Rightarrow> int) \<Rightarrow> (string \<times> bool) list \<Rightarrow> recovery \<Rightarrow> store
    \<Rightarrow> spool_error option \<times> recovery \<times> store" where
  "recover_files js alloc [] rc s = (None, rc, s)"
| "recover_files js alloc ((name, isDir) # es) rc s =
     (if isDir then recover_files js alloc es rc s
      else if has_suffix name ''.tmp''
      then (case on_disk (os_remove name) s of
              (Removed, s1) \<Rightarrow>
                (case on_disk sync_directory s1 of
                   (False, s2) \<Rightarrow> (Some (ErrIO ''sync removal of incomplete spool record''), rc, s2)
                 | (True, s2) \<Rightarrow> recover_files js alloc es rc s2)
            | (_, s1) \<Rightarrow> (Some (ErrIO ''remove incomplete spool record''), rc, s1))
      else case recover_file js alloc name rc s of
             (Some e, rc', s1) \<Rightarrow> (Some e, rc', s1)
           | (None, rc', s1) \<Rightarrow> recover_files js alloc es rc' s1)"

definition store_recover :: "codec \<Rightarrow> (nat \<Rightarrow> int) \<Rightarrow> store \<Rightarrow> spool_error option \<times> recovery \<times> store" where
  "store_recover js alloc s =
     (case on_disk (os_read_subdir ''quarantine'') s of
        (None, s) \<Rightarrow> (Some (ErrIO ''read spool quarantine''), no_recovery, s)
      | (Some quarantined, s) \<Rightarrow>
          (case count_quarantined alloc quarantined s of
             (Some e, s) \<Rightarrow> (Some e, no_recovery, s)
           | (None, s) \<Rightarrow>
               (case on_disk os_read_dir s of
                  (None, s) \<Rightarrow> (Some (ErrIO ''read spool directory''), no_recovery, s)
                | (Some entries, s) \<Rightarrow>
                    (case recover_files js alloc entries no_recovery s of
                       (Some e, rc, s) \<Rightarrow> (Some e, rc, s)
                     | (None, rc, s) \<Rightarrow>
                         (None, rc\<lparr>rc_Bytes := ss_usedBytes s\<rparr>,
                          s\<lparr>ss_ids := sort (ss_ids s),
                            ss_events := ss_events s @ replicate (nat (rc_Corruptions rc)) SpoolCorruptionEvent\<rparr>)))))"

definition new_store :: "int \<Rightarrow> int \<Rightarrow> world \<Rightarrow> store" where
  "new_store maxBytes now fs =
     \<lparr>ss_maxBytes = maxBytes, ss_nextID = 1, ss_usedBytes = 0, ss_active = Map.empty, ss_ids = [],
      ss_quarantined = 0, ss_events = [], ss_now = now, ss_world = fs\<rparr>"

definition store_open :: "codec \<Rightarrow> (nat \<Rightarrow> int) \<Rightarrow> string \<Rightarrow> int \<Rightarrow> int \<Rightarrow> world
    \<Rightarrow> (spool_error + store) \<times> recovery \<times> world" where
  "store_open js alloc directory maxBytes now fs =
     (if trim_space directory = [] \<or> maxBytes < 1 then (Inl ErrConfig, no_recovery, fs)
      else let (ok, fs) = os_call fs
      in if \<not> ok then (Inl (ErrIO ''resolve spool directory''), no_recovery, fs)
      else let (ok, fs) = os_call fs
      in if \<not> ok then (Inl (ErrIO ''create spool directories''), no_recovery, fs)
      else let (ok, fs) = os_call fs
      in if \<not> ok then (Inl (ErrIO ''secure spool directory''), no_recovery, fs)
      else let (ok, fs) = os_call fs
      in if \<not> ok then (Inl (ErrIO ''secure spool quarantine''), no_recovery, fs)
      else (case store_recover js alloc (new_store maxBytes now fs) of
              (Some e, rc, s) \<Rightarrow> (Inl e, no_recovery, ss_world s)
            | (None, rc, s) \<Rightarrow> (Inr (store_observe s), rc, ss_world s)))"

end
