(* ===== verification/Spool_Laws.thy ===== *)
theory Spool_Laws
  imports Spool_Store Pipeline_Liveness
begin

text \<open>
  The older storage obeys the contract of a worker: what was acknowledged or quarantined is not
  delivered again, a retried record has one attempt more, and every other record is left alone,
  also when a call fails in the middle.
\<close>

section \<open>The storage for the pipeline\<close>

definition store_storage :: "codec \<Rightarrow> (nat \<Rightarrow> int) \<Rightarrow> store storage_ops" where
  "store_storage js alloc =
     \<lparr>op_Append = store_append js alloc False, op_NextAfter = store_next_after js, op_Ack = store_ack,
      op_MarkRetry = store_mark_retry, op_Quarantine = store_quarantine\<rparr>"

definition store_attempts :: "store \<Rightarrow> u64 \<Rightarrow> nat option" where
  "store_attempts s i = map_option sf_attempts (ss_active s i)"

text \<open>The tables: the name of a record's file is that of its identifier and attempts, and the index covers
  the active records in order.\<close>

definition tables_sound :: "(u64 \<rightharpoonup> stored_file) \<Rightarrow> u64 list \<Rightarrow> bool" where
  "tables_sound act is \<longleftrightarrow> (\<forall>i e. act i = Some e \<longrightarrow> sf_filename e = activeFilename i (sf_attempts e))
     \<and> dom act \<subseteq> set is \<and> sorted is \<and> distinct is"

definition store_ok :: "store \<Rightarrow> bool" where
  "store_ok s \<longleftrightarrow> tables_sound (ss_active s) (ss_ids s)"

lemma on_disk_fields [simp]:
  assumes "on_disk f s = (r, s')"
  shows "ss_active s' = ss_active s" "ss_ids s' = ss_ids s" "ss_nextID s' = ss_nextID s"
    "ss_usedBytes s' = ss_usedBytes s" "ss_quarantined s' = ss_quarantined s"
  using assms by (auto simp: on_disk_def split: prod.splits)

lemma observe_fields [simp]:
  "ss_active (store_observe s) = ss_active s" "ss_ids (store_observe s) = ss_ids s"
  "ss_world (store_observe s) = ss_world s"
  by (simp_all add: store_observe_def)

lemma tables_sound_remove: "tables_sound act is \<Longrightarrow> tables_sound (act(i := None)) is"
  by (auto simp: tables_sound_def)

lemma tables_sound_retry:
  assumes "tables_sound act is" "act i = Some e"
  shows "tables_sound (act(i \<mapsto> e\<lparr>sf_filename := activeFilename i n, sf_attempts := n\<rparr>)) is"
  using assms by (auto simp: tables_sound_def)

lemma compactIndex_active [simp]: "ss_active (compactIndex s) = ss_active s"
  by (simp add: compactIndex_def)

lemma compactIndex_ok: "store_ok s \<Longrightarrow> store_ok (compactIndex s)"
  by (auto simp: store_ok_def tables_sound_def compactIndex_def sorted_wrt_filter)

lemma store_observe_ok [simp]: "store_ok (store_observe s) = store_ok s"
  by (simp add: store_ok_def)

lemma attempts_cong: "ss_active s' = ss_active s \<Longrightarrow> store_attempts s' = store_attempts s"
  by (simp add: store_attempts_def fun_eq_iff)

lemma store_attempts_same [simp]:
  "store_attempts (compactIndex s) = store_attempts s" "store_attempts (store_observe s) = store_attempts s"
  by (rule attempts_cong, simp)+

lemma sync_result_same:
  assumes "sync_result s = (r, s')"
  shows "store_attempts s' = store_attempts s \<and> (store_ok s \<longrightarrow> store_ok s')"
proof -
  obtain ok where "on_disk sync_directory s = (ok, s')" using assms by (auto simp: sync_result_def split: prod.splits)
  from on_disk_fields [OF this] show ?thesis using attempts_cong [of s' s] by (simp add: store_ok_def)
qed

lemma only_settled_more: "only_settled (RecordID ` set rs) a b \<Longrightarrow> only_settled (RecordID ` set (r # rs)) a b"
  by (auto simp: only_settled_def)

lemma only_settled_cons:
  assumes "only_settled (RecordID ` set rs) (a(RecordID r := None)) b"
  shows "only_settled (RecordID ` set (r # rs)) a b \<and> b (RecordID r) = None"
  unfolding only_settled_def
proof (intro conjI allI)
  fix i
  show "b i = a i \<or> i \<in> RecordID ` set (r # rs) \<and> b i = None"
    using assms by (cases "i = RecordID r") (auto simp: only_settled_def split: if_splits)
  show "b (RecordID r) = None" using assms by (auto simp: only_settled_def split: if_splits)
qed

section \<open>Acknowledging\<close>

lemma remove_records_settles:
  assumes "remove_records rs c s = (r, s')" "store_ok s"
  shows "store_ok s' \<and> only_settled (RecordID ` set rs) (store_attempts s) (store_attempts s')
    \<and> (\<forall>x. r = Inr x \<longrightarrow> (\<forall>i\<in>RecordID ` set rs. store_attempts s' i = None))"
  using assms
proof (induction rs c s rule: remove_records.induct)
  case (1 c s)
  then show ?case by simp
next
  case (2 rec rs c s)
  let ?i = "RecordID rec"
  show ?case
  proof (cases "ss_active s ?i")
    case None
    then have "remove_records rs c s = (r, s')" using "2.prems"(1) by simp
    then have IH: "store_ok s' \<and> only_settled (RecordID ` set rs) (store_attempts s) (store_attempts s')
        \<and> (\<forall>x. r = Inr x \<longrightarrow> (\<forall>i\<in>RecordID ` set rs. store_attempts s' i = None))"
      by (rule "2.IH"(1) [OF None _ "2.prems"(2)])
    have none: "store_attempts s ?i = None" by (simp add: store_attempts_def None)
    have "only_settled (RecordID ` set rs) ((store_attempts s)(?i := None)) (store_attempts s')"
      by (subst fun_upd_idem) (use IH none in simp_all)
    from only_settled_cons [OF this] show ?thesis using IH by auto
  next
    case (Some entry)
    obtain x s1 where d: "on_disk (os_remove (sf_filename entry)) s = (x, s1)" by fastforce
    show ?thesis
    proof (cases "x = RemoveError")
      case True
      then have "r = Inl (ErrIO ''remove acknowledged spool record'')" "s' = s1"
        using "2.prems"(1) Some d by simp_all
      then show ?thesis using "2.prems"(2) d by (simp add: store_ok_def store_attempts_def only_settled_def)
    next
      case False
      let ?s2 = "s1\<lparr>ss_active := (ss_active s1)(?i := None), ss_usedBytes := ss_usedBytes s1 - sf_allocated entry\<rparr>"
      have run: "remove_records rs True ?s2 = (r, s')"
        using "2.prems"(1) Some d False by (cases x) simp_all
      have ok: "store_ok ?s2" using "2.prems"(2) d by (simp add: store_ok_def tables_sound_remove)
      have IH: "store_ok s' \<and> only_settled (RecordID ` set rs) (store_attempts ?s2) (store_attempts s')
          \<and> (\<forall>x. r = Inr x \<longrightarrow> (\<forall>i\<in>RecordID ` set rs. store_attempts s' i = None))"
        using "2.IH" Some d [symmetric] False run ok by (cases x) simp_all
      have a: "store_attempts ?s2 = (store_attempts s)(?i := None)" using d by (auto simp: store_attempts_def)
      show ?thesis using IH only_settled_cons [of rs "store_attempts s" rec "store_attempts s'"] unfolding a by auto
    qed
  qed
qed

lemma store_ack_law:
  assumes "store_ack rs s = (r, s')" "store_ok s"
  shows "store_ok s' \<and> only_settled (RecordID ` set rs) (store_attempts s) (store_attempts s')
    \<and> (r = None \<longrightarrow> (\<forall>i\<in>RecordID ` set rs. store_attempts s' i = None))"
proof -
  obtain x s1 where d: "remove_records rs False s = (x, s1)" by fastforce
  note l = remove_records_settles [OF d assms(2)]
  show ?thesis
  proof (cases x)
    case (Inl e)
    then show ?thesis using assms(1) d l by (auto simp: store_ack_def)
  next
    case (Inr changed)
    show ?thesis
    proof (cases changed)
      case False
      then show ?thesis using assms(1) d Inr l by (auto simp: store_ack_def)
    next
      case True
      then have "sync_result (store_observe (compactIndex s1)) = (r, s')"
        using assms(1) d Inr by (simp add: store_ack_def)
      from sync_result_same [OF this] have "store_attempts s' = store_attempts s1" "store_ok s'"
        using l compactIndex_ok by simp_all
      then show ?thesis using l Inr by simp
    qed
  qed
qed

section \<open>Quarantine\<close>

lemma quarantinePathLocked_same:
  assumes "quarantinePathLocked f reason s = (r, s')"
  shows "ss_active s' = ss_active s \<and> ss_ids s' = ss_ids s"
  using assms by (auto simp: quarantinePathLocked_def split: prod.splits bool.splits)

lemma quarantineLocked_settles:
  assumes "quarantineLocked i reason s = (r, s')" "store_ok s"
  shows "store_ok s' \<and> store_attempts s' = (if r = None then (store_attempts s)(i := None) else store_attempts s)"
proof (cases "ss_active s i")
  case None
  then have "r = None" "s' = s" using assms(1) by (simp_all add: quarantineLocked_def)
  moreover have "store_attempts s i = None" using None by (simp add: store_attempts_def)
  ultimately show ?thesis using assms(2) by auto
next
  case (Some entry)
  obtain x s1 where d: "quarantinePathLocked (sf_filename entry) reason s = (x, s1)" by fastforce
  note same = quarantinePathLocked_same [OF d]
  show ?thesis
    using assms Some d same
    by (cases x) (auto simp: quarantineLocked_def store_ok_def store_attempts_def tables_sound_remove)
qed

lemma quarantine_records_settles:
  assumes "quarantine_records rs reason s = (r, s')" "store_ok s"
  shows "store_ok s' \<and> only_settled (RecordID ` set rs) (store_attempts s) (store_attempts s')
    \<and> (r = None \<longrightarrow> (\<forall>i\<in>RecordID ` set rs. store_attempts s' i = None))"
  using assms
proof (induction rs reason s rule: quarantine_records.induct)
  case (1 reason s)
  then show ?case by simp
next
  case (2 rec rs reason s)
  obtain x s1 where d: "quarantineLocked (RecordID rec) reason s = (x, s1)" by fastforce
  note l = quarantineLocked_settles [OF d "2.prems"(2)]
  show ?case
  proof (cases x)
    case (Some e)
    then show ?thesis using "2.prems"(1) d l by (auto simp: only_settled_def)
  next
    case None
    then have run: "quarantine_records rs reason s1 = (r, s')" using "2.prems"(1) d by simp
    have IH: "store_ok s' \<and> only_settled (RecordID ` set rs) (store_attempts s1) (store_attempts s')
        \<and> (r = None \<longrightarrow> (\<forall>i\<in>RecordID ` set rs. store_attempts s' i = None))"
      by (rule "2.IH" [OF d [symmetric] None run]) (use l in simp)
    have a: "store_attempts s1 = (store_attempts s)(RecordID rec := None)" using l None by simp
    show ?thesis using IH only_settled_cons [of rs "store_attempts s" rec "store_attempts s'"] unfolding a by auto
  qed
qed

lemma store_quarantine_law:
  assumes "store_quarantine rs reason s = (r, s')" "store_ok s"
  shows "store_ok s' \<and> only_settled (RecordID ` set rs) (store_attempts s) (store_attempts s')
    \<and> (r = None \<longrightarrow> (\<forall>i\<in>RecordID ` set rs. store_attempts s' i = None))"
proof -
  obtain x s1 where d: "quarantine_records rs reason s = (x, s1)" by fastforce
  note l = quarantine_records_settles [OF d assms(2)]
  show ?thesis
  proof (cases x)
    case (Some e)
    then show ?thesis using assms(1) d l by (auto simp: store_quarantine_def)
  next
    case None
    obtain y s2 where y: "sync_result (store_observe (compactIndex s1)) = (y, s2)" by fastforce
    have 2: "store_attempts s2 = store_attempts s1" "store_ok s2"
      using sync_result_same [OF y] l compactIndex_ok by simp_all
    have "store_attempts s' = store_attempts s2 \<and> store_ok s'"
    proof (cases y)
      case (Some e)
      then show ?thesis using assms(1) d None y 2 by (simp add: store_quarantine_def)
    next
      case None
      then have "sync_result s2 = (r, s')" using assms(1) d \<open>x = None\<close> y by (simp add: store_quarantine_def)
      from sync_result_same [OF this] show ?thesis using 2 by simp
    qed
    then show ?thesis using l None 2 by simp
  qed
qed

section \<open>Retrying\<close>

lemma rename_records_law:
  assumes "rename_records rs c s = (x, rs', s')" "store_ok s" "distinct (List.map RecordID rs)"
  shows "store_ok s' \<and> (\<forall>i. i \<notin> RecordID ` set rs \<longrightarrow> store_attempts s' i = store_attempts s i)
    \<and> (\<forall>i. store_attempts s i \<noteq> None \<longrightarrow> store_attempts s' i \<noteq> None)
    \<and> ((\<exists>y. x = Inr y) \<longrightarrow> (\<forall>r\<in>set rs. store_attempts s (RecordID r) = Some (Attempts r)) \<longrightarrow>
         rs' = List.map retried rs \<and> (\<forall>r\<in>set rs. store_attempts s' (RecordID r) = Some (Attempts r + 1)))"
  using assms
proof (induction rs c s arbitrary: x rs' s' rule: rename_records.induct)
  case (1 c s)
  then show ?case by simp
next
  case (2 rec rs c s)
  let ?i = "RecordID rec"
  have ni: "?i \<notin> RecordID ` set rs" and d: "distinct (List.map RecordID rs)" using "2.prems"(3) by auto
  show ?case
  proof (cases "ss_active s ?i")
    case None
    obtain x1 rs1 s1 where run: "rename_records rs c s = (x1, rs1, s1)" by (metis prod.exhaust)
    then have "s' = s1" using "2.prems"(1) None by simp
    moreover have "store_attempts s ?i = None" using None by (simp add: store_attempts_def)
    ultimately show ?thesis using "2.IH"(1) [OF None run "2.prems"(2) d] ni by auto
  next
    case (Some entry)
    let ?n = "sf_attempts entry + 1"
    let ?f = "activeFilename ?i ?n"
    have att: "store_attempts s ?i = Some (sf_attempts entry)" using Some by (simp add: store_attempts_def)
    obtain ok s1 where r: "on_disk (os_rename (sf_filename entry) ?f) s = (ok, s1)" by fastforce
    show ?thesis
    proof (cases "?n > 99999 \<or> \<not> ok")
      case True
      then have "\<exists>e. x = Inl e" "s' = s \<or> s' = s1" using "2.prems"(1) Some r by (auto simp: Let_def split: if_splits)
      then show ?thesis using "2.prems"(2) r by (auto simp: store_ok_def store_attempts_def)
    next
      case False
      let ?s2 = "s1\<lparr>ss_active := (ss_active s1)(?i \<mapsto> entry\<lparr>sf_filename := ?f, sf_attempts := ?n\<rparr>)\<rparr>"
      obtain x1 rs1 s3 where run: "rename_records rs True ?s2 = (x1, rs1, s3)" by (metis prod.exhaust)
      have res: "x = x1" "rs' = rec\<lparr>Attempts := ?n\<rparr> # rs1" "s' = s3"
        using "2.prems"(1) Some r False run by (auto simp: Let_def)
      have ok2: "store_ok ?s2" using "2.prems"(2) Some r by (simp add: store_ok_def tables_sound_retry)
      have a: "store_attempts ?s2 = (store_attempts s)(?i \<mapsto> ?n)" using r by (auto simp: store_attempts_def)
      have IH: "store_ok s3 \<and> (\<forall>i. i \<notin> RecordID ` set rs \<longrightarrow> store_attempts s3 i = store_attempts ?s2 i)
          \<and> (\<forall>i. store_attempts ?s2 i \<noteq> None \<longrightarrow> store_attempts s3 i \<noteq> None)
          \<and> ((\<exists>y. x1 = Inr y) \<longrightarrow> (\<forall>r\<in>set rs. store_attempts ?s2 (RecordID r) = Some (Attempts r)) \<longrightarrow>
               rs1 = List.map retried rs \<and> (\<forall>r\<in>set rs. store_attempts s3 (RecordID r) = Some (Attempts r + 1)))"
        by (rule "2.IH"(2) [OF Some _ _ _ _ _ run ok2 d]) (use r False in simp_all)
      have i3: "store_attempts s3 ?i = Some ?n" using IH ni unfolding a by simp
      have "rs' = List.map retried (rec # rs) \<and> (\<forall>r\<in>set (rec # rs). store_attempts s3 (RecordID r) = Some (Attempts r + 1))"
        if y: "\<exists>y. x = Inr y" and held: "\<forall>r\<in>set (rec # rs). store_attempts s (RecordID r) = Some (Attempts r)"
      proof -
        have "store_attempts ?s2 (RecordID r) = Some (Attempts r)" if "r \<in> set rs" for r
        proof -
          have "RecordID r \<noteq> ?i" using ni that by (metis imageI)
          then show ?thesis using held that unfolding a by simp
        qed
        then have "rs1 = List.map retried rs" "\<forall>r\<in>set rs. store_attempts s3 (RecordID r) = Some (Attempts r + 1)"
          using IH y res(1) by blast+
        moreover have "sf_attempts entry = Attempts rec" using held att by simp
        ultimately show ?thesis using res(2) i3 by (simp add: retried_def)
      qed
      moreover have "store_attempts s3 j = store_attempts s j" if "j \<notin> RecordID ` set (rec # rs)" for j
        using that IH unfolding a by auto
      moreover have "store_attempts s3 j \<noteq> None" if "store_attempts s j \<noteq> None" for j
        using that IH unfolding a by (cases "j = ?i") auto
      ultimately show ?thesis using IH res(3) by blast
    qed
  qed
qed

lemma store_retry_law:
  assumes "store_mark_retry rs s = (r, rs', s')" "store_ok s" "held store_attempts s rs"
  shows "store_ok s' \<and> (\<forall>i. i \<notin> RecordID ` set rs \<longrightarrow> store_attempts s' i = store_attempts s i)
    \<and> (\<forall>i. store_attempts s i \<noteq> None \<longrightarrow> store_attempts s' i \<noteq> None)
    \<and> (r = None \<longrightarrow> rs' = List.map retried rs \<and> held store_attempts s' rs')"
proof -
  obtain x rs1 s1 where d: "rename_records rs False s = (x, rs1, s1)" by (metis prod.exhaust)
  have h: "distinct (List.map RecordID rs)" "\<forall>r\<in>set rs. store_attempts s (RecordID r) = Some (Attempts r)"
    using assms(3) by (simp_all add: held_def)
  note l = rename_records_law [OF d assms(2) h(1)]
  have same: "store_attempts s' = store_attempts s1" "store_ok s'" "r = None \<longrightarrow> (\<exists>y. x = Inr y) \<and> rs' = rs1"
    using assms(1) d l
    by (auto simp: store_mark_retry_def split: sum.splits if_splits prod.splits dest!: sync_result_same)
  moreover have "held store_attempts s' (List.map retried rs)"
    if "\<forall>r\<in>set rs. store_attempts s1 (RecordID r) = Some (Attempts r + 1)"
    using that h(1) same(1) by (auto simp: held_def retried_def o_def)
  ultimately show ?thesis using l h(2) by auto
qed

interpretation legacy: settlement "store_storage js alloc" store_ok store_attempts m
proof (unfold_locales, unfold store_storage_def storage_ops.simps)
  fix s s' rs r
  assume "store_ok s" "store_ack rs s = (r, s')"
  from store_ack_law [OF this(2,1)]
  show "store_ok s' \<and> only_settled (RecordID ` set rs) (store_attempts s) (store_attempts s')
      \<and> (r = None \<longrightarrow> (\<forall>i\<in>RecordID ` set rs. store_attempts s' i = None))" .
next
  fix s s' rs reason r
  assume "store_ok s" "store_quarantine rs reason s = (r, s')"
  from store_quarantine_law [OF this(2,1)]
  show "store_ok s' \<and> only_settled (RecordID ` set rs) (store_attempts s) (store_attempts s')
      \<and> (r = None \<longrightarrow> (\<forall>i\<in>RecordID ` set rs. store_attempts s' i = None))" .
next
  fix s s' rs r rs'
  assume "store_ok s" "held store_attempts s rs" "store_mark_retry rs s = (r, rs', s')"
  from store_retry_law [OF this(3,1,2)]
  show "store_ok s' \<and> (\<forall>i. i \<notin> RecordID ` set rs \<longrightarrow> store_attempts s' i = store_attempts s i)
      \<and> (\<forall>i. store_attempts s i \<noteq> None \<longrightarrow> store_attempts s' i \<noteq> None)
      \<and> (r = None \<longrightarrow> rs' = List.map retried rs \<and> held store_attempts s' rs')" .
qed

end
