(* ===== verification/Spool_Durability.thy ===== *)
theory Spool_Durability
  imports Spool_Laws Wal_Demo
begin

text \<open>
  A record that the older storage has accepted survives a crash: its file is on disk as a whole, and
  the next start-up finds it, whatever other files it has to set aside.
\<close>

section \<open>The name of a record's file\<close>

lemma padded_digits: "list_all is_digit (padded w n)"
  by (simp add: padded_def list_all_iff) (use decimal_digits in \<open>auto simp: list_all_iff\<close>)

lemma padded_without: "\<not> is_digit c \<Longrightarrow> c \<notin> set (padded w n)"
  using padded_digits [of w n] by (auto simp: list_all_iff)

lemma not_digits: "\<not> is_digit CHR ''-''" "\<not> is_digit CHR ''/''" "\<not> is_digit CHR ''+''" "\<not> is_digit CHR ''.''" "\<not> is_digit CHR ''t''"
  by (simp_all add: is_digit_def)

lemma padded_5: "n < 100000 \<Longrightarrow> length (padded 5 n) = 5"
  by (rule length_padded) simp_all

lemma parse_atoi_padded: "n < 100000 \<Longrightarrow> parse_atoi (padded 5 n) = Some (int n)"
proof -
  assume n: "n < 100000"
  obtain c cs where p: "padded 5 n = c # cs" using padded_5 [OF n] by (cases "padded 5 n") auto
  then have "is_digit c" using padded_digits [of 5 n] by simp
  then have "c \<noteq> CHR ''-''" "c \<noteq> CHR ''+''" using not_digits by auto
  moreover have "parse_uint (c # cs) = Some n" using n parse_uint_padded [of n 5] p by simp
  ultimately show ?thesis using n by (simp add: parse_atoi_def p)
qed

lemma parse_activeFilename:
  assumes "i \<noteq> 0" "n < 100000"
  shows "parseActiveFilename (activeFilename i n) = Some (i, int n)"
proof -
  let ?a = "padded 20 (unat i)" and ?b = "padded 5 n"
  have name: "activeFilename i n = (?a @ ''-'' @ ?b) @ recordSuffix"
    by (simp add: activeFilename_def filenameWidth_def attemptWidth_def)
  have split: "split_on CHR ''-'' (?a @ ''-'' @ ?b) = [?a, ?b]"
    using padded_without not_digits by (simp add: split_on_append_sep split_on_no_sep)
  have "parse_uint ?a = Some (unat i)" using unat_u64_lt [of i] by (intro parse_uint_padded) simp
  moreover have "has_suffix (activeFilename i n) recordSuffix" unfolding name by (rule has_suffix_append)
  moreover have "trim_suffix (activeFilename i n) recordSuffix = ?a @ ''-'' @ ?b"
    unfolding name by (rule trim_suffix_append)
  ultimately show ?thesis
    unfolding parseActiveFilename_def
    using assms split padded_5 [OF assms(2)] length_padded [OF unat_u64_bound [of i]]
    by (simp add: filenameWidth_def attemptWidth_def parse_atoi_padded unat_gt_0)
qed

lemma activeFilename_plain: "CHR ''/'' \<notin> set (activeFilename i n)"
  using padded_without not_digits by (auto simp: activeFilename_def recordSuffix_def)

lemma activeFilename_permanent: "\<not> has_suffix (activeFilename i n) ''.tmp''"
proof -
  have "activeFilename i n = (padded filenameWidth (unat i) @ ''-'' @ padded attemptWidth n) @ ''.wal''"
    by (simp add: activeFilename_def recordSuffix_def)
  then show ?thesis by (simp only: has_suffix_append_left [of "''.tmp''" "''.wal''", simplified]) (simp add: has_suffix_def)
qed

lemma temporary_other: "temporaryFilename j \<noteq> activeFilename i n"
proof
  assume "temporaryFilename j = activeFilename i n"
  then have "last (temporaryFilename j) = last (activeFilename i n)" by simp
  then show False by (simp add: temporaryFilename_def activeFilename_def recordSuffix_def)
qed

lemma quarantine_other: "quarantine_path name reason \<noteq> activeFilename i n"
proof
  assume "quarantine_path name reason = activeFilename i n"
  moreover have "CHR ''/'' \<in> set (quarantine_path name reason)" by (simp add: quarantine_path_def)
  ultimately show False using activeFilename_plain by metis
qed

section \<open>The format\<close>

lemma decode_encodeRecord:
  assumes "codec_ok js" "encodeRecord js r = Inr encoded" "RecordID r \<noteq> 0" "0 < EnqueuedAt r"
    and "length encoded < 2 ^ 32" "12 < length encoded"
  shows "decodeRecord js encoded = Inr (r\<lparr>Attempts := 0\<rparr>)"
proof -
  let ?d = "\<lparr>dr_ID = RecordID r, dr_EnqueuedAtUnixNano = EnqueuedAt r, dr_Envelope = Envelope r\<rparr>"
  obtain payload where m: "marshal js ?d = Some payload"
    and e: "encoded = recordMagic @ put_uint 4 (of_nat (length payload) :: u32) @ payload @ put_uint 4 (crc32 payload)"
    using assms(2) by (auto simp: encodeRecord_def split: option.splits)
  have u: "unmarshal js payload = Some (?d, [])" using assms(1) m by (simp add: codec_ok_def)
  have magic: "length recordMagic = 4" by (simp add: recordMagic_def)
  have len: "length encoded = length payload + 12" using e magic by simp
  then have size: "unat (of_nat (length payload) :: u32) = length payload" using assms(5) by (simp add: unat_of_nat)
  have parts: "take 4 encoded = recordMagic" "slice 4 8 encoded = put_uint 4 (of_nat (length payload) :: u32)"
    "slice 8 (8 + length payload) encoded = payload" "drop (8 + length payload) encoded = put_uint 4 (crc32 payload)"
    using e magic by (simp_all add: slice_def)
  show ?thesis
    using parts size len u assms(3,4,6) by (cases r) (simp add: decodeRecord_def Let_def)
qed

section \<open>What the calls do to the files\<close>

abbreviation stored :: "store \<Rightarrow> string \<rightharpoonup> fs_file" where
  "stored s \<equiv> map_of (disk (ss_world s))"

lemma next_io_same: "next_io w = (r, w') \<Longrightarrow> disk w' = disk w"
  using next_io_disk [of w] by simp

lemma on_disk_run: "on_disk f s = (r, s') \<Longrightarrow> f (ss_world s) = (r, ss_world s')"
  by (auto simp: on_disk_def split: prod.splits)

lemma os_quiet:
  "os_close w = (b, w') \<Longrightarrow> disk w' = disk w"
  "os_stat_size n w = (x, w') \<Longrightarrow> disk w' = disk w"
  "os_read_file n w = (y, w') \<Longrightarrow> disk w' = disk w"
  "os_read_dir w = (z, w') \<Longrightarrow> disk w' = disk w"
  "os_read_subdir d w = (v, w') \<Longrightarrow> disk w' = disk w"
  by (auto dest!: next_io_same simp: os_close_def os_stat_size_def os_read_file_def os_read_dir_def
      os_read_subdir_def split: prod.splits io.splits option.splits)

lemma sync_quiet: "sync_directory w = (b, w') \<Longrightarrow> disk w' = disk w"
  by (auto dest!: os_quiet(1) simp: sync_directory_def split: prod.splits if_splits)

lemma os_create: "os_create_excl n w = (True, w') \<Longrightarrow> map_of (disk w') = (map_of (disk w))(n \<mapsto> \<lparr>contents = [], synced = 0\<rparr>)"
  by (auto dest!: next_io_same simp: os_create_excl_def fun_eq_iff split: prod.splits io.splits option.splits)

lemma os_written:
  "os_write n bs w = ((k, True), w') \<Longrightarrow>
     map_of (disk w') = (map_of (disk w))(n := map_option (\<lambda>f. f\<lparr>contents := contents f @ bs\<rparr>) (lookup_file w n))"
  by (auto dest!: next_io_same simp: os_write_def append_file_def fun_eq_iff
      split: prod.splits io.splits option.splits)

lemma os_synced:
  "os_sync n w = (True, w') \<Longrightarrow>
     map_of (disk w') = (map_of (disk w))(n := map_option (\<lambda>f. f\<lparr>synced := length (contents f)\<rparr>) (lookup_file w n))"
  by (auto dest!: next_io_same simp: os_sync_def fun_eq_iff split: prod.splits io.splits option.splits)

lemma os_renamed:
  "os_rename old new w = (True, w') \<Longrightarrow> map_of (disk w') = (map_of (disk w))(old := None, new := lookup_file w old)"
  by (auto dest!: next_io_same simp: os_rename_def fun_eq_iff split: prod.splits io.splits option.splits)

lemma os_rename_other:
  "os_rename old new w = (b, w') \<Longrightarrow> m \<noteq> old \<Longrightarrow> m \<noteq> new \<Longrightarrow> lookup_file w' m = lookup_file w m"
  by (auto dest!: next_io_same simp: os_rename_def split: prod.splits io.splits option.splits)

lemma os_remove_other: "os_remove n w = (x, w') \<Longrightarrow> m \<noteq> n \<Longrightarrow> lookup_file w' m = lookup_file w m"
  by (auto dest!: next_io_same simp: os_remove_def split: prod.splits io.splits option.splits)

lemmas io_quiet = os_quiet [OF on_disk_run] sync_quiet [OF on_disk_run]
lemmas io_create = os_create [OF on_disk_run]
lemmas io_write = os_written [OF on_disk_run]
lemmas io_sync = os_synced [OF on_disk_run]
lemmas io_rename = os_renamed [OF on_disk_run]
lemmas io_rename_other = os_rename_other [OF on_disk_run]
lemmas io_remove_other = os_remove_other [OF on_disk_run]

lemma stored_observe [simp]: "stored (store_observe s) = stored s"
  by simp

section \<open>Appending\<close>

lemma store_append_files:
  assumes "store_append js alloc False e s = (Inr r, s')"
  shows "\<exists>encoded. encodeRecord js r = Inr encoded
    \<and> r = \<lparr>RecordID = ss_nextID s, Attempts = 0, EnqueuedAt = ss_now s, Envelope = e\<rparr>
    \<and> stored s' = (stored s)(temporaryFilename (ss_nextID s) := None,
         activeFilename (ss_nextID s) 0 \<mapsto> \<lparr>contents = encoded, synced = length encoded\<rparr>)"
proof -
  let ?i = "ss_nextID s"
  let ?r = "\<lparr>RecordID = ?i, Attempts = 0, EnqueuedAt = ss_now s, Envelope = e\<rparr>"
  let ?t = "temporaryFilename ?i" and ?f = "activeFilename ?i 0"
  let ?s0 = "s\<lparr>ss_nextID := ?i + 1\<rparr>"
  obtain encoded where enc: "encodeRecord js ?r = Inr encoded"
    using assms by (auto simp: store_append_def Let_def split: sum.splits)
  obtain b1 s1 where 1: "on_disk (os_create_excl ?t) ?s0 = (b1, s1)" by fastforce
  have b1: "b1 = True" using assms enc 1 by (auto simp: store_append_def Let_def split: if_splits)
  obtain k b2 s2 where 2: "on_disk (os_write ?t encoded) s1 = ((k, b2), s2)" by (metis prod.exhaust)
  have b2: "b2 = True" using assms enc 1 b1 2 by (auto simp: store_append_def Let_def split: if_splits)
  obtain b3 s3 where 3: "on_disk (os_sync ?t) s2 = (b3, s3)" by fastforce
  have b3: "b3 = True" using assms enc 1 b1 2 b2 3 by (auto simp: store_append_def Let_def split: if_splits)
  obtain x s4 where 4: "on_disk (os_stat_size ?t) s3 = (x, s4)" by fastforce
  obtain len where x: "x = Some len" using assms enc 1 b1 2 b2 3 b3 4
    by (cases x) (auto simp: store_append_def Let_def)
  have room: "\<not> ss_usedBytes s4 + alloc len > ss_maxBytes s4"
    using assms enc 1 b1 2 b2 3 b3 4 x by (auto simp: store_append_def Let_def split: if_splits)
  obtain b5 s5 where 5: "on_disk os_close s4 = (b5, s5)" by fastforce
  have b5: "b5 = True" using assms enc 1 b1 2 b2 3 b3 4 x room 5 by (auto simp: store_append_def Let_def split: if_splits)
  obtain b6 s6 where 6: "on_disk (os_rename ?t ?f) s5 = (b6, s6)" by fastforce
  have b6: "b6 = True" using assms enc 1 b1 2 b2 3 b3 4 x room 5 b5 6 by (auto simp: store_append_def Let_def split: if_splits)
  let ?s7 = "store_observe (s6\<lparr>ss_active := (ss_active s6)(?i \<mapsto> \<lparr>sf_filename = ?f, sf_attempts = 0, sf_allocated = alloc len\<rparr>),
      ss_ids := ss_ids s6 @ [?i], ss_usedBytes := ss_usedBytes s6 + alloc len\<rparr>)"
  obtain b8 s8 where 8: "on_disk sync_directory ?s7 = (b8, s8)" by fastforce
  have end_: "r = ?r" "s' = s8"
    using assms enc 1 b1 2 b2 3 b3 4 x room 5 b5 6 b6 8 by (auto simp: store_append_def Let_def split: if_splits)
  have "stored s1 = (stored s)(?t \<mapsto> \<lparr>contents = [], synced = 0\<rparr>)" using io_create [OF 1 [unfolded b1]] by simp
  then have "stored s2 = (stored s)(?t \<mapsto> \<lparr>contents = encoded, synced = 0\<rparr>)" using io_write [OF 2 [unfolded b2]] by simp
  then have "stored s3 = (stored s)(?t \<mapsto> \<lparr>contents = encoded, synced = length encoded\<rparr>)"
    using io_sync [OF 3 [unfolded b3]] by simp
  then have s5: "stored s5 = (stored s)(?t \<mapsto> \<lparr>contents = encoded, synced = length encoded\<rparr>)"
    using io_quiet(2) [OF 4] io_quiet(1) [OF 5] by simp
  have "stored s6 = (stored s5)(?t := None, ?f := stored s5 ?t)" by (rule io_rename [OF 6 [unfolded b6]])
  then have "stored s6 = (stored s)(?t := None, ?f \<mapsto> \<lparr>contents = encoded, synced = length encoded\<rparr>)"
    unfolding s5 by simp
  then have "stored s8 = (stored s)(?t := None, ?f \<mapsto> \<lparr>contents = encoded, synced = length encoded\<rparr>)"
    using io_quiet(6) [OF 8] by simp
  then show ?thesis using enc end_ by blast
qed

section \<open>Start-up\<close>

lemma sync_same:
  "on_disk sync_directory s = (b, s') \<Longrightarrow> disk (ss_world s') = disk (ss_world s) \<and> ss_active s' = ss_active s"
  by (auto dest: io_quiet(6) on_disk_fields(1))

lemma syncQuarantineMove_same: "syncQuarantineMove s = (x, s') \<Longrightarrow> stored s' = stored s \<and> ss_active s' = ss_active s"
  by (auto simp: syncQuarantineMove_def Let_def dest!: sync_same split: prod.splits if_splits)

lemma set_aside_other:
  assumes "set_aside name reason s = (x, s')" "name \<noteq> activeFilename i n"
  shows "stored s' (activeFilename i n) = stored s (activeFilename i n) \<and> ss_active s' = ss_active s"
proof -
  let ?f = "activeFilename i n"
  obtain b s1 where 1: "on_disk (os_rename name (quarantine_path name reason)) s = (b, s1)" by fastforce
  have same: "stored s1 ?f = stored s ?f" "ss_active s1 = ss_active s"
    using io_rename_other [OF 1 assms(2) [symmetric] quarantine_other [symmetric]] on_disk_fields [OF 1] by simp_all
  show ?thesis
  proof (cases b)
    case False
    then show ?thesis using assms(1) 1 same by (simp add: set_aside_def quarantinePathLocked_def)
  next
    case True
    then have "syncQuarantineMove (s1\<lparr>ss_quarantined := ss_quarantined s1 + 1\<rparr>) = (x, s')"
      using assms(1) 1 by (simp add: set_aside_def quarantinePathLocked_def)
    from syncQuarantineMove_same [OF this] show ?thesis using same by simp
  qed
qed

lemma bumpSequence_same [simp]: "ss_world (bumpSequence name s) = ss_world s" "ss_active (bumpSequence name s) = ss_active s"
  by (simp_all add: bumpSequence_def split: option.split)

lemma store_read_same: "store_read js i e s = (x, s') \<Longrightarrow> stored s' = stored s \<and> ss_active s' = ss_active s"
  by (auto simp: store_read_def split: prod.splits read_result.splits sum.splits if_splits
      dest: io_quiet(3) on_disk_fields(1))

lemma recover_file_other:
  assumes "recover_file js alloc name rc s = (None, rc', s')" "name \<noteq> activeFilename i n"
    and "\<forall>k. parseActiveFilename name \<noteq> Some (i, k)"
  shows "stored s' (activeFilename i n) = stored s (activeFilename i n) \<and> ss_active s' i = ss_active s i"
proof -
  obtain y s1 where 1: "on_disk (os_stat_size name) s = (y, s1)" by fastforce
  obtain len where y: "y = Some len" using assms(1) 1 by (cases y) (auto simp: recover_file_def Let_def)
  have same: "stored s1 = stored s" "ss_active s1 = ss_active s" using io_quiet(2) [OF 1] on_disk_fields [OF 1] by simp_all
  let ?s = "s1\<lparr>ss_usedBytes := ss_usedBytes s1 + alloc len\<rparr>"
  have aside: ?thesis if "set_aside name reason s2 = (None, s')" "stored s2 = stored s" "ss_active s2 = ss_active s" for reason s2
    using set_aside_other [OF that(1) assms(2)] that by simp
  show ?thesis
  proof (cases "parseActiveFilename name")
    case None
    then have "set_aside name ''corrupt'' ?s = (None, s')"
      using assms(1) 1 y by (auto simp: recover_file_def Let_def split: prod.splits option.splits)
    then show ?thesis by (rule aside) (use same in simp_all)
  next
    case (Some p)
    obtain j k where p: "p = (j, k)" by (cases p)
    have j: "j \<noteq> i" using assms(3) Some p by auto
    let ?b = "bumpSequence name ?s"
    let ?e = "\<lparr>sf_filename = name, sf_attempts = nat k, sf_allocated = alloc len\<rparr>"
    show ?thesis
    proof (cases "ss_active s j")
      case (Some a)
      then have "set_aside name ''duplicate-id'' ?b = (None, s')"
        using assms(1) 1 y \<open>parseActiveFilename name = Some p\<close> p same
        by (auto simp: recover_file_def Let_def split: prod.splits option.splits)
      then show ?thesis by (rule aside) (use same in simp_all)
    next
      case None
      obtain x s2 where 2: "store_read js j ?e ?b = (x, s2)" by fastforce
      have same2: "stored s2 = stored s" "ss_active s2 = ss_active s" using store_read_same [OF 2] same by simp_all
      show ?thesis
      proof (cases x)
        case (Inl e)
        then have "set_aside name ''corrupt'' s2 = (None, s')"
          using assms(1) 1 y \<open>parseActiveFilename name = Some p\<close> p same None 2
          by (auto simp: recover_file_def Let_def split: prod.splits option.splits if_splits)
        then show ?thesis by (rule aside) (use same2 in simp_all)
      next
        case (Inr r)
        then have "s' = s2\<lparr>ss_active := (ss_active s2)(j \<mapsto> ?e), ss_ids := ss_ids s2 @ [j]\<rparr>"
          using assms(1) 1 y \<open>parseActiveFilename name = Some p\<close> p same None 2
          by (auto simp: recover_file_def Let_def)
        then show ?thesis using same2 j by simp
      qed
    qed
  qed
qed

lemma recover_file_own:
  assumes "recover_file js alloc (activeFilename i 0) rc s = (None, rc', s')"
    and "stored s (activeFilename i 0) = Some f" "ss_active s i = None" "i \<noteq> 0"
    and "decodeRecord js (contents f) = Inr r" "RecordID r = i"
  shows "stored s' = stored s
    \<and> ss_active s' i = Some \<lparr>sf_filename = activeFilename i 0, sf_attempts = 0, sf_allocated = alloc (length (contents f))\<rparr>"
proof -
  let ?f = "activeFilename i 0"
  have parse: "parseActiveFilename ?f = Some (i, 0)" using parse_activeFilename [OF assms(4), of 0] by simp
  obtain y s1 where 1: "on_disk (os_stat_size ?f) s = (y, s1)" by fastforce
  have y: "y = Some (length (contents f))" using assms(1,2) 1 on_disk_run [OF 1]
    by (cases y) (auto simp: recover_file_def os_stat_size_def Let_def dest: next_io_same split: prod.splits io.splits)
  have same: "stored s1 = stored s" "ss_active s1 = ss_active s" using io_quiet(2) [OF 1] on_disk_fields [OF 1] by simp_all
  let ?b = "bumpSequence ?f (s1\<lparr>ss_usedBytes := ss_usedBytes s1 + alloc (length (contents f))\<rparr>)"
  let ?e = "\<lparr>sf_filename = ?f, sf_attempts = 0, sf_allocated = alloc (length (contents f))\<rparr>"
  obtain d s2 where 2: "on_disk (os_read_file ?f) ?b = (d, s2)" by fastforce
  have d: "d = ReadOk (contents f)"
  proof (rule ccontr)
    assume n: "d \<noteq> ReadOk (contents f)"
    then have "d = ReadError" using on_disk_run [OF 2] assms(2) same
      by (auto simp: os_read_file_def dest: next_io_same split: prod.splits io.splits option.splits)
    then show False using assms(1,3) 1 y parse same 2 by (simp add: recover_file_def store_read_def)
  qed
  have s2: "stored s2 = stored s" "ss_active s2 = ss_active s" using io_quiet(3) [OF 2] on_disk_fields [OF 2] same by simp_all
  have "s' = s2\<lparr>ss_active := (ss_active s2)(i \<mapsto> ?e), ss_ids := ss_ids s2 @ [i]\<rparr>"
    using assms(1,3,5,6) 1 y parse same 2 d by (simp add: recover_file_def store_read_def)
  then show ?thesis using s2 by simp
qed

lemma recover_files_keep:
  assumes "recover_files js alloc es rc s = (None, rc', s')"
    and "\<And>name k. (name, False) \<in> set es \<Longrightarrow> name \<noteq> activeFilename i 0 \<Longrightarrow> parseActiveFilename name \<noteq> Some (i, k)"
    and "distinct es" "stored s (activeFilename i 0) = Some f" "i \<noteq> 0"
    and "decodeRecord js (contents f) = Inr r" "RecordID r = i"
    and "(activeFilename i 0, False) \<in> set es \<longrightarrow> ss_active s i = None"
  shows "stored s' (activeFilename i 0) = Some f
    \<and> ss_active s' i = (if (activeFilename i 0, False) \<in> set es
         then Some \<lparr>sf_filename = activeFilename i 0, sf_attempts = 0, sf_allocated = alloc (length (contents f))\<rparr>
         else ss_active s i)"
  using assms
proof (induction js alloc es rc s rule: recover_files.induct)
  case (1 js alloc rc s)
  then show ?case by simp
next
  case (2 js alloc name isDir es rc s)
  let ?f = "activeFilename i 0"
  have skip: ?case if run: "recover_files js alloc es rc1 s1 = (None, rc', s')"
      and keep: "stored s1 ?f = Some f" "ss_active s1 i = ss_active s i" and n: "(name, isDir) \<noteq> (?f, False)"
      and IH: "\<lbrakk>recover_files js alloc es rc1 s1 = (None, rc', s');
         \<And>name k. (name, False) \<in> set es \<Longrightarrow> name \<noteq> ?f \<Longrightarrow> parseActiveFilename name \<noteq> Some (i, k); distinct es;
         stored s1 ?f = Some f; i \<noteq> 0; decodeRecord js (contents f) = Inr r; RecordID r = i;
         (?f, False) \<in> set es \<longrightarrow> ss_active s1 i = None\<rbrakk> \<Longrightarrow> stored s' ?f = Some f
           \<and> ss_active s' i = (if (?f, False) \<in> set es
              then Some \<lparr>sf_filename = ?f, sf_attempts = 0, sf_allocated = alloc (length (contents f))\<rparr>
              else ss_active s1 i)" for rc1 s1
  proof -
    have "stored s' ?f = Some f \<and> ss_active s' i = (if (?f, False) \<in> set es
        then Some \<lparr>sf_filename = ?f, sf_attempts = 0, sf_allocated = alloc (length (contents f))\<rparr> else ss_active s1 i)"
      by (rule IH) (use "2.prems" run keep in auto)
    then show ?thesis using keep n by auto
  qed
  show ?case
  proof (cases isDir)
    case True
    then have "recover_files js alloc es rc s = (None, rc', s')" using "2.prems"(1) by simp
    then show ?thesis by (rule skip) (use True "2.prems"(4) "2.IH"(1) [OF True] in \<open>simp_all del: recover_files.simps\<close>)
  next
    case plain: False
    show ?thesis
    proof (cases "has_suffix name ''.tmp''")
      case True
      then have n: "name \<noteq> ?f" using activeFilename_permanent by auto
      obtain x s1 where 1: "on_disk (os_remove name) s = (x, s1)" by fastforce
      have x: "x = Removed" using "2.prems"(1) plain True 1 by (cases x) simp_all
      obtain b s2 where 2: "on_disk sync_directory s1 = (b, s2)" by fastforce
      have b: "b = True" and run: "recover_files js alloc es rc s2 = (None, rc', s')"
        using "2.prems"(1) plain True 1 x 2 by (auto split: if_splits bool.splits)
      have keep: "stored s2 ?f = Some f" "ss_active s2 i = ss_active s i"
        using io_remove_other [OF 1 n [symmetric]] sync_same [OF 2] on_disk_fields [OF 1] "2.prems"(4) by simp_all
      show ?thesis using run keep
        by (rule skip) (use n "2.IH"(2) [OF _ True 1 [symmetric] _ 2 [symmetric]] plain x b in simp_all)
    next
      case permanent: False
      obtain y rc1 s1 where 1: "recover_file js alloc name rc s = (y, rc1, s1)" by (metis prod.exhaust)
      have y: "y = None" and run: "recover_files js alloc es rc1 s1 = (None, rc', s')"
        using "2.prems"(1) plain permanent 1 by (auto split: option.splits)
      note IH = "2.IH"(3) [OF plain permanent 1 [symmetric] y refl]
      show ?thesis
      proof (cases "name = ?f")
        case False
        have keep: "stored s1 ?f = Some f" "ss_active s1 i = ss_active s i"
          using recover_file_other [OF 1 [unfolded y] False] "2.prems"(2) [of name] "2.prems"(4) plain False by auto
        show ?thesis using run keep by (rule skip) (use False IH in simp_all)
      next
        case True
        note own = recover_file_own [OF 1 [unfolded y True] "2.prems"(4) _ "2.prems"(5-7)]
        have none: "ss_active s i = None" and out: "(?f, False) \<notin> set es" using "2.prems"(3,8) True plain by auto
        have "stored s' ?f = Some f \<and> ss_active s' i = (if (?f, False) \<in> set es
          then Some \<lparr>sf_filename = ?f, sf_attempts = 0, sf_allocated = alloc (length (contents f))\<rparr> else ss_active s1 i)"
          by (rule IH) (use "2.prems" run own none out in auto)
        then show ?thesis using own none out True plain by simp
      qed
    qed
  qed
qed

lemma read_dir_entries:
  assumes "os_read_dir w = (Some es, w')"
  shows "distinct es" "(name, False) \<in> set es \<longleftrightarrow> lookup_file w name \<noteq> None \<and> CHR ''/'' \<notin> set name"
proof -
  have es: "es = sort_key fst (remdups (List.map top_entry (keys (disk w))))"
    using assms by (auto dest!: next_io_same simp: os_read_dir_def split: prod.splits io.splits)
  then show "distinct es" by simp
  have plain: "takeWhile (\<lambda>c. c \<noteq> CHR ''/'') n = n" if "CHR ''/'' \<notin> set n" for n :: string
    unfolding takeWhile_eq_all_conv using that by auto
  have entry: "(name, False) = top_entry n \<longleftrightarrow> n = name \<and> CHR ''/'' \<notin> set name" for n
  proof (cases "CHR ''/'' \<in> set n")
    case True
    then show ?thesis by (auto simp: top_entry_def)
  next
    case False
    then show ?thesis by (auto simp only: top_entry_def plain [OF False] prod.inject simp_thms)
  qed
  have "(name, False) \<in> set es \<longleftrightarrow> name \<in> set (keys (disk w)) \<and> CHR ''/'' \<notin> set name"
    unfolding es set_sort set_remdups set_map image_iff entry by (simp add: image_iff)
  then show "(name, False) \<in> set es \<longleftrightarrow> lookup_file w name \<noteq> None \<and> CHR ''/'' \<notin> set name"
    by (simp only: map_of_eq_None_iff set_map not_not)
qed

lemma count_quarantined_same:
  "count_quarantined alloc names s = (x, s') \<Longrightarrow> disk (ss_world s') = disk (ss_world s) \<and> ss_active s' = ss_active s"
proof (induction alloc names s rule: count_quarantined.induct)
  case (2 alloc name names s)
  obtain y s1 where 1: "on_disk (os_stat_size (''quarantine/'' @ name)) s = (y, s1)" by fastforce
  have same: "disk (ss_world s1) = disk (ss_world s)" "ss_active s1 = ss_active s"
    using io_quiet(2) [OF 1] on_disk_fields [OF 1] by simp_all
  then show ?case using "2.prems" "2.IH"(1) "2.IH"(2) [OF _ 1 [symmetric]] 1
    by (auto split: if_splits option.splits)
qed simp

lemma recovered_record:
  assumes "store_recover js alloc s = (None, rc, s')"
    and "stored s (activeFilename i 0) = Some f" "ss_active s = Map.empty" "i \<noteq> 0"
    and "\<And>name k. stored s name \<noteq> None \<Longrightarrow> name \<noteq> activeFilename i 0 \<Longrightarrow> parseActiveFilename name \<noteq> Some (i, k)"
    and "decodeRecord js (contents f) = Inr r" "RecordID r = i"
  shows "stored s' (activeFilename i 0) = Some f
    \<and> ss_active s' i = Some \<lparr>sf_filename = activeFilename i 0, sf_attempts = 0, sf_allocated = alloc (length (contents f))\<rparr>"
proof -
  obtain q s1 where 1: "on_disk (os_read_subdir ''quarantine'') s = (q, s1)" by fastforce
  obtain names where q: "q = Some names" using assms(1) 1 by (cases q) (simp_all add: store_recover_def)
  obtain x s2 where 2: "count_quarantined alloc names s1 = (x, s2)" by fastforce
  have x: "x = None" using assms(1) 1 q 2 by (cases x) (simp_all add: store_recover_def)
  obtain y s3 where 3: "on_disk os_read_dir s2 = (y, s3)" by fastforce
  obtain es where y: "y = Some es" using assms(1) 1 q 2 x 3 by (cases y) (simp_all add: store_recover_def)
  obtain z rc1 s4 where 4: "recover_files js alloc es no_recovery s3 = (z, rc1, s4)" by (metis prod.exhaust)
  have z: "z = None" using assms(1) 1 q 2 x 3 y 4 by (cases z) (simp_all add: store_recover_def)
  have last: "ss_world s' = ss_world s4" "ss_active s' = ss_active s4"
    using assms(1) 1 q 2 x 3 y 4 z by (auto simp: store_recover_def)
  have s2: "stored s2 = stored s" "ss_active s2 = Map.empty"
    using io_quiet(5) [OF 1] on_disk_fields [OF 1] count_quarantined_same [OF 2] assms(3) by simp_all
  have s3: "stored s3 = stored s" "ss_active s3 = Map.empty"
    using io_quiet(4) [OF 3] on_disk_fields [OF 3] s2 by simp_all
  note es = read_dir_entries [OF on_disk_run [OF 3 [unfolded y]], unfolded s2]
  have "(activeFilename i 0, False) \<in> set es" using es(2) assms(2) activeFilename_plain by simp
  moreover have "parseActiveFilename name \<noteq> Some (i, k)"
    if "(name, False) \<in> set es" "name \<noteq> activeFilename i 0" for name k
    using assms(5) [OF _ that(2)] that(1) es(2) by blast
  ultimately show ?thesis
    using recover_files_keep [OF 4 [unfolded z] _ es(1) _ assms(4,6,7)] s3 assms(2) last by auto
qed

lemma store_open_recovers:
  assumes "store_open js alloc directory maxBytes now w = (Inr t, rc, w')"
  obtains w0 s rc' where "disk w0 = disk w" "store_recover js alloc (new_store maxBytes now w0) = (None, rc', s)"
    "ss_world t = ss_world s" "ss_active t = ss_active s"
proof -
  have call: "disk v' = disk v" if "os_call v = (b, v')" for b v v'
    using that by (auto dest!: next_io_same simp: os_call_def split: prod.splits)
  from assms show thesis
    by (clarsimp simp: store_open_def Let_def dest!: call split: prod.splits if_splits option.splits)
      (erule that [rotated], simp_all)
qed

lemma appended_survives:
  assumes "store_append js alloc False e s = (Inr r, s')"
    and fresh: "\<And>name k. stored s name \<noteq> None \<Longrightarrow> parseActiveFilename name \<noteq> Some (RecordID r, k)"
    and "crash (ss_world s') w" "store_open js alloc' directory maxBytes now w = (Inr t, rc, w')"
    and "codec_ok js" "RecordID r \<noteq> 0" "0 < EnqueuedAt r"
    and len: "\<And>bs. encodeRecord js r = Inr bs \<Longrightarrow> 12 < length bs \<and> length bs < 2 ^ 32"
  shows "\<exists>entry f. ss_active t (RecordID r) = Some entry \<and> sf_attempts entry = 0
    \<and> stored t (sf_filename entry) = Some f \<and> decodeRecord js (contents f) = Inr r"
proof -
  let ?n = "activeFilename (RecordID r) 0"
  obtain encoded where enc: "encodeRecord js r = Inr encoded"
    and r: "r = \<lparr>RecordID = ss_nextID s, Attempts = 0, EnqueuedAt = ss_now s, Envelope = e\<rparr>"
    and files: "stored s' = (stored s)(temporaryFilename (ss_nextID s) := None,
      activeFilename (ss_nextID s) 0 \<mapsto> \<lparr>contents = encoded, synced = length encoded\<rparr>)"
    using store_append_files [OF assms(1)] by blast
  let ?f = "\<lparr>contents = encoded, synced = length encoded\<rparr>"
  have own: "lookup_file w ?n = Some ?f"
    by (rule crash_synced [OF assms(3)]) (use files r in simp_all)
  have dec: "decodeRecord js encoded = Inr r"
    using decode_encodeRecord [OF assms(5) enc assms(6,7)] len [OF enc] r by simp
  have others: "parseActiveFilename name \<noteq> Some (RecordID r, k)" if "lookup_file w name \<noteq> None" "name \<noteq> ?n" for name k
    using that fresh [of name k] crash_lookup_iff [OF assms(3), of name] files r by (auto split: if_splits)
  obtain w0 s0 rc' where open_: "disk w0 = disk w" "store_recover js alloc' (new_store maxBytes now w0) = (None, rc', s0)"
    "ss_world t = ss_world s0" "ss_active t = ss_active s0"
    using store_open_recovers [OF assms(4)] .
  have "stored s0 ?n = Some ?f \<and> ss_active s0 (RecordID r)
      = Some \<lparr>sf_filename = ?n, sf_attempts = 0, sf_allocated = alloc' (length (contents ?f))\<rparr>"
    by (rule recovered_record [OF open_(2)]) (use own others dec assms(6) open_(1) in \<open>simp_all add: new_store_def\<close>)
  then show ?thesis using open_ dec by auto
qed

text \<open>C40: (safety) What the older storage accepts survives a crash: once an append has returned the record, whatever
  prefix of the unsynced bytes a crash leaves and however the calls of the next start-up fail, a
  start-up that succeeds has the record among the active ones with no attempt made, and its file
  decodes to the record. The identifier must be new to the directory (file names hold it), its payload must
  not be empty nor exceed the 32-bit length field, and the codec must read what it writes.\<close>

theorem legacy_record_survives:
  assumes "store_append js alloc False e s = (Inr r, s')"
    and "\<forall>name k. stored s name \<noteq> None \<longrightarrow> parseActiveFilename name \<noteq> Some (RecordID r, k)"
    and "crash (ss_world s') w" "store_open js alloc' directory maxBytes now w = (Inr t, rc, w')"
    and "codec_ok js" "RecordID r \<noteq> 0" "0 < EnqueuedAt r"
    and "\<forall>bs. encodeRecord js r = Inr bs \<longrightarrow> 12 < length bs \<and> length bs < 2 ^ 32"
  shows "\<exists>entry f. ss_active t (RecordID r) = Some entry \<and> sf_attempts entry = 0
    \<and> stored t (sf_filename entry) = Some f \<and> decodeRecord js (contents f) = Inr r"
  by (rule appended_survives [OF assms(1) _ assms(3-7)]) (use assms(2,8) in auto)

definition demo_store :: store where
  "demo_store = new_store 1000 7 \<lparr>disk = [], script = []\<rparr>"

definition demo_encoded :: bytes where
  "demo_encoded = recordMagic @ put_uint 4 (16 :: u32) @ demo_payload 1 @ put_uint 4 (crc32 (demo_payload 1))"

definition demo_kept :: world where
  "demo_kept = \<lparr>disk = [(activeFilename 1 0, \<lparr>contents = demo_encoded, synced = 28\<rparr>)], script = []\<rparr>"

lemma legacy_encode: "encodeRecord demo_codec (demo_record 1) = Inr demo_encoded"
  by (simp add: encodeRecord_def demo_record_def demo_codec_def demo_marshal_def demo_encoded_def demo_payload_def)

lemma length_demo_encoded: "length demo_encoded = 28"
  by (simp add: demo_encoded_def demo_payload_def recordMagic_def)

lemma demo_append:
  "\<exists>s'. store_append demo_codec int False demo_envelope demo_store = (Inr (demo_record 1), s') \<and> ss_world s' = demo_kept"
proof -
  have r: "\<lparr>RecordID = 1, Attempts = 0, EnqueuedAt = 7, Envelope = demo_envelope\<rparr> = demo_record 1"
    by (simp add: demo_record_def)
  show ?thesis
    by (simp add: store_append_def demo_store_def new_store_def Let_def r legacy_encode on_disk_def os_create_excl_def
        os_write_def append_file_def os_sync_def os_stat_size_def os_close_def os_rename_def sync_directory_def
        put_file_def drop_file_def length_demo_encoded demo_kept_def)
qed

lemma demo_start:
  "\<exists>t rc w'. store_open demo_codec int ''spool'' 1000 8 demo_kept = (Inr t, rc, w')"
proof -
  let ?n = "activeFilename 1 0"
  have plain: "CHR ''/'' \<notin> set ?n" by (rule activeFilename_plain)
  then have entry: "top_entry ?n = (?n, False)"
    by (simp add: top_entry_def takeWhile_eq_all_conv) (use plain in auto)
  have sub: "\<not> has_prefix ?n ''quarantine/''"
  proof
    assume "has_prefix ?n ''quarantine/''"
    then have "take 11 ?n = ''quarantine/''" by (simp add: has_prefix_def eval_nat_numeral)
    moreover have "CHR ''/'' \<in> set ''quarantine/''" by simp
    ultimately show False using plain set_take_subset [of 11 ?n] by auto
  qed
  have parse: "parseActiveFilename ?n = Some (1, 0)" using parse_activeFilename [of 1 0] by simp
  have dec: "decodeRecord demo_codec demo_encoded = Inr (demo_record 1)"
    using decode_encodeRecord [OF demo_codec_ok legacy_encode] by (simp add: demo_record_def length_demo_encoded)
  have trim: "trim_space ''spool'' \<noteq> []" by code_simp
  show ?thesis
    using trim by (simp add: store_open_def store_recover_def demo_kept_def new_store_def Let_def on_disk_def os_call_def
        os_read_subdir_def os_read_dir_def entry sub recover_file_def activeFilename_permanent os_stat_size_def
        parse store_read_def os_read_file_def dec demo_record_def bumpSequence_def split: option.split)
qed

theorem legacy_record_survives_witness:
  "\<exists>s' t rc w'. store_append demo_codec int False demo_envelope demo_store = (Inr (demo_record 1), s')
    \<and> store_open demo_codec int ''spool'' 1000 8 (ss_world s') = (Inr t, rc, w')
    \<and> (\<exists>entry f. ss_active t 1 = Some entry \<and> sf_attempts entry = 0
        \<and> stored t (sf_filename entry) = Some f \<and> decodeRecord demo_codec (contents f) = Inr (demo_record 1))"
proof -
  obtain s' where s': "store_append demo_codec int False demo_envelope demo_store = (Inr (demo_record 1), s')"
    "ss_world s' = demo_kept" using demo_append by blast
  obtain t rc w' where t: "store_open demo_codec int ''spool'' 1000 8 demo_kept = (Inr t, rc, w')"
    using demo_start by blast
  have "crash (ss_world s') demo_kept"
    by (auto simp: crash_def cut_file_def s'(2) demo_kept_def length_demo_encoded intro!: exI [of _ 28] split: if_splits)
  from legacy_record_survives [OF s'(1) _ this t demo_codec_ok] show ?thesis
    using s' t by (simp add: demo_store_def new_store_def demo_record_def [symmetric] legacy_encode length_demo_encoded)
      (simp add: demo_record_def)
qed

end
