(* ===== verification/Spec2Isabelle.thy ===== *)
theory Spec2Isabelle
  imports Wal_Properties Wal_Format_Properties Topo_Properties Storage_Queue
    Telemetry_Properties Pipeline_Timing Pipeline_Properties Pipeline_Returns
    Pipeline_Delivery
    Collector_Startup Collector_Admission Sink_Http_Properties Server_Views Spool_Durability
begin

text \<open>
  A verification development for the NodeFlow collector, the Go program under
  \<open>src/runtime/go\<close>. The paths below are relative to \<open>src/runtime/go/internal\<close>.

  \<^bold>\<open>The program.\<close> The collector receives telemetry (span batches and runtime metrics) over
  HTTP, decodes and validates it (\<open>telemetry/\<close>), and appends each envelope to a durable
  storage (\<open>spool/\<close>), by default a segmented write-ahead log with group commit. A pipeline
  (\<open>pipeline/\<close>) reads the stored records back, groups them by service, hands each service to one
  of its workers, and delivers batches to a sink (\<open>sink/\<close>); what is delivered is acknowledged in
  the storage, what fails is retried with a growing delay or quarantined. The usual sink
  (\<open>sink/topology.go\<close>) feeds the topology engine (\<open>topology/\<close>), which builds a graph of services,
  their calls and recent traces, and saves a checkpoint of the engine before it reports a batch
  as delivered; another (\<open>sink/http.go\<close>) posts batches to a topology service elsewhere. \<open>metrics/\<close> counts
  what happens. \<open>config/\<close> reads the settings from the environment, \<open>server/\<close> holds the HTTP handlers that
  admit telemetry and the hub that sends snapshots to browsers.

  \<^bold>\<open>Theories and the code they model.\<close>

  \<^item> \<open>Prelude\<close>, \<open>Go_Lib\<close>, \<open>Go_Strings\<close>, \<open>Float64\<close>, \<open>Float_Bounds\<close>, \<open>Float_Format\<close>: machine types, errors as
    sums, slices, and what the sources use of Go's library: \<open>encoding/binary\<close>, \<open>hash/crc32\<close>,
    \<open>sort.Search\<close>, \<open>strconv\<close>, \<open>strings\<close>, UTF-8 and UTF-16, and binary64 arithmetic with rounding to
    even, infinities and NaN (one zero; no fused multiply-add).
  \<^item> \<open>Disk\<close>: one directory of files whose calls may fail, may write less than asked, and whose
    unsynced effects a crash may lose in part; which calls fail is a script in the state.
  \<^item> \<open>Layout\<close> (locale \<open>checked_layout\<close>), \<open>Wal_Format\<close> (\<open>spool/wal_format.go\<close>; it interprets the
    locale for the three headers and the state entry) and \<open>Wal_Names\<close> (names of segments).
  \<^item> \<open>Wal_Core\<close>, \<open>Wal_State\<close>, \<open>Wal_Recovery\<close>, \<open>Wal_Ops\<close>: \<open>spool/wal.go\<close>, \<open>wal_state.go\<close>, \<open>wal_recovery.go\<close>. The
    record \<open>WAL\<close> is the Go structure of that name; each operation is a function on it, with the
    file system inside. The writer goroutine and its callers are the step relation \<open>wal_step\<close>.
  \<^item> \<open>Telemetry_Model\<close>, \<open>Telemetry_Validate\<close>, \<open>Telemetry_Codec\<close>: \<open>telemetry/model.go\<close>, \<open>validate.go\<close>, \<open>codec.go\<close>.
  \<^item> \<open>Telemetry_Sdk\<close>: the clients' side of the protocol, the encoder of \<open>src/protocol/src/protobuf.ts\<close> as the list of
    tagged fields it writes, and the reading of such fields by the schema
    \<open>src/protocol/proto/nodeflow/v1/telemetry.proto\<close>. The two libraries between them are a hypothesis: that Go's
    \<open>proto.Unmarshal\<close> reads by the schema the bytes which \<open>protobufjs\<close> makes of the fields.
  \<^item> \<open>Topo_Identity\<close>, \<open>Topo_State\<close>, \<open>Topo_Trace\<close>, \<open>Topo_Engine\<close>, \<open>Topo_Snapshot\<close>, \<open>Topo_Store\<close>:
    \<open>topology/identity.go\<close>, \<open>engine.go\<close>, \<open>model.go\<close>, \<open>state.go\<close>. The record \<open>engine\<close> is the Go structure;
    a map of Go is an association list (\<open>gomap\<close>) or a function to options.
  \<^item> \<open>Metrics\<close> (\<open>metrics/metrics.go\<close>) and \<open>Sink_Topology\<close> (\<open>sink/topology.go\<close>).
  \<^item> \<open>Pipeline_Base\<close> (settings, grouping, delays), \<open>Pipeline_Worker\<close> (the loop of \<open>work\<close>), \<open>Pipeline_System\<close>
    (the goroutines and clients as the step relation \<open>pipeline_step\<close>), \<open>Pipeline_Returns\<close> (the loops of \<open>work\<close> once
    more, over a context that may never be cancelled, as partial functions): \<open>pipeline/pipeline.go\<close>.
  \<^item> \<open>Collector_Config\<close>: \<open>config/config.go\<close>, and what \<open>cmd/nodeflow-collector/main.go\<close> makes of the settings for
    the log and the pipeline.
  \<^item> \<open>Collector_Server\<close>: the handlers of \<open>server/server.go\<close> that admit telemetry, with \<open>enqueue\<close> and \<open>Ready\<close> of the
    pipeline, with a storage and without; \<open>handle\<close> sends a request to the handler of its endpoint, and the
    properties of admission are about all three. A handler is a function from the request and the state to
    the reply and the state; for a handler that waits, what its channel receives is an argument.
  \<^item> \<open>Server_Views\<close>: the hub of \<open>server/websocket.go\<close> as operations on a map of clients, the choice of a file in
    \<open>dashboard.go\<close> and of a target in \<open>proxy.go\<close>.
  \<^item> \<open>Sink_Http\<close>: \<open>sink/http.go\<close> over a network that is a parameter, and \<open>sink/discard.go\<close>.
  \<^item> \<open>Spool_Store\<close>: the older storage of \<open>spool/spool.go\<close>, one file per record, over the same \<open>Disk\<close>.

  \<^bold>\<open>Interfaces.\<close> What the pipeline needs of a storage (\<open>spool.Storage\<close>) is the locale \<open>settlement\<close>
  (what \<open>Ack\<close>, \<open>MarkRetry\<close> and \<open>Quarantine\<close> do to a table of records; theory \<open>Storage_Contract\<close>) and
  its extension \<open>pipeline_storage\<close> (fresh identifiers on append, what \<open>NextAfter\<close> may return; theory
  \<open>Pipeline_Safety\<close>). The lemmas on the worker and on every reachable state of the pipeline are
  proved inside them. \<open>Storage_Wal\<close> and \<open>Storage_Pipeline\<close> interpret both on the write-ahead log, so
  that the properties of the pipeline are stated and hold for the log itself; \<open>Spool_Laws\<close> interprets
  \<open>settlement\<close> on the older storage, so that the lemmas on the worker hold for it too.

  \<^bold>\<open>What the lemmas show.\<close>

  \<^item> \<open>Wal_Frame\<close>, \<open>Wal_Invariant\<close>, \<open>Wal_Checkpoint\<close>, \<open>Wal_System\<close>, \<open>Wal_Reads\<close>: the log's accounting (used and reserved
    bytes, counts per segment, index) is an invariant of every operation; settling has exactly
    the promised effect or none; every request is answered once; reads are exact.
  \<^item> \<open>Wal_Scan\<close>, \<open>Wal_Crash\<close>, \<open>Wal_Durability\<close>: after a crash at any point, recovery finds committed
    groups whole and drops an unfinished one whole, also across the rotation of segments. This needs
    payloads no longer than a segment (\<open>payloads_fit\<close>), which the commit does not check: the lemma
    \<open>oversized_group_is_cut\<close> of \<open>Wal_Properties\<close> shows that a committed group with a longer one is truncated.
  \<^item> \<open>Storage_Queue\<close>: the log refines an abstract durable queue.
  \<^item> \<open>Topo_Invariant\<close>, \<open>Topo_Ingest\<close>, \<open>Topo_Identified\<close>, \<open>Topo_Replay\<close>: soundness and limits of the engine's state,
    exact counting, and that ingesting a batch again changes nothing.
  \<^item> \<open>Topo_Persist\<close>, \<open>Topo_Checkpoint\<close>: a checkpoint restores its engine; \<open>Save\<close> is atomic under failures
    and crashes.
  \<^item> \<open>Sink_Effects\<close>: which calls of the engine a batch comes to, and what is on disk after success
    and after each failure.
  \<^item> \<open>Pipeline_Reachable\<close>, \<open>Pipeline_Liveness\<close>, \<open>Pipeline_Delivery\<close>: the invariant of the running pipeline
    over every interleaving; a worker's loop settles its batch; what the log forgets
    was quarantined or is in the topology restored from disk.
  \<^item> \<open>Pipeline_Returns\<close>: a worker's loop returns if the context is cancelled at some time, and not if \<open>Ack\<close> fails for
    ever under a context that never is; the runs that return are those of \<open>work_loop\<close>.
  \<^item> \<open>Collector_Startup\<close>: settings that \<open>Load\<close> returns are accepted by the constructors; its lemmas
    \<open>NaN_jitter_is_checked\<close> and \<open>wrapped_segment_check\<close> show two checks that do not hold what they should.
  \<^item> \<open>Collector_Admission\<close>: 202 means stored, and every request is counted by its answer.
  \<^item> \<open>Sink_Http_Properties\<close>: what has been posted when the HTTP sink succeeds and when it fails.
  \<^item> \<open>Spool_Durability\<close>: an accepted record of the older storage survives a crash and a start-up that sets
    other files aside.
  \<^item> The theories named \<open>_Properties\<close>, with \<open>Pipeline_Timing\<close>, \<open>Pipeline_Delivery\<close>, \<open>Pipeline_Returns\<close>, \<open>Storage_Queue\<close>, the two named
    \<open>Collector_Startup\<close> and \<open>Collector_Admission\<close>, and \<open>Spool_Durability\<close>, state the
    properties C1 to C40, each with an instance on a concrete log, engine or pipeline
    (\<open>Wal_Demo\<close>, \<open>Pipeline_Demo\<close> and the demos beside the properties).

  \<^bold>\<open>Bounds and fuel.\<close> Loops over data are structural or have a measure. The worker's loop
  consults the pipeline's context after every failed call; in \<open>Pipeline_Worker\<close> the context is a number of
  consultations for which it is still running, and this number, which decreases, bounds the
  loop: the theorems on the worker hold for every such number. That these are all the runs which
  return is proved in \<open>Pipeline_Returns\<close>, where the context answers each consultation as it likes and a loop
  that never returns is the value \<open>None\<close>. Integers
  of Go that wrap are words; lengths and offsets that cannot reach their limits are integers.
  Identifiers of records and segments are 64-bit words; \<open>wal_room\<close> says that they have not run out.

  \<^bold>\<open>Parameters.\<close> Not under \<open>src/\<close>, and so arguments of the definitions: the JSON codec of records and
  of the checkpoint (with the hypothesis that decoding inverts encoding), \<open>net/url\<close>, the
  unmarshalling of protobuf messages, \<open>strconv.ParseFloat\<close>, \<open>mime.ParseMediaType\<close>, the HTTP client of the sink with its
  network, the blocks a file takes (\<open>allocatedFileBytes\<close>), random numbers, clock readings, and the
  results of system calls.

  \<^bold>\<open>Not modelled.\<close> Durations measured for histograms, log lines, the Prometheus text and
  the process statistics; routes other than those of the telemetry
  handlers, headers, and the handlers that only print a
  snapshot or the health; the loops that read and write websocket connections, serving files and
  proxying, which are the library's; the goroutines of the pipeline without a storage and the waiting
  in \<open>Wait\<close>; starting and stopping in \<open>main\<close>, and the tools under \<open>cmd/\<close>. The sink of the topology takes no lock
  of its own: several workers may be inside \<open>ConsumeBatch\<close> at once, with the calls of the engine
  and of \<open>Save\<close> serialised by their locks. The theorems on the sink, and the end-to-end property
  C1, are about the run of one worker at a time; those on the pipeline's states (\<open>pipeline_step\<close>)
  are about every interleaving, with the results of the sink left open. \<open>Append\<close> as one call of the log
  is a request alone with the writer; requests that share a group are steps of \<open>wal_step\<close>. In \<open>Disk\<close> creating,
  renaming and removing a file is durable at once, so that the syncing of directories is a call
  that may fail, but what is on disk after a crash does not depend on it; what a crash may lose is data not yet synced.
  The decoder of the SDK (\<open>decodeTelemetryEnvelope\<close>) is not modelled.
\<close>

end
